(* ===== verification/Json.thy ===== *)
theory Json
  imports Prelude
begin

text \<open>
  The JSON values the program passes around (\<open>dict[str, Any]\<close>, \<open>list\<close>, \<open>str\<close>, \<open>bool\<close>, \<open>int\<close>,
  \<open>float\<close>, \<open>None\<close>), the rendering of \<^verbatim>\<open>json.dumps\<close>, RFC 6901 pointer tokens, and the record of
  library functions the program calls but does not contain (\<open>platform\<close>): the shortest
  representation of a float, SHA-256, Ed25519 and the JSON Schema validator.
\<close>

section \<open>Values\<close>

text \<open>
  A finite float is the rational it denotes (the sign of zero is not kept). \<open>JOther\<close> is a Python
  object that is none of the JSON types, such as the \<open>datetime.date\<close> a YAML document can contain.
\<close>

datatype pyfloat = Finite rat | Infinite bool | NotANumber

datatype json =
    JNull
  | JBool bool
  | JInt int
  | JFloat pyfloat
  | JStr string
  | JArr "json list"
  | JObj "(string \<times> json) list"
  | JOther string

fun is_obj :: "json \<Rightarrow> bool" where
  "is_obj (JObj kvs) = True"
| "is_obj _ = False"

fun is_arr :: "json \<Rightarrow> bool" where
  "is_arr (JArr xs) = True"
| "is_arr _ = False"

fun is_str :: "json \<Rightarrow> bool" where
  "is_str (JStr s) = True"
| "is_str _ = False"

fun is_bool :: "json \<Rightarrow> bool" where
  "is_bool (JBool b) = True"
| "is_bool _ = False"

fun obj_of :: "json \<Rightarrow> json dict" where
  "obj_of (JObj kvs) = kvs"
| "obj_of _ = []"

fun arr_of :: "json \<Rightarrow> json list" where
  "arr_of (JArr xs) = xs"
| "arr_of _ = []"

fun str_of :: "json \<Rightarrow> string" where
  "str_of (JStr s) = s"
| "str_of _ = []"

text \<open>\<open>d.get(k)\<close>: a missing key and an explicit null both give \<open>None\<close>.\<close>

definition jget :: "json dict \<Rightarrow> string \<Rightarrow> json" where
  "jget d k = (case dget d k of None \<Rightarrow> JNull | Some v \<Rightarrow> v)"

lemma is_obj_iff: "is_obj v \<longleftrightarrow> (\<exists>kvs. v = JObj kvs)"
  by (cases v) auto

lemma is_arr_iff: "is_arr v \<longleftrightarrow> (\<exists>xs. v = JArr xs)"
  by (cases v) auto

lemma is_str_iff: "is_str v \<longleftrightarrow> (\<exists>s. v = JStr s)"
  by (cases v) auto

lemma is_bool_iff: "is_bool v \<longleftrightarrow> (\<exists>b. v = JBool b)"
  by (cases v) auto

text \<open>Sizes of the parts, so that recursion through arrays and objects is seen to end.\<close>

lemma size_arr_elem [termination_simp]: "x \<in> set xs \<Longrightarrow> size x < size (JArr xs)"
  by (induction xs) auto

lemma size_obj_elem [termination_simp]: "(k, v) \<in> set kvs \<Longrightarrow> size v < size (JObj kvs)"
  by (induction kvs) auto

lemma size_obj_elem' [termination_simp]: "p \<in> set kvs \<Longrightarrow> size (snd p) < size (JObj kvs)"
  by (cases p) (simp only: snd_conv size_obj_elem)

lemma json_obj_induct [case_names Null Bool Int Float Str Arr Obj Other]:
  assumes "P JNull" "\<And>b. P (JBool b)" "\<And>i. P (JInt i)" "\<And>f. P (JFloat f)" "\<And>s. P (JStr s)"
    and "\<And>xs. (\<And>x. x \<in> set xs \<Longrightarrow> P x) \<Longrightarrow> P (JArr xs)"
    and "\<And>kvs. (\<And>k v. (k, v) \<in> set kvs \<Longrightarrow> P v) \<Longrightarrow> P (JObj kvs)"
    and "\<And>t. P (JOther t)"
  shows "P v"
proof (induction v rule: measure_induct_rule [of size])
  case (less v)
  show ?case
  proof (cases v)
    case (JArr xs)
    then show ?thesis using less size_arr_elem [of _ xs] assms(6) by blast
  next
    case (JObj kvs)
    then show ?thesis using less size_obj_elem [of _ _ kvs] assms(7) by blast
  qed (use assms in auto)
qed

section \<open>Numbers and Python equality\<close>

fun num_of :: "json \<Rightarrow> pyfloat option" where
  "num_of (JBool b) = Some (Finite (if b then 1 else 0))"
| "num_of (JInt i) = Some (Finite (of_int i))"
| "num_of (JFloat f) = Some f"
| "num_of _ = None"

text \<open>\<open>isinstance(v, (int, float))\<close> without and with the booleans excluded.\<close>

fun is_number :: "json \<Rightarrow> bool" where
  "is_number (JInt i) = True"
| "is_number (JFloat f) = True"
| "is_number _ = False"

definition float_eq :: "pyfloat \<Rightarrow> pyfloat \<Rightarrow> bool" where
  "float_eq x y \<longleftrightarrow> x = y \<and> x \<noteq> NotANumber"

text \<open>
  \<open>==\<close> on JSON values: numbers and booleans compare by value, dictionaries without regard to
  order.
\<close>

function py_eq :: "json \<Rightarrow> json \<Rightarrow> bool" where
  "py_eq a b =
     (case (num_of a, num_of b) of
        (Some x, Some y) \<Rightarrow> float_eq x y
      | _ \<Rightarrow>
        (case (a, b) of
           (JNull, JNull) \<Rightarrow> True
         | (JStr s, JStr t) \<Rightarrow> s = t
         | (JArr xs, JArr ys) \<Rightarrow>
             length xs = length ys \<and>
             list_all (\<lambda>i. py_eq (xs ! i) (ys ! i)) [0..<min (length xs) (length ys)]
         | (JObj d, JObj e) \<Rightarrow>
             length d = length e \<and>
             list_all (\<lambda>p. case dget e (fst p) of None \<Rightarrow> False | Some w \<Rightarrow> py_eq (snd p) w) d
         | (JOther s, JOther t) \<Rightarrow> s = t
         | _ \<Rightarrow> False))"
  by pat_completeness auto
termination
  by (relation "measure (\<lambda>(a, b). size a)") 
     (auto dest: size_obj_elem intro: size_arr_elem [OF nth_mem, simplified])

declare py_eq.simps [simp del]

definition py_in :: "json \<Rightarrow> json list \<Rightarrow> bool" where
  "py_in v xs \<longleftrightarrow> list_ex (py_eq v) xs"

section \<open>The library functions the program relies on\<close>

text \<open>
  \<open>sha256_hex\<close> is \<^verbatim>\<open>hashlib.sha256(b).hexdigest()\<close>; \<open>ed_sign seed msg\<close>, \<open>ed_public seed\<close> and
  \<open>ed_verify public msg sig\<close> are the raw Ed25519 operations of the \<open>cryptography\<close> package;
  \<open>schema_errors schema instance\<close> lists the errors of \<^verbatim>\<open>Draft202012Validator\<close> as
  (absolute path, keyword) pairs in sorted order; \<open>schema_valid\<close> is
  \<^verbatim>\<open>Draft202012Validator.check_schema\<close>; \<open>contract_errors name document\<close> validates against one of
  the packaged JSON Schemas; \<open>lax_bool\<close> and \<open>lax_int\<close> are pydantic's conversions to a boolean and
  to an integer, \<open>None\<close> where it rejects the value; \<open>json_loads\<close> is \<^verbatim>\<open>json.loads\<close> of UTF-8 bytes,
  \<open>None\<close> where the bytes are not UTF-8 or not JSON; \<open>utf8_replace\<close> is the decoder with replacement.
\<close>

record platform =
  float_repr :: "pyfloat \<Rightarrow> string"
  sha256_hex :: "string \<Rightarrow> string"
  ed_sign :: "string \<Rightarrow> string \<Rightarrow> string"
  ed_public :: "string \<Rightarrow> string"
  ed_verify :: "string \<Rightarrow> string \<Rightarrow> string \<Rightarrow> bool"
  schema_errors :: "json \<Rightarrow> json \<Rightarrow> (string list \<times> string) list"
  schema_valid :: "json \<Rightarrow> bool"
  contract_errors :: "string \<Rightarrow> json \<Rightarrow> (string list \<times> string) list"
  lax_bool :: "json \<Rightarrow> bool option"
  lax_int :: "json \<Rightarrow> int option"
  json_loads :: "string \<Rightarrow> json option"
  utf8_replace :: "string \<Rightarrow> string"

text \<open>What pydantic documents of a value that already has the declared type.\<close>

definition pydantic_exact :: "platform \<Rightarrow> bool" where
  "pydantic_exact P \<longleftrightarrow>
     (\<forall>b. lax_bool P (JBool b) = Some b) \<and> (\<forall>i. lax_int P (JInt i) = Some i)"

text \<open>
  A concrete instance for the examples that evaluate a theorem: a keyed copy of the message stands
  for a signature, every digest is the same, every document satisfies every schema, and the JSON reader
  knows the documents the examples read.
\<close>

definition sample_documents :: "(string \<times> json) list" where
  "sample_documents =
     [(''{}'', JObj []),
      (''{\"alg\":\"EdDSA\",\"kid\":\"k1\",\"typ\":\"JWT\"}'',
       JObj [(''alg'', JStr ''EdDSA''), (''kid'', JStr ''k1''), (''typ'', JStr ''JWT'')]),
      (''{\"aud\":\"runtime\",\"exp\":1300,\"iat\":1000,\"iss\":\"https://idp\",\"roles\":[\"support\"],\"sub\":\"ana\"}'',
       JObj [(''aud'', JStr ''runtime''), (''exp'', JInt 1300), (''iat'', JInt 1000),
             (''iss'', JStr ''https://idp''), (''roles'', JArr [JStr ''support'']), (''sub'', JStr ''ana'')])]"

definition sample_platform :: platform where
  "sample_platform =
     \<lparr>float_repr = (\<lambda>_. ''0.5''), sha256_hex = (\<lambda>s. replicate 64 CHR ''0''),
      ed_sign = (\<lambda>seed msg. take 64 (seed @ rev msg @ replicate 64 CHR ''0'')),
      ed_public = (\<lambda>seed. seed),
      ed_verify = (\<lambda>pub msg sig. sig = take 64 (pub @ rev msg @ replicate 64 CHR ''0'')),
      schema_errors = (\<lambda>_ _. []), schema_valid = (\<lambda>_. True), contract_errors = (\<lambda>_ _. []),
      lax_bool = (\<lambda>v. case v of JBool b \<Rightarrow> Some b | _ \<Rightarrow> None),
      lax_int = (\<lambda>v. case v of JInt i \<Rightarrow> Some i | _ \<Rightarrow> None),
      json_loads = map_of sample_documents, utf8_replace = (\<lambda>s. s)\<rparr>"

lemma sample_pydantic: "pydantic_exact sample_platform"
  by (simp add: pydantic_exact_def sample_platform_def)

section \<open>\<open>json.dumps\<close>\<close>

definition hex_digit :: "nat \<Rightarrow> char" where
  "hex_digit d = (if d < 10 then char_of (48 + d) else char_of (87 + d))"

text \<open>String escapes, with \<open>ensure_ascii\<close> as the first argument.\<close>

definition escape_char :: "bool \<Rightarrow> char \<Rightarrow> string" where
  "escape_char ascii c =
     (if c = CHR 0x22 then [CHR 0x5C, CHR 0x22]
      else if c = CHR 0x5C then [CHR 0x5C, CHR 0x5C]
      else if c = CHR 0x0A then [CHR 0x5C, CHR ''n'']
      else if c = CHR 0x0D then [CHR 0x5C, CHR ''r'']
      else if c = CHR 0x09 then [CHR 0x5C, CHR ''t'']
      else if c = CHR 0x0C then [CHR 0x5C, CHR ''f'']
      else if c = CHR 0x08 then [CHR 0x5C, CHR ''b'']
      else if code c < 32 \<or> ascii \<and> 127 < code c
      then CHR 0x5C # ''u00'' @ [hex_digit (code c div 16), hex_digit (code c mod 16)]
      else [c])"

definition str_lit :: "bool \<Rightarrow> string \<Rightarrow> string" where
  "str_lit ascii s = CHR 0x22 # concat (map (escape_char ascii) s) @ [CHR 0x22]"

fun float_text :: "platform \<Rightarrow> pyfloat \<Rightarrow> string" where
  "float_text P (Finite q) = float_repr P (Finite q)"
| "float_text P (Infinite neg) = (if neg then ''-Infinity'' else ''Infinity'')"
| "float_text P NotANumber = ''NaN''"

record dump_style =
  sort_keys :: bool
  ascii_only :: bool
  item_sep :: string
  key_sep :: string

definition order_items :: "dump_style \<Rightarrow> (string \<times> 'a) list \<Rightarrow> (string \<times> 'a) list" where
  "order_items S kvs = (if sort_keys S then sort_key fst kvs else kvs)"

fun dumps :: "platform \<Rightarrow> dump_style \<Rightarrow> json \<Rightarrow> string" where
  "dumps P S JNull = ''null''"
| "dumps P S (JBool b) = (if b then ''true'' else ''false'')"
| "dumps P S (JInt i) = string_of_int i"
| "dumps P S (JFloat f) = float_text P f"
| "dumps P S (JStr s) = str_lit (ascii_only S) s"
| "dumps P S (JArr xs) = ''['' @ join_with (item_sep S) (map (dumps P S) xs) @ '']''"
| "dumps P S (JObj kvs) =
     ''{'' @ join_with (item_sep S)
       (map (\<lambda>(k, t). str_lit (ascii_only S) k @ key_sep S @ t)
         (order_items S (map (\<lambda>p. (fst p, dumps P S (snd p))) kvs))) @ ''}''"
| "dumps P S (JOther t) = []"

section \<open>\<open>str\<close>, \<open>repr\<close> and truth of a value\<close>

text \<open>\<open>str.isprintable\<close> on one Latin-1 character, and the escapes of \<open>repr\<close> on a string.\<close>

definition is_printable :: "char \<Rightarrow> bool" where
  "is_printable c \<longleftrightarrow> 32 \<le> code c \<and> code c \<le> 126 \<or> 161 \<le> code c \<and> code c \<noteq> 173"

definition repr_char :: "char \<Rightarrow> char \<Rightarrow> string" where
  "repr_char q c =
     (if c = q \<or> c = CHR 0x5C then [CHR 0x5C, c]
      else if c = CHR 0x0A then [CHR 0x5C, CHR ''n'']
      else if c = CHR 0x0D then [CHR 0x5C, CHR ''r'']
      else if c = CHR 0x09 then [CHR 0x5C, CHR ''t'']
      else if is_printable c then [c]
      else [CHR 0x5C, CHR ''x'', hex_digit (code c div 16), hex_digit (code c mod 16)])"

definition repr_str :: "string \<Rightarrow> string" where
  "repr_str s =
     (let q = (if CHR 0x27 \<in> set s \<and> CHR 0x22 \<notin> set s then CHR 0x22 else CHR 0x27)
      in q # concat (map (repr_char q) s) @ [q])"

fun repr_float :: "platform \<Rightarrow> pyfloat \<Rightarrow> string" where
  "repr_float P (Finite q) = float_repr P (Finite q)"
| "repr_float P (Infinite neg) = (if neg then ''-inf'' else ''inf'')"
| "repr_float P NotANumber = ''nan''"

fun py_repr :: "platform \<Rightarrow> json \<Rightarrow> string" where
  "py_repr P JNull = ''None''"
| "py_repr P (JBool b) = (if b then ''True'' else ''False'')"
| "py_repr P (JInt i) = string_of_int i"
| "py_repr P (JFloat f) = repr_float P f"
| "py_repr P (JStr s) = repr_str s"
| "py_repr P (JArr xs) = ''['' @ join_with '', '' (map (py_repr P) xs) @ '']''"
| "py_repr P (JObj kvs) =
     ''{'' @ join_with '', '' (map (\<lambda>p. repr_str (fst p) @ '': '' @ py_repr P (snd p)) kvs) @ ''}''"
| "py_repr P (JOther t) = t"

fun py_str :: "platform \<Rightarrow> json \<Rightarrow> string" where
  "py_str P (JStr s) = s"
| "py_str P v = py_repr P v"

fun truthy :: "json \<Rightarrow> bool" where
  "truthy JNull = False"
| "truthy (JBool b) = b"
| "truthy (JInt i) = (i \<noteq> 0)"
| "truthy (JFloat f) = (f \<noteq> Finite 0)"
| "truthy (JStr s) = (s \<noteq> [])"
| "truthy (JArr xs) = (xs \<noteq> [])"
| "truthy (JObj kvs) = (kvs \<noteq> [])"
| "truthy (JOther t) = True"

text \<open>\<open>d.get(k, v)\<close>\<close>

definition get_or :: "json dict \<Rightarrow> string \<Rightarrow> json \<Rightarrow> json" where
  "get_or d k v = (case dget d k of None \<Rightarrow> v | Some w \<Rightarrow> w)"

text \<open>\<open>enumerate(xs)\<close>\<close>

definition indexed :: "'a list \<Rightarrow> (nat \<times> 'a) list" where
  "indexed xs = zip [0..<length xs] xs"

lemma indexed_elem: "(i, x) \<in> set (indexed xs) \<longleftrightarrow> i < length xs \<and> x = xs ! i"
  by (force simp: indexed_def set_zip)

section \<open>RFC 6901 pointer tokens\<close>

definition replace_char :: "char \<Rightarrow> string \<Rightarrow> string \<Rightarrow> string" where
  "replace_char c t s = concat (map (\<lambda>x. if x = c then t else [x]) s)"

definition encode_pointer_token :: "string \<Rightarrow> string" where
  "encode_pointer_token t = replace_char CHR ''/'' ''~1'' (replace_char CHR ''~'' ''~0'' t)"

definition decode_pointer_token :: "string \<Rightarrow> string" where
  "decode_pointer_token t = str_replace ''~0'' ''~'' (str_replace ''~1'' ''/'' t)"

definition pointer_of_path :: "string list \<Rightarrow> string" where
  "pointer_of_path path = concat (map (\<lambda>part. CHR ''/'' # encode_pointer_token part) path)"

text \<open>The characterwise form of the encoder.\<close>

definition pointer_escape :: "char \<Rightarrow> string" where
  "pointer_escape c = (if c = CHR ''~'' then ''~0'' else if c = CHR ''/'' then ''~1'' else [c])"

lemma replace_char_append: "replace_char c t (s @ u) = replace_char c t s @ replace_char c t u"
  by (simp add: replace_char_def)

lemma encode_pointer_token_map: "encode_pointer_token t = concat (map pointer_escape t)"
proof (induction t)
  case (Cons a t)
  have "encode_pointer_token (a # t) = encode_pointer_token [a] @ encode_pointer_token t"
    by (simp add: encode_pointer_token_def replace_char_def)
  moreover have "encode_pointer_token [a] = pointer_escape a"
    by (simp add: encode_pointer_token_def replace_char_def pointer_escape_def)
  ultimately show ?case using Cons.IH by simp
qed (simp add: encode_pointer_token_def replace_char_def)

lemma encode_no_slash: "CHR ''/'' \<notin> set (encode_pointer_token t)"
  by (auto simp: encode_pointer_token_map pointer_escape_def split: if_splits)

text \<open>After the first replacement of the decoder every \<open>~\<close> is still followed by \<open>0\<close>.\<close>

lemma decode_first_step:
  "str_replace ''~1'' ''/'' (concat (map pointer_escape t))
     = concat (map (\<lambda>c. if c = CHR ''~'' then ''~0'' else [c]) t)"
  by (induction t) (auto simp: pointer_escape_def)

lemma decode_second_step:
  "str_replace ''~0'' ''~'' (concat (map (\<lambda>c. if c = CHR ''~'' then ''~0'' else [c]) t)) = t"
  by (induction t) auto

lemma decode_encode_token: "decode_pointer_token (encode_pointer_token t) = t"
  by (simp add: decode_pointer_token_def encode_pointer_token_map decode_first_step
      decode_second_step)

end
