(* ===== verification/Errors.thy ===== *)
theory Errors
  imports Json
begin

text \<open>
  The failure vocabulary of \<^verbatim>\<open>packages/contracts/toollayer_contracts/errors.py\<close>: the error codes and
  their HTTP statuses, the error envelope, and the exceptions of the services as one datatype
  \<open>exn\<close>. Callers branch on codes and never on messages, so an exception keeps its class, code,
  pointer and details; its prose message is an argument of the rendering functions only.
\<close>

section \<open>Error codes\<close>

datatype error_code =
    INVALID_REQUEST | CONTRACT_VIOLATION | UNSUPPORTED_CONTRACT_VERSION
  | INVALID_SOURCE_DOCUMENT | UNSUPPORTED_SPEC_FEATURE | SOURCE_TOO_LARGE
  | NOT_FOUND | ALREADY_EXISTS | REVISION_CONFLICT | IMMUTABLE_VERSION
  | INVALID_LIFECYCLE_TRANSITION | NOT_READY_FOR_PUBLICATION
  | UNAUTHENTICATED | FORBIDDEN | ROLE_NOT_PERMITTED
  | SNAPSHOT_UNAVAILABLE | SNAPSHOT_INTEGRITY_FAILED | SNAPSHOT_SIGNATURE_INVALID
  | UNKNOWN_TOOL | ARGUMENT_VALIDATION_FAILED | NO_TOOL_SELECTED | CONFIRMATION_REQUIRED
  | DESTINATION_NOT_ALLOWED | METHOD_NOT_ALLOWED | PRIVATE_ADDRESS_BLOCKED
  | REDIRECT_NOT_ALLOWED | RESPONSE_TOO_LARGE | UPSTREAM_TIMEOUT | UPSTREAM_UNAVAILABLE
  | INTERNAL_ERROR

fun code_text :: "error_code \<Rightarrow> string" where
  "code_text INVALID_REQUEST = ''invalid_request''"
| "code_text CONTRACT_VIOLATION = ''contract_violation''"
| "code_text UNSUPPORTED_CONTRACT_VERSION = ''unsupported_contract_version''"
| "code_text INVALID_SOURCE_DOCUMENT = ''invalid_source_document''"
| "code_text UNSUPPORTED_SPEC_FEATURE = ''unsupported_spec_feature''"
| "code_text SOURCE_TOO_LARGE = ''source_too_large''"
| "code_text NOT_FOUND = ''not_found''"
| "code_text ALREADY_EXISTS = ''already_exists''"
| "code_text REVISION_CONFLICT = ''revision_conflict''"
| "code_text IMMUTABLE_VERSION = ''immutable_version''"
| "code_text INVALID_LIFECYCLE_TRANSITION = ''invalid_lifecycle_transition''"
| "code_text NOT_READY_FOR_PUBLICATION = ''not_ready_for_publication''"
| "code_text UNAUTHENTICATED = ''unauthenticated''"
| "code_text FORBIDDEN = ''forbidden''"
| "code_text ROLE_NOT_PERMITTED = ''role_not_permitted''"
| "code_text SNAPSHOT_UNAVAILABLE = ''snapshot_unavailable''"
| "code_text SNAPSHOT_INTEGRITY_FAILED = ''snapshot_integrity_failed''"
| "code_text SNAPSHOT_SIGNATURE_INVALID = ''snapshot_signature_invalid''"
| "code_text UNKNOWN_TOOL = ''unknown_tool''"
| "code_text ARGUMENT_VALIDATION_FAILED = ''argument_validation_failed''"
| "code_text NO_TOOL_SELECTED = ''no_tool_selected''"
| "code_text CONFIRMATION_REQUIRED = ''confirmation_required''"
| "code_text DESTINATION_NOT_ALLOWED = ''destination_not_allowed''"
| "code_text METHOD_NOT_ALLOWED = ''method_not_allowed''"
| "code_text PRIVATE_ADDRESS_BLOCKED = ''private_address_blocked''"
| "code_text REDIRECT_NOT_ALLOWED = ''redirect_not_allowed''"
| "code_text RESPONSE_TOO_LARGE = ''response_too_large''"
| "code_text UPSTREAM_TIMEOUT = ''upstream_timeout''"
| "code_text UPSTREAM_UNAVAILABLE = ''upstream_unavailable''"
| "code_text INTERNAL_ERROR = ''internal_error''"

definition status_by_code :: "(string \<times> nat) list" where
  "status_by_code = map (\<lambda>(c, n). (code_text c, n))
    [(INVALID_REQUEST, 400), (CONTRACT_VIOLATION, 422), (UNSUPPORTED_CONTRACT_VERSION, 409),
     (INVALID_SOURCE_DOCUMENT, 422), (UNSUPPORTED_SPEC_FEATURE, 422), (SOURCE_TOO_LARGE, 413),
     (NOT_FOUND, 404), (ALREADY_EXISTS, 409), (REVISION_CONFLICT, 409), (IMMUTABLE_VERSION, 409),
     (INVALID_LIFECYCLE_TRANSITION, 409), (NOT_READY_FOR_PUBLICATION, 422),
     (UNAUTHENTICATED, 401), (FORBIDDEN, 403), (ROLE_NOT_PERMITTED, 403),
     (SNAPSHOT_UNAVAILABLE, 503), (SNAPSHOT_INTEGRITY_FAILED, 502),
     (SNAPSHOT_SIGNATURE_INVALID, 502), (UNKNOWN_TOOL, 404), (ARGUMENT_VALIDATION_FAILED, 422),
     (NO_TOOL_SELECTED, 422), (CONFIRMATION_REQUIRED, 409), (DESTINATION_NOT_ALLOWED, 403),
     (METHOD_NOT_ALLOWED, 403), (PRIVATE_ADDRESS_BLOCKED, 403), (REDIRECT_NOT_ALLOWED, 502),
     (RESPONSE_TOO_LARGE, 502), (UPSTREAM_TIMEOUT, 504), (UPSTREAM_UNAVAILABLE, 502),
     (INTERNAL_ERROR, 500)]"

definition status_for :: "string \<Rightarrow> nat" where
  "status_for c = (case map_of status_by_code c of None \<Rightarrow> 500 | Some n \<Rightarrow> n)"

section \<open>Envelopes\<close>

record error_detail =
  detail_code :: string
  detail_message :: string
  detail_pointer :: "string option"
  detail_severity :: string

definition opt_str :: "string option \<Rightarrow> json" where
  "opt_str x = (case x of None \<Rightarrow> JNull | Some s \<Rightarrow> JStr s)"

definition detail_to_dict :: "error_detail \<Rightarrow> json" where
  "detail_to_dict d = JObj
     [(''code'', JStr (detail_code d)), (''message'', JStr (detail_message d)),
      (''pointer'', opt_str (detail_pointer d)), (''severity'', JStr (detail_severity d))]"

record error_envelope =
  env_code :: string
  env_message :: string
  env_pointer :: "string option"
  env_details :: "error_detail list"
  env_request_id :: "string option"

definition envelope_status :: "error_envelope \<Rightarrow> nat" where
  "envelope_status e = status_for (env_code e)"

definition envelope_to_dict :: "error_envelope \<Rightarrow> json" where
  "envelope_to_dict e =
     (let base = [(''code'', JStr (env_code e)), (''message'', JStr (env_message e))];
          with_ptr = (case env_pointer e of None \<Rightarrow> base
                      | Some p \<Rightarrow> base @ [(''pointer'', JStr p)]);
          with_det = (if env_details e \<noteq> []
                      then with_ptr @ [(''details'', JArr (map detail_to_dict (env_details e)))]
                      else with_ptr);
          with_req = (case env_request_id e of None \<Rightarrow> with_det
                      | Some r \<Rightarrow> with_det @ [(''request_id'', JStr r)])
      in JObj [(''error'', JObj with_req)])"

section \<open>Exceptions\<close>

text \<open>
  \<open>ToolLayerError\<close> stands for the class and all its subclasses (the code tells them apart);
  \<open>ConversionError\<close> likewise for the converter's errors, with its pointer and its message, which the
  diagnostics of an analysis keep. The other constructors are the
  \<open>ValueError\<close> subclasses the program catches by name, and the built-in exceptions an unguarded
  operation raises.
\<close>

datatype exn =
    ToolLayerError error_code "string option" "error_detail list"
  | NotReadyForPublication "string list"
  | ConversionError error_code string string
  | CanonicalJsonError
  | InvalidKeyMaterial
  | SignatureVerificationError
  | IncompatibleContractVersion
  | ToolPolicyError
  | ConfigurationError
  | PydanticError
  | ValueError
  | UnicodeError
  | TypeError
  | KeyError
  | IndexError
  | AssertionError
  | AttributeError
  | HttpError
  | HttpTimeout
  | IntegrityError
  | StaleDataError
  | StatementError
  | YamlError

fun is_tool_layer_error :: "exn \<Rightarrow> bool" where
  "is_tool_layer_error (ToolLayerError c p d) = True"
| "is_tool_layer_error (NotReadyForPublication is) = True"
| "is_tool_layer_error _ = False"

fun is_value_error :: "exn \<Rightarrow> bool" where
  "is_value_error (ConversionError c p m) = True"
| "is_value_error CanonicalJsonError = True"
| "is_value_error InvalidKeyMaterial = True"
| "is_value_error SignatureVerificationError = True"
| "is_value_error IncompatibleContractVersion = True"
| "is_value_error ToolPolicyError = True"
| "is_value_error ConfigurationError = True"
| "is_value_error PydanticError = True"
| "is_value_error ValueError = True"
| "is_value_error UnicodeError = True"
| "is_value_error _ = False"

type_synonym 'a res = "exn + 'a"

definition policy_denied :: "error_code \<Rightarrow> exn" where
  "policy_denied c = ToolLayerError c None []"

definition raise_at :: "error_code \<Rightarrow> string \<Rightarrow> exn" where
  "raise_at c p = ToolLayerError c (Some p) []"

text \<open>\<open>ToolLayerError.http_status\<close> and \<open>to_envelope\<close>; \<open>NotReadyForPublication\<close> is a subclass.\<close>

fun exn_code :: "exn \<Rightarrow> error_code option" where
  "exn_code (ToolLayerError c p d) = Some c"
| "exn_code (NotReadyForPublication is) = Some NOT_READY_FOR_PUBLICATION"
| "exn_code (ConversionError c p m) = Some c"
| "exn_code _ = None"

fun to_envelope :: "exn \<Rightarrow> string \<Rightarrow> string option \<Rightarrow> error_envelope option" where
  "to_envelope (ToolLayerError c p d) msg rid =
     Some \<lparr>env_code = code_text c, env_message = msg, env_pointer = p, env_details = d,
       env_request_id = rid\<rparr>"
| "to_envelope (NotReadyForPublication is) msg rid =
     Some \<lparr>env_code = code_text NOT_READY_FOR_PUBLICATION, env_message = msg, env_pointer = None,
       env_details = [], env_request_id = rid\<rparr>"
| "to_envelope _ msg rid = None"

definition error_response ::
  "string \<Rightarrow> string \<Rightarrow> string option \<Rightarrow> error_detail list \<Rightarrow> string option \<Rightarrow> nat \<times> json" where
  "error_response c msg p ds rid =
     (let e = \<lparr>env_code = c, env_message = msg, env_pointer = p, env_details = ds,
                env_request_id = rid\<rparr>
      in (envelope_status e, envelope_to_dict e))"

text \<open>\<open>try: m except <class>: raise e\<close>, for the exception classes selected by \<open>p\<close>.\<close>

fun catching :: "(exn \<Rightarrow> bool) \<Rightarrow> (exn \<Rightarrow> 'a res) \<Rightarrow> 'a res \<Rightarrow> 'a res" where
  "catching p h (Inl e) = (if p e then h e else Inl e)"
| "catching p h (Inr x) = Inr x"

lemma catching_Inr [res_simps]:
  "catching p h m = Inr y \<longleftrightarrow> m = Inr y \<or> (\<exists>e. m = Inl e \<and> p e \<and> h e = Inr y)"
  by (cases m) auto

lemma catching_Inl [res_simps]:
  "catching p h m = Inl e \<longleftrightarrow> (\<exists>e'. m = Inl e' \<and> (if p e' then h e' = Inl e else e' = e))"
  by (cases m) auto

section \<open>Properties of the code table\<close>

lemma status_for_code:
  "status_for (code_text c) \<in> {400, 401, 403, 404, 409, 413, 422, 500, 502, 503, 504}"
  by (cases c; simp add: status_for_def status_by_code_def)

lemma status_500_iff: "status_for (code_text c) = 500 \<longleftrightarrow> c = INTERNAL_ERROR"
  by (cases c; simp add: status_for_def status_by_code_def)

end
