(* ===== verification/Patterns.thy ===== *)
theory Patterns
  imports Prelude
begin

text \<open>
  The regular expressions of the program. Each pattern of the source is a term of type \<open>rx\<close>,
  matched by derivatives, so that a recogniser can be read next to the literal it models;
  \<open>rx_match_iff\<close> connects the matcher with the language, and the lemmas at the end state what the
  identifier patterns of \<^verbatim>\<open>toollayer_contracts/models.py\<close> accept.
\<close>

section \<open>Regular expressions and their matcher\<close>

datatype rx = Zero | One | Cls "char \<Rightarrow> bool" | Alt rx rx | Seq rx rx | Star rx

fun nullable :: "rx \<Rightarrow> bool" where
  "nullable Zero = False"
| "nullable One = True"
| "nullable (Cls p) = False"
| "nullable (Alt r s) = (nullable r \<or> nullable s)"
| "nullable (Seq r s) = (nullable r \<and> nullable s)"
| "nullable (Star r) = True"

fun mk_alt :: "rx \<Rightarrow> rx \<Rightarrow> rx" where
  "mk_alt Zero s = s"
| "mk_alt r Zero = r"
| "mk_alt r s = Alt r s"

fun mk_seq :: "rx \<Rightarrow> rx \<Rightarrow> rx" where
  "mk_seq Zero s = Zero"
| "mk_seq One s = s"
| "mk_seq r s = Seq r s"

fun rx_deriv :: "char \<Rightarrow> rx \<Rightarrow> rx" where
  "rx_deriv c Zero = Zero"
| "rx_deriv c One = Zero"
| "rx_deriv c (Cls p) = (if p c then One else Zero)"
| "rx_deriv c (Alt r s) = mk_alt (rx_deriv c r) (rx_deriv c s)"
| "rx_deriv c (Seq r s) =
     (if nullable r then mk_alt (mk_seq (rx_deriv c r) s) (rx_deriv c s)
      else mk_seq (rx_deriv c r) s)"
| "rx_deriv c (Star r) = mk_seq (rx_deriv c r) (Star r)"

fun rx_match :: "rx \<Rightarrow> string \<Rightarrow> bool" where
  "rx_match r [] = nullable r"
| "rx_match r (c # s) = rx_match (rx_deriv c r) s"

text \<open>
  \<open>re.match\<close> with a pattern that ends in \<open>$\<close> also accepts one trailing line feed; \<open>re.fullmatch\<close>
  and the patterns of pydantic fields do not.
\<close>

definition rx_match_dollar :: "rx \<Rightarrow> string \<Rightarrow> bool" where
  "rx_match_dollar r s \<longleftrightarrow>
     rx_match r s \<or> (s \<noteq> [] \<and> last s = newline \<and> rx_match r (butlast s))"

inductive in_rx :: "rx \<Rightarrow> string \<Rightarrow> bool" where
  in_One: "in_rx One []"
| in_Cls: "p c \<Longrightarrow> in_rx (Cls p) [c]"
| in_Alt1: "in_rx r x \<Longrightarrow> in_rx (Alt r s) x"
| in_Alt2: "in_rx s x \<Longrightarrow> in_rx (Alt r s) x"
| in_Seq: "in_rx r x \<Longrightarrow> in_rx s y \<Longrightarrow> in_rx (Seq r s) (x @ y)"
| in_Star_Nil: "in_rx (Star r) []"
| in_Star: "in_rx r x \<Longrightarrow> in_rx (Star r) y \<Longrightarrow> in_rx (Star r) (x @ y)"

inductive_simps in_Zero_iff [simp]: "in_rx Zero x"
inductive_simps in_One_iff [simp]: "in_rx One x"
inductive_simps in_Cls_iff [simp]: "in_rx (Cls p) x"
inductive_simps in_Alt_iff [simp]: "in_rx (Alt r s) x"
inductive_simps in_Seq_iff: "in_rx (Seq r s) x"

lemma nullable_iff: "nullable r \<longleftrightarrow> in_rx r []"
  by (induction r) (auto simp: in_Seq_iff intro: in_rx.intros)

lemma in_mk_alt [simp]: "in_rx (mk_alt r s) x \<longleftrightarrow> in_rx r x \<or> in_rx s x"
  by (induction r s rule: mk_alt.induct) auto

lemma in_mk_seq [simp]: "in_rx (mk_seq r s) x \<longleftrightarrow> in_rx (Seq r s) x"
  by (induction r s rule: mk_seq.induct) (auto simp: in_Seq_iff)

lemma in_Star_Cons:
  assumes "in_rx (Star r) (c # x)"
  shows "\<exists>u v. x = u @ v \<and> in_rx r (c # u) \<and> in_rx (Star r) v"
proof -
  have "in_rx q w \<Longrightarrow> q = Star r \<Longrightarrow> w = c # x \<Longrightarrow>
      \<exists>u v. x = u @ v \<and> in_rx r (c # u) \<and> in_rx (Star r) v" for q w
  proof (induction rule: in_rx.induct)
    case (in_Star r' a b)
    then show ?case by (cases a) auto
  qed auto
  with assms show ?thesis by blast
qed

lemma in_deriv: "in_rx (rx_deriv c r) x \<longleftrightarrow> in_rx r (c # x)"
proof (induction r arbitrary: x)
  case (Seq r s)
  show ?case
    by (auto simp: in_Seq_iff nullable_iff Seq.IH Cons_eq_append_conv)
next
  case (Star r)
  have "in_rx (Seq (rx_deriv c r) (Star r)) x \<longleftrightarrow> in_rx (Star r) (c # x)"
    using in_Star_Cons [of r c x] in_rx.in_Star [of r "c # _"]
    by (fastforce simp: in_Seq_iff Star.IH)
  then show ?case by simp
qed auto

lemma rx_match_iff: "rx_match r s \<longleftrightarrow> in_rx r s"
  by (induction s arbitrary: r) (auto simp: nullable_iff in_deriv)

lemma in_Star_Cls_iff: "in_rx (Star (Cls p)) s \<longleftrightarrow> (\<forall>c\<in>set s. p c)"
proof (induction s)
  case Nil
  show ?case by (simp add: in_Star_Nil)
next
  case (Cons a s)
  have "in_rx (Star (Cls p)) (a # s) \<longleftrightarrow> p a \<and> in_rx (Star (Cls p)) s"
    using in_Star_Cons [of "Cls p" a s] in_rx.in_Star [of "Cls p" "[a]" s]
    by (auto simp: in_Cls)
  with Cons.IH show ?case by simp
qed

lemma in_Seq_Cls_iff: "in_rx (Seq (Cls p) r) s \<longleftrightarrow> (\<exists>c t. s = c # t \<and> p c \<and> in_rx r t)"
proof
  assume "in_rx (Seq (Cls p) r) s"
  then show "\<exists>c t. s = c # t \<and> p c \<and> in_rx r t" by (auto simp: in_Seq_iff)
next
  assume "\<exists>c t. s = c # t \<and> p c \<and> in_rx r t"
  then obtain c t where "s = [c] @ t" "p c" "in_rx r t" by auto
  then show "in_rx (Seq (Cls p) r) s" by (simp only: in_rx.in_Seq in_rx.in_Cls)
qed

section \<open>The patterns\<close>

definition rx_lit :: "string \<Rightarrow> rx" where
  "rx_lit s = foldr (\<lambda>c. Seq (Cls (\<lambda>x. x = c))) s One"

definition rx_plus :: "rx \<Rightarrow> rx" where
  "rx_plus r = Seq r (Star r)"

definition is_lower_or_digit :: "char \<Rightarrow> bool" where
  "is_lower_or_digit c \<longleftrightarrow> is_lower c \<or> is_digit c"

definition is_hex_lower :: "char \<Rightarrow> bool" where
  "is_hex_lower c \<longleftrightarrow> is_digit c \<or> 97 \<le> code c \<and> code c \<le> 102"

definition is_b64u :: "char \<Rightarrow> bool" where
  "is_b64u c \<longleftrightarrow> is_alnum c \<or> c = CHR ''_'' \<or> c = CHR ''-''"

text \<open>\<open>KEY_PATTERN\<close>: \<^verbatim>\<open>^[a-z][a-z0-9]*(?:-[a-z0-9]+)*$\<close>\<close>

definition KEY_PATTERN :: rx where
  "KEY_PATTERN =
     Seq (Cls is_lower)
       (Seq (Star (Cls is_lower_or_digit))
         (Star (Seq (Cls (\<lambda>c. c = CHR ''-'')) (rx_plus (Cls is_lower_or_digit)))))"

text \<open>\<open>TOOL_NAME_PATTERN\<close>: \<^verbatim>\<open>^[a-z][a-z0-9_]*$\<close>\<close>

definition TOOL_NAME_PATTERN :: rx where
  "TOOL_NAME_PATTERN = Seq (Cls is_lower) (Star (Cls (\<lambda>c. is_lower_or_digit c \<or> c = CHR ''_'')))"

text \<open>\<open>JSON_POINTER_PATTERN\<close>: \<^verbatim>\<open>^(?:/(?:[^~/]|~[01])*)*$\<close>\<close>

definition JSON_POINTER_PATTERN :: rx where
  "JSON_POINTER_PATTERN =
     Star (Seq (Cls (\<lambda>c. c = CHR ''/''))
       (Star (Alt (Cls (\<lambda>c. c \<noteq> CHR ''~'' \<and> c \<noteq> CHR ''/''))
         (Seq (Cls (\<lambda>c. c = CHR ''~'')) (Cls (\<lambda>c. c = CHR ''0'' \<or> c = CHR ''1''))))))"

text \<open>\<open>SEMVER_PATTERN\<close>, \<open>DIGEST_PATTERN\<close> and the patterns of single fields.\<close>

definition is_pre_char :: "char \<Rightarrow> bool" where
  "is_pre_char c \<longleftrightarrow> is_alnum c \<or> c = CHR ''-''"

definition NUMERIC :: rx where
  "NUMERIC =
     Alt (Cls (\<lambda>c. c = CHR ''0''))
       (Seq (Cls (\<lambda>c. is_digit c \<and> c \<noteq> CHR ''0'')) (Star (Cls is_digit)))"

definition PRERELEASE :: rx where
  "PRERELEASE =
     Seq (rx_plus (Cls is_pre_char))
       (Star (Seq (Cls (\<lambda>c. c = CHR ''.'')) (rx_plus (Cls is_pre_char))))"

definition SEMVER_PATTERN :: rx where
  "SEMVER_PATTERN =
     Seq NUMERIC (Seq (Cls (\<lambda>c. c = CHR ''.'')) (Seq NUMERIC (Seq (Cls (\<lambda>c. c = CHR ''.''))
       (Seq NUMERIC (Alt One (Seq (Cls (\<lambda>c. c = CHR ''-'')) PRERELEASE))))))"

fun rx_repeat :: "nat \<Rightarrow> rx \<Rightarrow> rx" where
  "rx_repeat 0 r = One"
| "rx_repeat (Suc n) r = Seq r (rx_repeat n r)"

definition DIGEST_PATTERN :: rx where
  "DIGEST_PATTERN = Seq (rx_lit ''sha256:'') (rx_repeat 64 (Cls is_hex_lower))"

definition SNAPSHOT_ID_PATTERN :: rx where
  "SNAPSHOT_ID_PATTERN = Seq (rx_lit ''snap_'') (rx_repeat 32 (Cls is_hex_lower))"

definition is_key_id_char :: "char \<Rightarrow> bool" where
  "is_key_id_char c \<longleftrightarrow>
     is_lower_or_digit c \<or> c = CHR ''.'' \<or> c = CHR ''_'' \<or> c = CHR ''-''"

text \<open>\<^verbatim>\<open>^[a-z0-9][a-z0-9._-]{0,62}[a-z0-9]$\<close>\<close>

definition key_id_ok :: "string \<Rightarrow> bool" where
  "key_id_ok s \<longleftrightarrow>
     2 \<le> length s \<and> length s \<le> 64 \<and> is_lower_or_digit (hd s) \<and> is_lower_or_digit (last s) \<and>
     list_all is_key_id_char s"

text \<open>\<^verbatim>\<open>^[A-Za-z0-9_-]{86}$\<close>\<close>

definition signature_value_ok :: "string \<Rightarrow> bool" where
  "signature_value_ok s \<longleftrightarrow> length s = 86 \<and> list_all is_b64u s"

text \<open>\<open>path_template\<close>: \<^verbatim>\<open>^/(?:[^/?#\s][^?#\s]*)?$\<close>, where \<^verbatim>\<open>\s\<close> is the Unicode property.\<close>

definition is_white_space :: "char \<Rightarrow> bool" where
  "is_white_space c \<longleftrightarrow>
     9 \<le> code c \<and> code c \<le> 13 \<or> code c = 32 \<or> code c = 133 \<or> code c = 160"

definition PATH_TEMPLATE_PATTERN :: rx where
  "PATH_TEMPLATE_PATTERN =
     Seq (Cls (\<lambda>c. c = CHR ''/''))
       (Alt One
         (Seq (Cls (\<lambda>c. c \<noteq> CHR ''/'' \<and> c \<noteq> CHR ''?'' \<and> c \<noteq> CHR ''#'' \<and> \<not> is_white_space c))
           (Star (Cls (\<lambda>c. c \<noteq> CHR ''?'' \<and> c \<noteq> CHR ''#'' \<and> \<not> is_white_space c)))))"

lemma TOOL_NAME_match:
  "rx_match TOOL_NAME_PATTERN s \<longleftrightarrow>
     (\<exists>c t. s = c # t \<and> is_lower c \<and> (\<forall>x\<in>set t. is_lower_or_digit x \<or> x = CHR ''_''))"
  by (auto simp: rx_match_iff TOOL_NAME_PATTERN_def in_Seq_Cls_iff in_Star_Cls_iff)

lemma PATH_TEMPLATE_match:
  assumes "rx_match PATH_TEMPLATE_PATTERN s"
  shows "starts_with ''/'' s" and "\<forall>x\<in>set s. x \<noteq> CHR ''?'' \<and> x \<noteq> CHR ''#''"
proof -
  define ok where "ok = (\<lambda>x. x \<noteq> CHR ''?'' \<and> x \<noteq> CHR ''#'')"
  have "in_rx PATH_TEMPLATE_PATTERN s" using assms by (simp only: rx_match_iff)
  then obtain c t where s: "s = c # t" and c: "c = CHR ''/''"
    and t: "t = [] \<or> (\<exists>d u. t = d # u \<and> (d \<noteq> CHR ''/'' \<and> d \<noteq> CHR ''?'' \<and> d \<noteq> CHR ''#'' \<and> \<not> is_white_space d)
        \<and> (\<forall>x\<in>set u. x \<noteq> CHR ''?'' \<and> x \<noteq> CHR ''#'' \<and> \<not> is_white_space x))"
    unfolding PATH_TEMPLATE_PATTERN_def in_Seq_Cls_iff in_Alt_iff in_One_iff in_Star_Cls_iff
    by (elim exE conjE) (rule that)
  from t have "\<forall>x\<in>set t. ok x" unfolding ok_def by (elim disjE exE conjE) simp_all
  moreover have "ok c" unfolding ok_def c by simp
  ultimately show "\<forall>x\<in>set s. x \<noteq> CHR ''?'' \<and> x \<noteq> CHR ''#''"
    unfolding s ok_def [symmetric] by simp
  show "starts_with ''/'' s" unfolding s c by simp
qed

end
