(* ===== verification/Net.thy ===== *)
theory Net
  imports Errors Patterns "HOL-Library.Word"
begin

text \<open>
  The parts of the Python standard library that decide where a request goes: \<^verbatim>\<open>urllib.parse.urlsplit\<close>
  with the \<open>hostname\<close>, \<open>port\<close>, \<open>username\<close> and \<open>password\<close> properties of its result, and
  \<^verbatim>\<open>ipaddress.ip_address\<close> with the classification properties of addresses (Python 3.11). Addresses
  are words of their width.
\<close>

section \<open>\<open>ipaddress\<close>\<close>

datatype ip_addr = V4 "32 word" | V6 "128 word" "string option"

definition parse_octet :: "string \<Rightarrow> nat option" where
  "parse_octet s =
     (if s = [] \<or> \<not> list_all is_digit s \<or> 3 < length s \<or> s \<noteq> ''0'' \<and> hd s = CHR ''0''
         \<or> 255 < nat_of_digits s
      then None else Some (nat_of_digits s))"

fun all_some :: "'a option list \<Rightarrow> 'a list option" where
  "all_some [] = Some []"
| "all_some (None # xs) = None"
| "all_some (Some x # xs) = map_option (Cons x) (all_some xs)"

definition parse_v4 :: "string \<Rightarrow> 32 word option" where
  "parse_v4 s =
     (let octets = split_on CHR ''.'' s in
      if length octets \<noteq> 4 then None
      else map_option (\<lambda>ns. word_of_nat (foldl (\<lambda>n d. 256 * n + d) 0 ns))
             (all_some (map parse_octet octets)))"

definition is_hex :: "char \<Rightarrow> bool" where
  "is_hex c \<longleftrightarrow> is_digit c \<or> 65 \<le> code c \<and> code c \<le> 70 \<or> 97 \<le> code c \<and> code c \<le> 102"

definition hex_value :: "char \<Rightarrow> nat" where
  "hex_value c =
     (if is_digit c then code c - 48 else if code c \<le> 70 then code c - 55 else code c - 87)"

definition parse_hextet :: "string \<Rightarrow> nat option" where
  "parse_hextet s =
     (if s = [] \<or> \<not> list_all is_hex s \<or> 4 < length s then None
      else Some (foldl (\<lambda>n c. 16 * n + hex_value c) 0 s))"

text \<open>\<open>'%x' % n\<close>\<close>

fun hex_of_nat :: "nat \<Rightarrow> string" where
  "hex_of_nat n =
     (if n < 16 then [hex_digit n] else hex_of_nat (n div 16) @ [hex_digit (n mod 16)])"

declare hex_of_nat.simps [simp del]

definition v6_int :: "string list \<Rightarrow> string list \<Rightarrow> nat \<Rightarrow> 128 word option" where
  "v6_int hi lo skipped =
     (case (all_some (map parse_hextet hi), all_some (map parse_hextet lo)) of
        (Some h, Some l) \<Rightarrow>
          Some (word_of_nat (foldl (\<lambda>n d. 65536 * n + d) 0 (h @ replicate skipped 0 @ l)))
      | _ \<Rightarrow> None)"

definition v6_of_parts :: "string list \<Rightarrow> 128 word option" where
  "v6_of_parts parts =
     (let n = length parts;
          skips = filter (\<lambda>i. parts ! i = []) [1..<n - 1]
      in
      if 9 < n \<or> 1 < length skips then None
      else if skips \<noteq> [] then
        (let k = hd skips;
             lead = (parts ! 0 = []);
             trail = (last parts = []);
             hi = (if lead then k - 1 else k);
             lo = (if trail then n - k - 2 else n - k - 1)
         in
         if lead \<and> hi \<noteq> 0 \<or> trail \<and> lo \<noteq> 0 \<or> 8 < hi + lo + 1 then None
         else v6_int (take hi parts) (if lo = 0 then [] else drop (n - lo) parts) (8 - (hi + lo)))
      else if n \<noteq> 8 \<or> parts ! 0 = [] \<or> last parts = [] then None
      else v6_int parts [] 0)"

definition parse_v6_int :: "string \<Rightarrow> 128 word option" where
  "parse_v6_int s =
     (let parts = split_on CHR '':'' s in
      if length parts < 3 then None
      else if CHR ''.'' \<in> set (last parts) then
        (case parse_v4 (last parts) of
           None \<Rightarrow> None
         | Some a \<Rightarrow> v6_of_parts (butlast parts @
               [hex_of_nat (unat a div 65536), hex_of_nat (unat a mod 65536)]))
      else v6_of_parts parts)"

definition parse_v6 :: "string \<Rightarrow> ip_addr option" where
  "parse_v6 s =
     (let (addr, sep, scope) = partition_on CHR ''%'' s in
      if CHR ''/'' \<in> set s then None
      else if \<not> sep then map_option (\<lambda>a. V6 a None) (parse_v6_int addr)
      else if scope = [] \<or> CHR ''%'' \<in> set scope then None
      else map_option (\<lambda>a. V6 a (Some scope)) (parse_v6_int addr))"

text \<open>\<open>ip_address(s)\<close>; \<open>None\<close> is the \<open>ValueError\<close>.\<close>

definition ip_address :: "string \<Rightarrow> ip_addr option" where
  "ip_address s = (case parse_v4 s of Some a \<Rightarrow> Some (V4 a) | None \<Rightarrow> parse_v6 s)"

text \<open>\<open>str(address)\<close>\<close>

definition v4_text :: "32 word \<Rightarrow> string" where
  "v4_text a =
     (let n = unat a in
      join_with ''.'' (map string_of_nat
        [n div 16777216, n div 65536 mod 256, n div 256 mod 256, n mod 256]))"

text \<open>The first longest run of zero hextets: (start, length).\<close>

fun zero_run :: "nat \<Rightarrow> nat \<times> nat \<Rightarrow> nat \<times> nat \<Rightarrow> nat list \<Rightarrow> nat \<times> nat" where
  "zero_run i cur best [] = best"
| "zero_run i (st, len) best (h # hs) =
     (if h = 0 then
        (let cur = (if len = 0 then i else st, len + 1) in
         zero_run (i + 1) cur (if snd best < snd cur then cur else best) hs)
      else zero_run (i + 1) (0, 0) best hs)"

definition v6_text :: "128 word \<Rightarrow> string" where
  "v6_text a =
     (let hs = map (\<lambda>i. unat a div 65536 ^ (7 - i) mod 65536) [0..<8];
          (st, len) = zero_run 0 (0, 0) (0, 0) hs;
          ts = map hex_of_nat hs
      in if 1 < len
         then join_with '':'' ((if st = 0 then [[]] else []) @ take st ts @ [[]] @ drop (st + len) ts
                @ (if st + len = 8 then [[]] else []))
         else join_with '':'' ts)"

fun ip_text :: "ip_addr \<Rightarrow> string" where
  "ip_text (V4 a) = v4_text a"
| "ip_text (V6 a z) = (case z of None \<Rightarrow> v6_text a | Some s \<Rightarrow> v6_text a @ ''%'' @ s)"

text \<open>Membership in the network \<open>base/len\<close>: the leading bits agree.\<close>

definition in_net :: "'a::len word \<Rightarrow> 'a word \<times> nat \<Rightarrow> bool" where
  "in_net a net \<longleftrightarrow>
     drop_bit (LENGTH('a) - snd net) a = drop_bit (LENGTH('a) - snd net) (fst net)"

definition v4_private_networks :: "(32 word \<times> nat) list" where
  "v4_private_networks =
     [(0x00000000, 8), (0x0A000000, 8), (0x7F000000, 8), (0xA9FE0000, 16), (0xAC100000, 12),
      (0xC0000000, 24), (0xC00000AA, 31), (0xC0000200, 24), (0xC0A80000, 16), (0xC6120000, 15),
      (0xC6336400, 24), (0xCB007100, 24), (0xF0000000, 4), (0xFFFFFFFF, 32)]"

definition v4_private_exceptions :: "(32 word \<times> nat) list" where
  "v4_private_exceptions = [(0xC0000009, 32), (0xC000000A, 32)]"

definition v6_private_networks :: "(128 word \<times> nat) list" where
  "v6_private_networks =
     [(1, 128), (0, 128), (0xFFFF00000000, 96),
      (0x0064FF9B000100000000000000000000, 48), (0x01000000000000000000000000000000, 64),
      (0x20010000000000000000000000000000, 23), (0x20010DB8000000000000000000000000, 32),
      (0x20020000000000000000000000000000, 16), (0xFC000000000000000000000000000000, 7),
      (0xFE800000000000000000000000000000, 10)]"

definition v6_private_exceptions :: "(128 word \<times> nat) list" where
  "v6_private_exceptions =
     [(0x20010001000000000000000000000001, 128), (0x20010001000000000000000000000002, 128),
      (0x20010003000000000000000000000000, 32), (0x20010004011200000000000000000000, 48),
      (0x20010020000000000000000000000000, 28), (0x20010030000000000000000000000000, 28)]"

definition v6_reserved_networks :: "(128 word \<times> nat) list" where
  "v6_reserved_networks =
     [(0, 8), (0x01000000000000000000000000000000, 8), (0x02000000000000000000000000000000, 7),
      (0x04000000000000000000000000000000, 6), (0x08000000000000000000000000000000, 5),
      (0x10000000000000000000000000000000, 4), (0x40000000000000000000000000000000, 3),
      (0x60000000000000000000000000000000, 3), (0x80000000000000000000000000000000, 3),
      (0xA0000000000000000000000000000000, 3), (0xC0000000000000000000000000000000, 3),
      (0xE0000000000000000000000000000000, 4), (0xF0000000000000000000000000000000, 5),
      (0xF8000000000000000000000000000000, 6), (0xFE000000000000000000000000000000, 9)]"

fun is_loopback :: "ip_addr \<Rightarrow> bool" where
  "is_loopback (V4 a) = in_net a (0x7F000000, 8)"
| "is_loopback (V6 a z) = (a = 1)"

fun is_multicast :: "ip_addr \<Rightarrow> bool" where
  "is_multicast (V4 a) = in_net a (0xE0000000, 4)"
| "is_multicast (V6 a z) = in_net a (0xFF000000000000000000000000000000, 8)"

fun is_reserved :: "ip_addr \<Rightarrow> bool" where
  "is_reserved (V4 a) = in_net a (0xF0000000, 4)"
| "is_reserved (V6 a z) = list_ex (in_net a) v6_reserved_networks"

fun is_unspecified :: "ip_addr \<Rightarrow> bool" where
  "is_unspecified (V4 a) = (a = 0)"
| "is_unspecified (V6 a z) = (a = 0)"

fun is_link_local :: "ip_addr \<Rightarrow> bool" where
  "is_link_local (V4 a) = in_net a (0xA9FE0000, 16)"
| "is_link_local (V6 a z) = in_net a (0xFE800000000000000000000000000000, 10)"

fun ipv4_mapped :: "ip_addr \<Rightarrow> 32 word option" where
  "ipv4_mapped (V4 a) = None"
| "ipv4_mapped (V6 a z) = (if drop_bit 32 a = 0xFFFF then Some (ucast a) else None)"

definition v4_is_private :: "32 word \<Rightarrow> bool" where
  "v4_is_private a \<longleftrightarrow>
     list_ex (in_net a) v4_private_networks \<and> \<not> list_ex (in_net a) v4_private_exceptions"

fun is_private :: "ip_addr \<Rightarrow> bool" where
  "is_private (V4 a) = v4_is_private a"
| "is_private (V6 a z) =
     (case ipv4_mapped (V6 a z) of
        Some b \<Rightarrow> v4_is_private b
      | None \<Rightarrow> list_ex (in_net a) v6_private_networks
               \<and> \<not> list_ex (in_net a) v6_private_exceptions)"

fun is_global :: "ip_addr \<Rightarrow> bool" where
  "is_global (V4 a) = (\<not> in_net a (0x64400000, 10) \<and> \<not> v4_is_private a)"
| "is_global (V6 a z) = (\<not> is_private (V6 a z))"

section \<open>\<open>urlsplit\<close>\<close>

record split_result =
  url_scheme :: string
  url_netloc :: string
  url_path :: string
  url_query :: string
  url_fragment :: string

definition is_c0_or_space :: "char \<Rightarrow> bool" where
  "is_c0_or_space c \<longleftrightarrow> code c \<le> 32"

definition is_scheme_char :: "char \<Rightarrow> bool" where
  "is_scheme_char c \<longleftrightarrow> is_alnum c \<or> c = CHR ''+'' \<or> c = CHR ''-'' \<or> c = CHR ''.''"

definition unsafe_removed :: "string \<Rightarrow> string" where
  "unsafe_removed s = filter (\<lambda>c. code c \<noteq> 9 \<and> code c \<noteq> 10 \<and> code c \<noteq> 13) s"

definition split_scheme :: "string \<Rightarrow> string \<times> string" where
  "split_scheme url =
     (let (pre, found, rest) = partition_on CHR '':'' url in
      if found \<and> pre \<noteq> [] \<and> is_alpha (hd pre) \<and> list_all is_scheme_char pre
      then (str_lower pre, rest) else ([], url))"

definition ends_netloc :: "char \<Rightarrow> bool" where
  "ends_netloc c \<longleftrightarrow> c = CHR ''/'' \<or> c = CHR ''?'' \<or> c = CHR ''#''"

definition split_netloc :: "string \<Rightarrow> string \<times> string" where
  "split_netloc url =
     (if starts_with ''//'' url
      then (takeWhile (\<lambda>c. \<not> ends_netloc c) (drop 2 url),
            dropWhile (\<lambda>c. \<not> ends_netloc c) (drop 2 url))
      else ([], url))"

definition IPVFUTURE :: rx where
  "IPVFUTURE =
     Seq (Cls (\<lambda>c. c = CHR ''v'')) (Seq (rx_plus (Cls is_hex))
       (Seq (Cls (\<lambda>c. c = CHR ''.'')) (rx_plus (Cls (\<lambda>c. c \<noteq> newline)))))"

definition bracketed_host_ok :: "string \<Rightarrow> bool" where
  "bracketed_host_ok h =
     (if starts_with ''v'' h then rx_match IPVFUTURE h
      else (case ip_address h of Some (V6 a z) \<Rightarrow> True | _ \<Rightarrow> False))"

definition netloc_ok :: "string \<Rightarrow> bool" where
  "netloc_ok n =
     (if CHR ''['' \<in> set n \<and> CHR '']'' \<in> set n
      then bracketed_host_ok (fst (partition_on CHR '']'' (snd (snd (partition_on CHR ''['' n)))))
      else CHR ''['' \<notin> set n \<and> CHR '']'' \<notin> set n)"

definition urlsplit :: "string \<Rightarrow> split_result option" where
  "urlsplit u =
     (let url = unsafe_removed (lstrip_by is_c0_or_space u);
          (scheme, url1) = split_scheme url;
          (netloc, url2) = split_netloc url1;
          (url3, _, fragment) = partition_on CHR ''#'' url2;
          (path, _, query) = partition_on CHR ''?'' url3
      in if netloc_ok netloc
         then Some \<lparr>url_scheme = scheme, url_netloc = netloc, url_path = path, url_query = query,
                    url_fragment = fragment\<rparr>
         else None)"

definition rpartition_on :: "char \<Rightarrow> string \<Rightarrow> string \<times> bool \<times> string" where
  "rpartition_on c s =
     (if c \<in> set s
      then (rev (drop 1 (dropWhile (\<lambda>x. x \<noteq> c) (rev s))), True,
            rev (takeWhile (\<lambda>x. x \<noteq> c) (rev s)))
      else ([], False, s))"

definition hostinfo :: "string \<Rightarrow> string \<times> string" where
  "hostinfo netloc =
     (let (_, _, host) = rpartition_on CHR ''@'' netloc;
          (_, open_br, bracketed) = partition_on CHR ''['' host
      in if open_br
         then (let (hostname, _, port) = partition_on CHR '']'' bracketed
               in (hostname, snd (snd (partition_on CHR '':'' port))))
         else (let (hostname, _, port) = partition_on CHR '':'' host in (hostname, port)))"

text \<open>\<open>bool(parsed.username or parsed.password)\<close>\<close>

definition has_credentials :: "string \<Rightarrow> bool" where
  "has_credentials netloc =
     (let (userinfo, have, _) = rpartition_on CHR ''@'' netloc;
          (username, _, password) = partition_on CHR '':'' userinfo
      in have \<and> (username \<noteq> [] \<or> password \<noteq> []))"

text \<open>\<open>parsed.hostname\<close>; the empty string stands for \<open>None\<close>, which the program treats alike.\<close>

definition url_hostname :: "string \<Rightarrow> string" where
  "url_hostname netloc =
     (let (name, percent, zone) = partition_on CHR ''%'' (fst (hostinfo netloc))
      in str_lower name @ (if percent then CHR ''%'' # zone else []))"

text \<open>\<open>parsed.port\<close>: \<open>Inr None\<close> when absent, \<open>Inl\<close> when it is not a number up to 65535.\<close>

definition url_port :: "string \<Rightarrow> nat option res" where
  "url_port netloc =
     (let port = snd (hostinfo netloc) in
      if port = [] then Inr None
      else if \<not> list_all is_digit port then Inl ValueError
      else if 65535 < nat_of_digits port then Inl ValueError
      else Inr (Some (nat_of_digits port)))"

section \<open>Lemmas\<close>

lemma url_port_range: "url_port n = Inr (Some p) \<Longrightarrow> p \<le> 65535"
  by (auto simp: url_port_def Let_def split: if_splits)

lemma lower_char_absent:
  assumes "\<not> is_upper c" "code c < 192"
  shows "lower_char c = c"
  using assms by (simp add: lower_char_def)

text \<open>A mapped address is classified by the IPv4 address it carries.\<close>

lemma mapped_global: "ipv4_mapped a = Some b \<Longrightarrow> is_private a \<longleftrightarrow> v4_is_private b"
  by (cases a) auto

text \<open>The classes the policy distinguishes are disjoint where it matters.\<close>

lemma link_local_not_global: "is_link_local (V4 a) \<Longrightarrow> \<not> is_global (V4 a)"
proof -
  assume "is_link_local (V4 a)"
  then have "in_net a (0xA9FE0000, 16)" by simp
  then have "list_ex (in_net a) v4_private_networks" by (simp add: v4_private_networks_def)
  moreover have "\<not> list_ex (in_net a) v4_private_exceptions"
  proof
    assume "list_ex (in_net a) v4_private_exceptions"
    then have "a = 0xC0000009 \<or> a = 0xC000000A"
      by (auto simp: v4_private_exceptions_def in_net_def)
    then show False using \<open>in_net a (0xA9FE0000, 16)\<close> by (auto simp: in_net_def)
  qed
  ultimately show ?thesis by (simp add: v4_is_private_def)
qed

end
