(* ===== verification/Version.thy ===== *)
theory Version
  imports Errors Patterns
begin

text \<open>
  Contract and connector versions: \<^verbatim>\<open>packages/contracts/toollayer_contracts/version.py\<close>. A parsed
  version is linearly ordered by \<open>compare_precedence\<close>; the interface \<open>version_order\<close> is what the
  Control Plane's publication history relies on.
\<close>

section \<open>Parsing and rendering\<close>

datatype contract_version =
  ContractVersion (major: nat) (minor: nat) (patch: nat) (prerelease: "string option")

definition CONTRACT_VERSION :: string where
  "CONTRACT_VERSION = ''1.1.0''"

text \<open>\<^verbatim>\<open>0|[1-9][0-9]*\<close>: the value read and the rest of the string.\<close>

definition num_ident :: "string \<Rightarrow> (nat \<times> string) option" where
  "num_ident s =
     (let d = takeWhile is_digit s in
      if d = [] \<or> hd d = CHR ''0'' \<and> 1 < length d then None
      else Some (nat_of_digits d, dropWhile is_digit s))"

fun after_dot :: "string \<Rightarrow> (nat \<times> string) option" where
  "after_dot [] = None"
| "after_dot (c # s) = (if c = CHR ''.'' then num_ident s else None)"

fun pre_part :: "string \<Rightarrow> string option option" where
  "pre_part [] = Some None"
| "pre_part (c # s) = (if c = CHR ''-'' \<and> rx_match PRERELEASE s then Some (Some s) else None)"

definition semver :: "string \<Rightarrow> contract_version option" where
  "semver s =
     Option.bind (num_ident s) (\<lambda>(a, s1).
     Option.bind (after_dot s1) (\<lambda>(b, s2).
     Option.bind (after_dot s2) (\<lambda>(c, s3).
     Option.bind (pre_part s3) (\<lambda>p. Some (ContractVersion a b c p)))))"

text \<open>\<open>_SEMVER.match\<close>: the pattern ends in \<open>$\<close>, so one trailing line feed is accepted.\<close>

definition semver_match :: "string \<Rightarrow> contract_version option" where
  "semver_match s =
     (case semver s of
        Some v \<Rightarrow> Some v
      | None \<Rightarrow> if s \<noteq> [] \<and> last s = newline then semver (butlast s) else None)"

fun parse_version :: "json \<Rightarrow> contract_version res" where
  "parse_version (JStr s) =
     (case semver_match s of None \<Rightarrow> Inl IncompatibleContractVersion | Some v \<Rightarrow> Inr v)"
| "parse_version _ = Inl IncompatibleContractVersion"

definition version_str :: "contract_version \<Rightarrow> string" where
  "version_str v =
     (let base = string_of_nat (major v) @ ''.'' @ string_of_nat (minor v) @ ''.''
                   @ string_of_nat (patch v)
      in case prerelease v of None \<Rightarrow> base | Some p \<Rightarrow> if p = [] then base else base @ ''-'' @ p)"

section \<open>Compatibility and precedence\<close>

definition require_supported :: "json \<Rightarrow> contract_version res" where
  "require_supported value =
     rbind (parse_version value) (\<lambda>declared.
     rbind (parse_version (JStr CONTRACT_VERSION)) (\<lambda>supported.
       if major declared \<noteq> major supported then Inl IncompatibleContractVersion
       else if minor supported < minor declared then Inl IncompatibleContractVersion
       else Inr declared))"

definition is_supported :: "json \<Rightarrow> bool" where
  "is_supported value = is_ok (require_supported value)"

definition compare_precedence :: "contract_version \<Rightarrow> contract_version \<Rightarrow> int" where
  "compare_precedence l r =
     (if major l \<noteq> major r then (if major l < major r then -1 else 1)
      else if minor l \<noteq> minor r then (if minor l < minor r then -1 else 1)
      else if patch l \<noteq> patch r then (if patch l < patch r then -1 else 1)
      else if prerelease l = prerelease r then 0
      else case (prerelease l, prerelease r) of
             (None, _) \<Rightarrow> 1
           | (_, None) \<Rightarrow> -1
           | (Some p, Some q) \<Rightarrow> if p < q then -1 else 1)"

text \<open>
  \<open>a < b\<close> on the named tuples themselves, which is what \<open>max(..., key=parse_version)\<close> uses: the
  first differing components are compared, and \<open>None\<close> against a string raises \<open>TypeError\<close>.
\<close>

definition tuple_less :: "contract_version \<Rightarrow> contract_version \<Rightarrow> bool res" where
  "tuple_less l r =
     (if major l \<noteq> major r then Inr (major l < major r)
      else if minor l \<noteq> minor r then Inr (minor l < minor r)
      else if patch l \<noteq> patch r then Inr (patch l < patch r)
      else if prerelease l = prerelease r then Inr False
      else case (prerelease l, prerelease r) of
             (Some p, Some q) \<Rightarrow> Inr (p < q)
           | _ \<Rightarrow> Inl TypeError)"

section \<open>The precedence order\<close>

text \<open>A release follows all its prereleases: the order key of the fourth component.\<close>

definition pre_le :: "string option \<Rightarrow> string option \<Rightarrow> bool" where
  "pre_le p q = (case q of None \<Rightarrow> True | Some b \<Rightarrow> (case p of None \<Rightarrow> False | Some a \<Rightarrow> a \<le> b))"

lemma pre_le_linear: "pre_le p q \<or> pre_le q p"
  by (auto simp: pre_le_def split: option.splits)

lemma pre_le_antisym: "pre_le p q \<Longrightarrow> pre_le q p \<Longrightarrow> p = q"
  by (auto simp: pre_le_def split: option.splits)

lemma pre_le_trans: "pre_le p q \<Longrightarrow> pre_le q r \<Longrightarrow> pre_le p r"
  by (auto simp: pre_le_def split: option.splits)

lemma compare_le_iff:
  "compare_precedence l r \<le> 0 \<longleftrightarrow>
     major l < major r \<or> major l = major r \<and>
       (minor l < minor r \<or> minor l = minor r \<and>
         (patch l < patch r \<or> patch l = patch r \<and> pre_le (prerelease l) (prerelease r)))"
  by (auto simp: compare_precedence_def pre_le_def split: option.splits)

lemma compare_range: "compare_precedence l r \<in> {-1, 0, 1}"
  by (auto simp: compare_precedence_def split: option.splits)

lemma compare_zero_iff: "compare_precedence l r = 0 \<longleftrightarrow> l = r"
  by (cases l; cases r) (auto simp: compare_precedence_def split: option.splits)

lemma compare_swap: "compare_precedence r l = - compare_precedence l r"
  by (auto simp: compare_precedence_def split: option.splits)

instantiation contract_version :: linorder
begin

definition less_eq_contract_version :: "contract_version \<Rightarrow> contract_version \<Rightarrow> bool" where
  "less_eq_contract_version l r \<longleftrightarrow> compare_precedence l r \<le> 0"

definition less_contract_version :: "contract_version \<Rightarrow> contract_version \<Rightarrow> bool" where
  "less_contract_version l r \<longleftrightarrow> compare_precedence l r < 0"

instance
proof
  fix x y z :: contract_version
  show "x < y \<longleftrightarrow> x \<le> y \<and> \<not> y \<le> x"
    using compare_swap [of x y] by (auto simp: less_contract_version_def less_eq_contract_version_def)
  show "x \<le> x" by (simp add: less_eq_contract_version_def compare_zero_iff [THEN iffD2])
  show "x \<le> z" if "x \<le> y" and "y \<le> z"
    using that by (auto simp: less_eq_contract_version_def compare_le_iff intro: pre_le_trans)
  show "x = y" if "x \<le> y" and "y \<le> x"
    using that compare_swap [of x y] compare_zero_iff [of x y]
    by (simp add: less_eq_contract_version_def)
  show "x \<le> y \<or> y \<le> x"
    using compare_swap [of x y] by (auto simp: less_eq_contract_version_def)
qed

end

section \<open>The interface of a publication history\<close>

text \<open>
  What publishing relies on: a comparison whose sign is a linear order. A candidate that exceeds
  every published version extends a strictly increasing history to a strictly increasing history.
\<close>

locale version_order =
  fixes cmp :: "'v \<Rightarrow> 'v \<Rightarrow> int"
  assumes cmp_zero: "cmp a b = 0 \<longleftrightarrow> a = b"
    and cmp_neg: "cmp b a = - cmp a b"
    and cmp_trans: "cmp a b < 0 \<Longrightarrow> cmp b c < 0 \<Longrightarrow> cmp a c < 0"
begin

lemma exceeds_extends:
  assumes "sorted_wrt (\<lambda>a b. cmp a b < 0) vs" and "\<And>v. v \<in> set vs \<Longrightarrow> \<not> cmp c v \<le> 0"
  shows "sorted_wrt (\<lambda>a b. cmp a b < 0) (vs @ [c])"
  using assms cmp_neg [of _ c] by (auto simp: sorted_wrt_append not_le)

lemma history_distinct:
  assumes "sorted_wrt (\<lambda>a b. cmp a b < 0) vs"
  shows "distinct vs"
  using assms
proof (induction vs)
  case (Cons v vs)
  then show ?case using cmp_zero [of v v] by auto
qed simp

lemma history_last:
  assumes "sorted_wrt (\<lambda>a b. cmp a b < 0) vs" and "v \<in> set vs"
  shows "cmp v (last vs) \<le> 0"
  using assms
proof (induction vs rule: rev_induct)
  case (snoc x vs)
  then show ?case using cmp_zero [of x x] by (auto simp: sorted_wrt_append)
qed simp

end

interpretation precedence: version_order compare_precedence
proof (unfold_locales, goal_cases)
  case (1 a b)
  show ?case by (rule compare_zero_iff)
next
  case (2 b a)
  show ?case by (rule compare_swap)
next
  case (3 a b c)
  then show ?case
    using less_trans [of a b c] by (simp add: less_contract_version_def)
qed

section \<open>Round trip and acceptance\<close>

lemma digits_takeWhile:
  assumes "r = [] \<or> \<not> is_digit (hd r)"
  shows "takeWhile is_digit (string_of_nat n @ r) = string_of_nat n"
    and "dropWhile is_digit (string_of_nat n @ r) = r"
proof -
  have all: "\<forall>c\<in>set (string_of_nat n). is_digit c" by (auto dest: set_string_of_nat)
  have "takeWhile is_digit r = []" and "dropWhile is_digit r = r"
    using assms by (cases r; simp)+
  with all show "takeWhile is_digit (string_of_nat n @ r) = string_of_nat n"
    and "dropWhile is_digit (string_of_nat n @ r) = r"
    by (simp_all add: takeWhile_append dropWhile_append)
qed

lemma string_of_nat_leading: "hd (string_of_nat n) = CHR ''0'' \<Longrightarrow> n = 0"
proof (induction n rule: string_of_nat.induct)
  case (1 n)
  show ?case
  proof (cases "n < 10")
    case True
    with "1.prems" have "digit_char n = CHR ''0''" by (subst (asm) string_of_nat.simps) simp
    then have "code (digit_char n) = 48" by simp
    with True show ?thesis by (simp add: digit_char_def)
  next
    case False
    with "1.prems" have "hd (string_of_nat (n div 10)) = CHR ''0''"
      by (subst (asm) string_of_nat.simps) (simp add: hd_append)
    with False "1.IH" have "n div 10 = 0" by blast
    with False show ?thesis by simp
  qed
qed

lemma num_ident_string_of_nat:
  assumes "r = [] \<or> \<not> is_digit (hd r)"
  shows "num_ident (string_of_nat n @ r) = Some (n, r)"
proof -
  have "string_of_nat 0 = [digit_char 0]" by (subst string_of_nat.simps) simp
  then have "\<not> (hd (string_of_nat n) = CHR ''0'' \<and> 1 < length (string_of_nat n))"
    using string_of_nat_leading [of n] by auto
  with digits_takeWhile [OF assms, of n] show ?thesis by (auto simp: num_ident_def Let_def)
qed

definition version_ok :: "contract_version \<Rightarrow> bool" where
  "version_ok v \<longleftrightarrow> (case prerelease v of None \<Rightarrow> True | Some p \<Rightarrow> rx_match PRERELEASE p)"

lemma PRERELEASE_not_Nil: "rx_match PRERELEASE p \<Longrightarrow> p \<noteq> []"
  by (auto simp: PRERELEASE_def rx_plus_def)

lemma not_digit_sep [simp]: "\<not> is_digit CHR ''.''" "\<not> is_digit CHR ''-''"
  by (simp_all add: is_digit_def)

lemma semver_version_str: "version_ok v \<Longrightarrow> semver (version_str v) = Some v"
  by (cases v)
    (auto simp: semver_def version_str_def version_ok_def Let_def num_ident_string_of_nat
      num_ident_string_of_nat [where r = "[]", simplified] dest: PRERELEASE_not_Nil
      split: option.splits)

lemma parse_version_str: "version_ok v \<Longrightarrow> parse_version (JStr (version_str v)) = Inr v"
  by (simp add: semver_match_def semver_version_str)

lemma parse_version_Inl: "parse_version v = Inl e \<Longrightarrow> e = IncompatibleContractVersion"
  by (cases v) (auto split: option.splits)

lemma match_contract_version [simp]:
  "semver_match CONTRACT_VERSION = Some (ContractVersion 1 1 0 None)"
  by code_simp

lemma require_supported_Inr:
  "require_supported v = Inr d \<longleftrightarrow> parse_version v = Inr d \<and> major d = 1 \<and> minor d \<le> 1"
  by (cases "parse_version v") (auto simp: require_supported_def)

lemma require_supported_Inl: "require_supported v = Inl e \<Longrightarrow> e = IncompatibleContractVersion"
  by (auto simp: require_supported_def res_simps
      dest: parse_version_Inl split: if_splits)

section \<open>Properties\<close>

text \<open>
  The document versions this build consumes are exactly the strings, possibly with one trailing
  line feed, that parse to major version 1 and a minor version of at most 1; a rendered version
  parses back to itself, so the versions the build itself stamps are consumed.
\<close>

theorem supported_versions:
  "is_supported v \<longleftrightarrow>
     (\<exists>s d. v = JStr s \<and> major d = 1 \<and> minor d \<le> 1 \<and>
       (semver s = Some d \<or> (semver s = None \<and> (\<exists>t. s = t @ [newline] \<and> semver t = Some d))))"
proof -
  have m: "semver_match s = Some d \<longleftrightarrow>
      semver s = Some d \<or> semver s = None \<and> (\<exists>t. s = t @ [newline] \<and> semver t = Some d)" for s d
    by (cases s rule: rev_cases) (auto simp: semver_match_def split: option.splits)
  show ?thesis
    by (cases v) (auto simp: is_supported_def is_ok_iff require_supported_Inr m [symmetric]
        split: option.splits)
qed

text \<open>A well-formed version survives being rendered and parsed again.\<close>

theorem version_roundtrip:
  assumes "version_ok v"
  shows "parse_version (JStr (version_str v)) = Inr v"
  using assms by (rule parse_version_str)

lemma version_roundtrip_witness:
  "parse_version (JStr (version_str (ContractVersion 1 20 3 (Some ''rc-1.2''))))
     = Inr (ContractVersion 1 20 3 (Some ''rc-1.2''))"
proof -
  have "version_ok (ContractVersion 1 20 3 (Some ''rc-1.2''))" by code_simp
  then show ?thesis by (rule version_roundtrip)
qed

end
