(* ===== verification/Models.thy ===== *)
theory Models
  imports Net Version
begin

text \<open>
  The typed documents of \<^verbatim>\<open>packages/contracts/toollayer_contracts/models.py\<close>. Every pydantic class
  is a record; \<open>x_ok\<close> is the conjunction of its field constraints and validators, \<open>mk_x\<close> its
  constructor, \<open>decode_x\<close> its \<open>model_validate\<close> and \<open>dump_x\<close> its \<open>model_dump\<close>. A literal field with a
  single value (\<open>protocol\<close>, \<open>algorithm\<close>, \<open>format\<close>) is checked by the decoder and not stored.
\<close>

section \<open>Reading fields\<close>

definition bad :: "'a res" where
  "bad = Inl PydanticError"

fun with_obj :: "string list \<Rightarrow> json \<Rightarrow> (json dict \<Rightarrow> 'a res) \<Rightarrow> 'a res" where
  "with_obj keys (JObj d) f = (if list_all (\<lambda>k. k \<in> set keys) (dkeys d) then f d else bad)"
| "with_obj keys _ f = bad"

definition field :: "json dict \<Rightarrow> string \<Rightarrow> (json \<Rightarrow> 'a res) \<Rightarrow> 'a res" where
  "field d k f = (case dget d k of None \<Rightarrow> bad | Some v \<Rightarrow> f v)"

fun as_str :: "json \<Rightarrow> string res" where
  "as_str (JStr s) = Inr s"
| "as_str _ = bad"

fun as_opt_str :: "json \<Rightarrow> string option res" where
  "as_opt_str JNull = Inr None"
| "as_opt_str (JStr s) = Inr (Some s)"
| "as_opt_str _ = bad"

fun as_list :: "(json \<Rightarrow> 'a res) \<Rightarrow> json \<Rightarrow> 'a list res" where
  "as_list f (JArr xs) = rmap f xs"
| "as_list f _ = bad"

fun as_dict :: "json \<Rightarrow> json dict res" where
  "as_dict (JObj d) = Inr d"
| "as_dict _ = bad"

definition as_literal :: "(string \<times> 'a) list \<Rightarrow> json \<Rightarrow> 'a res" where
  "as_literal alts v =
     (case v of
        JStr s \<Rightarrow> (case map_of alts s of None \<Rightarrow> bad | Some x \<Rightarrow> Inr x)
      | _ \<Rightarrow> bad)"

definition as_bool :: "platform \<Rightarrow> json \<Rightarrow> bool res" where
  "as_bool P v = (case lax_bool P v of None \<Rightarrow> bad | Some b \<Rightarrow> Inr b)"

definition as_int :: "platform \<Rightarrow> json \<Rightarrow> int res" where
  "as_int P v = (case lax_int P v of None \<Rightarrow> bad | Some i \<Rightarrow> Inr i)"

definition checked :: "('a \<Rightarrow> bool) \<Rightarrow> 'a \<Rightarrow> 'a res" where
  "checked ok x = (if ok x then Inr x else bad)"

definition len_between :: "nat \<Rightarrow> nat \<Rightarrow> string \<Rightarrow> bool" where
  "len_between lo hi s \<longleftrightarrow> lo \<le> length s \<and> length s \<le> hi"

definition resource_key_ok :: "string \<Rightarrow> bool" where
  "resource_key_ok s \<longleftrightarrow> rx_match KEY_PATTERN s \<and> len_between 1 64 s"

definition tool_name_ok :: "string \<Rightarrow> bool" where
  "tool_name_ok s \<longleftrightarrow> rx_match TOOL_NAME_PATTERN s \<and> len_between 1 64 s"

definition semantic_version_ok :: "string \<Rightarrow> bool" where
  "semantic_version_ok s \<longleftrightarrow> rx_match SEMVER_PATTERN s \<and> length s \<le> 64"

text \<open>Optional and bounded fields; a field with a default may be missing.\<close>

definition optional_field :: "json dict \<Rightarrow> string \<Rightarrow> 'a \<Rightarrow> (json \<Rightarrow> 'a res) \<Rightarrow> 'a res" where
  "optional_field d k fallback f = (case dget d k of None \<Rightarrow> Inr fallback | Some v \<Rightarrow> f v)"

definition as_text :: "nat \<Rightarrow> nat \<Rightarrow> json \<Rightarrow> string res" where
  "as_text lo hi v = rbind (as_str v) (checked (len_between lo hi))"

definition as_key :: "json \<Rightarrow> string res" where
  "as_key v = rbind (as_str v) (checked resource_key_ok)"

definition as_version :: "json \<Rightarrow> string res" where
  "as_version v = rbind (as_str v) (checked semantic_version_ok)"

definition as_option :: "(json \<Rightarrow> 'a res) \<Rightarrow> json \<Rightarrow> 'a option res" where
  "as_option f v = (if v = JNull then Inr None else rbind (f v) (\<lambda>x. Inr (Some x)))"

definition as_bounded :: "nat \<Rightarrow> nat \<Rightarrow> (json \<Rightarrow> 'a res) \<Rightarrow> json \<Rightarrow> 'a list res" where
  "as_bounded lo hi f v = rbind (as_list f v) (checked (\<lambda>xs. lo \<le> length xs \<and> length xs \<le> hi))"

text \<open>A literal field keeps its text.\<close>

definition as_choice :: "string list \<Rightarrow> json \<Rightarrow> string res" where
  "as_choice alts = as_literal (map (\<lambda>s. (s, s)) alts)"

section \<open>Operations\<close>

datatype binding_target = PathTarget | QueryTarget | HeaderTarget | BodyTarget

definition target_names :: "(string \<times> binding_target) list" where
  "target_names =
     [(''path'', PathTarget), (''query'', QueryTarget), (''header'', HeaderTarget), (''body'', BodyTarget)]"

fun target_text :: "binding_target \<Rightarrow> string" where
  "target_text PathTarget = ''path''"
| "target_text QueryTarget = ''query''"
| "target_text HeaderTarget = ''header''"
| "target_text BodyTarget = ''body''"

record argument_binding =
  argument_pointer :: string
  binding_target :: binding_target
  target_name :: string

definition binding_ok :: "argument_binding \<Rightarrow> bool" where
  "binding_ok b \<longleftrightarrow>
     rx_match JSON_POINTER_PATTERN (argument_pointer b) \<and> len_between 1 256 (target_name b) \<and>
     (binding_target b = BodyTarget \<longrightarrow> starts_with ''/'' (target_name b)) \<and>
     (binding_target b \<noteq> BodyTarget \<longrightarrow> newline \<notin> set (target_name b))"

definition decode_binding :: "json \<Rightarrow> argument_binding res" where
  "decode_binding v = with_obj [''argument_pointer'', ''target'', ''target_name''] v (\<lambda>d.
     rbind (field d ''argument_pointer'' as_str) (\<lambda>p.
     rbind (field d ''target'' (as_literal target_names)) (\<lambda>t.
     rbind (field d ''target_name'' as_str) (\<lambda>n.
       checked binding_ok \<lparr>argument_pointer = p, binding_target = t, target_name = n\<rparr>))))"

definition dump_binding :: "argument_binding \<Rightarrow> json" where
  "dump_binding b = JObj
     [(''argument_pointer'', JStr (argument_pointer b)),
      (''target'', JStr (target_text (binding_target b))), (''target_name'', JStr (target_name b))]"

record tool_operation =
  op_method :: string
  path_template :: string
  op_bindings :: "argument_binding list"
  request_body_media_type :: "string option"

definition HTTP_METHODS :: "string list" where
  "HTTP_METHODS = [''GET'', ''POST'', ''PUT'', ''PATCH'', ''DELETE'']"

definition has_body_binding :: "tool_operation \<Rightarrow> bool" where
  "has_body_binding op \<longleftrightarrow> list_ex (\<lambda>b. binding_target b = BodyTarget) (op_bindings op)"

definition operation_ok :: "tool_operation \<Rightarrow> bool" where
  "operation_ok op \<longleftrightarrow>
     op_method op \<in> set HTTP_METHODS \<and>
     len_between 1 2048 (path_template op) \<and> rx_match PATH_TEMPLATE_PATTERN (path_template op) \<and>
     list_all binding_ok (op_bindings op) \<and>
     request_body_media_type op \<in> {None, Some ''application/json''} \<and>
     distinct (map (\<lambda>b. (binding_target b, target_name b)) (op_bindings op)) \<and>
     (has_body_binding op \<longleftrightarrow> request_body_media_type op \<noteq> None)"

definition decode_operation :: "json \<Rightarrow> tool_operation res" where
  "decode_operation v =
     with_obj [''protocol'', ''method'', ''path_template'', ''bindings'', ''request_body_media_type''] v (\<lambda>d.
     rbind (field d ''protocol'' (as_literal [(''http'', ())])) (\<lambda>_.
     rbind (field d ''method'' as_str) (\<lambda>m.
     rbind (field d ''path_template'' as_str) (\<lambda>t.
     rbind (field d ''bindings'' (as_list decode_binding)) (\<lambda>bs.
     rbind (field d ''request_body_media_type'' as_opt_str) (\<lambda>mt.
       checked operation_ok \<lparr>op_method = m, path_template = t, op_bindings = bs,
         request_body_media_type = mt\<rparr>))))))"

definition dump_operation :: "tool_operation \<Rightarrow> json" where
  "dump_operation op = JObj
     [(''protocol'', JStr ''http''), (''method'', JStr (op_method op)),
      (''path_template'', JStr (path_template op)),
      (''bindings'', JArr (map dump_binding (op_bindings op))),
      (''request_body_media_type'', opt_str (request_body_media_type op))]"

section \<open>Policies\<close>

record access_policy =
  policy_mode :: string
  policy_roles :: "string list"

text \<open>The roles are sorted by a field validator before the class validator runs.\<close>

definition access_ok :: "access_policy \<Rightarrow> bool" where
  "access_ok a \<longleftrightarrow>
     policy_mode a \<in> {''public'', ''restricted''} \<and> list_all resource_key_ok (policy_roles a) \<and>
     (policy_mode a = ''public'' \<longrightarrow> policy_roles a = []) \<and>
     (policy_mode a = ''restricted'' \<longrightarrow> policy_roles a \<noteq> []) \<and> distinct (policy_roles a) \<and>
     sorted (policy_roles a)"

definition mk_access :: "string \<Rightarrow> string list \<Rightarrow> access_policy res" where
  "mk_access m rs = checked access_ok \<lparr>policy_mode = m, policy_roles = sort rs\<rparr>"

definition public_access :: access_policy where
  "public_access = \<lparr>policy_mode = ''public'', policy_roles = []\<rparr>"

definition decode_access :: "json \<Rightarrow> access_policy res" where
  "decode_access v = with_obj [''access_mode'', ''allowed_roles''] v (\<lambda>d.
     rbind (field d ''access_mode'' as_str) (\<lambda>m.
     rbind (field d ''allowed_roles'' (as_list as_str)) (\<lambda>rs. mk_access m rs)))"

definition dump_access :: "access_policy \<Rightarrow> json" where
  "dump_access a = JObj
     [(''access_mode'', JStr (policy_mode a)), (''allowed_roles'', JArr (map JStr (policy_roles a)))]"

datatype effect_class = ReadEffect | WriteEffect | DestructiveEffect

definition effect_names :: "(string \<times> effect_class) list" where
  "effect_names =
     [(''read'', ReadEffect), (''write'', WriteEffect), (''destructive'', DestructiveEffect)]"

fun effect_text :: "effect_class \<Rightarrow> string" where
  "effect_text ReadEffect = ''read''"
| "effect_text WriteEffect = ''write''"
| "effect_text DestructiveEffect = ''destructive''"

record tool_policy =
  effect_class :: effect_class
  requires_confirmation :: bool
  access :: access_policy

definition decode_policy :: "platform \<Rightarrow> json \<Rightarrow> tool_policy res" where
  "decode_policy P v = with_obj [''effect_class'', ''requires_confirmation'', ''access''] v (\<lambda>d.
     rbind (field d ''effect_class'' (as_literal effect_names)) (\<lambda>e.
     rbind (field d ''requires_confirmation'' (as_bool P)) (\<lambda>c.
     rbind (field d ''access'' decode_access) (\<lambda>a.
       Inr \<lparr>effect_class = e, requires_confirmation = c, access = a\<rparr>))))"

definition dump_policy :: "tool_policy \<Rightarrow> json" where
  "dump_policy p = JObj
     [(''effect_class'', JStr (effect_text (effect_class p))),
      (''requires_confirmation'', JBool (requires_confirmation p)),
      (''access'', dump_access (access p))]"

section \<open>Tools\<close>

record tool_provenance =
  source_operation_id :: "string option"
  source_path :: string
  source_method :: string
  tags :: "string list"
  deprecated :: bool
  description_origin :: string

definition provenance_ok :: "tool_provenance \<Rightarrow> bool" where
  "provenance_ok p \<longleftrightarrow>
     (case source_operation_id p of None \<Rightarrow> True | Some s \<Rightarrow> length s \<le> 256) \<and>
     len_between 1 2048 (source_path p) \<and>
     source_method p \<in> {''get'', ''post'', ''put'', ''patch'', ''delete''} \<and>
     description_origin p \<in> {''source'', ''generated'', ''assisted'', ''human''}"

definition decode_provenance :: "platform \<Rightarrow> json \<Rightarrow> tool_provenance res" where
  "decode_provenance P v =
     with_obj [''source_operation_id'', ''source_path'', ''source_method'', ''tags'', ''deprecated'',
               ''description_origin''] v (\<lambda>d.
     rbind (field d ''source_operation_id'' as_opt_str) (\<lambda>i.
     rbind (field d ''source_path'' as_str) (\<lambda>p.
     rbind (field d ''source_method'' as_str) (\<lambda>m.
     rbind (field d ''tags'' (as_list as_str)) (\<lambda>ts.
     rbind (field d ''deprecated'' (as_bool P)) (\<lambda>dp.
     rbind (field d ''description_origin'' as_str) (\<lambda>desc.
       checked provenance_ok \<lparr>source_operation_id = i, source_path = p, source_method = m, tags = ts,
         deprecated = dp, description_origin = desc\<rparr>)))))))"

definition dump_provenance :: "tool_provenance \<Rightarrow> json" where
  "dump_provenance p = JObj
     [(''source_operation_id'', opt_str (source_operation_id p)),
      (''source_path'', JStr (source_path p)), (''source_method'', JStr (source_method p)),
      (''tags'', JArr (map JStr (tags p))), (''deprecated'', JBool (deprecated p)),
      (''description_origin'', JStr (description_origin p))]"

record tool_definition =
  tool_name :: string
  display_name :: string
  description :: string
  input_schema :: "json dict"
  operation :: tool_operation
  policy :: tool_policy
  provenance :: tool_provenance

definition DRAFT_2020_12 :: string where
  "DRAFT_2020_12 = ''https://json-schema.org/draft/2020-12/schema''"

definition closed_object_schema :: "json dict \<Rightarrow> bool" where
  "closed_object_schema s \<longleftrightarrow>
     jget s ''type'' = JStr ''object'' \<and> jget s ''additionalProperties'' = JBool False \<and>
     jget s ''$schema'' = JStr DRAFT_2020_12 \<and> is_obj (jget s ''properties'') \<and>
     is_arr (jget s ''required'')"

text \<open>The argument a binding reads, and the arguments a schema declares.\<close>

definition binding_root :: "string \<Rightarrow> string" where
  "binding_root p =
     ''/'' @ takeWhile (\<lambda>c. c \<noteq> CHR ''/'') (lstrip_by (\<lambda>c. c = CHR ''/'') p)"

definition declared_arguments :: "json dict \<Rightarrow> string list" where
  "declared_arguments s = map (\<lambda>n. ''/'' @ n) (dkeys (obj_of (jget s ''properties'')))"

definition tool_ok :: "tool_definition \<Rightarrow> bool" where
  "tool_ok t \<longleftrightarrow>
     tool_name_ok (tool_name t) \<and> len_between 1 128 (display_name t) \<and>
     len_between 1 1024 (description t) \<and> closed_object_schema (input_schema t) \<and>
     operation_ok (operation t) \<and> access_ok (access (policy t)) \<and> provenance_ok (provenance t) \<and>
     list_all (\<lambda>b. binding_root (argument_pointer b) \<in> set (declared_arguments (input_schema t)))
       (op_bindings (operation t))"

definition decode_tool :: "platform \<Rightarrow> json \<Rightarrow> tool_definition res" where
  "decode_tool P v =
     with_obj [''tool_name'', ''display_name'', ''description'', ''input_schema'', ''operation'',
               ''policy'', ''provenance''] v (\<lambda>d.
     rbind (field d ''tool_name'' as_str) (\<lambda>n.
     rbind (field d ''display_name'' as_str) (\<lambda>dn.
     rbind (field d ''description'' as_str) (\<lambda>desc.
     rbind (field d ''input_schema'' as_dict) (\<lambda>s.
     rbind (field d ''operation'' decode_operation) (\<lambda>op.
     rbind (field d ''policy'' (decode_policy P)) (\<lambda>pol.
     rbind (field d ''provenance'' (decode_provenance P)) (\<lambda>prov.
       checked tool_ok \<lparr>tool_name = n, display_name = dn, description = desc, input_schema = s,
         operation = op, policy = pol, provenance = prov\<rparr>))))))))"

definition dump_tool :: "tool_definition \<Rightarrow> json" where
  "dump_tool t = JObj
     [(''tool_name'', JStr (tool_name t)), (''display_name'', JStr (display_name t)),
      (''description'', JStr (description t)), (''input_schema'', JObj (input_schema t)),
      (''operation'', dump_operation (operation t)), (''policy'', dump_policy (policy t)),
      (''provenance'', dump_provenance (provenance t))]"

section \<open>Connectors and snapshots\<close>

record runtime_binding =
  base_url :: string
  auth_profile_ref :: "string option"

definition reviewed_origin :: "string \<Rightarrow> bool" where
  "reviewed_origin v \<longleftrightarrow>
     (case urlsplit v of
        None \<Rightarrow> False
      | Some parsed \<Rightarrow>
          url_scheme parsed \<in> {''http'', ''https''} \<and> url_netloc parsed \<noteq> [] \<and>
          CHR ''@'' \<notin> set (url_netloc parsed) \<and> url_query parsed = [] \<and> url_fragment parsed = [])"

definition runtime_ok :: "runtime_binding \<Rightarrow> bool" where
  "runtime_ok r \<longleftrightarrow>
     length (base_url r) \<le> 2048 \<and> reviewed_origin (base_url r) \<and>
     (case auth_profile_ref r of None \<Rightarrow> True | Some s \<Rightarrow> length s \<le> 256)"

definition decode_runtime :: "json \<Rightarrow> runtime_binding res" where
  "decode_runtime v = with_obj [''protocol'', ''base_url'', ''auth_profile_ref''] v (\<lambda>d.
     rbind (field d ''protocol'' (as_literal [(''http'', ())])) (\<lambda>_.
     rbind (field d ''base_url'' as_str) (\<lambda>u.
     rbind (field d ''auth_profile_ref'' as_opt_str) (\<lambda>a.
       checked runtime_ok \<lparr>base_url = u, auth_profile_ref = a\<rparr>))))"

definition dump_runtime :: "runtime_binding \<Rightarrow> json" where
  "dump_runtime r = JObj
     [(''protocol'', JStr ''http''), (''base_url'', JStr (base_url r)),
      (''auth_profile_ref'', opt_str (auth_profile_ref r))]"

record source_provenance =
  spec_version :: string
  document_filename :: string
  document_digest :: string
  byte_length :: int

definition source_ok :: "source_provenance \<Rightarrow> bool" where
  "source_ok s \<longleftrightarrow>
     len_between 1 16 (spec_version s) \<and> len_between 1 256 (document_filename s) \<and>
     rx_match DIGEST_PATTERN (document_digest s) \<and> 1 \<le> byte_length s"

definition decode_source :: "platform \<Rightarrow> json \<Rightarrow> source_provenance res" where
  "decode_source P v =
     with_obj [''format'', ''spec_version'', ''document_filename'', ''document_digest'', ''byte_length''] v (\<lambda>d.
     rbind (field d ''format'' (as_literal [(''openapi'', ())])) (\<lambda>_.
     rbind (field d ''spec_version'' as_str) (\<lambda>sv.
     rbind (field d ''document_filename'' as_str) (\<lambda>f.
     rbind (field d ''document_digest'' as_str) (\<lambda>dg.
     rbind (field d ''byte_length'' (as_int P)) (\<lambda>n.
       checked source_ok \<lparr>spec_version = sv, document_filename = f, document_digest = dg,
         byte_length = n\<rparr>))))))"

definition dump_source :: "source_provenance \<Rightarrow> json" where
  "dump_source s = JObj
     [(''format'', JStr ''openapi''), (''spec_version'', JStr (spec_version s)),
      (''document_filename'', JStr (document_filename s)),
      (''document_digest'', JStr (document_digest s)), (''byte_length'', JInt (byte_length s))]"

record audit_timestamps =
  created_at :: string
  updated_at :: string
  published_at :: "string option"

definition decode_audit :: "json \<Rightarrow> audit_timestamps res" where
  "decode_audit v = with_obj [''created_at'', ''updated_at'', ''published_at''] v (\<lambda>d.
     rbind (field d ''created_at'' as_str) (\<lambda>c.
     rbind (field d ''updated_at'' as_str) (\<lambda>u.
     rbind (field d ''published_at'' as_opt_str) (\<lambda>p.
       Inr \<lparr>created_at = c, updated_at = u, published_at = p\<rparr>))))"

definition dump_audit :: "audit_timestamps \<Rightarrow> json" where
  "dump_audit a = JObj
     [(''created_at'', JStr (created_at a)), (''updated_at'', JStr (updated_at a)),
      (''published_at'', opt_str (published_at a))]"

record connector_definition =
  conn_contract_version :: string
  connector_key :: string
  conn_display_name :: string
  summary :: string
  conn_version :: string
  lifecycle_state :: string
  runtime :: runtime_binding
  source :: source_provenance
  tools :: "tool_definition list"
  labels :: "string list"
  audit :: audit_timestamps

definition connector_ok :: "connector_definition \<Rightarrow> bool" where
  "connector_ok c \<longleftrightarrow>
     semantic_version_ok (conn_contract_version c) \<and> resource_key_ok (connector_key c) \<and>
     len_between 1 128 (conn_display_name c) \<and> len_between 1 1024 (summary c) \<and>
     semantic_version_ok (conn_version c) \<and>
     lifecycle_state c \<in> {''draft'', ''published'', ''disabled''} \<and> runtime_ok (runtime c) \<and>
     source_ok (source c) \<and> tools c \<noteq> [] \<and> list_all tool_ok (tools c) \<and>
     distinct (map tool_name (tools c))"

definition decode_connector :: "platform \<Rightarrow> json \<Rightarrow> connector_definition res" where
  "decode_connector P v =
     with_obj [''contract_version'', ''connector_key'', ''display_name'', ''summary'', ''version'',
               ''lifecycle_state'', ''runtime'', ''source'', ''tools'', ''labels'', ''audit''] v (\<lambda>d.
     rbind (field d ''contract_version'' as_str) (\<lambda>cv.
     rbind (field d ''connector_key'' as_str) (\<lambda>k.
     rbind (field d ''display_name'' as_str) (\<lambda>dn.
     rbind (field d ''summary'' as_str) (\<lambda>su.
     rbind (field d ''version'' as_str) (\<lambda>ver.
     rbind (field d ''lifecycle_state'' as_str) (\<lambda>ls.
     rbind (field d ''runtime'' decode_runtime) (\<lambda>rt.
     rbind (field d ''source'' (decode_source P)) (\<lambda>sr.
     rbind (field d ''tools'' (as_list (decode_tool P))) (\<lambda>ts.
     rbind (field d ''labels'' (as_list as_str)) (\<lambda>lb.
     rbind (field d ''audit'' decode_audit) (\<lambda>au.
       checked connector_ok \<lparr>conn_contract_version = cv, connector_key = k, conn_display_name = dn,
         summary = su, conn_version = ver, lifecycle_state = ls, runtime = rt, source = sr,
         tools = ts, labels = lb, audit = au\<rparr>))))))))))))"

definition dump_connector :: "connector_definition \<Rightarrow> json" where
  "dump_connector c = JObj
     [(''contract_version'', JStr (conn_contract_version c)), (''connector_key'', JStr (connector_key c)),
      (''display_name'', JStr (conn_display_name c)), (''summary'', JStr (summary c)),
      (''version'', JStr (conn_version c)), (''lifecycle_state'', JStr (lifecycle_state c)),
      (''runtime'', dump_runtime (runtime c)), (''source'', dump_source (source c)),
      (''tools'', JArr (map dump_tool (tools c))), (''labels'', JArr (map JStr (labels c))),
      (''audit'', dump_audit (audit c))]"

text \<open>\<open>ConnectorDefinition.tool\<close>\<close>

definition find_tool :: "connector_definition \<Rightarrow> string \<Rightarrow> tool_definition option" where
  "find_tool c n = first_match (\<lambda>t. tool_name t = n) (tools c)"

record snapshot_signature =
  sig_key_id :: string
  sig_value :: string

definition signature_ok :: "snapshot_signature \<Rightarrow> bool" where
  "signature_ok s \<longleftrightarrow> key_id_ok (sig_key_id s) \<and> signature_value_ok (sig_value s)"

definition decode_signature :: "json \<Rightarrow> snapshot_signature res" where
  "decode_signature v = with_obj [''algorithm'', ''key_id'', ''value''] v (\<lambda>d.
     rbind (field d ''algorithm'' (as_literal [(''ed25519'', ())])) (\<lambda>_.
     rbind (field d ''key_id'' as_str) (\<lambda>k.
     rbind (field d ''value'' as_str) (\<lambda>x.
       checked signature_ok \<lparr>sig_key_id = k, sig_value = x\<rparr>))))"

record deployment_snapshot =
  snap_contract_version :: string
  snapshot_id :: string
  deployment_key :: string
  revision :: int
  snap_created_at :: string
  snapshot_digest :: string
  connectors :: "connector_definition list"
  signature :: "snapshot_signature option"

definition snapshot_ok :: "deployment_snapshot \<Rightarrow> bool" where
  "snapshot_ok s \<longleftrightarrow>
     semantic_version_ok (snap_contract_version s) \<and>
     rx_match SNAPSHOT_ID_PATTERN (snapshot_id s) \<and> resource_key_ok (deployment_key s) \<and>
     1 \<le> revision s \<and> rx_match DIGEST_PATTERN (snapshot_digest s) \<and>
     list_all connector_ok (connectors s) \<and>
     (case signature s of None \<Rightarrow> True | Some x \<Rightarrow> signature_ok x) \<and>
     distinct (map connector_key (connectors s)) \<and>
     list_all (\<lambda>c. lifecycle_state c = ''published'') (connectors s)"

definition opt_signature :: "json dict \<Rightarrow> snapshot_signature option res" where
  "opt_signature d =
     (case jget d ''signature'' of
        JNull \<Rightarrow> Inr None
      | v \<Rightarrow> rbind (decode_signature v) (\<lambda>s. Inr (Some s)))"

definition decode_snapshot :: "platform \<Rightarrow> json \<Rightarrow> deployment_snapshot res" where
  "decode_snapshot P v =
     with_obj [''contract_version'', ''snapshot_id'', ''deployment_key'', ''revision'', ''created_at'',
               ''snapshot_digest'', ''connectors'', ''signature''] v (\<lambda>d.
     rbind (field d ''contract_version'' as_str) (\<lambda>cv.
     rbind (field d ''snapshot_id'' as_str) (\<lambda>i.
     rbind (field d ''deployment_key'' as_str) (\<lambda>k.
     rbind (field d ''revision'' (as_int P)) (\<lambda>r.
     rbind (field d ''created_at'' as_str) (\<lambda>ca.
     rbind (field d ''snapshot_digest'' as_str) (\<lambda>dg.
     rbind (field d ''connectors'' (as_list (decode_connector P))) (\<lambda>cs.
     rbind (opt_signature d) (\<lambda>sg.
       checked snapshot_ok \<lparr>snap_contract_version = cv, snapshot_id = i, deployment_key = k,
         revision = r, snap_created_at = ca, snapshot_digest = dg, connectors = cs,
         signature = sg\<rparr>)))))))))"

section \<open>Lemmas\<close>

named_theorems decode_simps \<open>reading back what a dump wrote\<close>

lemma checked_Inr [res_simps]: "checked ok x = Inr y \<longleftrightarrow> ok x \<and> y = x"
  by (auto simp: checked_def bad_def)

lemma with_obj_Inr [res_simps]:
  "with_obj ks v f = Inr y \<longleftrightarrow> (\<exists>d. v = JObj d \<and> list_all (\<lambda>k. k \<in> set ks) (dkeys d) \<and> f d = Inr y)"
  by (cases v) (auto simp: bad_def)

lemma field_Inr [res_simps]: "field d k f = Inr y \<longleftrightarrow> (\<exists>v. dget d k = Some v \<and> f v = Inr y)"
  by (auto simp: field_def bad_def split: option.splits)

lemma as_list_Inr [res_simps]: "as_list f v = Inr ys \<longleftrightarrow> (\<exists>xs. v = JArr xs \<and> rmap f xs = Inr ys)"
  by (cases v) (auto simp: bad_def)

lemma rmap_dump: "(\<And>x. x \<in> set xs \<Longrightarrow> f (g x) = Inr x) \<Longrightarrow> rmap f (map g xs) = Inr xs"
  by (induction xs) auto

lemma rmap_as_str [decode_simps]: "rmap as_str (map JStr xs) = Inr xs"
  by (rule rmap_dump) simp

lemma as_opt_str_dump [decode_simps]: "as_opt_str (opt_str x) = Inr x"
  by (cases x) (simp_all add: opt_str_def)

lemma literal_target [decode_simps]: "as_literal target_names (JStr (target_text t)) = Inr t"
  by (cases t) (simp_all add: as_literal_def target_names_def)

lemma literal_effect [decode_simps]: "as_literal effect_names (JStr (effect_text t)) = Inr t"
  by (cases t) (simp_all add: as_literal_def effect_names_def)

lemma literal_const [decode_simps]: "as_literal [(s, ())] (JStr s) = Inr ()"
  by (simp add: as_literal_def)

lemma as_bool_exact [decode_simps]: "pydantic_exact P \<Longrightarrow> as_bool P (JBool b) = Inr b"
  by (simp add: as_bool_def pydantic_exact_def)

lemma as_int_exact [decode_simps]: "pydantic_exact P \<Longrightarrow> as_int P (JInt i) = Inr i"
  by (simp add: as_int_def pydantic_exact_def)

lemma decode_dump_binding [decode_simps]: "binding_ok b \<Longrightarrow> decode_binding (dump_binding b) = Inr b"
  by (cases b) (simp add: decode_binding_def dump_binding_def field_def dkeys_def checked_def decode_simps)

lemma decode_dump_operation [decode_simps]:
  "operation_ok x \<Longrightarrow> decode_operation (dump_operation x) = Inr x"
proof -
  assume ok: "operation_ok x"
  then have "rmap decode_binding (map dump_binding (op_bindings x)) = Inr (op_bindings x)"
    by (intro rmap_dump decode_dump_binding) (auto simp: operation_ok_def list_all_iff)
  with ok show ?thesis
    by (cases x) (simp add: decode_operation_def dump_operation_def field_def dkeys_def checked_def decode_simps)
qed

lemma decode_dump_access [decode_simps]: "access_ok x \<Longrightarrow> decode_access (dump_access x) = Inr x"
proof -
  assume ok: "access_ok x"
  then have "sort (policy_roles x) = policy_roles x"
    by (simp add: access_ok_def sorted_sort_id)
  with ok show ?thesis
    by (cases x) (simp add: decode_access_def dump_access_def mk_access_def field_def dkeys_def checked_def
        decode_simps)
qed

lemma decode_dump_policy [decode_simps]:
  "pydantic_exact P \<Longrightarrow> access_ok (access x) \<Longrightarrow> decode_policy P (dump_policy x) = Inr x"
  by (cases x) (simp add: decode_policy_def dump_policy_def field_def dkeys_def decode_simps)

lemma decode_dump_provenance [decode_simps]:
  "pydantic_exact P \<Longrightarrow> provenance_ok x \<Longrightarrow> decode_provenance P (dump_provenance x) = Inr x"
  by (cases x) (simp add: decode_provenance_def dump_provenance_def field_def dkeys_def checked_def decode_simps)

lemma decode_dump_tool [decode_simps]:
  assumes "pydantic_exact P" and "tool_ok t"
  shows "decode_tool P (dump_tool t) = Inr t"
proof -
  have "operation_ok (operation t)" "access_ok (access (policy t))" "provenance_ok (provenance t)"
    using assms(2) by (simp_all add: tool_ok_def)
  with assms show ?thesis
    by (cases t) (simp add: decode_tool_def dump_tool_def field_def dkeys_def checked_def decode_simps)
qed

lemma decode_dump_runtime [decode_simps]: "runtime_ok x \<Longrightarrow> decode_runtime (dump_runtime x) = Inr x"
  by (cases x) (simp add: decode_runtime_def dump_runtime_def field_def dkeys_def checked_def decode_simps)

lemma decode_dump_source [decode_simps]:
  "pydantic_exact P \<Longrightarrow> source_ok x \<Longrightarrow> decode_source P (dump_source x) = Inr x"
  by (cases x) (simp add: decode_source_def dump_source_def field_def dkeys_def checked_def decode_simps)

lemma decode_dump_audit [decode_simps]: "decode_audit (dump_audit x) = Inr x"
  by (cases x) (simp add: decode_audit_def dump_audit_def field_def dkeys_def decode_simps)

lemma decode_dump_connector [decode_simps]:
  assumes "pydantic_exact P" and "connector_ok c"
  shows "decode_connector P (dump_connector c) = Inr c"
proof -
  have "rmap (decode_tool P) (map dump_tool (tools c)) = Inr (tools c)"
    using assms by (intro rmap_dump decode_dump_tool) (auto simp: connector_ok_def list_all_iff)
  moreover have "runtime_ok (runtime c)" "source_ok (source c)"
    using assms(2) by (simp_all add: connector_ok_def)
  ultimately show ?thesis using assms
    by (cases c) (simp add: decode_connector_def dump_connector_def field_def dkeys_def checked_def decode_simps)
qed

text \<open>What a decoded document satisfies.\<close>

lemma decode_tool_ok: "decode_tool P v = Inr t \<Longrightarrow> tool_ok t"
  by (auto simp: decode_tool_def res_simps)

lemma decode_connector_ok: "decode_connector P v = Inr c \<Longrightarrow> connector_ok c"
  by (auto simp: decode_connector_def res_simps)

lemma decode_snapshot_ok: "decode_snapshot P v = Inr s \<Longrightarrow> snapshot_ok s"
  by (auto simp: decode_snapshot_def res_simps)

lemma find_tool_Some: "find_tool c n = Some t \<Longrightarrow> t \<in> set (tools c) \<and> tool_name t = n"
  unfolding find_tool_def by (rule first_match_Some)

text \<open>Tool names are unique, so the lookup finds every tool of a connector.\<close>

lemma find_tool_unique:
  assumes "connector_ok c" and "t \<in> set (tools c)"
  shows "find_tool c (tool_name t) = Some t"
proof -
  have inj: "inj_on tool_name (set (tools c))"
    using assms(1) by (simp add: connector_ok_def distinct_map)
  obtain u where u: "find_tool c (tool_name t) = Some u"
    using assms(2) first_match_None [of "\<lambda>x. tool_name x = tool_name t" "tools c"]
    unfolding find_tool_def by (cases "first_match (\<lambda>x. tool_name x = tool_name t) (tools c)") auto
  with inj assms(2) show ?thesis using find_tool_Some [OF u] by (auto dest: inj_onD)
qed

section \<open>Properties\<close>

text \<open>
  A well-formed connector definition survives being dumped and decoded again, and decoding only
  ever yields well-formed connectors: unique tool names, and for every tool a closed input schema and
  bindings that read declared arguments and fill distinct request locations.
\<close>

theorem connector_roundtrip:
  assumes "pydantic_exact P"
  shows "(connector_ok c \<longrightarrow> decode_connector P (dump_connector c) = Inr c) \<and>
    (decode_connector P v = Inr d \<longrightarrow> connector_ok d \<and> decode_connector P (dump_connector d) = Inr d)"
  using decode_dump_connector [OF assms] decode_connector_ok by blast

definition example_operation :: tool_operation where
  "example_operation = \<lparr>op_method = ''GET'', path_template = ''/tickets/{id}'',
     op_bindings = [\<lparr>argument_pointer = ''/id'', binding_target = PathTarget, target_name = ''id''\<rparr>],
     request_body_media_type = None\<rparr>"

definition example_tool :: tool_definition where
  "example_tool = \<lparr>tool_name = ''get_ticket'', display_name = ''Get ticket'', description = ''Reads one.'',
     input_schema = [(''type'', JStr ''object''),
       (''properties'', JObj [(''id'', JObj [(''type'', JStr ''integer'')])]),
       (''required'', JArr [JStr ''id'']), (''additionalProperties'', JBool False),
       (''$schema'', JStr DRAFT_2020_12)],
     operation = example_operation,
     policy = \<lparr>effect_class = ReadEffect, requires_confirmation = False, access = public_access\<rparr>,
     provenance = \<lparr>source_operation_id = Some ''getTicket'', source_path = ''/tickets/{id}'',
       source_method = ''get'', tags = [], deprecated = False, description_origin = ''source''\<rparr>\<rparr>"

definition example_connector :: connector_definition where
  "example_connector = \<lparr>conn_contract_version = CONTRACT_VERSION, connector_key = ''tickets'',
     conn_display_name = ''Tickets'', summary = ''Ticket API'', conn_version = ''1.0.0'',
     lifecycle_state = ''published'',
     runtime = \<lparr>base_url = ''https://api.example.org'', auth_profile_ref = None\<rparr>,
     source = \<lparr>spec_version = ''3.1.0'', document_filename = ''t.yaml'',
       document_digest = ''sha256:'' @ replicate 64 CHR ''a'', byte_length = 10\<rparr>,
     tools = [example_tool], labels = [],
     audit = \<lparr>created_at = ''2026-01-01T00:00:00Z'', updated_at = ''2026-01-01T00:00:00Z'',
       published_at = None\<rparr>\<rparr>"

lemma connector_roundtrip_witness:
  "connector_ok example_connector \<and>
   decode_connector sample_platform (dump_connector example_connector) = Inr example_connector"
proof -
  have "connector_ok example_connector" by code_simp
  with connector_roundtrip [OF sample_pydantic] show ?thesis by blast
qed

end
