(* ===== verification/Validation.thy ===== *)
theory Validation
  imports Models
begin

text \<open>
  Contract validation: \<^verbatim>\<open>packages/contracts/toollayer_contracts/validation.py\<close>. The packaged JSON
  Schemas are executed by the library behind \<open>contract_errors\<close> and \<open>schema_valid\<close>; what the module
  adds, the version gate, the uniqueness checks and the check of the embedded input schemas, is here.
\<close>

definition TOOL_SCHEMA :: string where
  "TOOL_SCHEMA = ''tool-definition.schema.json''"

definition CONNECTOR_SCHEMA :: string where
  "CONNECTOR_SCHEMA = ''connector-definition.schema.json''"

definition DEPLOYMENT_SNAPSHOT_SCHEMA :: string where
  "DEPLOYMENT_SNAPSHOT_SCHEMA = ''deployment-snapshot.schema.json''"

definition TOOL_EXECUTION_SCHEMA :: string where
  "TOOL_EXECUTION_SCHEMA = ''tool-execution.schema.json''"

definition ERROR_ENVELOPE_SCHEMA :: string where
  "ERROR_ENVELOPE_SCHEMA = ''error-envelope.schema.json''"

definition schema_names :: "string list" where
  "schema_names = [TOOL_SCHEMA, CONNECTOR_SCHEMA, DEPLOYMENT_SNAPSHOT_SCHEMA, TOOL_EXECUTION_SCHEMA,
     ERROR_ENVELOPE_SCHEMA]"

definition contract_violation :: "string \<Rightarrow> exn" where
  "contract_violation p = raise_at CONTRACT_VIOLATION p"

definition violation_detail :: "string list \<times> string \<Rightarrow> error_detail" where
  "violation_detail e =
     \<lparr>detail_code = ''schema.'' @ snd e,
      detail_message = ''the document violates the '' @ snd e @ '' constraint'',
      detail_pointer = Some (pointer_of_path (fst e)), detail_severity = ''error''\<rparr>"

definition validate_schema :: "platform \<Rightarrow> string \<Rightarrow> json \<Rightarrow> unit res" where
  "validate_schema P name document =
     (let errors = contract_errors P name document in
      if errors = [] then Inr ()
      else Inl (ToolLayerError CONTRACT_VIOLATION (Some (pointer_of_path (fst (hd errors))))
                  (map violation_detail (take 50 errors))))"

definition require_contract_version :: "json \<Rightarrow> unit res" where
  "require_contract_version document =
     (case document of
        JObj d \<Rightarrow>
          rbind (catching (\<lambda>e. e = IncompatibleContractVersion)
                   (\<lambda>_. Inl (contract_violation ''/contract_version''))
                   (require_supported (jget d ''contract_version''))) (\<lambda>_. Inr ())
      | _ \<Rightarrow> Inl (contract_violation []))"

definition validate_tool_input_schema :: "platform \<Rightarrow> json \<Rightarrow> string \<Rightarrow> unit res" where
  "validate_tool_input_schema P document p =
     (if \<not> is_obj document then Inl (contract_violation p)
      else if \<not> schema_valid P document then Inl (contract_violation p) else Inr ())"

definition validate_tool_definition :: "platform \<Rightarrow> json \<Rightarrow> unit res" where
  "validate_tool_definition P document =
     rbind (validate_schema P TOOL_SCHEMA document) (\<lambda>_.
       (case document of
          JObj d \<Rightarrow> (case dget d ''input_schema'' of
                      None \<Rightarrow> Inl KeyError
                    | Some s \<Rightarrow> validate_tool_input_schema P s ''/input_schema'')
        | _ \<Rightarrow> validate_tool_input_schema P JNull ''/input_schema''))"

text \<open>\<open>d[k]\<close> and iteration, with the exceptions Python raises on another shape.\<close>

fun item :: "json \<Rightarrow> string \<Rightarrow> json res" where
  "item (JObj d) k = (case dget d k of None \<Rightarrow> Inl KeyError | Some v \<Rightarrow> Inr v)"
| "item _ k = Inl TypeError"

fun elements :: "json \<Rightarrow> json list res" where
  "elements (JArr xs) = Inr xs"
| "elements _ = Inl TypeError"

definition check_tool ::
  "platform \<Rightarrow> nat \<times> json \<Rightarrow> json list \<Rightarrow> json list res" where
  "check_tool P it seen =
     rbind (item (snd it) ''tool_name'') (\<lambda>name.
       if py_in name seen
       then Inl (contract_violation (''/tools/'' @ string_of_nat (fst it) @ ''/tool_name''))
       else rbind (item (snd it) ''input_schema'') (\<lambda>s.
         rbind (validate_tool_input_schema P s (''/tools/'' @ string_of_nat (fst it) @ ''/input_schema''))
           (\<lambda>_. Inr (name # seen))))"

definition validate_connector_definition :: "platform \<Rightarrow> json \<Rightarrow> unit res" where
  "validate_connector_definition P document =
     rbind (require_contract_version document) (\<lambda>_.
     rbind (validate_schema P CONNECTOR_SCHEMA document) (\<lambda>_.
     rbind (item document ''tools'') (\<lambda>ts.
     rbind (elements ts) (\<lambda>xs.
     rbind (rfold (check_tool P) (indexed xs) []) (\<lambda>_. Inr ())))))"

definition check_connector ::
  "platform \<Rightarrow> nat \<times> json \<Rightarrow> json list \<Rightarrow> json list res" where
  "check_connector P it seen =
     rbind (item (snd it) ''connector_key'') (\<lambda>key.
       if py_in key seen
       then Inl (contract_violation (''/connectors/'' @ string_of_nat (fst it) @ ''/connector_key''))
       else rbind (item (snd it) ''lifecycle_state'') (\<lambda>st.
         if st \<noteq> JStr ''published''
         then Inl (contract_violation (''/connectors/'' @ string_of_nat (fst it) @ ''/lifecycle_state''))
         else rbind (validate_connector_definition P (snd it)) (\<lambda>_. Inr (key # seen))))"

definition validate_deployment_snapshot :: "platform \<Rightarrow> json \<Rightarrow> unit res" where
  "validate_deployment_snapshot P document =
     rbind (require_contract_version document) (\<lambda>_.
     rbind (validate_schema P DEPLOYMENT_SNAPSHOT_SCHEMA document) (\<lambda>_.
     rbind (item document ''connectors'') (\<lambda>cs.
     rbind (elements cs) (\<lambda>xs.
     rbind (rfold (check_connector P) (indexed xs) []) (\<lambda>_. Inr ())))))"

definition validate_error_envelope :: "platform \<Rightarrow> json \<Rightarrow> unit res" where
  "validate_error_envelope P document = validate_schema P ERROR_ENVELOPE_SCHEMA document"

section \<open>Lemmas\<close>

lemma require_contract_version_Inr:
  "require_contract_version v = Inr () \<longleftrightarrow>
     (\<exists>d. v = JObj d \<and> is_supported (jget d ''contract_version''))"
  by (cases v) (auto simp: require_contract_version_def is_supported_def is_ok_iff res_simps)

text \<open>What a validated connector and snapshot are known to satisfy.\<close>

lemma rfold_check_tool:
  assumes "rfold (check_tool P) its seen = Inr out"
  shows "list_all (\<lambda>it. \<exists>d s. snd it = JObj d \<and> dget d ''tool_name'' \<noteq> None \<and>
      dget d ''input_schema'' = Some s \<and> is_obj s \<and> schema_valid P s) its"
  using assms
proof (induction its arbitrary: seen)
  case (Cons it its)
  then obtain mid where step: "check_tool P it seen = Inr mid" and rest: "rfold (check_tool P) its mid = Inr out"
    by (auto simp: res_simps)
  have "\<exists>d s. snd it = JObj d \<and> dget d ''tool_name'' \<noteq> None \<and>
      dget d ''input_schema'' = Some s \<and> is_obj s \<and> schema_valid P s"
    using step
    by (cases "snd it")
      (auto simp: check_tool_def validate_tool_input_schema_def res_simps split: option.splits if_splits)
  with Cons.IH [OF rest] show ?case by simp
qed simp

lemma list_all_indexed: "list_all (\<lambda>it. Q (snd it)) (indexed xs) \<longleftrightarrow> list_all Q xs"
proof -
  have "map snd (indexed xs) = xs" by (simp add: indexed_def)
  then show ?thesis by (metis (no_types, lifting) list.pred_map comp_apply list.pred_cong)
qed

lemma validate_connector_Inr:
  assumes "validate_connector_definition P v = Inr ()"
  shows "\<exists>d ts. v = JObj d \<and> is_supported (jget d ''contract_version'') \<and>
    contract_errors P CONNECTOR_SCHEMA v = [] \<and> dget d ''tools'' = Some (JArr ts) \<and>
    list_all (\<lambda>t. \<exists>e s. t = JObj e \<and> dget e ''input_schema'' = Some s \<and> is_obj s \<and> schema_valid P s) ts"
proof -
  from assms obtain ts xs out where r: "require_contract_version v = Inr ()"
    and s: "validate_schema P CONNECTOR_SCHEMA v = Inr ()" and i: "item v ''tools'' = Inr ts"
    and e: "elements ts = Inr xs" and f: "rfold (check_tool P) (indexed xs) [] = Inr out"
    by (auto simp: validate_connector_definition_def res_simps)
  from r obtain d where d: "v = JObj d" "is_supported (jget d ''contract_version'')"
    by (auto simp: require_contract_version_Inr)
  from e have ts: "ts = JArr xs" by (cases ts) auto
  from i d(1) ts have "dget d ''tools'' = Some (JArr xs)" by (simp split: option.splits)
  moreover have "contract_errors P CONNECTOR_SCHEMA v = []"
    using s by (auto simp: validate_schema_def Let_def split: if_splits)
  moreover have "list_all (\<lambda>t. \<exists>e s. t = JObj e \<and> dget e ''input_schema'' = Some s \<and> is_obj s \<and>
      schema_valid P s) xs"
  proof -
    have "list_all (\<lambda>it. \<exists>e s. snd it = JObj e \<and> dget e ''input_schema'' = Some s \<and> is_obj s \<and>
        schema_valid P s) (indexed xs)"
      using rfold_check_tool [OF f] unfolding list_all_iff by blast
    then show ?thesis by (rule list_all_indexed [THEN iffD1])
  qed
  ultimately show ?thesis using d by blast
qed

end
