(* ===== verification/Canonical.thy ===== *)
theory Canonical
  imports Errors "HOL-Library.Multiset"
begin

text \<open>
  Deterministic serialization and content digests:
  \<^verbatim>\<open>packages/contracts/toollayer_contracts/canonical_json.py\<close>. The main facts are that documents that
  differ only in the order of their keys have the same bytes, and that a digest is insensitive to
  exactly the excluded top-level fields.
\<close>

section \<open>Serialization\<close>

text \<open>\<open>_assert_serializable\<close>: keys are strings by construction of the JSON type.\<close>

fun assert_serializable :: "json \<Rightarrow> unit res" where
  "assert_serializable JNull = Inr ()"
| "assert_serializable (JStr s) = Inr ()"
| "assert_serializable (JBool b) = Inr ()"
| "assert_serializable (JInt i) = Inr ()"
| "assert_serializable (JFloat f) =
     (case f of Finite q \<Rightarrow> Inr () | _ \<Rightarrow> Inl CanonicalJsonError)"
| "assert_serializable (JObj kvs) =
     rbind (rmap (\<lambda>p. assert_serializable (snd p)) kvs) (\<lambda>_. Inr ())"
| "assert_serializable (JArr xs) = rbind (rmap assert_serializable xs) (\<lambda>_. Inr ())"
| "assert_serializable (JOther t) = Inl CanonicalJsonError"

definition canonical_style :: dump_style where
  "canonical_style = \<lparr>sort_keys = True, ascii_only = False, item_sep = '','', key_sep = '':''\<rparr>"

definition canonical_json :: "platform \<Rightarrow> json \<Rightarrow> string res" where
  "canonical_json P document =
     rbind (assert_serializable document) (\<lambda>_. Inr (dumps P canonical_style document))"

definition canonical_bytes :: "platform \<Rightarrow> json \<Rightarrow> string res" where
  "canonical_bytes P document = rbind (canonical_json P document) (\<lambda>t. Inr (utf8_encode t))"

section \<open>Digests\<close>

definition DIGEST_PREFIX :: string where
  "DIGEST_PREFIX = ''sha256:''"

definition SNAPSHOT_DIGEST_EXCLUDED :: "string list" where
  "SNAPSHOT_DIGEST_EXCLUDED = [''snapshot_id'', ''snapshot_digest'', ''signature'']"

definition digest_of :: "platform \<Rightarrow> string \<Rightarrow> string" where
  "digest_of P data = DIGEST_PREFIX @ sha256_hex P data"

definition content_digest :: "platform \<Rightarrow> json \<Rightarrow> string list \<Rightarrow> string res" where
  "content_digest P document exclude =
     (if exclude \<noteq> [] then
        (case document of
           JObj kvs \<Rightarrow> rbind (canonical_bytes P (JObj (ddel exclude kvs))) (\<lambda>b. Inr (digest_of P b))
         | _ \<Rightarrow> Inl CanonicalJsonError)
      else rbind (canonical_bytes P document) (\<lambda>b. Inr (digest_of P b)))"

definition verify_digest :: "platform \<Rightarrow> json \<Rightarrow> json \<Rightarrow> string list \<Rightarrow> bool" where
  "verify_digest P document expected exclude =
     (case expected of
        JStr e \<Rightarrow>
          starts_with DIGEST_PREFIX e \<and>
          (case content_digest P document exclude of Inl _ \<Rightarrow> False | Inr actual \<Rightarrow> actual = e)
      | _ \<Rightarrow> False)"

section \<open>Equality up to key order\<close>

text \<open>\<open>jnorm\<close> sorts the keys of every object; two documents are the same when their forms agree.\<close>

fun jnorm :: "json \<Rightarrow> json" where
  "jnorm (JArr xs) = JArr (map jnorm xs)"
| "jnorm (JObj kvs) = JObj (sort_key fst (map (\<lambda>p. (fst p, jnorm (snd p))) kvs))"
| "jnorm v = v"

fun keys_ok :: "json \<Rightarrow> bool" where
  "keys_ok (JArr xs) = list_all keys_ok xs"
| "keys_ok (JObj kvs) = (dict_ok kvs \<and> list_all (\<lambda>p. keys_ok (snd p)) kvs)"
| "keys_ok v = True"

lemma insort_key_map_snd:
  "insort_key fst (fst p, f (snd p)) (map (\<lambda>p. (fst p, f (snd p))) xs)
     = map (\<lambda>p. (fst p, f (snd p))) (insort_key fst p xs)"
  by (induction xs) auto

lemma sort_key_map_snd:
  "sort_key fst (map (\<lambda>p. (fst p, f (snd p))) kvs) = map (\<lambda>p. (fst p, f (snd p))) (sort_key fst kvs)"
  by (induction kvs) (simp_all add: insort_key_map_snd)

lemma sort_key_idem: "sort_key f (sort_key f xs) = sort_key f xs"
  by (simp add: sort_key_id_if_sorted)

lemma dumps_jnorm: "dumps P canonical_style (jnorm v) = dumps P canonical_style v"
proof (induction v rule: json_obj_induct)
  case (Arr xs)
  then have "map (dumps P canonical_style) (map jnorm xs) = map (dumps P canonical_style) xs"
    by simp
  then show ?case by (simp only: jnorm.simps dumps.simps)
next
  case (Obj kvs)
  define D where "D = (\<lambda>v. dumps P canonical_style v)"
  have "map (\<lambda>p. (fst p, D (snd p))) (map (\<lambda>p. (fst p, jnorm (snd p))) kvs)
      = map (\<lambda>p. (fst p, D (snd p))) kvs"
    using Obj.IH by (auto simp: D_def)
  then have "sort_key fst (map (\<lambda>p. (fst p, D (snd p)))
        (sort_key fst (map (\<lambda>p. (fst p, jnorm (snd p))) kvs)))
      = sort_key fst (map (\<lambda>p. (fst p, D (snd p))) kvs)"
    by (simp only: sort_key_map_snd [symmetric] sort_key_idem)
  then show ?case by (simp add: order_items_def canonical_style_def D_def)
qed (simp_all add: canonical_style_def)

lemma rmap_unit_ok: "is_ok (rmap f xs) \<longleftrightarrow> list_all (\<lambda>x. is_ok (f x)) xs"
  by (induction xs) (auto simp: is_ok_iff res_simps)

lemma assert_serializable_jnorm:
  "is_ok (assert_serializable (jnorm v)) = is_ok (assert_serializable v)"
proof (induction v rule: json_obj_induct)
  case (Arr xs)
  have "is_ok (assert_serializable (JArr ys)) \<longleftrightarrow> list_all (\<lambda>x. is_ok (assert_serializable x)) ys" for ys
    using rmap_unit_ok [of assert_serializable ys] by (auto simp: is_ok_iff res_simps)
  with Arr.IH show ?case by (simp add: list_all_iff)
next
  case (Obj kvs)
  have "is_ok (assert_serializable (JObj ys))
      \<longleftrightarrow> list_all (\<lambda>p. is_ok (assert_serializable (snd p))) ys" for ys
    using rmap_unit_ok [of "\<lambda>p. assert_serializable (snd p)" ys] by (auto simp: is_ok_iff res_simps)
  with Obj.IH show ?case by (auto simp: list_all_iff)
qed simp_all

lemma assert_serializable_Inl: "assert_serializable v = Inl e \<Longrightarrow> e = CanonicalJsonError"
proof (induction v rule: json_obj_induct)
  case (Float f)
  then show ?case by (cases f) auto
next
  case (Arr xs)
  then have "rmap assert_serializable xs = Inl e" by (auto simp: res_simps)
  with Arr.IH show ?case by (induction xs) (auto simp: res_simps)
next
  case (Obj kvs)
  then have "rmap (\<lambda>p. assert_serializable (snd p)) kvs = Inl e" by (auto simp: res_simps)
  with Obj.IH show ?case
  proof (induction kvs)
    case (Cons p kvs)
    then show ?case by (cases p) (auto simp: res_simps)
  qed simp
qed auto

lemma canonical_json_jnorm: "canonical_json P (jnorm v) = canonical_json P v"
  using assert_serializable_jnorm [of v] assert_serializable_Inl
  by (cases "assert_serializable (jnorm v)"; cases "assert_serializable v")
     (auto simp: canonical_json_def dumps_jnorm)

lemma canonical_bytes_jnorm: "canonical_bytes P (jnorm v) = canonical_bytes P v"
  by (simp add: canonical_bytes_def canonical_json_jnorm)

text \<open>Two permuted dictionaries have the same normal form.\<close>

lemma jnorm_perm:
  assumes "mset kvs = mset kvs'" and "dict_ok kvs"
  shows "jnorm (JObj kvs) = jnorm (JObj kvs')"
proof -
  let ?g = "\<lambda>p. (fst p, jnorm (snd p))"
  have "map fst (map ?g kvs) = dkeys kvs" by (simp add: dkeys_def comp_def)
  with assms(2) have "distinct (map fst (map ?g kvs))" by (simp only: dict_ok_def)
  then have "inj_on fst (set (map ?g kvs))" by (simp only: distinct_map)
  moreover have "mset (map ?g kvs) = mset (sort_key fst (map ?g kvs'))" using assms(1) by simp
  ultimately have "sort_key fst (map ?g kvs) = sort_key fst (map ?g kvs')"
    by (intro sort_key_inj_key_eq) simp_all
  then show ?thesis by simp
qed

lemma content_digest_Inr_prefix:
  "content_digest P d ex = Inr s \<Longrightarrow> starts_with DIGEST_PREFIX s"
  by (auto simp: content_digest_def digest_of_def res_simps split: if_splits json.splits)

lemma verify_digest_iff:
  "verify_digest P d (JStr e) ex \<longleftrightarrow> content_digest P d ex = Inr e"
  using content_digest_Inr_prefix by (auto simp: verify_digest_def split: sum.splits)

lemma content_digest_excluded:
  assumes "ex \<noteq> []" and "ddel ex d = ddel ex d'"
  shows "content_digest P (JObj d) ex = content_digest P (JObj d') ex"
  using assms by (simp add: content_digest_def)

lemma ddel_append: "ddel ks (d @ e) = ddel ks d @ ddel ks e"
  by (simp add: ddel_def)

lemma ddel_dset: "k \<in> set ks \<Longrightarrow> ddel ks (dset k v d) = ddel ks d"
proof (induction d)
  case (Cons p d)
  then show ?case by (cases p) (auto simp: ddel_def)
qed (simp add: ddel_def)

lemma ddel_absent: "set ks \<inter> set (dkeys d) = {} \<Longrightarrow> ddel ks d = d"
  by (induction d) (auto simp: ddel_def dkeys_def)

text \<open>Excluding fields commutes with forgetting the order of keys.\<close>

lemma jnorm_items:
  assumes "jnorm (JObj d) = jnorm (JObj e)"
  shows "mset (map (\<lambda>p. (fst p, jnorm (snd p))) d) = mset (map (\<lambda>p. (fst p, jnorm (snd p))) e)"
proof -
  let ?g = "map (\<lambda>p. (fst p, jnorm (snd p)))"
  from assms have "sort_key fst (?g d) = sort_key fst (?g e)" by simp
  then have "mset (sort_key fst (?g d)) = mset (sort_key fst (?g e))" by (rule arg_cong)
  then show ?thesis by (simp only: mset_sort)
qed

lemma map_ddel:
  "map (\<lambda>p. (fst p, f (snd p))) (ddel ks d) = ddel ks (map (\<lambda>p. (fst p, f (snd p))) d)"
  by (induction d) (auto simp: ddel_def)

lemma jnorm_ddel:
  assumes "jnorm (JObj d) = jnorm (JObj e)" and "dict_ok d"
  shows "jnorm (JObj (ddel ks d)) = jnorm (JObj (ddel ks e))"
proof -
  let ?g = "map (\<lambda>p. (fst p, jnorm (snd p)))"
  have "mset (ddel ks (?g d)) = mset (ddel ks (?g e))"
    unfolding ddel_def using jnorm_items [OF assms(1)] by (simp only: mset_filter)
  then have m: "mset (?g (ddel ks d)) = mset (sort_key fst (?g (ddel ks e)))"
    by (simp add: map_ddel)
  have "distinct (map fst (?g (ddel ks d)))"
    using dict_ok_ddel [OF assms(2), of ks] by (simp add: dict_ok_def dkeys_def comp_def)
  then have "inj_on fst (set (?g (ddel ks d)))" by (simp only: distinct_map)
  with m have "sort_key fst (?g (ddel ks d)) = sort_key fst (?g (ddel ks e))"
    by (intro sort_key_inj_key_eq) simp_all
  then show ?thesis by simp
qed

section \<open>Properties\<close>

text \<open>
  C28: Two documents that differ only in the order of the keys of their objects, at any depth, have
  the same digest and the same canonical bytes, and both are rejected or neither is.
\<close>

theorem digest_ignores_key_order:
  assumes "jnorm (JObj d) = jnorm (JObj e)" and "keys_ok (JObj d)"
  shows "canonical_bytes P (JObj d) = canonical_bytes P (JObj e) \<and>
    content_digest P (JObj d) ex = content_digest P (JObj e) ex"
proof -
  have bytes: "canonical_bytes P (JObj a) = canonical_bytes P (JObj b)"
    if "jnorm (JObj a) = jnorm (JObj b)" for a b
    using that canonical_bytes_jnorm by metis
  have "jnorm (JObj (ddel ex d)) = jnorm (JObj (ddel ex e))"
    using assms by (intro jnorm_ddel) auto
  then show ?thesis
    using bytes [OF assms(1)] bytes [of "ddel ex d" "ddel ex e"] by (simp add: content_digest_def)
qed

lemma digest_ignores_key_order_witness:
  "content_digest sample_platform (JObj [(''b'', JInt 1), (''a'', JObj [(''y'', JNull), (''x'', JBool True)])]) [''z'']
     = content_digest sample_platform (JObj [(''a'', JObj [(''x'', JBool True), (''y'', JNull)]), (''b'', JInt 1)]) [''z'']"
proof -
  have "jnorm (JObj [(''b'', JInt 1), (''a'', JObj [(''y'', JNull), (''x'', JBool True)])])
      = jnorm (JObj [(''a'', JObj [(''x'', JBool True), (''y'', JNull)]), (''b'', JInt 1)])"
    by code_simp
  moreover have "keys_ok (JObj [(''b'', JInt 1), (''a'', JObj [(''y'', JNull), (''x'', JBool True)])])"
    by code_simp
  ultimately show ?thesis using digest_ignores_key_order by blast
qed

text \<open>
  A digest depends on exactly the fields that are not excluded: changing an excluded field never
  changes it, and a verification succeeds only for the digest that is recomputed.
\<close>

theorem digest_excludes_exactly:
  assumes "ex \<noteq> []" and "k \<in> set ex"
  shows "content_digest P (JObj (dset k v d)) ex = content_digest P (JObj d) ex \<and>
    (verify_digest P (JObj (dset k v d)) w ex \<longleftrightarrow>
      (\<exists>e. w = JStr e \<and> content_digest P (JObj d) ex = Inr e))"
proof -
  have "ddel ex (dset k v d) = ddel ex d"
    using assms(2) by (rule ddel_dset)
  then have "content_digest P (JObj (dset k v d)) ex = content_digest P (JObj d) ex"
    using assms(1) by (simp add: content_digest_def)
  moreover have "verify_digest P (JObj (dset k v d)) w ex \<longleftrightarrow>
      (\<exists>e. w = JStr e \<and> content_digest P (JObj (dset k v d)) ex = Inr e)"
    by (cases w) (simp_all add: verify_digest_iff, simp_all add: verify_digest_def)
  ultimately show ?thesis by simp
qed

lemma digest_excludes_exactly_witness:
  "content_digest sample_platform (JObj (dset ''signature'' (JStr ''x'') [(''a'', JInt 1)])) SNAPSHOT_DIGEST_EXCLUDED
     = content_digest sample_platform (JObj [(''a'', JInt 1)]) SNAPSHOT_DIGEST_EXCLUDED"
  using digest_excludes_exactly [of SNAPSHOT_DIGEST_EXCLUDED "''signature''" sample_platform "JStr ''x''"
      "[(''a'', JInt 1)]"]
  by (simp add: SNAPSHOT_DIGEST_EXCLUDED_def)

end
