(* ===== verification/Signing.thy ===== *)
theory Signing
  imports Canonical Patterns
begin

text \<open>
  Producer signatures: \<^verbatim>\<open>packages/contracts/toollayer_contracts/signing.py\<close>. Base64url is modelled down
  to the lenient decoder of \<^verbatim>\<open>binascii\<close>; the Ed25519 operations are the ones of \<open>platform\<close>, and
  \<open>ed25519_correct\<close> states what their documentation promises.
\<close>

section \<open>Base64url\<close>

text \<open>The alphabets; \<open>urlsafe_b64decode\<close> also accepts the standard \<open>+\<close> and \<open>/\<close>.\<close>

definition b64u_char :: "nat \<Rightarrow> char" where
  "b64u_char v =
     (if v < 26 then char_of (65 + v) else if v < 52 then char_of (71 + v)
      else if v < 62 then char_of (v - 4) else if v = 62 then CHR ''-'' else CHR ''_'')"

definition b64_value :: "char \<Rightarrow> nat option" where
  "b64_value c =
     (if is_upper c then Some (code c - 65) else if is_lower c then Some (code c - 71)
      else if is_digit c then Some (code c + 4)
      else if c = CHR ''-'' \<or> c = CHR ''+'' then Some 62
      else if c = CHR ''_'' \<or> c = CHR ''/'' then Some 63 else None)"

text \<open>\<open>urlsafe_b64encode(raw)\<close> without its padding.\<close>

fun b64u_encode :: "string \<Rightarrow> string" where
  "b64u_encode [] = []"
| "b64u_encode [a] = [b64u_char (code a div 4), b64u_char (code a mod 4 * 16)]"
| "b64u_encode [a, b] =
     [b64u_char (code a div 4), b64u_char (code a mod 4 * 16 + code b div 16),
      b64u_char (code b mod 16 * 4)]"
| "b64u_encode (a # b # c # s) =
     b64u_char (code a div 4) # b64u_char (code a mod 4 * 16 + code b div 16)
       # b64u_char (code b mod 16 * 4 + code c div 64) # b64u_char (code c mod 64) # b64u_encode s"

text \<open>
  \<^verbatim>\<open>binascii.a2b_base64\<close> in its lenient mode: characters outside the alphabet are skipped, a complete
  padding ends the input, and \<open>None\<close> is \<open>binascii.Error\<close>. The first three arguments are the position
  in the quadruple, the pending bits and the padding characters seen.
\<close>

fun a2b_base64 :: "nat \<Rightarrow> nat \<Rightarrow> nat \<Rightarrow> string \<Rightarrow> string option" where
  "a2b_base64 q left pads [] = (if q = 0 then Some [] else None)"
| "a2b_base64 q left pads (c # cs) =
     (if c = CHR ''='' then
        (if 2 \<le> q \<and> 4 \<le> q + pads + 1 then Some []
         else a2b_base64 q left (if 2 \<le> q then pads + 1 else pads) cs)
      else
        (case b64_value c of
           None \<Rightarrow> a2b_base64 q left pads cs
         | Some v \<Rightarrow>
             if q = 0 then a2b_base64 1 v 0 cs
             else if q = 1
             then map_option (Cons (char_of (left * 4 + v div 16))) (a2b_base64 2 (v mod 16) 0 cs)
             else if q = 2
             then map_option (Cons (char_of (left * 16 + v div 4))) (a2b_base64 3 (v mod 4) 0 cs)
             else map_option (Cons (char_of (left * 64 + v))) (a2b_base64 0 0 0 cs)))"

definition b64u_decode :: "json \<Rightarrow> nat option \<Rightarrow> string res" where
  "b64u_decode v expected_length =
     (case v of
        JStr s \<Rightarrow>
          if s = [] then Inl InvalidKeyMaterial
          else
            (let padded = s @ replicate ((4 - length s mod 4) mod 4) CHR ''='' in
             if \<not> list_all is_ascii padded then Inl InvalidKeyMaterial
             else (case a2b_base64 0 0 0 padded of
                     None \<Rightarrow> Inl InvalidKeyMaterial
                   | Some raw \<Rightarrow>
                       if expected_length \<noteq> None \<and> expected_length \<noteq> Some (length raw)
                       then Inl InvalidKeyMaterial else Inr raw))
      | _ \<Rightarrow> Inl InvalidKeyMaterial)"

section \<open>Keys\<close>

definition SIGNATURE_ALGORITHM :: string where
  "SIGNATURE_ALGORITHM = ''ed25519''"

definition SIGNATURE_EXCLUDED_FIELD :: string where
  "SIGNATURE_EXCLUDED_FIELD = ''signature''"

text \<open>\<open>_KEY_ID_PATTERN.match\<close>: the pattern ends in \<open>$\<close>, so one trailing line feed is accepted.\<close>

definition require_key_id :: "string \<Rightarrow> string res" where
  "require_key_id k =
     (if key_id_ok k \<or> k \<noteq> [] \<and> last k = newline \<and> key_id_ok (butlast k)
      then Inr k else Inl InvalidKeyMaterial)"

record verifying_key =
  ver_key_id :: string
  ver_public :: string

definition verifying_key_from_encoded :: "string \<Rightarrow> string \<Rightarrow> verifying_key res" where
  "verifying_key_from_encoded key_id public_key =
     rbind (b64u_decode (JStr public_key) (Some 32)) (\<lambda>raw.
     rbind (require_key_id key_id) (\<lambda>k. Inr \<lparr>ver_key_id = k, ver_public = raw\<rparr>))"

definition key_verify :: "platform \<Rightarrow> verifying_key \<Rightarrow> string \<Rightarrow> string \<Rightarrow> bool" where
  "key_verify P key message sig = (length sig = 64 \<and> ed_verify P (ver_public key) message sig)"

record signing_key =
  sk_key_id :: string
  sk_seed :: string

definition signing_key_from_encoded :: "string \<Rightarrow> string \<Rightarrow> signing_key res" where
  "signing_key_from_encoded key_id private_key =
     rbind (b64u_decode (JStr private_key) (Some 32)) (\<lambda>raw.
     rbind (require_key_id key_id) (\<lambda>k. Inr \<lparr>sk_key_id = k, sk_seed = raw\<rparr>))"

definition public_key :: "platform \<Rightarrow> signing_key \<Rightarrow> verifying_key" where
  "public_key P k = \<lparr>ver_key_id = sk_key_id k, ver_public = ed_public P (sk_seed k)\<rparr>"

definition encoded_public_key :: "platform \<Rightarrow> signing_key \<Rightarrow> string" where
  "encoded_public_key P k = b64u_encode (ed_public P (sk_seed k))"

definition encoded_private_key :: "signing_key \<Rightarrow> string" where
  "encoded_private_key k = b64u_encode (sk_seed k)"

section \<open>The trusted key ring\<close>

type_synonym key_ring = "verifying_key list"

definition EMPTY_KEY_RING :: key_ring where
  "EMPTY_KEY_RING = []"

definition ring_key_ids :: "key_ring \<Rightarrow> string list" where
  "ring_key_ids ring = map ver_key_id ring"

definition ring_add :: "string \<Rightarrow> key_ring \<Rightarrow> key_ring res" where
  "ring_add entry ring =
     (let (key_id, separator, encoded) = partition_on CHR '':'' entry in
      if \<not> separator then Inl InvalidKeyMaterial
      else rbind (verifying_key_from_encoded (str_strip key_id) (str_strip encoded)) (\<lambda>key.
        if ver_key_id key \<in> set (ring_key_ids ring) then Inl InvalidKeyMaterial
        else Inr (ring @ [key])))"

definition ring_parse :: "string list \<Rightarrow> key_ring res" where
  "ring_parse entries = rfold ring_add entries []"

definition ring_find :: "key_ring \<Rightarrow> string \<Rightarrow> verifying_key option" where
  "ring_find ring key_id = first_match (\<lambda>k. ver_key_id k = key_id) ring"

section \<open>Signing and verifying documents\<close>

definition signing_input :: "platform \<Rightarrow> json dict \<Rightarrow> string res" where
  "signing_input P document = canonical_bytes P (JObj (ddel [SIGNATURE_EXCLUDED_FIELD] document))"

definition sign_document :: "platform \<Rightarrow> json dict \<Rightarrow> signing_key \<Rightarrow> json res" where
  "sign_document P document key =
     rbind (signing_input P document) (\<lambda>msg.
       Inr (JObj [(''algorithm'', JStr SIGNATURE_ALGORITHM), (''key_id'', JStr (sk_key_id key)),
                  (''value'', JStr (b64u_encode (ed_sign P (sk_seed key) msg)))]))"

definition verify_document :: "platform \<Rightarrow> json dict \<Rightarrow> key_ring \<Rightarrow> string res" where
  "verify_document P document ring =
     (case jget document SIGNATURE_EXCLUDED_FIELD of
        JObj block \<Rightarrow>
          if jget block ''algorithm'' \<noteq> JStr SIGNATURE_ALGORITHM then Inl SignatureVerificationError
          else
            (case jget block ''key_id'' of
               JStr key_id \<Rightarrow>
                 if key_id = [] then Inl SignatureVerificationError
                 else if ring = [] then Inl SignatureVerificationError
                 else
                   (case ring_find ring key_id of
                      None \<Rightarrow> Inl SignatureVerificationError
                    | Some key \<Rightarrow>
                        (case jget block ''value'' of
                           JStr v \<Rightarrow>
                             rbind (catching (\<lambda>e. e = InvalidKeyMaterial)
                                      (\<lambda>_. Inl SignatureVerificationError)
                                      (b64u_decode (JStr v) (Some 64))) (\<lambda>sig.
                             rbind (signing_input P document) (\<lambda>msg.
                               if \<not> key_verify P key msg sig then Inl SignatureVerificationError
                               else Inr (ver_key_id key)))
                         | _ \<Rightarrow> Inl SignatureVerificationError))
             | _ \<Rightarrow> Inl SignatureVerificationError)
      | _ \<Rightarrow> Inl SignatureVerificationError)"

text \<open>What the documentation of Ed25519 promises.\<close>

definition ed25519_correct :: "platform \<Rightarrow> bool" where
  "ed25519_correct P \<longleftrightarrow>
     (\<forall>seed msg. length seed = 32 \<longrightarrow>
        length (ed_public P seed) = 32 \<and> length (ed_sign P seed msg) = 64 \<and>
        ed_verify P (ed_public P seed) msg (ed_sign P seed msg))"

section \<open>Lemmas\<close>

lemma b64_value_b64u_char: "v < 64 \<Longrightarrow> b64_value (b64u_char v) = Some v"
  unfolding b64u_char_def b64_value_def is_upper_def is_lower_def is_digit_def by auto

lemma b64u_char_not_pad: "v < 64 \<Longrightarrow> b64u_char v \<noteq> CHR ''=''"
  using b64_value_b64u_char [of v]
  by (auto simp: b64_value_def is_upper_def is_lower_def is_digit_def)

lemma b64u_char_ascii: "v < 64 \<Longrightarrow> is_ascii (b64u_char v)"
  unfolding b64u_char_def is_ascii_def by auto

lemma a2b_data:
  assumes "v < 64"
  shows "a2b_base64 q left pads (b64u_char v # cs) =
    (if q = 0 then a2b_base64 1 v 0 cs
     else if q = 1
     then map_option (Cons (char_of (left * 4 + v div 16))) (a2b_base64 2 (v mod 16) 0 cs)
     else if q = 2
     then map_option (Cons (char_of (left * 16 + v div 4))) (a2b_base64 3 (v mod 4) 0 cs)
     else map_option (Cons (char_of (left * 64 + v))) (a2b_base64 0 0 0 cs))"
  using b64_value_b64u_char [OF assms] b64u_char_not_pad [OF assms] by simp

lemma code_quot_lt [simp]: "code c div 4 < 64" "code c div 16 < 16" "code c div 64 < 4"
  using code_lt_256 [of c] by (simp_all add: div_less_iff_less_mult)

lemma char_of_code: "n = code c \<Longrightarrow> char_of n = c"
  by simp

lemma byte_join:
  "char_of (code a div 4 * 4 + (code a mod 4 * 16 + d) div 16) = a" if "d < 16" for d
proof -
  have "(code a mod 4 * 16 + d) div 16 = code a mod 4" using that by simp
  then show ?thesis by simp
qed

lemma byte_join2:
  "char_of ((x * 16 + code b div 16) mod 16 * 16 + (code b mod 16 * 4 + d) div 4) = b"
  if "d < 4" for d
proof -
  have "(x * 16 + code b div 16) mod 16 = code b div 16" by simp
  moreover have "(code b mod 16 * 4 + d) div 4 = code b mod 16" using that by simp
  ultimately show ?thesis by simp
qed

lemma byte_join3: "char_of ((x * 4 + code c div 64) mod 4 * 64 + code c mod 64) = c"
proof -
  have "(x * 4 + code c div 64) mod 4 = code c div 64" by simp
  then show ?thesis by simp
qed

definition b64_pad :: "string \<Rightarrow> string" where
  "b64_pad s = replicate ((4 - length s mod 4) mod 4) CHR ''=''"

lemma b64_pad_block: "b64_pad (a # b # c # d # s) = b64_pad s"
  by (simp add: b64_pad_def)

lemma b64_pad_short: "b64_pad [] = []" "b64_pad [x, y] = ''==''" "b64_pad [x, y, z] = ''=''"
  by (simp_all add: b64_pad_def numeral_2_eq_2)

lemma a2b_pad: "a2b_base64 2 l 0 ''=='' = Some []" "a2b_base64 3 l 0 ''='' = Some []"
  by simp_all

lemma sextet_lt: "code a mod 4 * 16 + code b div 16 < 64" "code b mod 16 * 4 + code c div 64 < 64"
  "code a mod 4 * 16 < 64" "code b mod 16 * 4 < 64" "code c mod 64 < 64"
proof -
  have "x < 4 \<Longrightarrow> y < 16 \<Longrightarrow> x * 16 + y < 64" "x < 16 \<Longrightarrow> y < 4 \<Longrightarrow> x * 4 + y < 64"
    for x y :: nat by simp_all
  then show "code a mod 4 * 16 + code b div 16 < 64" "code b mod 16 * 4 + code c div 64 < 64"
    using code_quot_lt by (metis mod_less_divisor zero_less_numeral)+
qed simp_all

lemma a2b_block:
  assumes "v0 < 64" "v1 < 64" "v2 < 64" "v3 < 64"
  shows "a2b_base64 0 l p (b64u_char v0 # b64u_char v1 # b64u_char v2 # b64u_char v3 # cs) =
    map_option (\<lambda>r. char_of (v0 * 4 + v1 div 16) # char_of (v1 mod 16 * 16 + v2 div 4)
      # char_of (v2 mod 4 * 64 + v3) # r) (a2b_base64 0 0 0 cs)"
  using assms by (simp add: a2b_data option.map_comp comp_def del: a2b_base64.simps)

lemma a2b_two:
  assumes "v0 < 64" "v1 < 64"
  shows "a2b_base64 0 l p (b64u_char v0 # b64u_char v1 # ''=='') = Some [char_of (v0 * 4 + v1 div 16)]"
  using assms by (simp add: a2b_data a2b_pad del: a2b_base64.simps)

lemma a2b_three:
  assumes "v0 < 64" "v1 < 64" "v2 < 64"
  shows "a2b_base64 0 l p (b64u_char v0 # b64u_char v1 # b64u_char v2 # ''='') =
    Some [char_of (v0 * 4 + v1 div 16), char_of (v1 mod 16 * 16 + v2 div 4)]"
  using assms by (simp add: a2b_data a2b_pad del: a2b_base64.simps)

lemma a2b_encode: "a2b_base64 0 l p (b64u_encode s @ b64_pad (b64u_encode s)) = Some s"
proof (induction s arbitrary: l p rule: b64u_encode.induct)
  case 1
  show ?case by (simp add: b64_pad_short)
next
  case (2 a)
  show ?case
    unfolding b64u_encode.simps b64_pad_short append_Cons append_Nil
      a2b_two [OF code_quot_lt(1) sextet_lt(3)]
    using byte_join [of 0 a] by simp
next
  case (3 a b)
  show ?case
    unfolding b64u_encode.simps b64_pad_short append_Cons append_Nil
      a2b_three [OF code_quot_lt(1) sextet_lt(1) sextet_lt(4)]
    using byte_join [OF code_quot_lt(2)] byte_join2 [of 0 "code a mod 4" b] by simp
next
  case (4 a b c s)
  have tail: "a2b_base64 0 0 0 (b64u_encode s @ b64_pad (b64u_encode s)) = Some s" by (rule 4)
  show ?case
    unfolding b64u_encode.simps b64_pad_block append_Cons
      a2b_block [OF code_quot_lt(1) sextet_lt(1,2,5)] tail option.map
    using byte_join [OF code_quot_lt(2)] byte_join2 [OF code_quot_lt(3)] byte_join3 by simp
qed

lemma b64u_encode_ascii: "list_all is_ascii (b64u_encode s)"
  by (induction s rule: b64u_encode.induct) (simp_all add: b64u_char_ascii sextet_lt)

lemma b64_pad_ascii: "list_all is_ascii (b64_pad s)"
  by (simp add: b64_pad_def list_all_iff is_ascii_def)

lemma b64u_encode_Nil_iff: "b64u_encode s = [] \<longleftrightarrow> s = []"
  by (cases s rule: b64u_encode.cases) simp_all

lemma b64u_decode_encode:
  "s \<noteq> [] \<Longrightarrow> n = None \<or> n = Some (length s) \<Longrightarrow> b64u_decode (JStr (b64u_encode s)) n = Inr s"
  unfolding b64u_decode_def Let_def b64_pad_def [symmetric] json.case
  using a2b_encode [of 0 0 s] b64u_encode_ascii [of s] b64_pad_ascii [of "b64u_encode s"]
  by (auto simp: b64u_encode_Nil_iff)

lemma b64u_decode_length:
  "b64u_decode v (Some n) = Inr raw \<Longrightarrow> length raw = n"
  by (auto simp: b64u_decode_def Let_def split: json.splits if_splits option.splits)

lemma b64u_decode_Inl: "b64u_decode v n = Inl e \<Longrightarrow> e = InvalidKeyMaterial"
  by (auto simp: b64u_decode_def Let_def split: json.splits if_splits option.splits)

text \<open>A ring never lists a key id twice, so looking a key up is unambiguous.\<close>

definition ring_ok :: "key_ring \<Rightarrow> bool" where
  "ring_ok ring \<longleftrightarrow> distinct (ring_key_ids ring) \<and> list_all (\<lambda>k. length (ver_public k) = 32) ring"

lemma ring_add_ok: "ring_ok ring \<Longrightarrow> ring_add e ring = Inr ring' \<Longrightarrow> ring_ok ring'"
  by (auto simp: ring_add_def ring_ok_def ring_key_ids_def verifying_key_from_encoded_def res_simps
      Let_def partition_on_def dest: b64u_decode_length split: if_splits)

lemma ring_parse_ok: "ring_parse es = Inr ring \<Longrightarrow> ring_ok ring"
  unfolding ring_parse_def
  by (erule rfold_invariant [where P = ring_ok])
    (auto intro: ring_add_ok, simp add: ring_ok_def ring_key_ids_def)

lemma ring_find_Some: "ring_find ring i = Some k \<Longrightarrow> k \<in> set ring \<and> ver_key_id k = i"
  unfolding ring_find_def by (rule first_match_Some)

text \<open>The accepting path of the verifier, and its failures.\<close>

lemma verify_document_Inr:
  assumes "verify_document P doc ring = Inr kid"
  obtains block v key sig msg where "jget doc SIGNATURE_EXCLUDED_FIELD = JObj block"
    and "jget block ''algorithm'' = JStr SIGNATURE_ALGORITHM" and "jget block ''key_id'' = JStr kid"
    and "jget block ''value'' = JStr v" and "ring_find ring kid = Some key" and "ver_key_id key = kid"
    and "b64u_decode (JStr v) (Some 64) = Inr sig" and "signing_input P doc = Inr msg"
    and "key_verify P key msg sig"
proof -
  from assms obtain block where b: "jget doc SIGNATURE_EXCLUDED_FIELD = JObj block"
    by (auto simp: verify_document_def split: json.splits)
  from assms b obtain k where a: "jget block ''algorithm'' = JStr SIGNATURE_ALGORITHM"
    and k: "jget block ''key_id'' = JStr k"
    by (auto simp: verify_document_def split: json.splits if_splits)
  from assms b a k obtain key where key: "ring_find ring k = Some key"
    by (auto simp: verify_document_def split: option.splits if_splits)
  from assms b a k key obtain v where v: "jget block ''value'' = JStr v"
    by (auto simp: verify_document_def split: json.splits if_splits)
  from assms b a k key v obtain sig msg where "b64u_decode (JStr v) (Some 64) = Inr sig"
    "signing_input P doc = Inr msg" "key_verify P key msg sig" "ver_key_id key = kid"
    by (auto simp: verify_document_def res_simps split: if_splits)
  with that b a k v key ring_find_Some [OF key] show thesis by blast
qed

text \<open>Every configured entry is in the ring it was parsed into.\<close>

definition parse_entry :: "string \<Rightarrow> verifying_key res" where
  "parse_entry entry =
     (let (key_id, separator, encoded) = partition_on CHR '':'' entry in
      if \<not> separator then Inl InvalidKeyMaterial
      else verifying_key_from_encoded (str_strip key_id) (str_strip encoded))"

lemma ring_add_Inr:
  "ring_add e ring = Inr ring' \<longleftrightarrow>
     (\<exists>k. parse_entry e = Inr k \<and> ver_key_id k \<notin> set (ring_key_ids ring) \<and> ring' = ring @ [k])"
  by (auto simp: ring_add_def parse_entry_def Let_def res_simps split: prod.splits if_splits)

lemma ring_parse_members:
  "rfold ring_add es r0 = Inr r \<Longrightarrow>
     set r0 \<subseteq> set r \<and> (\<forall>e\<in>set es. \<exists>k\<in>set r. parse_entry e = Inr k)"
proof (induction es arbitrary: r0)
  case (Cons e es)
  then obtain r1 where r1: "ring_add e r0 = Inr r1" and "rfold ring_add es r1 = Inr r"
    by (auto simp: res_simps)
  with Cons.IH have "set r1 \<subseteq> set r \<and> (\<forall>e\<in>set es. \<exists>k\<in>set r. parse_entry e = Inr k)" by blast
  with r1 show ?case by (auto simp: ring_add_Inr)
qed simp

lemma ring_find_member:
  assumes "ring_ok ring" and "k \<in> set ring"
  shows "ring_find ring (ver_key_id k) = Some k"
proof -
  have inj: "inj_on ver_key_id (set ring)"
    using assms(1) by (simp add: ring_ok_def ring_key_ids_def distinct_map)
  obtain u where u: "ring_find ring (ver_key_id k) = Some u"
    using assms(2) first_match_None [of "\<lambda>x. ver_key_id x = ver_key_id k" ring]
    unfolding ring_find_def by (cases "first_match (\<lambda>x. ver_key_id x = ver_key_id k) ring") auto
  with inj assms(2) show ?thesis using ring_find_Some [OF u] by (auto dest: inj_onD)
qed

lemma str_strip_id:
  assumes "list_all (\<lambda>c. \<not> is_space c) s"
  shows "str_strip s = s"
proof -
  have "dropWhile is_space t = t" if "list_all (\<lambda>c. \<not> is_space c) t" for t
    using that by (cases t) auto
  with assms show ?thesis
    by (simp add: str_strip_def strip_by_def rstrip_by_def lstrip_by_def)
qed

lemma key_id_char_plain: "is_key_id_char c \<Longrightarrow> \<not> is_space c \<and> c \<noteq> CHR '':''"
  by (auto simp: is_key_id_char_def is_lower_or_digit_def is_lower_def is_digit_def is_space_def)

lemma b64u_char_plain: "v < 64 \<Longrightarrow> \<not> is_space (b64u_char v)"
  unfolding b64u_char_def is_space_def by auto

lemma b64u_encode_plain: "list_all (\<lambda>c. \<not> is_space c) (b64u_encode s)"
  by (induction s rule: b64u_encode.induct) (simp_all add: b64u_char_plain sextet_lt)

text \<open>The entry an operator writes for a signing key parses to its public key.\<close>

lemma parse_entry_public_key:
  assumes "ed25519_correct P" and "length (sk_seed key) = 32" and "key_id_ok (sk_key_id key)"
  shows "parse_entry (sk_key_id key @ '':'' @ encoded_public_key P key) = Inr (public_key P key)"
proof -
  let ?raw = "ed_public P (sk_seed key)"
  have len: "length ?raw = 32" using assms(1,2) by (simp add: ed25519_correct_def)
  then have dec: "b64u_decode (JStr (b64u_encode ?raw)) (Some 32) = Inr ?raw"
    using b64u_decode_encode [of ?raw "Some 32"] by (cases ?raw) auto
  have plain: "list_all is_key_id_char (sk_key_id key)"
    using assms(3) by (simp add: key_id_ok_def)
  have "\<forall>c\<in>set (sk_key_id key). c \<noteq> CHR '':''" and sp: "list_all (\<lambda>c. \<not> is_space c) (sk_key_id key)"
    using plain key_id_char_plain by (auto simp: list_all_iff)
  then have "partition_on CHR '':'' (sk_key_id key @ '':'' @ b64u_encode ?raw)
      = (sk_key_id key, True, b64u_encode ?raw)"
    by (simp add: partition_on_def takeWhile_append2 dropWhile_append2)
  then show ?thesis
    using dec assms(3) str_strip_id [OF sp] str_strip_id [OF b64u_encode_plain]
    by (simp add: parse_entry_def encoded_public_key_def verifying_key_from_encoded_def
        require_key_id_def public_key_def)
qed

text \<open>Signing and attaching the block gives a document the ring accepts.\<close>

lemma verify_signed:
  assumes "ed25519_correct P" and "length (sk_seed key) = 32" and "key_id_ok (sk_key_id key)"
    and "ring_parse entries = Inr ring"
    and "sk_key_id key @ '':'' @ encoded_public_key P key \<in> set entries"
    and "sign_document P doc key = Inr block"
  shows "verify_document P (dset ''signature'' block doc) ring = Inr (sk_key_id key)"
proof -
  let ?sig = "\<lambda>msg. ed_sign P (sk_seed key) msg"
  obtain msg where msg: "signing_input P doc = Inr msg"
    and b: "block = JObj [(''algorithm'', JStr SIGNATURE_ALGORITHM), (''key_id'', JStr (sk_key_id key)),
                  (''value'', JStr (b64u_encode (?sig msg)))]"
    using assms(6) by (auto simp: sign_document_def res_simps)
  have len: "length (?sig msg) = 64"
    and ver: "ed_verify P (ed_public P (sk_seed key)) msg (?sig msg)"
    using assms(1,2) by (simp_all add: ed25519_correct_def)
  have "public_key P key \<in> set ring"
    using ring_parse_members [OF assms(4) [unfolded ring_parse_def]] assms(5)
      parse_entry_public_key [OF assms(1-3)] by force
  then have find: "ring_find ring (sk_key_id key) = Some (public_key P key)"
    using ring_find_member [OF ring_parse_ok [OF assms(4)]] by (force simp: public_key_def)
  then have "ring \<noteq> []" by (auto simp: ring_find_def)
  moreover have "sk_key_id key \<noteq> []" using assms(3) by (auto simp: key_id_ok_def)
  moreover have "b64u_decode (JStr (b64u_encode (?sig msg))) (Some 64) = Inr (?sig msg)"
    using b64u_decode_encode [of "?sig msg" "Some 64"] len by (cases "?sig msg") auto
  moreover have "signing_input P (dset ''signature'' block doc) = Inr msg"
    using msg by (simp add: signing_input_def SIGNATURE_EXCLUDED_FIELD_def ddel_dset)
  ultimately show ?thesis
    using find len ver
    by (simp add: verify_document_def SIGNATURE_EXCLUDED_FIELD_def b jget_def key_verify_def
        public_key_def SIGNATURE_ALGORITHM_def)
qed

text \<open>The shape of an encoded signature.\<close>

lemma b64u_encode_length:
  "length (b64u_encode s) = 4 * (length s div 3) + (if length s mod 3 = 0 then 0 else length s mod 3 + 1)"
proof (induction s rule: b64u_encode.induct)
  case (4 a b c s)
  have len: "length (a # b # c # s) = length s + 3" by simp
  have "(length s + 3) div 3 = length s div 3 + 1" "(length s + 3) mod 3 = length s mod 3" by simp_all
  with 4 show ?case unfolding len by simp
qed simp_all

lemma b64u_char_alphabet: "v < 64 \<Longrightarrow> is_b64u (b64u_char v)"
  unfolding b64u_char_def is_b64u_def is_alnum_def is_alpha_def is_upper_def is_lower_def is_digit_def
  by auto

lemma b64u_encode_alphabet: "list_all is_b64u (b64u_encode s)"
  by (induction s rule: b64u_encode.induct) (simp_all add: b64u_char_alphabet sextet_lt)

lemma signature_encoding_ok: "length sig = 64 \<Longrightarrow> signature_value_ok (b64u_encode sig)"
  using b64u_encode_length [of sig] by (simp add: signature_value_ok_def b64u_encode_alphabet)

lemma sample_digest:
  assumes "assert_serializable (JObj (ddel ex d)) = Inr ()" and "ex \<noteq> []"
  shows "content_digest sample_platform (JObj d) ex = Inr (''sha256:'' @ replicate 64 CHR ''0'')"
  using assms
  by (simp add: content_digest_def canonical_bytes_def canonical_json_def digest_of_def DIGEST_PREFIX_def
      sample_platform_def)

section \<open>Properties\<close>

text \<open>
  C34: A document is accepted only under a key of the configured ring: its signature block names that
  key, and the key verifies a 64-byte signature over the canonical bytes of the whole document
  without its signature field.
\<close>

theorem accepted_document_is_signed:
  assumes "verify_document P doc ring = Inr kid"
  shows "\<exists>key sig msg block. key \<in> set ring \<and> ver_key_id key = kid \<and>
    jget doc ''signature'' = JObj block \<and> jget block ''key_id'' = JStr kid \<and>
    jget block ''algorithm'' = JStr ''ed25519'' \<and>
    canonical_bytes P (JObj (ddel [''signature''] doc)) = Inr msg \<and>
    length sig = 64 \<and> ed_verify P (ver_public key) msg sig"
proof (rule verify_document_Inr [OF assms], goal_cases)
  case (1 block v key sig msg)
  with ring_find_Some [OF 1(5)] show ?case
    by (auto simp: SIGNATURE_EXCLUDED_FIELD_def SIGNATURE_ALGORITHM_def signing_input_def key_verify_def)
qed

definition example_key :: signing_key where
  "example_key = \<lparr>sk_key_id = ''k1'', sk_seed = replicate 32 CHR ''s''\<rparr>"

definition example_document :: "json dict" where
  "example_document = [(''a'', JInt 1)]"

definition example_block :: json where
  "example_block =
     (case sign_document sample_platform example_document example_key of
        Inl e \<Rightarrow> JNull | Inr b \<Rightarrow> b)"

lemma accepted_document_is_signed_witness:
  "\<exists>key. key \<in> set [public_key sample_platform example_key] \<and> ver_key_id key = ''k1''"
proof -
  have "verify_document sample_platform (dset ''signature'' example_block example_document)
      [public_key sample_platform example_key] = Inr ''k1''"
    by code_simp
  from accepted_document_is_signed [OF this] show ?thesis by blast
qed

text \<open>
  What a key holder signs, every consumer accepts whose configuration lists that public key: the
  signature survives being attached to the document, and the entry survives being rendered, parsed
  into a ring and looked up. Assumes only what Ed25519 documents.
\<close>

theorem signed_document_verifies:
  assumes "ed25519_correct P" and "length (sk_seed key) = 32" and "key_id_ok (sk_key_id key)"
    and "ring_parse entries = Inr ring"
    and "sk_key_id key @ '':'' @ encoded_public_key P key \<in> set entries"
    and "sign_document P doc key = Inr block"
  shows "verify_document P (dset ''signature'' block doc) ring = Inr (sk_key_id key)"
  using assms by (rule verify_signed)

lemma sample_ed25519: "ed25519_correct sample_platform"
  by (auto simp: ed25519_correct_def sample_platform_def min_def)

lemma signed_document_verifies_witness:
  "\<exists>ring block. verify_document sample_platform (dset ''signature'' block example_document) ring = Inr ''k1''"
proof -
  have key: "length (sk_seed example_key) = 32" "key_id_ok (sk_key_id example_key)" by code_simp+
  obtain ring where ring: "ring_parse [sk_key_id example_key @ '':'' @
      encoded_public_key sample_platform example_key] = Inr ring"
    using parse_entry_public_key [OF sample_ed25519 key]
    by (auto simp: ring_parse_def ring_add_Inr res_simps ring_key_ids_def)
  obtain block where "sign_document sample_platform example_document example_key = Inr block"
    by (simp add: sign_document_def signing_input_def canonical_bytes_def canonical_json_def
        example_document_def ddel_def SIGNATURE_EXCLUDED_FIELD_def)
  from signed_document_verifies [OF sample_ed25519 key ring _ this] show ?thesis
    by (auto simp: example_key_def)
qed

text \<open>
  A parsed key ring never contains two keys with the same id, every key has 32 bytes, and every
  configured entry is present; so no later entry can shadow an earlier one.
\<close>

theorem key_ring_unambiguous:
  assumes "ring_parse entries = Inr ring"
  shows "distinct (ring_key_ids ring) \<and> list_all (\<lambda>k. length (ver_public k) = 32) ring \<and>
    length ring = length entries \<and>
    list_all (\<lambda>e. \<exists>k\<in>set ring. parse_entry e = Inr k \<and> ring_find ring (ver_key_id k) = Some k) entries"
proof -
  have ok: "ring_ok ring" using ring_parse_ok [OF assms] .
  have "rfold ring_add es r0 = Inr r \<Longrightarrow> length r = length r0 + length es" for es r0 r
    by (induction es arbitrary: r0) (auto simp: res_simps ring_add_Inr)
  with assms have "length ring = length entries" by (simp add: ring_parse_def)
  with ok ring_parse_members [OF assms [unfolded ring_parse_def]] ring_find_member [OF ok] show ?thesis
    by (auto simp: ring_ok_def list_all_iff)
qed

lemma key_ring_unambiguous_witness:
  "\<exists>ring. ring_parse [''k1:'' @ b64u_encode (replicate 32 CHR ''x''), ''k2:'' @ b64u_encode (replicate 32 CHR ''x'')]
      = Inr ring \<and> distinct (ring_key_ids ring)"
proof -
  have "is_ok (ring_parse [''k1:'' @ b64u_encode (replicate 32 CHR ''x''), ''k2:'' @ b64u_encode (replicate 32 CHR ''x'')])"
    by code_simp
  then obtain ring where "ring_parse [''k1:'' @ b64u_encode (replicate 32 CHR ''x''), ''k2:'' @ b64u_encode (replicate 32 CHR ''x'')]
      = Inr ring" unfolding is_ok_iff by blast
  with key_ring_unambiguous [OF this] show ?thesis by blast
qed

end
