(* ===== verification/Snapshot.thy ===== *)
theory Snapshot
  imports Validation Signing
begin

text \<open>
  Fetching, verifying and holding a deployment snapshot:
  \<^verbatim>\<open>apps/runtime/runtime_service/snapshot.py\<close>. The Control Plane is an argument: what it answers to a
  request. The store is a state that every operation returns updated; the interface
  \<open>snapshot_source\<close> is what it relies on.
\<close>

section \<open>Verification of the producer\<close>

datatype verification_mode = Required | Disabled

record snapshot_verification =
  verification_mode :: verification_mode
  trusted_keys :: key_ring

definition default_verification :: snapshot_verification where
  "default_verification = \<lparr>verification_mode = Required, trusted_keys = EMPTY_KEY_RING\<rparr>"

definition snapshot_error :: exn where
  "snapshot_error = ToolLayerError SNAPSHOT_UNAVAILABLE None []"

definition snapshot_integrity_error :: exn where
  "snapshot_integrity_error = ToolLayerError SNAPSHOT_INTEGRITY_FAILED None []"

definition snapshot_signature_error :: exn where
  "snapshot_signature_error = ToolLayerError SNAPSHOT_SIGNATURE_INVALID None []"

definition authenticate_document ::
  "platform \<Rightarrow> snapshot_verification \<Rightarrow> json dict \<Rightarrow> string option res" where
  "authenticate_document P V document =
     rbind (catching (\<lambda>e. e = SignatureVerificationError) (\<lambda>_. Inl snapshot_signature_error)
              (verify_document P document (trusted_keys V))) (\<lambda>k. Inr (Some k))"

definition check_producer ::
  "platform \<Rightarrow> snapshot_verification \<Rightarrow> json dict \<Rightarrow> string option res" where
  "check_producer P V document =
     (if verification_mode V = Disabled then
        (if jget document ''signature'' \<noteq> JNull then authenticate_document P V document else Inr None)
      else authenticate_document P V document)"

section \<open>The dispatch index\<close>

record bound_tool =
  bound_connector_key :: string
  bound_connector_version :: string
  bound_base_url :: string
  bound_definition :: tool_definition

definition qualified_name :: "bound_tool \<Rightarrow> string" where
  "qualified_name b = bound_connector_key b @ '':'' @ tool_name (bound_definition b)"

definition bind_tool :: "connector_definition \<Rightarrow> tool_definition \<Rightarrow> bound_tool" where
  "bind_tool c t = \<lparr>bound_connector_key = connector_key c, bound_connector_version = conn_version c,
     bound_base_url = base_url (runtime c), bound_definition = t\<rparr>"

definition index_tool ::
  "connector_definition \<times> tool_definition \<Rightarrow> bound_tool dict \<Rightarrow> bound_tool dict res" where
  "index_tool ct index =
     (if dhas (tool_name (snd ct)) index then Inl snapshot_integrity_error
      else Inr (dset (tool_name (snd ct)) (bind_tool (fst ct) (snd ct)) index))"

text \<open>The nested loop over connectors and their tools.\<close>

definition connector_tools :: "deployment_snapshot \<Rightarrow> (connector_definition \<times> tool_definition) list" where
  "connector_tools s = concat (map (\<lambda>c. map (Pair c) (tools c)) (connectors s))"

definition index_snapshot :: "deployment_snapshot \<Rightarrow> bound_tool dict res" where
  "index_snapshot s = rfold index_tool (connector_tools s) []"

section \<open>Loading a document\<close>

record loaded_snapshot =
  loaded_document :: deployment_snapshot
  etag :: "string option"
  loaded_at :: rat
  tools_by_name :: "bound_tool dict"
  signing_key_id :: "string option"

definition loaded_tools :: "loaded_snapshot \<Rightarrow> bound_tool list" where
  "loaded_tools s = map snd (tools_by_name s)"

definition is_signed :: "loaded_snapshot \<Rightarrow> bool" where
  "is_signed s \<longleftrightarrow> signing_key_id s \<noteq> None"

definition resolve_tool :: "loaded_snapshot \<Rightarrow> string \<Rightarrow> bound_tool res" where
  "resolve_tool s name =
     (case dget (tools_by_name s) name of
        None \<Rightarrow> Inl (ToolLayerError UNKNOWN_TOOL None [])
      | Some b \<Rightarrow> Inr b)"

definition load_snapshot_document ::
  "platform \<Rightarrow> json \<Rightarrow> string option \<Rightarrow> snapshot_verification option \<Rightarrow> rat \<Rightarrow> loaded_snapshot res" where
  "load_snapshot_document P document tag verification now =
     (case document of
        JObj d \<Rightarrow>
          rbind (catching (\<lambda>e. e = IncompatibleContractVersion)
                   (\<lambda>_. Inl (raise_at UNSUPPORTED_CONTRACT_VERSION ''/contract_version''))
                   (require_supported (jget d ''contract_version''))) (\<lambda>_.
          rbind (validate_deployment_snapshot P document) (\<lambda>_.
          rbind (item document ''snapshot_digest'') (\<lambda>declared.
            if \<not> verify_digest P document declared SNAPSHOT_DIGEST_EXCLUDED
            then Inl snapshot_integrity_error
            else
              rbind (check_producer P (case verification of None \<Rightarrow> default_verification | Some v \<Rightarrow> v) d)
                (\<lambda>key.
              rbind (decode_snapshot P document) (\<lambda>s.
              rbind (rmap (\<lambda>c. decode_connector P (dump_connector c)) (connectors s)) (\<lambda>_.
              rbind (index_snapshot s) (\<lambda>index.
                Inr \<lparr>loaded_document = s, etag = tag, loaded_at = now, tools_by_name = index,
                     signing_key_id = key\<rparr>)))))))
      | _ \<Rightarrow> Inl snapshot_integrity_error)"

section \<open>The client\<close>

text \<open>\<open>None\<close> as a body is one that \<open>response.json()\<close> cannot parse.\<close>

record control_plane_reply =
  reply_status :: nat
  reply_etag :: "string option"
  reply_body :: "json option"

record snapshot_client =
  client_base_url :: string
  client_token :: string
  client_verification :: snapshot_verification

definition snapshot_url :: "snapshot_client \<Rightarrow> string \<Rightarrow> string" where
  "snapshot_url c deployment =
     rstrip_by (\<lambda>x. x = CHR ''/'') (client_base_url c) @ ''/internal/v1/deployments/'' @ deployment
       @ ''/snapshot''"

type_synonym control_plane = "string \<Rightarrow> (string \<times> string) list \<Rightarrow> control_plane_reply option"

definition fetch_headers :: "snapshot_client \<Rightarrow> string option \<Rightarrow> (string \<times> string) list" where
  "fetch_headers c if_none_match =
     (''x-toollayer-service-token'', client_token c) #
     (case if_none_match of
        None \<Rightarrow> []
      | Some t \<Rightarrow> if t = [] then [] else [(''if-none-match'', t)])"

definition fetch_snapshot ::
  "platform \<Rightarrow> control_plane \<Rightarrow> snapshot_client \<Rightarrow> string \<Rightarrow> rat \<Rightarrow> string option
    \<Rightarrow> loaded_snapshot option res" where
  "fetch_snapshot P cp c deployment now if_none_match =
     (case cp (snapshot_url c deployment) (fetch_headers c if_none_match) of
        None \<Rightarrow> Inl snapshot_error
      | Some reply \<Rightarrow>
          if reply_status reply = 304 then Inr None
          else if reply_status reply = 404 then Inl snapshot_error
          else if reply_status reply = 401 \<or> reply_status reply = 403
          then Inl (ToolLayerError UNAUTHENTICATED None [])
          else if 400 \<le> reply_status reply then Inl snapshot_error
          else (case reply_body reply of
                  None \<Rightarrow> Inl ValueError
                | Some body \<Rightarrow>
                    rbind (load_snapshot_document P body (reply_etag reply)
                             (Some (client_verification c)) now) (\<lambda>s. Inr (Some s))))"

section \<open>The store\<close>

record snapshot_store =
  current :: "loaded_snapshot option"
  refresh_seconds :: int

definition new_store :: "int \<Rightarrow> snapshot_store" where
  "new_store seconds = \<lparr>current = None, refresh_seconds = max seconds 1\<rparr>"

definition current_snapshot :: "snapshot_store \<Rightarrow> loaded_snapshot res" where
  "current_snapshot st = (case current st of None \<Rightarrow> Inl snapshot_error | Some s \<Rightarrow> Inr s)"

text \<open>A source is a client with its deployment: the fetch at a time, given the held etag.\<close>

type_synonym source = "rat \<Rightarrow> string option \<Rightarrow> loaded_snapshot option res"

definition refresh :: "source \<Rightarrow> rat \<Rightarrow> snapshot_store \<Rightarrow> loaded_snapshot res \<times> snapshot_store" where
  "refresh src now st =
     (case src now (case current st of None \<Rightarrow> None | Some s \<Rightarrow> etag s) of
        Inl e \<Rightarrow>
          if is_tool_layer_error e
          then (case current st of None \<Rightarrow> (Inl e, st) | Some s \<Rightarrow> (Inr s, st))
          else (Inl e, st)
      | Inr None \<Rightarrow>
          (case current st of
             None \<Rightarrow> (Inl AssertionError, st)
           | Some s \<Rightarrow> (Inr (s\<lparr>loaded_at := now\<rparr>), st\<lparr>current := Some (s\<lparr>loaded_at := now\<rparr>)\<rparr>))
      | Inr (Some fetched) \<Rightarrow> (Inr fetched, st\<lparr>current := Some fetched\<rparr>))"

definition ensure_fresh :: "source \<Rightarrow> rat \<Rightarrow> snapshot_store \<Rightarrow> loaded_snapshot res \<times> snapshot_store" where
  "ensure_fresh src now st =
     (case current st of
        Some s \<Rightarrow> if now - loaded_at s < of_int (refresh_seconds st) then (Inr s, st) else refresh src now st
      | None \<Rightarrow> refresh src now st)"

definition set_snapshot :: "loaded_snapshot \<Rightarrow> snapshot_store \<Rightarrow> snapshot_store" where
  "set_snapshot s st = st\<lparr>current := Some s\<rparr>"

section \<open>The interface of a snapshot source\<close>

text \<open>
  What the store relies on: every snapshot a fetch yields is \<open>good\<close>, and being good does not depend
  on when it was loaded. Then the store never holds or returns anything else.
\<close>

locale snapshot_source =
  fixes src :: source and good :: "loaded_snapshot \<Rightarrow> bool"
  assumes fetched_good: "src now tag = Inr (Some s) \<Longrightarrow> good s"
    and good_later: "good s \<Longrightarrow> good (s\<lparr>loaded_at := t\<rparr>)"
begin

definition holds_good :: "snapshot_store \<Rightarrow> bool" where
  "holds_good st \<longleftrightarrow> (\<forall>s. current st = Some s \<longrightarrow> good s)"

lemma refresh_good:
  assumes "holds_good st" and "refresh src now st = (r, st')"
  shows "holds_good st' \<and> (\<forall>s. r = Inr s \<longrightarrow> good s \<and> current st' = Some s)"
  using assms fetched_good good_later
  by (auto simp: refresh_def holds_good_def split: sum.splits option.splits if_splits)

lemma ensure_fresh_good:
  assumes "holds_good st" and "ensure_fresh src now st = (r, st')"
  shows "holds_good st' \<and> (\<forall>s. r = Inr s \<longrightarrow> good s \<and> current st' = Some s)"
proof (cases "ensure_fresh src now st = refresh src now st")
  case True
  with assms refresh_good show ?thesis by simp
next
  case False
  then obtain s where "current st = Some s" "ensure_fresh src now st = (Inr s, st)"
    by (auto simp: ensure_fresh_def split: option.splits if_splits)
  with assms show ?thesis by (auto simp: holds_good_def)
qed

end

section \<open>What a loaded snapshot is\<close>

text \<open>The independent statement of everything a successful load established.\<close>

definition verified_snapshot :: "platform \<Rightarrow> snapshot_verification \<Rightarrow> loaded_snapshot \<Rightarrow> bool" where
  "verified_snapshot P V s \<longleftrightarrow>
     (\<exists>d e. is_supported (jget d ''contract_version'') \<and>
        contract_errors P DEPLOYMENT_SNAPSHOT_SCHEMA (JObj d) = [] \<and>
        dget d ''snapshot_digest'' = Some (JStr e) \<and>
        content_digest P (JObj d) SNAPSHOT_DIGEST_EXCLUDED = Inr e \<and>
        decode_snapshot P (JObj d) = Inr (loaded_document s) \<and>
        index_snapshot (loaded_document s) = Inr (tools_by_name s) \<and>
        (case signing_key_id s of
           None \<Rightarrow> verification_mode V = Disabled \<and> jget d ''signature'' = JNull
         | Some k \<Rightarrow> verify_document P d (trusted_keys V) = Inr k))"

text \<open>
  With verification disabled, a document that carries a signature is still checked against the configured keys:
  a runtime without keys accepts unsigned documents only, and refuses every signed one.
\<close>

lemma disabled_without_keys:
  assumes "verification_mode V = Disabled" and "trusted_keys V = []"
  shows "(\<exists>id. check_producer P V document = Inr id) \<longleftrightarrow> jget document ''signature'' = JNull"
proof (cases "jget document ''signature''")
  case JNull
  then show ?thesis using assms by (simp add: check_producer_def)
next
  case (JObj block)
  then have "verify_document P document (trusted_keys V) = Inl SignatureVerificationError"
    by (simp add: verify_document_def SIGNATURE_EXCLUDED_FIELD_def assms(2) split: json.split)
  with JObj assms(1) show ?thesis
    by (simp add: check_producer_def authenticate_document_def)
qed (use assms in \<open>simp_all add: check_producer_def authenticate_document_def verify_document_def
       SIGNATURE_EXCLUDED_FIELD_def\<close>)

lemma check_producer_Inr:
  "check_producer P V d = Inr k \<longleftrightarrow>
     (case k of
        None \<Rightarrow> verification_mode V = Disabled \<and> jget d ''signature'' = JNull
      | Some i \<Rightarrow> verify_document P d (trusted_keys V) = Inr i
          \<and> (verification_mode V = Disabled \<longrightarrow> jget d ''signature'' \<noteq> JNull))"
  by (auto simp: check_producer_def authenticate_document_def res_simps split: option.splits)

lemma load_Inr:
  assumes "load_snapshot_document P v tag (Some V) now = Inr s"
  shows "verified_snapshot P V s \<and> etag s = tag \<and> loaded_at s = now"
proof -
  from assms obtain d where v: "v = JObj d" by (cases v) (simp_all add: load_snapshot_document_def)
  from assms obtain cv declared key doc us where
    sup: "require_supported (jget d ''contract_version'') = Inr cv"
    and val: "validate_deployment_snapshot P v = Inr ()"
    and it: "item v ''snapshot_digest'' = Inr declared"
    and dig: "verify_digest P v declared SNAPSHOT_DIGEST_EXCLUDED"
    and key: "check_producer P V d = Inr (signing_key_id s)"
    and dec: "decode_snapshot P v = Inr (loaded_document s)"
    and idx: "index_snapshot (loaded_document s) = Inr (tools_by_name s)"
    and tm: "etag s = tag" "loaded_at s = now"
    by (auto simp: load_snapshot_document_def v res_simps split: if_splits)
  from it v have "dget d ''snapshot_digest'' = Some declared" by (simp split: option.splits)
  moreover from dig obtain e where "declared = JStr e" by (cases declared) (auto simp: verify_digest_def)
  moreover from val have "contract_errors P DEPLOYMENT_SNAPSHOT_SCHEMA v = []"
    by (auto simp: validate_deployment_snapshot_def validate_schema_def Let_def res_simps split: if_splits)
  moreover have "case signing_key_id s of
           None \<Rightarrow> verification_mode V = Disabled \<and> jget d ''signature'' = JNull
         | Some k \<Rightarrow> verify_document P d (trusted_keys V) = Inr k"
    using key by (auto simp: check_producer_Inr split: option.splits)
  ultimately show ?thesis
    using sup dig dec idx tm unfolding verified_snapshot_def v
    by (auto simp: is_supported_def is_ok_iff verify_digest_iff)
qed

lemma fetch_Inr:
  assumes "fetch_snapshot P cp c deployment now tag = Inr (Some s)"
  shows "verified_snapshot P (client_verification c) s"
  using assms load_Inr
  by (auto simp: fetch_snapshot_def res_simps split: option.splits if_splits)

interpretation control_plane: snapshot_source "fetch_snapshot P cp c deployment"
  "verified_snapshot P (client_verification c)" for P cp c deployment
proof
  fix now tag s
  assume "fetch_snapshot P cp c deployment now tag = Inr (Some s)"
  then show "verified_snapshot P (client_verification c) s" by (rule fetch_Inr)
qed (simp add: verified_snapshot_def)

section \<open>Lemmas on the index\<close>

lemma index_tool_Inr:
  "index_tool ct ix = Inr ix' \<longleftrightarrow>
     dget ix (tool_name (snd ct)) = None \<and> ix' = dset (tool_name (snd ct)) (bind_tool (fst ct) (snd ct)) ix"
  by (auto simp: index_tool_def dhas_iff)

lemma index_fold:
  assumes "rfold index_tool cts ix = Inr ix'" and "dict_ok ix"
  shows "dict_ok ix' \<and> (\<forall>n b. dget ix' n = Some b \<longleftrightarrow>
      dget ix n = Some b \<or> (\<exists>ct\<in>set cts. n = tool_name (snd ct) \<and> b = bind_tool (fst ct) (snd ct)))"
  using assms
proof (induction cts arbitrary: ix)
  case (Cons ct cts)
  then obtain mid where mid: "dget ix (tool_name (snd ct)) = None"
    "mid = dset (tool_name (snd ct)) (bind_tool (fst ct) (snd ct)) ix" and "rfold index_tool cts mid = Inr ix'"
    by (auto simp: res_simps index_tool_Inr)
  moreover have "dict_ok mid" using mid(2) Cons.prems(2) by auto
  ultimately have IH: "dict_ok ix' \<and> (\<forall>n b. dget ix' n = Some b \<longleftrightarrow> dget mid n = Some b \<or>
      (\<exists>ct\<in>set cts. n = tool_name (snd ct) \<and> b = bind_tool (fst ct) (snd ct)))"
    by (intro Cons.IH)
  have "dget mid n = Some b \<longleftrightarrow>
      dget ix n = Some b \<or> n = tool_name (snd ct) \<and> b = bind_tool (fst ct) (snd ct)" for n b
    using mid(1,2) by auto
  with IH show ?case by auto
qed simp

text \<open>Every name resolves to the one tool of the snapshot with that name, and every tool resolves.\<close>

lemma index_snapshot_dget:
  assumes "index_snapshot s = Inr ix"
  shows "dget ix n = Some b \<longleftrightarrow>
    (\<exists>c t. c \<in> set (connectors s) \<and> t \<in> set (tools c) \<and> n = tool_name t \<and> b = bind_tool c t)"
  using index_fold [OF assms [unfolded index_snapshot_def]]
  by (auto simp: connector_tools_def)

lemma index_snapshot_ok: "index_snapshot s = Inr ix \<Longrightarrow> dict_ok ix"
  using index_fold [of _ "[]"] by (simp add: index_snapshot_def)

section \<open>Histories of a store\<close>

text \<open>
  The states a store passes through when it is refreshed again and again, at arbitrary times, against
  a Control Plane (or whoever answers in its place) that may answer anything.
\<close>

inductive store_reachable :: "platform \<Rightarrow> snapshot_client \<Rightarrow> string \<Rightarrow> snapshot_store \<Rightarrow> bool"
  for P c deployment where
  reach_new: "store_reachable P c deployment (new_store seconds)"
| reach_refresh: "store_reachable P c deployment st \<Longrightarrow>
    refresh (fetch_snapshot P cp c deployment) now st = (r, st') \<Longrightarrow> store_reachable P c deployment st'"
| reach_ensure: "store_reachable P c deployment st \<Longrightarrow>
    ensure_fresh (fetch_snapshot P cp c deployment) now st = (r, st') \<Longrightarrow> store_reachable P c deployment st'"

lemma reachable_verified:
  "store_reachable P c deployment st \<Longrightarrow>
     \<forall>s. current st = Some s \<longrightarrow> verified_snapshot P (client_verification c) s"
proof (induction rule: store_reachable.induct)
  case (reach_refresh st cp now r st')
  have "control_plane.holds_good P c st" using reach_refresh(3) unfolding control_plane.holds_good_def .
  from control_plane.refresh_good [OF this reach_refresh(2)] show ?case
    unfolding control_plane.holds_good_def by (rule conjunct1)
next
  case (reach_ensure st cp now r st')
  have "control_plane.holds_good P c st" using reach_ensure(3) unfolding control_plane.holds_good_def .
  from control_plane.ensure_fresh_good [OF this reach_ensure(2)] show ?case
    unfolding control_plane.holds_good_def by (rule conjunct1)
qed (simp add: new_store_def)

lemma verified_is_authentic:
  assumes "verified_snapshot P V s"
  shows "\<exists>d e. decode_snapshot P (JObj d) = Inr (loaded_document s) \<and>
    snapshot_ok (loaded_document s) \<and>
    contract_errors P DEPLOYMENT_SNAPSHOT_SCHEMA (JObj d) = [] \<and>
    dget d ''snapshot_digest'' = Some (JStr e) \<and>
    content_digest P (JObj d) [''snapshot_id'', ''snapshot_digest'', ''signature''] = Inr e \<and>
    (verification_mode V = Required \<longrightarrow>
      (\<exists>key sig msg. key \<in> set (trusted_keys V) \<and>
         signing_key_id s = Some (ver_key_id key) \<and>
         canonical_bytes P (JObj (ddel [''signature''] d)) = Inr msg \<and>
         length sig = 64 \<and> ed_verify P (ver_public key) msg sig))"
proof -
  obtain d e where d: "contract_errors P DEPLOYMENT_SNAPSHOT_SCHEMA (JObj d) = []"
      "dget d ''snapshot_digest'' = Some (JStr e)"
      "content_digest P (JObj d) SNAPSHOT_DIGEST_EXCLUDED = Inr e"
      "decode_snapshot P (JObj d) = Inr (loaded_document s)"
    and k: "case signing_key_id s of
           None \<Rightarrow> verification_mode V = Disabled \<and> jget d ''signature'' = JNull
         | Some k \<Rightarrow> verify_document P d (trusted_keys V) = Inr k"
    using assms unfolding verified_snapshot_def by blast
  have "\<exists>key sig msg. key \<in> set (trusted_keys V) \<and>
         signing_key_id s = Some (ver_key_id key) \<and>
         canonical_bytes P (JObj (ddel [''signature''] d)) = Inr msg \<and>
         length sig = 64 \<and> ed_verify P (ver_public key) msg sig"
    if "verification_mode V = Required"
  proof -
    from that k obtain i where i: "signing_key_id s = Some i"
      and v: "verify_document P d (trusted_keys V) = Inr i"
      by (cases "signing_key_id s") auto
    show ?thesis
    proof (rule verify_document_Inr [OF v], goal_cases)
      case (1 block val key sig msg)
      then have "key \<in> set (trusted_keys V)" "ver_key_id key = i"
        using ring_find_Some by blast+
      with 1 show ?case
        by (intro exI [of _ key] exI [of _ sig] exI [of _ msg])
          (simp add: i signing_input_def SIGNATURE_EXCLUDED_FIELD_def key_verify_def)
    qed
  qed
  note key = this
  show ?thesis
  proof (intro exI [of _ d] exI [of _ e] conjI impI)
    show "content_digest P (JObj d) [''snapshot_id'', ''snapshot_digest'', ''signature''] = Inr e"
      using d(3) by (simp only: SNAPSHOT_DIGEST_EXCLUDED_def)
  qed (fact d decode_snapshot_ok [OF d(4)] key)+
qed

section \<open>Properties\<close>

text \<open>
  C3: Whatever the Control Plane or an attacker in its place answers, in any order and at any time, a
  snapshot the store holds decodes a document that satisfies the contract and whose digest was
  recomputed; and when verification is required, a key of the configured ring signed the canonical
  bytes of that document.
\<close>

theorem store_holds_only_authentic:
  assumes "store_reachable P c deployment st" and "current st = Some s"
  shows "\<exists>d e. decode_snapshot P (JObj d) = Inr (loaded_document s) \<and>
    snapshot_ok (loaded_document s) \<and>
    contract_errors P DEPLOYMENT_SNAPSHOT_SCHEMA (JObj d) = [] \<and>
    dget d ''snapshot_digest'' = Some (JStr e) \<and>
    content_digest P (JObj d) [''snapshot_id'', ''snapshot_digest'', ''signature''] = Inr e \<and>
    (verification_mode (client_verification c) = Required \<longrightarrow>
      (\<exists>key sig msg. key \<in> set (trusted_keys (client_verification c)) \<and>
         signing_key_id s = Some (ver_key_id key) \<and>
         canonical_bytes P (JObj (ddel [''signature''] d)) = Inr msg \<and>
         length sig = 64 \<and> ed_verify P (ver_public key) msg sig))"
  using verified_is_authentic reachable_verified [OF assms(1)] assms(2) by blast

definition example_snapshot :: "json dict" where
  "example_snapshot =
     [(''contract_version'', JStr CONTRACT_VERSION), (''snapshot_id'', JStr (''snap_'' @ replicate 32 CHR ''a'')),
      (''deployment_key'', JStr ''demo''), (''revision'', JInt 1), (''created_at'', JStr ''2026-01-01T00:00:00Z''),
      (''snapshot_digest'', JStr (''sha256:'' @ replicate 64 CHR ''0'')),
      (''connectors'', JArr [dump_connector example_connector])]"

definition example_client :: snapshot_client where
  "example_client = \<lparr>client_base_url = ''http://control-plane'', client_token = ''t'',
     client_verification = \<lparr>verification_mode = Required,
       trusted_keys = [public_key sample_platform example_key]\<rparr>\<rparr>"

text \<open>The example loads; the signature is kept abstract, since its bytes do not matter.\<close>

lemma example_block_shape:
  "sign_document sample_platform example_snapshot example_key = Inr block \<Longrightarrow>
     \<exists>v. block = JObj [(''algorithm'', JStr ''ed25519''), (''key_id'', JStr ''k1''), (''value'', JStr v)] \<and>
       signature_value_ok v"
  using sample_ed25519
  by (auto simp: sign_document_def res_simps SIGNATURE_ALGORITHM_def example_key_def ed25519_correct_def
      intro!: signature_encoding_ok)

lemma example_serializable:
  "assert_serializable (JObj (ddel SNAPSHOT_DIGEST_EXCLUDED example_snapshot)) = Inr ()"
  "assert_serializable (JObj (ddel [SIGNATURE_EXCLUDED_FIELD] example_snapshot)) = Inr ()"
  by code_simp+

lemma example_validates:
  "validate_deployment_snapshot sample_platform (JObj (dset ''signature'' block example_snapshot)) = Inr ()"
  by code_simp

lemma example_decodes:
  assumes "signature_value_ok v"
  shows "\<exists>s. decode_snapshot sample_platform (JObj (dset ''signature'' (JObj [(''algorithm'', JStr ''ed25519''),
      (''key_id'', JStr ''k1''), (''value'', JStr v)]) example_snapshot)) = Inr s \<and>
    connectors s = [example_connector]"
proof -
  have conn: "connector_ok example_connector" by code_simp
  have "key_id_ok ''k1''" by code_simp
  with assms have sg: "decode_signature (JObj [(''algorithm'', JStr ''ed25519''),
      (''key_id'', JStr ''k1''), (''value'', JStr v)]) = Inr \<lparr>sig_key_id = ''k1'', sig_value = v\<rparr>"
    by (simp add: decode_signature_def field_def dkeys_def checked_def signature_ok_def as_literal_def)
  have ok: "semantic_version_ok CONTRACT_VERSION" "resource_key_ok ''demo''"
    "rx_match SNAPSHOT_ID_PATTERN (''snap_'' @ replicate 32 CHR ''a'')"
    "rx_match DIGEST_PATTERN (''sha256:'' @ replicate 64 CHR ''0'')"
    "lifecycle_state example_connector = ''published''"
    by code_simp+
  have conns: "rmap (decode_connector sample_platform) [dump_connector example_connector] = Inr [example_connector]"
    using decode_dump_connector [OF sample_pydantic conn] by simp
  show ?thesis
    using ok conn assms \<open>key_id_ok ''k1''\<close>
    by (simp add: decode_snapshot_def example_snapshot_def field_def dkeys_def checked_def snapshot_ok_def
        opt_signature_def jget_def sg conns as_int_exact [OF sample_pydantic] signature_ok_def
        del: rmap.simps)
qed

lemma example_load:
  "\<exists>doc s. load_snapshot_document sample_platform doc None (Some (client_verification example_client)) 0 = Inr s \<and>
    connectors (loaded_document s) = [example_connector] \<and> loaded_at s = 0"
proof -
  obtain block where block: "sign_document sample_platform example_snapshot example_key = Inr block"
    using example_serializable(2)
    by (auto simp: sign_document_def signing_input_def canonical_bytes_def canonical_json_def)
  then obtain v where b: "block = JObj [(''algorithm'', JStr ''ed25519''), (''key_id'', JStr ''k1''),
      (''value'', JStr v)]" and v: "signature_value_ok v"
    using example_block_shape by blast
  define d where "d = dset ''signature'' block example_snapshot"
  have key: "length (sk_seed example_key) = 32" "key_id_ok (sk_key_id example_key)" by code_simp+
  have ring: "ring_parse [sk_key_id example_key @ '':'' @ encoded_public_key sample_platform example_key]
      = Inr [public_key sample_platform example_key]"
    using parse_entry_public_key [OF sample_ed25519 key]
    by (simp add: ring_parse_def ring_key_ids_def rbind_eq_Inr ring_add_Inr)
  have prod: "verify_document sample_platform d [public_key sample_platform example_key] = Inr ''k1''"
    using verify_signed [OF sample_ed25519 key ring _ block] by (simp add: d_def example_key_def)
  have dig: "verify_digest sample_platform (JObj d) (JStr (''sha256:'' @ replicate 64 CHR ''0''))
      SNAPSHOT_DIGEST_EXCLUDED"
    unfolding verify_digest_iff
    using sample_digest [of SNAPSHOT_DIGEST_EXCLUDED d] example_serializable(1)
    by (simp add: d_def ddel_dset SNAPSHOT_DIGEST_EXCLUDED_def)
  obtain s where s: "decode_snapshot sample_platform (JObj d) = Inr s" "connectors s = [example_connector]"
    using example_decodes [OF v] by (auto simp: d_def b)
  have conn: "decode_connector sample_platform (dump_connector example_connector) = Inr example_connector"
    by (rule decode_dump_connector [OF sample_pydantic]) code_simp
  have "is_ok (index_snapshot s)"
    unfolding index_snapshot_def connector_tools_def s(2) by code_simp
  then obtain ix where ix: "index_snapshot s = Inr ix" by (auto simp: is_ok_iff)
  have it: "jget d ''contract_version'' = JStr CONTRACT_VERSION"
    "dget d ''snapshot_digest'' = Some (JStr (''sha256:'' @ replicate 64 CHR ''0''))"
    "jget d ''signature'' \<noteq> JNull"
    by (simp_all add: d_def jget_def b) (simp_all add: example_snapshot_def)
  have "is_supported (JStr CONTRACT_VERSION)" by code_simp
  then obtain cv where "require_supported (JStr CONTRACT_VERSION) = Inr cv"
    by (auto simp: is_supported_def is_ok_iff)
  then show ?thesis
    using dig prod s ix conn it example_validates [of block]
    by (intro exI [of _ "JObj d"])
      (simp add: load_snapshot_document_def d_def [symmetric] check_producer_def authenticate_document_def
        example_client_def)
qed

text \<open>A store that has loaded the example.\<close>

lemma example_store_of:
  assumes "client_verification c = client_verification example_client"
  shows "\<exists>st s. store_reachable sample_platform c deployment st \<and> current st = Some s \<and>
     connectors (loaded_document s) = [example_connector] \<and> loaded_at s = 0 \<and> refresh_seconds st = 60"
proof -
  obtain doc s where s: "load_snapshot_document sample_platform doc None
      (Some (client_verification example_client)) 0 = Inr s"
    "connectors (loaded_document s) = [example_connector]" "loaded_at s = 0"
    using example_load by blast
  let ?cp = "\<lambda>url headers. Some \<lparr>reply_status = 200, reply_etag = None, reply_body = Some doc\<rparr>"
  have "refresh (fetch_snapshot sample_platform ?cp c deployment) 0 (new_store 60)
      = (Inr s, (new_store 60)\<lparr>current := Some s\<rparr>)"
    using s(1) assms by (simp add: refresh_def fetch_snapshot_def new_store_def)
  from store_reachable.reach_refresh [OF store_reachable.reach_new this] show ?thesis
    using s(2,3) by (intro exI [of _ "(new_store 60)\<lparr>current := Some s\<rparr>"]) (simp add: new_store_def)
qed

lemma example_store:
  "\<exists>st s. store_reachable sample_platform example_client ''demo'' st \<and> current st = Some s \<and>
     connectors (loaded_document s) = [example_connector] \<and> loaded_at s = 0 \<and> refresh_seconds st = 60"
  by (rule example_store_of) simp

lemma store_holds_only_authentic_witness:
  "\<exists>(st :: snapshot_store) s. current st = Some s \<and> snapshot_ok (loaded_document s)"
proof -
  obtain st s where r: "store_reachable sample_platform example_client ''demo'' st" and c: "current st = Some s"
    using example_store by blast
  from store_holds_only_authentic [OF r c] have "snapshot_ok (loaded_document s)" by blast
  with c show ?thesis by blast
qed

text \<open>
  C26: Dispatch is exact. In a store's snapshot a tool name resolves to a tool exactly when that tool is
  in one of the snapshot's connectors under that name, together with that connector's key, version
  and base URL; every tool of every connector resolves; any other name is refused.
\<close>

theorem resolve_is_exact:
  assumes "store_reachable P c deployment st" and "current st = Some s"
  shows "(resolve_tool s name = Inr b \<longleftrightarrow>
      (\<exists>conn t. conn \<in> set (connectors (loaded_document s)) \<and> t \<in> set (tools conn) \<and> name = tool_name t \<and>
         b = \<lparr>bound_connector_key = connector_key conn, bound_connector_version = conn_version conn,
              bound_base_url = base_url (runtime conn), bound_definition = t\<rparr>)) \<and>
    ((\<exists>b. resolve_tool s name = Inr b) \<or> resolve_tool s name = Inl (ToolLayerError UNKNOWN_TOOL None []))"
proof -
  have "verified_snapshot P (client_verification c) s"
    using reachable_verified [OF assms(1)] assms(2) by blast
  then have ix: "index_snapshot (loaded_document s) = Inr (tools_by_name s)"
    unfolding verified_snapshot_def by blast
  show ?thesis
    using index_snapshot_dget [OF ix, of name b]
    by (auto simp: resolve_tool_def bind_tool_def split: option.splits)
qed

lemma resolve_is_exact_witness:
  "\<exists>s :: loaded_snapshot. \<forall>name. (\<exists>b. resolve_tool s name = Inr b)
     \<or> resolve_tool s name = Inl (ToolLayerError UNKNOWN_TOOL None [])"
proof -
  obtain st s where r: "store_reachable sample_platform example_client ''demo'' st" and c: "current st = Some s"
    using example_store by blast
  from resolve_is_exact [OF r c] show ?thesis by blast
qed

text \<open>
  A failed refresh never changes what the store holds, and a failure the client reports as a
  ToolLayer error goes unnoticed by callers while a snapshot is held.
\<close>

theorem failed_refresh_keeps_snapshot:
  assumes "src now tag = Inl e" and "tag = (case current st of None \<Rightarrow> None | Some s \<Rightarrow> etag s)"
  shows "snd (refresh src now st) = st \<and>
    fst (refresh src now st) =
      (case current st of
         Some s \<Rightarrow> if is_tool_layer_error e then Inr s else Inl e
       | None \<Rightarrow> Inl e)"
  using assms by (auto simp: refresh_def split: option.splits)

lemma failed_refresh_keeps_snapshot_witness:
  "snd (refresh (\<lambda>now tag. Inl snapshot_error) 0 (new_store 60)) = new_store 60"
  using failed_refresh_keeps_snapshot [of "\<lambda>now tag. Inl snapshot_error" 0 None snapshot_error "new_store 60"]
  by (simp add: new_store_def)

text \<open>
  The exception that is not handled: when the Control Plane answers 200 with a body that is not
  JSON, a refresh raises although a verified snapshot is held.
\<close>

theorem unreadable_reply_escapes:
  assumes "current st = Some s"
    and "cp = (\<lambda>url headers. Some \<lparr>reply_status = 200, reply_etag = None, reply_body = None\<rparr>)"
  shows "refresh (fetch_snapshot P cp c deployment) now st = (Inl ValueError, st) \<and>
    (of_int (refresh_seconds st) \<le> now - loaded_at s \<longrightarrow>
      fst (ensure_fresh (fetch_snapshot P cp c deployment) now st) = Inl ValueError)"
  using assms by (auto simp: refresh_def ensure_fresh_def fetch_snapshot_def)

lemma unreadable_reply_escapes_witness:
  "\<exists>(st :: snapshot_store) s cp. current st = Some s \<and>
     fst (refresh (fetch_snapshot sample_platform cp example_client ''demo'') 100 st) = Inl ValueError"
proof -
  obtain st s where "store_reachable sample_platform example_client ''demo'' st" and c: "current st = Some s"
    using example_store by blast
  have "refresh (fetch_snapshot sample_platform (\<lambda>url headers. Some \<lparr>reply_status = 200,
      reply_etag = None, reply_body = None\<rparr>) example_client ''demo'') 100 st = (Inl ValueError, st)"
    using unreadable_reply_escapes [OF c refl] by blast
  then have "fst (refresh (fetch_snapshot sample_platform (\<lambda>url headers. Some \<lparr>reply_status = 200,
      reply_etag = None, reply_body = None\<rparr>) example_client ''demo'') 100 st) = Inl ValueError" by simp
  with c show ?thesis by blast
qed

end
