(* ===== verification/Arguments.thy ===== *)
theory Arguments
  imports Models
begin

text \<open>
  From model-proposed arguments to an HTTP request:
  \<^verbatim>\<open>packages/policy-engine/toollayer_policy/arguments.py\<close>, with \<open>quote\<close> and \<open>urlencode\<close> of
  \<^verbatim>\<open>urllib.parse\<close>. A value that several body bindings share is copied here, where Python shares the
  object; the two differ only when one body target lies inside another.
\<close>

section \<open>Percent encoding\<close>

definition is_unreserved :: "char \<Rightarrow> bool" where
  "is_unreserved c \<longleftrightarrow>
     is_alnum c \<or> c = CHR ''_'' \<or> c = CHR ''.'' \<or> c = CHR ''-'' \<or> c = CHR ''~''"

definition hex_upper :: "nat \<Rightarrow> char" where
  "hex_upper d = (if d < 10 then char_of (48 + d) else char_of (55 + d))"

definition quote_byte :: "char \<Rightarrow> string" where
  "quote_byte c =
     (if is_unreserved c then [c]
      else [CHR ''%'', hex_upper (code c div 16), hex_upper (code c mod 16)])"

text \<open>\<open>quote(s, safe='')\<close> and \<open>quote_plus(s)\<close>\<close>

definition url_quote :: "string \<Rightarrow> string" where
  "url_quote s = concat (map quote_byte (utf8_encode s))"

definition quote_plus :: "string \<Rightarrow> string" where
  "quote_plus s =
     concat (map (\<lambda>c. if c = CHR '' '' then ''+'' else quote_byte c) (utf8_encode s))"

definition urlencode :: "(string \<times> string) list \<Rightarrow> string" where
  "urlencode query = join_with ''&'' (map (\<lambda>(k, v). quote_plus k @ ''='' @ quote_plus v) query)"

section \<open>Validating\<close>

definition MAX_ARGUMENT_BYTES :: nat where
  "MAX_ARGUMENT_BYTES = 64 * 1024"

definition plain_style :: dump_style where
  "plain_style = \<lparr>sort_keys = False, ascii_only = False, item_sep = '', '', key_sep = '': ''\<rparr>"

definition schema_detail :: "string \<Rightarrow> string list \<times> string \<Rightarrow> error_detail" where
  "schema_detail msg e =
     \<lparr>detail_code = ''schema.'' @ snd e, detail_message = msg,
      detail_pointer = Some (pointer_of_path (fst e)), detail_severity = ''error''\<rparr>"

definition validate_arguments ::
  "platform \<Rightarrow> tool_definition \<Rightarrow> json \<Rightarrow> json dict res" where
  "validate_arguments P tool arguments =
     (case arguments of
        JObj args \<Rightarrow>
          if MAX_ARGUMENT_BYTES < length (utf8_encode (dumps P plain_style arguments))
          then Inl (raise_at ARGUMENT_VALIDATION_FAILED [])
          else
            (let errors = schema_errors P (JObj (input_schema tool)) arguments in
             if errors \<noteq> []
             then Inl (ToolLayerError ARGUMENT_VALIDATION_FAILED
                         (Some (pointer_of_path (fst (hd errors))))
                         (map (schema_detail ''the argument violates a constraint'') (take 25 errors)))
             else Inr args)
      | _ \<Rightarrow> Inl (raise_at ARGUMENT_VALIDATION_FAILED []))"

section \<open>Pointers\<close>

definition pointer_tokens :: "string \<Rightarrow> string list" where
  "pointer_tokens p = map decode_pointer_token (drop 1 (split_on CHR ''/'' p))"

fun read_tokens :: "json \<Rightarrow> string list \<Rightarrow> json option" where
  "read_tokens v [] = Some v"
| "read_tokens v (t # ts) =
     (case v of
        JObj d \<Rightarrow> (case dget d t of None \<Rightarrow> None | Some w \<Rightarrow> read_tokens w ts)
      | _ \<Rightarrow> None)"

text \<open>\<open>_read_pointer\<close>: \<open>None\<close> stands for an absent value.\<close>

definition read_pointer :: "json dict \<Rightarrow> string \<Rightarrow> json option" where
  "read_pointer document p =
     (if p = [] then Some (JObj document) else read_tokens (JObj document) (pointer_tokens p))"

fun write_tokens :: "json dict \<Rightarrow> string list \<Rightarrow> json \<Rightarrow> json dict" where
  "write_tokens d [] v = d"
| "write_tokens d [t] v = dset t v d"
| "write_tokens d (t # ts) v = dset t (JObj (write_tokens (obj_of (jget d t)) ts v)) d"

definition write_pointer :: "json dict \<Rightarrow> string \<Rightarrow> json \<Rightarrow> json dict res" where
  "write_pointer document p v =
     (if pointer_tokens p = [] then Inl (raise_at ARGUMENT_VALIDATION_FAILED p)
      else Inr (write_tokens document (pointer_tokens p) v))"

section \<open>Building the request\<close>

record prepared_request =
  req_method :: string
  req_url :: string
  req_path :: string
  req_query :: "(string \<times> string) list"
  req_headers :: "(string \<times> string) list"
  req_body :: "string option"
  req_content_type :: "string option"

definition scalar :: "platform \<Rightarrow> json \<Rightarrow> string \<Rightarrow> string res" where
  "scalar P v p =
     (case v of
        JBool b \<Rightarrow> Inr (if b then ''true'' else ''false'')
      | JInt i \<Rightarrow> Inr (string_of_int i)
      | JFloat f \<Rightarrow> Inr (float_repr P f)
      | JStr s \<Rightarrow> Inr s
      | _ \<Rightarrow> Inl (raise_at ARGUMENT_VALIDATION_FAILED p))"

definition forbidden_in_header :: "char \<Rightarrow> bool" where
  "forbidden_in_header c \<longleftrightarrow> c = CHR 0x0D \<or> c = newline \<or> c = CHR 0x00"

definition header_value :: "platform \<Rightarrow> json \<Rightarrow> string \<Rightarrow> string res" where
  "header_value P v p =
     rbind (scalar P v p) (\<lambda>text.
       if list_ex forbidden_in_header text then Inl (raise_at ARGUMENT_VALIDATION_FAILED p)
       else Inr text)"

record building =
  bld_path :: string
  bld_query :: "(string \<times> string) list"
  bld_headers :: "(string \<times> string) list"
  bld_body :: "json dict"
  bld_has_body :: bool

definition placeholder :: "string \<Rightarrow> string" where
  "placeholder n = ''{'' @ n @ ''}''"

text \<open>One iteration of the loop over the bindings, for a present value that is not null.\<close>

definition place_value ::
  "platform \<Rightarrow> argument_binding \<Rightarrow> json \<Rightarrow> building \<Rightarrow> building res" where
  "place_value P b v st =
     (case binding_target b of
        PathTarget \<Rightarrow>
          if \<not> str_contains (placeholder (target_name b)) (bld_path st)
          then Inl (raise_at ARGUMENT_VALIDATION_FAILED (argument_pointer b))
          else rbind (scalar P v (argument_pointer b)) (\<lambda>s.
            Inr (st\<lparr>bld_path := str_replace (placeholder (target_name b)) (url_quote s) (bld_path st)\<rparr>))
      | QueryTarget \<Rightarrow> rbind (scalar P v (argument_pointer b)) (\<lambda>s.
          Inr (st\<lparr>bld_query := bld_query st @ [(target_name b, s)]\<rparr>))
      | HeaderTarget \<Rightarrow> rbind (header_value P v (argument_pointer b)) (\<lambda>s.
          Inr (st\<lparr>bld_headers := bld_headers st @ [(target_name b, s)]\<rparr>))
      | BodyTarget \<Rightarrow> rbind (write_pointer (bld_body st) (target_name b) v) (\<lambda>body.
          Inr (st\<lparr>bld_body := body, bld_has_body := True\<rparr>)))"

definition apply_binding ::
  "platform \<Rightarrow> json dict \<Rightarrow> argument_binding \<Rightarrow> building \<Rightarrow> building res" where
  "apply_binding P arguments b st =
     (case read_pointer arguments (argument_pointer b) of
        None \<Rightarrow> Inr st
      | Some JNull \<Rightarrow> Inr st
      | Some v \<Rightarrow> place_value P b v st)"

definition compact_style :: dump_style where
  "compact_style = \<lparr>sort_keys = False, ascii_only = False, item_sep = '','', key_sep = '':''\<rparr>"

definition finish_request :: "platform \<Rightarrow> tool_operation \<Rightarrow> string \<Rightarrow> building \<Rightarrow> prepared_request res" where
  "finish_request P op base st =
     (if CHR ''{'' \<in> set (bld_path st) \<or> CHR ''}'' \<in> set (bld_path st)
      then Inl (raise_at ARGUMENT_VALIDATION_FAILED [])
      else
        (let content_type =
               (if bld_has_body st
                then Some (case request_body_media_type op of None \<Rightarrow> ''application/json'' | Some m \<Rightarrow> m)
                else None);
             encoded_body =
               (if bld_has_body st
                then Some (utf8_encode (dumps P compact_style (JObj (bld_body st)))) else None);
             url = rstrip_by (\<lambda>c. c = CHR ''/'') base @ bld_path st;
             full = (if bld_query st \<noteq> [] then url @ ''?'' @ urlencode (bld_query st) else url);
             protocol_headers =
               (''accept'', ''application/json'') #
               (case content_type of None \<Rightarrow> [] | Some m \<Rightarrow> [(''content-type'', m)])
         in Inr \<lparr>req_method = op_method op, req_url = full, req_path = bld_path st,
                 req_query = bld_query st, req_headers = protocol_headers @ bld_headers st,
                 req_body = encoded_body, req_content_type = content_type\<rparr>))"

definition prepare_request ::
  "platform \<Rightarrow> tool_definition \<Rightarrow> json dict \<Rightarrow> string \<Rightarrow> prepared_request res" where
  "prepare_request P tool arguments base =
     rbind (rfold (apply_binding P arguments) (op_bindings (operation tool))
              \<lparr>bld_path = path_template (operation tool), bld_query = [], bld_headers = [],
               bld_body = [], bld_has_body = False\<rparr>)
       (finish_request P (operation tool) base)"

section \<open>Lemmas on percent encoding\<close>

definition quoted_char :: "char \<Rightarrow> bool" where
  "quoted_char c \<longleftrightarrow> is_unreserved c \<or> c = CHR ''%''"

lemma hex_upper_unreserved: "d < 16 \<Longrightarrow> is_unreserved (hex_upper d)"
  unfolding hex_upper_def is_unreserved_def is_alnum_def is_alpha_def is_upper_def is_lower_def is_digit_def
  by auto

lemma quote_byte_chars: "list_all quoted_char (quote_byte c)"
  using hex_upper_unreserved [of "code c div 16"] hex_upper_unreserved [of "code c mod 16"]
  by (simp add: quote_byte_def quoted_char_def div_less_iff_less_mult)

lemma url_quote_chars: "list_all quoted_char (url_quote s)"
  using quote_byte_chars by (auto simp: url_quote_def list_all_iff)

text \<open>The characters that delimit parts of a request never come out of the encoder.\<close>

definition url_delimiter :: "char \<Rightarrow> bool" where
  "url_delimiter c \<longleftrightarrow> c \<in> {CHR ''/'', CHR ''?'', CHR ''#'', CHR ''{'', CHR ''}'', CHR ''@'', CHR '':''}"

lemma quoted_not_delimiter: "quoted_char c \<Longrightarrow> \<not> url_delimiter c"
  unfolding quoted_char_def url_delimiter_def is_unreserved_def is_alnum_def is_alpha_def is_upper_def
    is_lower_def is_digit_def
  by (elim disjE) auto

text \<open>A dot is not encoded, so a path argument may be a dot segment.\<close>

lemma dot_segment_is_kept: "url_quote ''..'' = ''..''"
  by code_simp

lemma url_quote_no_delimiter: "url_delimiter c \<Longrightarrow> c \<notin> set (url_quote s)"
  using url_quote_chars [of s] quoted_not_delimiter by (auto simp: list_all_iff)

text \<open>Replacing a placeholder changes the count of a character the two sides do not contain.\<close>

lemma filter_absent: "c \<notin> set s \<Longrightarrow> filter (\<lambda>x. x = c) s = []"
  by (induction s) auto

lemma count_str_replace:
  assumes "c \<notin> set old" and "c \<notin> set new"
  shows "length (filter (\<lambda>x. x = c) (str_replace old new s)) = length (filter (\<lambda>x. x = c) s)"
  using assms
proof (induction old new s rule: str_replace.induct)
  case (2 old new d ds)
  show ?case
  proof (cases "old \<noteq> [] \<and> starts_with old (d # ds)")
    case True
    then obtain t where t: "d # ds = old @ t" by (auto simp: starts_with_iff)
    then have "length (filter (\<lambda>x. x = c) (str_replace old new t)) = length (filter (\<lambda>x. x = c) t)"
      using 2 True by simp
    moreover have "str_replace old new (d # ds) = new @ str_replace old new t"
    proof -
      have "str_replace old new (d # ds) = new @ str_replace old new (drop (length old) (d # ds))"
        using True by (simp only: str_replace.simps if_True simp_thms)
      also have "drop (length old) (d # ds) = t" by (simp add: t)
      finally show ?thesis .
    qed
    ultimately show ?thesis using 2(3,4) t by (simp add: filter_absent)
  next
    case False
    then show ?thesis using 2 by auto
  qed
qed simp

lemma set_str_replace: "set (str_replace old new s) \<subseteq> set new \<union> set s"
proof (induction old new s rule: str_replace.induct)
  case (2 old new d ds)
  then show ?case using set_drop_subset [of "length old" "d # ds"] by auto
qed simp

section \<open>Lemmas on the assembly\<close>

lemma place_value_path:
  assumes "place_value P b v st = Inr st'"
  shows "bld_path st' = bld_path st \<or>
    (binding_target b = PathTarget \<and>
     (\<exists>s. bld_path st' = str_replace (placeholder (target_name b)) (url_quote s) (bld_path st)))"
  using assms
  by (cases "binding_target b") (auto simp: place_value_def res_simps split: if_splits)

lemma apply_binding_path:
  assumes "apply_binding P args b st = Inr st'"
  shows "bld_path st' = bld_path st \<or>
    (binding_target b = PathTarget \<and>
     (\<exists>s. bld_path st' = str_replace (placeholder (target_name b)) (url_quote s) (bld_path st)))"
  using assms place_value_path [of P b _ st st']
  by (auto simp: apply_binding_def split: option.splits json.splits)

text \<open>A delimiter that occurs in no path placeholder occurs in the path as often as in the template.\<close>

lemma assembly_count:
  assumes "rfold (apply_binding P args) bs st = Inr st'" and "url_delimiter c"
    and "c \<noteq> CHR ''{''" "c \<noteq> CHR ''}''"
    and "\<And>b. b \<in> set bs \<Longrightarrow> binding_target b = PathTarget \<Longrightarrow> c \<notin> set (target_name b)"
  shows "length (filter (\<lambda>x. x = c) (bld_path st')) = length (filter (\<lambda>x. x = c) (bld_path st))"
proof (rule rfold_invariant [OF assms(1)])
  fix b s s'
  assume b: "b \<in> set bs" and step: "apply_binding P args b s = Inr s'"
    and eq: "length (filter (\<lambda>x. x = c) (bld_path s)) = length (filter (\<lambda>x. x = c) (bld_path st))"
  have "binding_target b = PathTarget \<Longrightarrow> c \<notin> set (placeholder (target_name b))"
    using assms(3-5) b by (auto simp: placeholder_def)
  with apply_binding_path [OF step] url_quote_no_delimiter [OF assms(2)]
  show "length (filter (\<lambda>x. x = c) (bld_path s')) = length (filter (\<lambda>x. x = c) (bld_path st))"
    using eq by (elim disjE conjE exE) (simp_all add: count_str_replace)
qed simp

lemma assembly_absent:
  assumes "rfold (apply_binding P args) bs st = Inr st'" and "url_delimiter c"
    and "c \<notin> set (bld_path st)"
  shows "c \<notin> set (bld_path st')"
proof (rule rfold_invariant [OF assms(1), where P = "\<lambda>s. c \<notin> set (bld_path s)"])
  fix b s s'
  assume "apply_binding P args b s = Inr s'" and "c \<notin> set (bld_path s)"
  then show "c \<notin> set (bld_path s')"
    using apply_binding_path [of P args b s s'] url_quote_no_delimiter [OF assms(2)]
      set_str_replace [of "placeholder (target_name b)"] by fastforce
qed (rule assms(3))

text \<open>Header values are free of the characters that could start another header.\<close>

lemma assembly_headers:
  assumes "rfold (apply_binding P args) bs st = Inr st'"
    and "list_all (\<lambda>h. \<not> list_ex forbidden_in_header (snd h)) (bld_headers st)"
  shows "list_all (\<lambda>h. \<not> list_ex forbidden_in_header (snd h)) (bld_headers st')"
proof (rule rfold_invariant [OF assms(1),
      where P = "\<lambda>s. list_all (\<lambda>h. \<not> list_ex forbidden_in_header (snd h)) (bld_headers s)"])
  fix b s s'
  assume step: "apply_binding P args b s = Inr s'"
    and inv: "list_all (\<lambda>h. \<not> list_ex forbidden_in_header (snd h)) (bld_headers s)"
  have "list_all (\<lambda>h. \<not> list_ex forbidden_in_header (snd h)) (bld_headers s')"
    if "place_value P b v s = Inr s'" for v
    using that inv
    by (cases "binding_target b") (auto simp: place_value_def header_value_def res_simps split: if_splits)
  with step inv show "list_all (\<lambda>h. \<not> list_ex forbidden_in_header (snd h)) (bld_headers s')"
    by (auto simp: apply_binding_def split: option.splits json.splits)
qed (rule assms(2))

lemma prepare_request_Inr:
  assumes "prepare_request P tool args base = Inr r"
  obtains st where "rfold (apply_binding P args) (op_bindings (operation tool))
      \<lparr>bld_path = path_template (operation tool), bld_query = [], bld_headers = [],
       bld_body = [], bld_has_body = False\<rparr> = Inr st"
    and "req_path r = bld_path st" and "CHR ''{'' \<notin> set (bld_path st)" "CHR ''}'' \<notin> set (bld_path st)"
    and "req_method r = op_method (operation tool)" and "req_query r = bld_query st"
    and "req_url r = rstrip_by (\<lambda>c. c = CHR ''/'') base @ bld_path st
           @ (if bld_query st \<noteq> [] then ''?'' @ urlencode (bld_query st) else [])"
    and "\<exists>m. req_headers r = (''accept'', ''application/json'') # m @ bld_headers st
           \<and> m \<in> {[], [(''content-type'', the (req_content_type r))]}"
proof -
  from assms obtain st where st: "rfold (apply_binding P args) (op_bindings (operation tool))
      \<lparr>bld_path = path_template (operation tool), bld_query = [], bld_headers = [],
       bld_body = [], bld_has_body = False\<rparr> = Inr st"
    and fin: "finish_request P (operation tool) base st = Inr r"
    by (auto simp: prepare_request_def res_simps)
  from fin show thesis
    using that [OF st] by (auto simp: finish_request_def Let_def split: if_splits)
qed

text \<open>Writing at a pointer and reading it back.\<close>

lemma read_write_tokens:
  "ts \<noteq> [] \<Longrightarrow> read_tokens (JObj (write_tokens d ts v)) ts = Some v"
proof (induction d ts v rule: write_tokens.induct)
  case (3 d t u us v)
  then show ?case by (simp del: read_tokens.simps add: read_tokens.simps(2) [of _ t])
qed simp_all

lemma write_tokens_frame:
  "ts \<noteq> [] \<Longrightarrow> k \<noteq> hd ts \<Longrightarrow> dget (write_tokens d ts v) k = dget d k"
  by (cases ts rule: remdups_adj.cases) simp_all

section \<open>Properties\<close>

text \<open>
  C31: An argument cannot redirect a request. Whatever the arguments are, a request that is built has
  the method of the operation, and its path has no placeholder left, no query or fragment delimiter,
  and as many slashes as the reviewed template when no path placeholder's name contains one; the URL
  is the base URL followed by that path and by the encoded query, and no header value that comes from
  an argument contains a line break or a NUL.
\<close>

theorem arguments_cannot_redirect:
  assumes "operation_ok (operation tool)" and "prepare_request P tool args base = Inr r"
  shows "req_method r = op_method (operation tool) \<and>
    (\<forall>c. c \<in> {CHR ''{'', CHR ''}'', CHR ''?'', CHR ''#''} \<longrightarrow> c \<notin> set (req_path r)) \<and>
    (list_all (\<lambda>b. binding_target b = PathTarget \<longrightarrow> CHR ''/'' \<notin> set (target_name b))
        (op_bindings (operation tool)) \<longrightarrow>
      length (filter (\<lambda>x. x = CHR ''/'') (req_path r))
        = length (filter (\<lambda>x. x = CHR ''/'') (path_template (operation tool)))) \<and>
    req_url r = rstrip_by (\<lambda>c. c = CHR ''/'') base @ req_path r
      @ (if req_query r \<noteq> [] then ''?'' @ urlencode (req_query r) else []) \<and>
    (\<exists>protocol bound. req_headers r = protocol @ bound \<and>
       set (map fst protocol) \<subseteq> {''accept'', ''content-type''} \<and>
       list_all (\<lambda>h. \<not> list_ex forbidden_in_header (snd h)) bound)"
proof -
  obtain st where st: "rfold (apply_binding P args) (op_bindings (operation tool))
      \<lparr>bld_path = path_template (operation tool), bld_query = [], bld_headers = [],
       bld_body = [], bld_has_body = False\<rparr> = Inr st"
    and path: "req_path r = bld_path st" "CHR ''{'' \<notin> set (bld_path st)" "CHR ''}'' \<notin> set (bld_path st)"
    and m: "req_method r = op_method (operation tool)" and q: "req_query r = bld_query st"
    and u: "req_url r = rstrip_by (\<lambda>c. c = CHR ''/'') base @ bld_path st
           @ (if bld_query st \<noteq> [] then ''?'' @ urlencode (bld_query st) else [])"
    and h: "\<exists>m. req_headers r = (''accept'', ''application/json'') # m @ bld_headers st
           \<and> m \<in> {[], [(''content-type'', the (req_content_type r))]}"
    using prepare_request_Inr [OF assms(2)] by blast
  have "rx_match PATH_TEMPLATE_PATTERN (path_template (operation tool))"
    using assms(1) by (simp add: operation_ok_def)
  from PATH_TEMPLATE_match(2) [OF this]
  have "CHR ''?'' \<notin> set (path_template (operation tool))"
    "CHR ''#'' \<notin> set (path_template (operation tool))" by auto
  then have clean: "CHR ''?'' \<notin> set (bld_path st)" "CHR ''#'' \<notin> set (bld_path st)"
    using assembly_absent [OF st, of "CHR ''?''"] assembly_absent [OF st, of "CHR ''#''"]
    by (simp_all add: url_delimiter_def)
  have slashes: "length (filter (\<lambda>x. x = CHR ''/'') (bld_path st))
      = length (filter (\<lambda>x. x = CHR ''/'') (path_template (operation tool)))"
    if "list_all (\<lambda>b. binding_target b = PathTarget \<longrightarrow> CHR ''/'' \<notin> set (target_name b))
        (op_bindings (operation tool))"
    using assembly_count [OF st, of "CHR ''/''"] that by (simp add: url_delimiter_def list_all_iff)
  have "list_all (\<lambda>h. \<not> list_ex forbidden_in_header (snd h)) (bld_headers st)"
    using assembly_headers [OF st] by simp
  with h have "\<exists>protocol bound. req_headers r = protocol @ bound \<and>
       set (map fst protocol) \<subseteq> {''accept'', ''content-type''} \<and>
       list_all (\<lambda>h. \<not> list_ex forbidden_in_header (snd h)) bound"
    by (elim exE conjE, rename_tac mm)
      (rule_tac x = "(''accept'', ''application/json'') # mm" in exI, rule_tac x = "bld_headers st" in exI, auto)
  with m u q path clean slashes show ?thesis by auto
qed

lemma arguments_cannot_redirect_witness:
  "\<exists>r. prepare_request sample_platform example_tool [(''id'', JStr ''../a?b#{id}'')] ''https://api.example.org/''
        = Inr r \<and> req_url r = ''https://api.example.org/tickets/..%2Fa%3Fb%23%7Bid%7D'' \<and>
      CHR ''?'' \<notin> set (req_path r)"
proof -
  define r where "r = \<lparr>req_method = ''GET'', req_url = ''https://api.example.org/tickets/..%2Fa%3Fb%23%7Bid%7D'',
    req_path = ''/tickets/..%2Fa%3Fb%23%7Bid%7D'', req_query = [],
    req_headers = [(''accept'', ''application/json'')], req_body = None, req_content_type = None\<rparr>"
  have r: "prepare_request sample_platform example_tool [(''id'', JStr ''../a?b#{id}'')]
      ''https://api.example.org/'' = Inr r"
    unfolding r_def by code_simp
  have "operation_ok (operation example_tool)" by code_simp
  from arguments_cannot_redirect [OF this r] r show ?thesis
    by (intro exI [of _ r] conjI) (simp_all add: r_def)
qed

text \<open>
  Only what the published bindings read can reach the request: two argument objects that agree at
  every bound pointer give the same request or the same failure, whatever else they contain.
\<close>

theorem only_bound_arguments_matter:
  assumes "list_all (\<lambda>b. read_pointer args (argument_pointer b) = read_pointer args' (argument_pointer b))
      (op_bindings (operation tool))"
  shows "prepare_request P tool args base = prepare_request P tool args' base"
proof -
  have "rfold (apply_binding P args) (op_bindings (operation tool)) s
      = rfold (apply_binding P args') (op_bindings (operation tool)) s" for s
    using assms by (intro rfold_cong_on) (simp add: apply_binding_def list_all_iff)
  then show ?thesis by (simp add: prepare_request_def)
qed

lemma only_bound_arguments_matter_witness:
  "prepare_request sample_platform example_tool [(''id'', JInt 7), (''admin'', JBool True)] ''https://a''
     = prepare_request sample_platform example_tool [(''id'', JInt 7)] ''https://a''"
proof -
  have "list_all (\<lambda>b. read_pointer [(''id'', JInt 7), (''admin'', JBool True)] (argument_pointer b)
      = read_pointer [(''id'', JInt 7)] (argument_pointer b)) (op_bindings (operation example_tool))"
    by code_simp
  then show ?thesis by (rule only_bound_arguments_matter)
qed

text \<open>
  A value written into the request body at a pointer is read back from it, and no property of the
  body outside the pointer's first component changes; writing fails only for the empty pointer.
\<close>

theorem body_pointer_roundtrip:
  "(case write_pointer d p v of
      Inl e \<Rightarrow> e = raise_at ARGUMENT_VALIDATION_FAILED p \<and> pointer_tokens p = []
    | Inr d' \<Rightarrow> read_pointer d' p = Some v \<and>
        (\<forall>k. k \<noteq> hd (pointer_tokens p) \<longrightarrow> dget d' k = dget d k))"
proof (cases "pointer_tokens p = []")
  case False
  then have "p \<noteq> []" by (auto simp: pointer_tokens_def)
  with False show ?thesis
    using read_write_tokens [OF False] write_tokens_frame [OF False]
    by (simp add: write_pointer_def read_pointer_def)
qed (simp add: write_pointer_def)

lemma body_pointer_roundtrip_witness:
  "\<exists>d. write_pointer [] ''/owner/na~1me'' (JInt 1) = Inr d \<and> read_pointer d ''/owner/na~1me'' = Some (JInt 1)"
proof -
  have "is_ok (write_pointer [] ''/owner/na~1me'' (JInt 1))" by code_simp
  then obtain d where "write_pointer [] ''/owner/na~1me'' (JInt 1) = Inr d" by (auto simp: is_ok_iff)
  with body_pointer_roundtrip [of "''/owner/na~1me''" "JInt 1" "[]"] show ?thesis by auto
qed

end
