(* ===== verification/Destinations.thy ===== *)
theory Destinations
  imports Net
begin

text \<open>
  The destination policy of \<^verbatim>\<open>packages/policy-engine/toollayer_policy/destinations.py\<close>. A check
  returns its verdict together with the name lookups it made, so that what is refused before any
  outbound effect can be stated.
\<close>

section \<open>Data\<close>

record authority =
  auth_scheme :: string
  auth_host :: string
  auth_port :: nat
  auth_userinfo :: bool

record resolved_destination =
  dest_origin :: string
  dest_scheme :: string
  dest_host :: string
  dest_port :: nat
  dest_addresses :: "string list"

record destination_policy =
  allowed_origins :: "string set"
  allowed_methods :: "string set"
  allow_plaintext_http :: bool
  allow_loopback :: bool
  allow_private_addresses :: bool

definition DEFAULT_ALLOWED_METHODS :: "string set" where
  "DEFAULT_ALLOWED_METHODS = {''GET'', ''POST'', ''PUT'', ''PATCH'', ''DELETE''}"

definition DEFAULT_PORTS :: "(string \<times> nat) list" where
  "DEFAULT_PORTS = [(''http'', 80), (''https'', 443)]"

text \<open>A resolver maps a host and port to addresses or an exception.\<close>

type_synonym resolver = "string \<Rightarrow> nat \<Rightarrow> string list res"

type_synonym lookup = "string \<times> nat"

section \<open>Resolving\<close>

text \<open>
  \<open>SystemDnsResolver.resolve\<close> over \<^verbatim>\<open>socket.getaddrinfo\<close>, which gives the first component of every
  socket address, when it is a string, or fails with \<open>OSError\<close>.
\<close>

fun distinct_addresses :: "string list \<Rightarrow> string option list \<Rightarrow> string list" where
  "distinct_addresses acc [] = acc"
| "distinct_addresses acc (None # is) = distinct_addresses acc is"
| "distinct_addresses acc (Some a # is) =
     distinct_addresses (if a \<in> set acc then acc else acc @ [a]) is"

definition system_resolve :: "(string \<Rightarrow> nat \<Rightarrow> string option list option) \<Rightarrow> resolver" where
  "system_resolve getaddrinfo host port =
     (case getaddrinfo host port of
        None \<Rightarrow> Inl (policy_denied UPSTREAM_UNAVAILABLE)
      | Some infos \<Rightarrow>
          (let addresses = distinct_addresses [] infos in
           if addresses = [] then Inl (policy_denied UPSTREAM_UNAVAILABLE) else Inr addresses))"

section \<open>Parsing\<close>

definition strip_dots :: "string \<Rightarrow> string" where
  "strip_dots h = rstrip_by (\<lambda>c. c = CHR ''.'') h"

definition split_authority :: "string \<Rightarrow> authority res" where
  "split_authority value =
     (case urlsplit value of
        None \<Rightarrow> Inl ValueError
      | Some parsed \<Rightarrow>
          (let scheme = str_lower (url_scheme parsed) in
           case map_of DEFAULT_PORTS scheme of
             None \<Rightarrow> Inl ValueError
           | Some default_port \<Rightarrow>
               (let host = url_hostname (url_netloc parsed);
                    has_userinfo = has_credentials (url_netloc parsed) in
                rbind (url_port (url_netloc parsed)) (\<lambda>port.
                  if host = [] then Inl ValueError
                  else if strip_dots host = [] then Inl ValueError
                  else Inr \<lparr>auth_scheme = scheme, auth_host = str_lower (strip_dots host),
                            auth_port = (case port of
                                           None \<Rightarrow> default_port
                                         | Some p \<Rightarrow> if p = 0 then default_port else p),
                            auth_userinfo = has_userinfo\<rparr>))))"

definition origin_text :: "string \<Rightarrow> string \<Rightarrow> nat \<Rightarrow> string" where
  "origin_text scheme host port = scheme @ ''://'' @ host @ '':'' @ string_of_nat port"

definition normalize_origin :: "string \<Rightarrow> string res" where
  "normalize_origin value =
     rbind (split_authority (if str_contains ''://'' value then value else ''https://'' @ value))
       (\<lambda>a. if auth_userinfo a then Inl ValueError
            else Inr (origin_text (auth_scheme a) (auth_host a) (auth_port a)))"

definition from_origins ::
  "string list \<Rightarrow> string set option \<Rightarrow> bool \<Rightarrow> bool \<Rightarrow> bool \<Rightarrow> destination_policy res" where
  "from_origins origins methods plaintext loopback private =
     rbind (rmap normalize_origin origins) (\<lambda>normalized.
       Inr \<lparr>allowed_origins = set normalized,
            allowed_methods = (case methods of
                                 None \<Rightarrow> DEFAULT_ALLOWED_METHODS
                               | Some m \<Rightarrow> if m = {} then DEFAULT_ALLOWED_METHODS else m),
            allow_plaintext_http = plaintext, allow_loopback = loopback,
            allow_private_addresses = private\<rparr>)"

section \<open>Checking\<close>

definition check_method :: "destination_policy \<Rightarrow> string \<Rightarrow> unit res" where
  "check_method p m =
     (if str_upper m \<notin> allowed_methods p then Inl (policy_denied METHOD_NOT_ALLOWED) else Inr ())"

text \<open>The address the packet goes to: an IPv4-mapped address is unwrapped.\<close>

definition unwrap_mapped :: "ip_addr \<Rightarrow> ip_addr" where
  "unwrap_mapped a = (case ipv4_mapped a of None \<Rightarrow> a | Some b \<Rightarrow> V4 b)"

definition check_address :: "destination_policy \<Rightarrow> string \<Rightarrow> unit res" where
  "check_address p address =
     (case ip_address address of
        None \<Rightarrow> Inl (policy_denied PRIVATE_ADDRESS_BLOCKED)
      | Some ip \<Rightarrow>
          (let parsed = unwrap_mapped ip in
           if is_loopback parsed then
             (if \<not> allow_loopback p then Inl (policy_denied PRIVATE_ADDRESS_BLOCKED) else Inr ())
           else if is_multicast parsed \<or> is_reserved parsed \<or> is_unspecified parsed
           then Inl (policy_denied PRIVATE_ADDRESS_BLOCKED)
           else if is_link_local parsed then Inl (policy_denied PRIVATE_ADDRESS_BLOCKED)
           else if \<not> is_global parsed \<and> \<not> allow_private_addresses p
           then Inl (policy_denied PRIVATE_ADDRESS_BLOCKED)
           else Inr ()))"

definition resolved_addresses ::
  "string \<Rightarrow> nat \<Rightarrow> resolver \<Rightarrow> (lookup, exn, string list) traced" where
  "resolved_addresses host port resolve =
     (case ip_address host of
        Some literal \<Rightarrow> quiet (Inr [ip_text literal])
      | None \<Rightarrow> ([(host, port)], resolve host port))"

definition check_destination ::
  "destination_policy \<Rightarrow> string \<Rightarrow> resolver \<Rightarrow> (lookup, exn, resolved_destination) traced" where
  "check_destination p url resolve =
     (case split_authority url of
        Inl e \<Rightarrow> quiet (Inl (if is_value_error e then policy_denied DESTINATION_NOT_ALLOWED else e))
      | Inr a \<Rightarrow>
          (let scheme = auth_scheme a; host = auth_host a; port = auth_port a;
               origin = origin_text scheme host port in
           if scheme = ''http'' \<and> \<not> allow_plaintext_http p
           then quiet (Inl (policy_denied DESTINATION_NOT_ALLOWED))
           else if auth_userinfo a then quiet (Inl (policy_denied DESTINATION_NOT_ALLOWED))
           else if allowed_origins p = {} then quiet (Inl (policy_denied DESTINATION_NOT_ALLOWED))
           else if origin \<notin> allowed_origins p
           then quiet (Inl (policy_denied DESTINATION_NOT_ALLOWED))
           else
             tbind (resolved_addresses host port resolve) (\<lambda>addresses.
             tbind (quiet (rmap (check_address p) addresses)) (\<lambda>_.
               quiet (Inr \<lparr>dest_origin = origin, dest_scheme = scheme, dest_host = str_lower host,
                           dest_port = port, dest_addresses = addresses\<rparr>)))))"

section \<open>Lemmas\<close>

lemma split_authority_Inr:
  assumes "split_authority u = Inr a"
  obtains parsed dp port where "urlsplit u = Some parsed"
    and "auth_scheme a = str_lower (url_scheme parsed)"
    and "map_of DEFAULT_PORTS (auth_scheme a) = Some dp"
    and "url_port (url_netloc parsed) = Inr port"
    and "strip_dots (url_hostname (url_netloc parsed)) \<noteq> []"
    and "auth_host a = str_lower (strip_dots (url_hostname (url_netloc parsed)))"
    and "auth_port a = (case port of None \<Rightarrow> dp | Some p \<Rightarrow> if p = 0 then dp else p)"
    and "auth_userinfo a = has_credentials (url_netloc parsed)"
proof -
  obtain parsed where p: "urlsplit u = Some parsed"
    using assms by (cases "urlsplit u") (simp_all add: split_authority_def)
  define sch where "sch = str_lower (url_scheme parsed)"
  define host where "host = url_hostname (url_netloc parsed)"
  obtain dp where dp: "map_of DEFAULT_PORTS sch = Some dp"
    using assms p by (cases "map_of DEFAULT_PORTS sch") (simp_all add: split_authority_def sch_def)
  obtain port where port: "url_port (url_netloc parsed) = Inr port"
    using assms p dp by (cases "url_port (url_netloc parsed)")
      (simp_all add: split_authority_def sch_def Let_def)
  have "host \<noteq> [] \<and> strip_dots host \<noteq> [] \<and>
      a = \<lparr>auth_scheme = sch, auth_host = str_lower (strip_dots host),
           auth_port = (case port of None \<Rightarrow> dp | Some p \<Rightarrow> if p = 0 then dp else p),
           auth_userinfo = has_credentials (url_netloc parsed)\<rparr>"
    using assms p dp port
    by (simp add: split_authority_def sch_def [symmetric] host_def [symmetric] Let_def
        split: if_splits)
  with p dp port that show thesis by (simp add: sch_def host_def)
qed

lemma split_authority_Inl:
  assumes "split_authority u = Inl e"
  shows "e = ValueError"
proof -
  have port: "url_port n = Inl e \<Longrightarrow> e = ValueError" for n
    by (simp add: url_port_def Let_def split: if_splits)
  show ?thesis
  proof (cases "urlsplit u")
    case None
    with assms show ?thesis by (simp add: split_authority_def)
  next
    case (Some parsed)
    then show ?thesis
      using assms port [of "url_netloc parsed"]
      by (cases "map_of DEFAULT_PORTS (str_lower (url_scheme parsed))";
          cases "url_port (url_netloc parsed)")
        (simp_all add: split_authority_def Let_def split: if_splits)
  qed
qed

lemma default_port_cases:
  "map_of DEFAULT_PORTS s = Some dp \<Longrightarrow> s = ''http'' \<and> dp = 80 \<or> s = ''https'' \<and> dp = 443"
  by (simp add: DEFAULT_PORTS_def split: if_splits)

lemma split_authority_scheme:
  assumes "split_authority u = Inr a"
  shows "auth_scheme a = ''http'' \<or> auth_scheme a = ''https''"
  using assms by (rule split_authority_Inr) (drule default_port_cases, elim disjE conjE, simp_all)

lemma split_authority_port:
  assumes "split_authority u = Inr a"
  shows "0 < auth_port a \<and> auth_port a \<le> 65535"
proof -
  obtain n dp port where dp: "map_of DEFAULT_PORTS (auth_scheme a) = Some dp"
    and p: "url_port n = Inr port"
    and a: "auth_port a = (case port of None \<Rightarrow> dp | Some p \<Rightarrow> if p = 0 then dp else p)"
    using assms by (rule split_authority_Inr) blast
  have "dp = 80 \<or> dp = 443" using default_port_cases [OF dp] by argo
  with a p url_port_range [of n] show ?thesis by (cases port) auto
qed

lemma lower_char_dot: "lower_char c = CHR ''.'' \<Longrightarrow> c = CHR ''.''"
proof -
  assume "lower_char c = CHR ''.''"
  then have "code (lower_char c) = 46" by simp
  then have "code c = code CHR ''.''"
    by (simp add: lower_char_code is_upper_def split: if_splits)
  then show ?thesis by (simp only: of_char_eq_iff)
qed

lemma split_authority_host:
  assumes "split_authority u = Inr a"
  shows "auth_host a \<noteq> []" and "last (auth_host a) \<noteq> CHR ''.''"
    and "str_lower (auth_host a) = auth_host a"
proof -
  obtain h where ne: "strip_dots h \<noteq> []" and h: "auth_host a = str_lower (strip_dots h)"
    using assms by (rule split_authority_Inr) blast
  show "auth_host a \<noteq> []" using h ne by (simp add: str_lower_def)
  have "last (strip_dots h) \<noteq> CHR ''.''"
    using rstrip_by_last [of "\<lambda>c. c = CHR ''.''" h] ne by (simp add: strip_dots_def)
  then show "last (auth_host a) \<noteq> CHR ''.''"
    using ne lower_char_dot by (auto simp: h str_lower_def last_map)
  show "str_lower (auth_host a) = auth_host a" by (simp add: h)
qed

text \<open>An origin determines its scheme, host and port: the port is what follows the last colon.\<close>

lemma last_sep_unique:
  assumes "x @ c # s = y @ c # t" and "c \<notin> set s" and "c \<notin> set t"
  shows "x = y \<and> s = t"
  using assms
proof (induction x arbitrary: y)
  case Nil
  then show ?case by (cases y) auto
next
  case (Cons a x)
  then show ?case by (cases y) auto
qed

lemma colon_not_in_number: "CHR '':'' \<notin> set (string_of_nat n)"
  by (auto dest!: set_string_of_nat simp: is_digit_def)

lemma origin_text_inject:
  assumes "origin_text s h p = origin_text s' h' p'"
    and "s = ''http'' \<or> s = ''https''" and "s' = ''http'' \<or> s' = ''https''"
  shows "s = s' \<and> h = h' \<and> p = p'"
proof -
  have "(s @ ''://'' @ h) @ CHR '':'' # string_of_nat p = (s' @ ''://'' @ h') @ CHR '':'' # string_of_nat p'"
    using assms(1) by (simp add: origin_text_def)
  then have "s @ ''://'' @ h = s' @ ''://'' @ h'" and "string_of_nat p = string_of_nat p'"
    using last_sep_unique [OF _ colon_not_in_number colon_not_in_number] by blast+
  then show ?thesis
    using assms(2,3) string_of_nat_inject by auto
qed

text \<open>An address the policy lets through, stated on the parsed address.\<close>

definition address_permitted :: "destination_policy \<Rightarrow> ip_addr \<Rightarrow> bool" where
  "address_permitted p a \<longleftrightarrow>
     (let t = unwrap_mapped a in
      is_loopback t \<and> allow_loopback p \<or>
      \<not> is_loopback t \<and> \<not> is_multicast t \<and> \<not> is_reserved t \<and> \<not> is_unspecified t \<and>
      \<not> is_link_local t \<and> (is_global t \<or> allow_private_addresses p))"

lemma check_address_Inr:
  "check_address p s = Inr () \<longleftrightarrow> (\<exists>a. ip_address s = Some a \<and> address_permitted p a)"
  by (cases "ip_address s") (simp_all add: check_address_def address_permitted_def Let_def)

lemma check_address_Inl: "check_address p s = Inl e \<Longrightarrow> e = policy_denied PRIVATE_ADDRESS_BLOCKED"
  by (cases "ip_address s") (simp_all add: check_address_def Let_def split: if_splits)

text \<open>Link-local addresses are never let through, in either notation.\<close>

lemma permitted_not_link_local:
  assumes "address_permitted p a"
  shows "\<not> is_link_local (unwrap_mapped a)"
proof
  assume ll: "is_link_local (unwrap_mapped a)"
  then have lb: "is_loopback (unwrap_mapped a)"
    using assms by (auto simp: address_permitted_def Let_def)
  show False
  proof (cases "unwrap_mapped a")
    case (V4 w)
    have l: "drop_bit 16 w = 43518" "drop_bit 24 w = 127"
      using ll lb V4 by (simp_all add: in_net_def)
    have "drop_bit 8 (drop_bit 16 w) = drop_bit 24 w" by (simp add: drop_bit_drop_bit)
    then have "drop_bit 8 (43518 :: 32 word) = 127" by (simp only: l)
    then show False by simp
  next
    case (V6 w z)
    then show False using ll lb by (simp add: in_net_def)
  qed
qed

lemma resolved_addresses_trace:
  "fst (resolved_addresses h p r) = (if ip_address h = None then [(h, p)] else [])"
  by (auto simp: resolved_addresses_def split: option.splits)

lemma check_destination_Inr:
  assumes "snd (check_destination p url r) = Inr d"
  obtains a where "split_authority url = Inr a" and "\<not> auth_userinfo a"
    and "auth_scheme a = ''http'' \<Longrightarrow> allow_plaintext_http p"
    and "dest_scheme d = auth_scheme a" and "dest_host d = auth_host a" and "dest_port d = auth_port a"
    and "dest_origin d = origin_text (auth_scheme a) (auth_host a) (auth_port a)"
    and "dest_origin d \<in> allowed_origins p"
    and "snd (resolved_addresses (auth_host a) (auth_port a) r) = Inr (dest_addresses d)"
    and "\<And>x. x \<in> set (dest_addresses d) \<Longrightarrow> check_address p x = Inr ()"
    and "fst (check_destination p url r) = fst (resolved_addresses (auth_host a) (auth_port a) r)"
proof -
  obtain a where a: "split_authority url = Inr a"
    using assms by (cases "split_authority url") (simp_all add: check_destination_def)
  define origin where "origin = origin_text (auth_scheme a) (auth_host a) (auth_port a)"
  have guards: "\<not> (auth_scheme a = ''http'' \<and> \<not> allow_plaintext_http p)" "\<not> auth_userinfo a"
    "allowed_origins p \<noteq> {}" "origin \<in> allowed_origins p"
    using assms a by (auto simp: check_destination_def origin_def [symmetric] Let_def split: if_splits)
  define rest where "rest = tbind (resolved_addresses (auth_host a) (auth_port a) r) (\<lambda>addresses.
      tbind (quiet (rmap (check_address p) addresses)) (\<lambda>_.
        quiet (Inr \<lparr>dest_origin = origin, dest_scheme = auth_scheme a,
          dest_host = str_lower (auth_host a), dest_port = auth_port a, dest_addresses = addresses\<rparr>)))"
  have body: "check_destination p url r = rest"
    unfolding check_destination_def rest_def a sum.case Let_def origin_def [symmetric]
    by (simp only: guards if_False not_True_eq_False)
  then obtain xs us where xs: "snd (resolved_addresses (auth_host a) (auth_port a) r) = Inr xs"
    and us: "rmap (check_address p) xs = Inr us"
    and d: "d = \<lparr>dest_origin = origin, dest_scheme = auth_scheme a,
          dest_host = str_lower (auth_host a), dest_port = auth_port a, dest_addresses = xs\<rparr>"
    using assms by (auto simp: rest_def res_simps)
  have "check_address p x = Inr ()" if "x \<in> set xs" for x
    using rmap_Inr_source [OF us that] by auto
  moreover have "fst rest = fst (resolved_addresses (auth_host a) (auth_port a) r)"
    by (simp add: rest_def tbind_trace xs us)
  ultimately show thesis
    using that [OF a] guards d xs body split_authority_host(3) [OF a] by (simp add: origin_def)
qed

lemma check_destination_trace:
  "fst (check_destination p url r) = [] \<or>
   (\<exists>a. split_authority url = Inr a \<and> \<not> auth_userinfo a \<and> ip_address (auth_host a) = None \<and>
      origin_text (auth_scheme a) (auth_host a) (auth_port a) \<in> allowed_origins p \<and>
      fst (check_destination p url r) = [(auth_host a, auth_port a)])"
proof (cases "split_authority url")
  case (Inl e)
  then show ?thesis by (simp add: check_destination_def)
next
  case (Inr a)
  define origin where "origin = origin_text (auth_scheme a) (auth_host a) (auth_port a)"
  define go where "go \<longleftrightarrow> \<not> (auth_scheme a = ''http'' \<and> \<not> allow_plaintext_http p) \<and>
    \<not> auth_userinfo a \<and> allowed_origins p \<noteq> {} \<and> origin \<in> allowed_origins p"
  have tail: "fst (tbind (quiet (rmap (check_address p) xs)) (\<lambda>_. quiet (Inr (mk xs)))) = []"
    for mk :: "string list \<Rightarrow> resolved_destination" and xs
    by (cases "rmap (check_address p) xs") simp_all
  have "fst (check_destination p url r) =
      (if go then fst (resolved_addresses (auth_host a) (auth_port a) r) else [])"
    unfolding check_destination_def Inr sum.case Let_def origin_def [symmetric] go_def
    by (auto simp: tbind_trace tail split: sum.splits)
  then show ?thesis
    by (auto simp: Inr resolved_addresses_trace go_def origin_def)
qed

section \<open>Properties\<close>

text \<open>
  C30: A destination that passes the check has an allowlisted origin made of exactly the scheme, host
  and port of the URL, carries no credentials, uses plaintext only if that is enabled, and every
  address it resolved to is one the policy permits: never link-local (also when written as an
  IPv4-mapped address), loopback only if that is enabled, otherwise globally routable unless private
  addresses are enabled.
\<close>

theorem checked_destination_permitted:
  assumes "snd (check_destination p url r) = Inr d"
  shows "(\<exists>a. split_authority url = Inr a \<and> \<not> auth_userinfo a \<and>
            dest_scheme d = auth_scheme a \<and> dest_host d = auth_host a \<and> dest_port d = auth_port a) \<and>
    dest_origin d = origin_text (dest_scheme d) (dest_host d) (dest_port d) \<and>
    dest_origin d \<in> allowed_origins p \<and>
    (dest_scheme d = ''https'' \<or> dest_scheme d = ''http'' \<and> allow_plaintext_http p) \<and>
    list_all (\<lambda>s. \<exists>a. ip_address s = Some a \<and>
        (let t = (case ipv4_mapped a of None \<Rightarrow> a | Some b \<Rightarrow> V4 b) in
           \<not> is_link_local t \<and>
           (is_loopback t \<and> allow_loopback p \<or>
            \<not> is_loopback t \<and> \<not> is_multicast t \<and> \<not> is_reserved t \<and> \<not> is_unspecified t \<and>
            (is_global t \<or> allow_private_addresses p)))) (dest_addresses d)"
proof -
  obtain a where a: "split_authority url = Inr a" "\<not> auth_userinfo a"
    and pl: "auth_scheme a = ''http'' \<Longrightarrow> allow_plaintext_http p"
    and d: "dest_scheme d = auth_scheme a" "dest_host d = auth_host a" "dest_port d = auth_port a"
      "dest_origin d = origin_text (auth_scheme a) (auth_host a) (auth_port a)"
    and al: "dest_origin d \<in> allowed_origins p"
    and ok: "\<And>x. x \<in> set (dest_addresses d) \<Longrightarrow> check_address p x = Inr ()"
    using check_destination_Inr [OF assms] by blast
  have "\<exists>a. ip_address x = Some a \<and> address_permitted p a \<and> \<not> is_link_local (unwrap_mapped a)"
    if "x \<in> set (dest_addresses d)" for x
    using ok [OF that] permitted_not_link_local by (auto simp: check_address_Inr)
  then have "list_all (\<lambda>s. \<exists>a. ip_address s = Some a \<and>
        (let t = unwrap_mapped a in
           \<not> is_link_local t \<and>
           (is_loopback t \<and> allow_loopback p \<or>
            \<not> is_loopback t \<and> \<not> is_multicast t \<and> \<not> is_reserved t \<and> \<not> is_unspecified t \<and>
            (is_global t \<or> allow_private_addresses p)))) (dest_addresses d)"
    unfolding list_all_iff address_permitted_def Let_def by blast
  moreover have "dest_scheme d = ''https'' \<or> dest_scheme d = ''http'' \<and> allow_plaintext_http p"
    using split_authority_scheme [OF a(1)] pl d(1) by metis
  ultimately show ?thesis using a d al unfolding unwrap_mapped_def by simp
qed

definition example_policy :: destination_policy where
  "example_policy =
     \<lparr>allowed_origins = {''https://api.example.org:443''}, allowed_methods = {''GET''},
      allow_plaintext_http = False, allow_loopback = False, allow_private_addresses = False\<rparr>"

lemma checked_destination_permitted_witness:
  "''https://api.example.org:443'' \<in> allowed_origins example_policy \<and>
   snd (check_destination example_policy ''https://API.example.org./v1'' (\<lambda>h p. Inr [''93.184.216.34'']))
     = Inr \<lparr>dest_origin = ''https://api.example.org:443'', dest_scheme = ''https'',
            dest_host = ''api.example.org'', dest_port = 443, dest_addresses = [''93.184.216.34'']\<rparr>"
proof -
  have ok: "snd (check_destination example_policy ''https://API.example.org./v1''
      (\<lambda>h p. Inr [''93.184.216.34'']))
     = Inr \<lparr>dest_origin = ''https://api.example.org:443'', dest_scheme = ''https'',
            dest_host = ''api.example.org'', dest_port = 443, dest_addresses = [''93.184.216.34'']\<rparr>"
    by code_simp
  show ?thesis
    using checked_destination_permitted [OF ok] ok
    unfolding resolved_destination.select_convs by blast
qed

text \<open>
  The allowlist is matched exactly: a destination that passes the check under a configured
  allowlist has the scheme, host and port of one of the configured entries.
\<close>

theorem allowlist_is_exact:
  assumes "from_origins origins methods pt lb pr = Inr p"
    and "snd (check_destination p url r) = Inr d"
  shows "\<exists>entry a. entry \<in> set origins \<and>
    split_authority (if str_contains ''://'' entry then entry else ''https://'' @ entry) = Inr a \<and>
    \<not> auth_userinfo a \<and>
    dest_scheme d = auth_scheme a \<and> dest_host d = auth_host a \<and> dest_port d = auth_port a"
proof -
  obtain b where b: "split_authority url = Inr b"
    and d: "dest_scheme d = auth_scheme b" "dest_host d = auth_host b" "dest_port d = auth_port b"
      "dest_origin d = origin_text (auth_scheme b) (auth_host b) (auth_port b)"
    and al: "dest_origin d \<in> allowed_origins p"
    using check_destination_Inr [OF assms(2)] by blast
  obtain ns where ns: "rmap normalize_origin origins = Inr ns" and "allowed_origins p = set ns"
    using assms(1) by (auto simp: from_origins_def res_simps)
  with al obtain entry where entry: "entry \<in> set origins" "normalize_origin entry = Inr (dest_origin d)"
    using rmap_Inr_elem [OF ns] by auto
  then obtain a where
    a: "split_authority (if str_contains ''://'' entry then entry else ''https://'' @ entry) = Inr a"
      "\<not> auth_userinfo a" "dest_origin d = origin_text (auth_scheme a) (auth_host a) (auth_port a)"
    unfolding normalize_origin_def by (auto simp: res_simps split: if_splits)
  have "auth_scheme a = auth_scheme b \<and> auth_host a = auth_host b \<and> auth_port a = auth_port b"
    using origin_text_inject a d split_authority_scheme [OF a(1)] split_authority_scheme [OF b]
    by metis
  then show ?thesis using entry(1) a d by auto
qed

lemma allowlist_is_exact_witness:
  "\<exists>p d. from_origins [''API.example.org''] None False False False = Inr p \<and>
     snd (check_destination p ''https://api.example.org/v1'' (\<lambda>h n. Inr [''93.184.216.34''])) = Inr d \<and>
     (\<exists>entry a. entry \<in> set [''API.example.org''] \<and>
        split_authority (if str_contains ''://'' entry then entry else ''https://'' @ entry) = Inr a \<and>
        dest_host d = auth_host a)"
proof -
  define p where "p = example_policy\<lparr>allowed_methods := DEFAULT_ALLOWED_METHODS\<rparr>"
  define d where "d = \<lparr>dest_origin = ''https://api.example.org:443'', dest_scheme = ''https'',
            dest_host = ''api.example.org'', dest_port = 443, dest_addresses = [''93.184.216.34'']\<rparr>"
  have n: "rmap normalize_origin [''API.example.org''] = Inr [''https://api.example.org:443'']"
    by code_simp
  have p: "from_origins [''API.example.org''] None False False False = Inr p"
    unfolding from_origins_def n by (simp add: p_def example_policy_def)
  have d: "snd (check_destination p ''https://api.example.org/v1'' (\<lambda>h n. Inr [''93.184.216.34''])) = Inr d"
    unfolding p_def d_def by code_simp
  show ?thesis using allowlist_is_exact [OF p d] p d by blast
qed

text \<open>
  No name is looked up unless the URL already passed every structural check: the trace of a check
  is empty, or it is the single lookup of the host and port of an allowlisted origin that is not an
  address literal. With an empty allowlist every check is refused without a lookup.
\<close>

theorem lookup_only_when_allowlisted:
  "(fst (check_destination p url r) = [] \<or>
    (\<exists>a. split_authority url = Inr a \<and> \<not> auth_userinfo a \<and> ip_address (auth_host a) = None \<and>
       origin_text (auth_scheme a) (auth_host a) (auth_port a) \<in> allowed_origins p \<and>
       fst (check_destination p url r) = [(auth_host a, auth_port a)])) \<and>
   check_destination (p\<lparr>allowed_origins := {}\<rparr>) url r
     = ([], Inl (policy_denied DESTINATION_NOT_ALLOWED))"
proof -
  have "check_destination (p\<lparr>allowed_origins := {}\<rparr>) url r
     = ([], Inl (policy_denied DESTINATION_NOT_ALLOWED))"
    by (cases "split_authority url")
      (auto simp: check_destination_def quiet_def Let_def dest: split_authority_Inl)
  then show ?thesis using check_destination_trace by blast
qed

end
