(* ===== verification/Executor.thy ===== *)
theory Executor
  imports Arguments Destinations
begin

text \<open>
  The execution boundary: \<^verbatim>\<open>packages/policy-engine/toollayer_policy/executor.py\<close>. The network is an
  argument: what an upstream answers to a request, chunk by chunk. Executing returns the outside
  effects it had, name lookups and requests, in their order.
\<close>

section \<open>Limits\<close>

record execution_limits =
  connect_timeout_seconds :: rat
  read_timeout_seconds :: rat
  max_response_bytes :: nat

definition limits_ok :: "execution_limits \<Rightarrow> bool" where
  "limits_ok l \<longleftrightarrow>
     0 < connect_timeout_seconds l \<and> connect_timeout_seconds l \<le> 30 \<and>
     0 < read_timeout_seconds l \<and> read_timeout_seconds l \<le> 60 \<and>
     0 < max_response_bytes l \<and> max_response_bytes l \<le> 16 * 1024 * 1024"

definition mk_limits :: "rat \<Rightarrow> rat \<Rightarrow> nat \<Rightarrow> execution_limits res" where
  "mk_limits c r m =
     (let l = \<lparr>connect_timeout_seconds = c, read_timeout_seconds = r, max_response_bytes = m\<rparr>
      in if limits_ok l then Inr l else Inl ValueError)"

definition default_limits :: execution_limits where
  "default_limits = \<lparr>connect_timeout_seconds = 3, read_timeout_seconds = 10,
     max_response_bytes = 1024 * 1024\<rparr>"

section \<open>The transport\<close>

text \<open>What reading a body yields next, and what an upstream does with a request.\<close>

datatype stream_item = Chunk string | EndOfBody | BodyTimeout | BodyFailed

record upstream_response =
  up_status :: int
  up_headers :: "(string \<times> string) list"
  up_body :: "nat \<Rightarrow> stream_item"

datatype upstream = Responds upstream_response | TimesOut | Unreachable

type_synonym http_reply = "int \<times> (string \<times> string) list \<times> string"

definition sent_headers :: "prepared_request \<Rightarrow> (string \<times> string) list" where
  "sent_headers r =
     (let h = foldl (\<lambda>d (k, v). dset k v d) [] (req_headers r) in
      if dhas ''user-agent'' h then h else dset ''user-agent'' ''toollayer-runtime/0.1'' h)"

definition declared_length_exceeds :: "(string \<times> string) list \<Rightarrow> nat \<Rightarrow> bool" where
  "declared_length_exceeds headers maximum =
     (case dget headers ''content-length'' of
        None \<Rightarrow> False
      | Some raw \<Rightarrow> (case py_int raw of None \<Rightarrow> False | Some n \<Rightarrow> int maximum < n))"

text \<open>
  The streaming loop, from the chunk with index \<open>i\<close> on; \<open>None\<close> is a loop that never returns. The
  second component of a result is the number of chunks that were read.
\<close>

partial_function (option) collect_body ::
  "(nat \<Rightarrow> stream_item) \<Rightarrow> nat \<Rightarrow> nat \<Rightarrow> string \<Rightarrow> (string res \<times> nat) option" where
  "collect_body body cap i collected =
     (case body i of
        Chunk c \<Rightarrow>
          if cap \<le> length (collected @ c) then Some (Inr (take cap (collected @ c)), i + 1)
          else collect_body body cap (i + 1) (collected @ c)
      | EndOfBody \<Rightarrow> Some (Inr collected, i)
      | BodyTimeout \<Rightarrow> Some (Inl (policy_denied UPSTREAM_TIMEOUT), i)
      | BodyFailed \<Rightarrow> Some (Inl (policy_denied UPSTREAM_UNAVAILABLE), i))"

definition httpx_send ::
  "(prepared_request \<Rightarrow> upstream) \<Rightarrow> prepared_request \<Rightarrow> execution_limits \<Rightarrow> http_reply res option" where
  "httpx_send network request limits =
     (case network (request\<lparr>req_headers := sent_headers request\<rparr>) of
        TimesOut \<Rightarrow> Some (Inl (policy_denied UPSTREAM_TIMEOUT))
      | Unreachable \<Rightarrow> Some (Inl (policy_denied UPSTREAM_UNAVAILABLE))
      | Responds response \<Rightarrow>
          if declared_length_exceeds (up_headers response) (max_response_bytes limits)
          then Some (Inl (policy_denied RESPONSE_TOO_LARGE))
          else map_option (\<lambda>(r, n). rbind r (\<lambda>b. Inr (up_status response, up_headers response, b)))
                 (collect_body (up_body response) (max_response_bytes limits + 1) 0 []))"

section \<open>The executor\<close>

datatype effect = Lookup string nat | Sent prepared_request

record executor =
  ex_policy :: destination_policy
  ex_limits :: execution_limits
  ex_transport :: "prepared_request \<Rightarrow> execution_limits \<Rightarrow> http_reply res"
  ex_resolver :: resolver
  ex_elapsed_ms :: "prepared_request \<Rightarrow> nat"

record execution_result =
  result_tool_name :: string
  result_connector_key :: string
  result_connector_version :: string
  result_status :: string
  http_status :: int
  duration_ms :: int
  content :: json
  untrusted :: bool
  result_request_id :: "string option"

definition result_ok :: "execution_result \<Rightarrow> bool" where
  "result_ok r \<longleftrightarrow>
     tool_name_ok (result_tool_name r) \<and> resource_key_ok (result_connector_key r) \<and>
     semantic_version_ok (result_connector_version r) \<and>
     result_status r \<in> {''succeeded'', ''upstream_error''} \<and>
     100 \<le> http_status r \<and> http_status r \<le> 599 \<and> 0 \<le> duration_ms r \<and> untrusted r \<and>
     (case result_request_id r of None \<Rightarrow> True | Some i \<Rightarrow> length i \<le> 64)"

definition MAX_RESPONSE_PREVIEW :: nat where
  "MAX_RESPONSE_PREVIEW = 4096"

definition decode_body :: "platform \<Rightarrow> string \<Rightarrow> (string \<times> string) list \<Rightarrow> json" where
  "decode_body P body headers =
     (if body = [] then JNull
      else
        (let content_type = str_lower (str_strip (hd (split_on CHR '';''
               (case dget headers ''content-type'' of None \<Rightarrow> [] | Some t \<Rightarrow> t))));
             preview = JObj [(''content_type'', JStr (if content_type = [] then ''unknown'' else content_type)),
                             (''text'', JStr (take MAX_RESPONSE_PREVIEW (utf8_replace P body)))]
         in if ends_with ''json'' content_type \<or> ends_with ''+json'' content_type
            then (case json_loads P body of Some v \<Rightarrow> v | None \<Rightarrow> preview)
            else preview))"

definition with_lookups :: "(lookup, exn, 'a) traced \<Rightarrow> (effect, exn, 'a) traced" where
  "with_lookups m = (map (\<lambda>(h, p). Lookup h p) (fst m), snd m)"

definition prepare_call ::
  "platform \<Rightarrow> executor \<Rightarrow> tool_definition \<Rightarrow> json \<Rightarrow> string \<Rightarrow> (effect, exn, prepared_request) traced" where
  "prepare_call P ex tool arguments base =
     tbind (quiet (check_method (ex_policy ex) (op_method (operation tool)))) (\<lambda>_.
     tbind (quiet (validate_arguments P tool arguments)) (\<lambda>validated.
     tbind (quiet (prepare_request P tool validated base)) (\<lambda>request.
     tbind (with_lookups (check_destination (ex_policy ex) (req_url request) (ex_resolver ex))) (\<lambda>_.
       quiet (Inr request)))))"

definition build_result ::
  "platform \<Rightarrow> tool_definition \<Rightarrow> string \<Rightarrow> string \<Rightarrow> string option \<Rightarrow> nat \<Rightarrow> http_reply
    \<Rightarrow> execution_limits \<Rightarrow> execution_result res" where
  "build_result P tool ckey cver request_id elapsed reply limits =
     (let (status, headers, body) = reply in
      if 300 \<le> status \<and> status < 400 then Inl (policy_denied REDIRECT_NOT_ALLOWED)
      else if max_response_bytes limits < length body then Inl (policy_denied RESPONSE_TOO_LARGE)
      else checked result_ok
        \<lparr>result_tool_name = tool_name tool, result_connector_key = ckey,
         result_connector_version = cver,
         result_status = (if status < 400 then ''succeeded'' else ''upstream_error''),
         http_status = status, duration_ms = int elapsed, content = decode_body P body headers,
         untrusted = True, result_request_id = request_id\<rparr>)"

definition execute ::
  "platform \<Rightarrow> executor \<Rightarrow> tool_definition \<Rightarrow> json \<Rightarrow> string \<Rightarrow> string \<Rightarrow> string \<Rightarrow> string option
    \<Rightarrow> (effect, exn, execution_result) traced" where
  "execute P ex tool arguments base ckey cver request_id =
     tbind (prepare_call P ex tool arguments base) (\<lambda>request.
     tbind ([Sent request], ex_transport ex request (ex_limits ex)) (\<lambda>reply.
       quiet (build_result P tool ckey cver request_id
                (ex_elapsed_ms ex request) reply (ex_limits ex))))"

section \<open>Lemmas on streaming\<close>

text \<open>The chunks of a body up to an index, and what httpx promises: no chunk it yields is empty.\<close>

fun item_bytes :: "stream_item \<Rightarrow> string" where
  "item_bytes (Chunk c) = c"
| "item_bytes _ = []"

definition bytes_upto :: "(nat \<Rightarrow> stream_item) \<Rightarrow> nat \<Rightarrow> string" where
  "bytes_upto body n = concat (map (item_bytes \<circ> body) [0..<n])"

definition productive :: "(nat \<Rightarrow> stream_item) \<Rightarrow> bool" where
  "productive body \<longleftrightarrow> (\<forall>i. body i \<noteq> Chunk [])"

lemma bytes_upto_Suc: "bytes_upto body (Suc n) = bytes_upto body n @ item_bytes (body n)"
  by (simp add: bytes_upto_def)

lemma collect_body_total:
  assumes "productive body" and "length acc < cap" and "acc = bytes_upto body i"
  shows "\<exists>r n. collect_body body cap i acc = Some (r, n) \<and> n \<le> i + (cap - length acc) \<and>
    (\<forall>b. r = Inr b \<longrightarrow> b = take cap (bytes_upto body n) \<and>
       (length b < cap \<longrightarrow> body n = EndOfBody))"
  using assms(2,3)
proof (induction "cap - length acc" arbitrary: i acc rule: less_induct)
  case less
  show ?case
  proof (cases "body i")
    case (Chunk c)
    then have c: "c \<noteq> []" using assms(1) by (auto simp: productive_def)
    have next_bytes: "acc @ c = bytes_upto body (Suc i)"
      using less.prems(2) Chunk by (simp add: bytes_upto_Suc)
    show ?thesis
    proof (cases "cap \<le> length (acc @ c)")
      case True
      then have "collect_body body cap i acc = Some (Inr (take cap (acc @ c)), i + 1)"
        using Chunk by (subst collect_body.simps) simp
      with True less.prems(1) next_bytes show ?thesis by simp
    next
      case False
      then have eq: "collect_body body cap i acc = collect_body body cap (i + 1) (acc @ c)"
        using Chunk by (subst collect_body.simps) simp
      have "cap - length (acc @ c) < cap - length acc" using c False by (cases c) auto
      from less.hyps [OF this _, of "i + 1"] False next_bytes obtain r n where
        "collect_body body cap (i + 1) (acc @ c) = Some (r, n)"
        "n \<le> i + 1 + (cap - length (acc @ c))"
        "\<forall>b. r = Inr b \<longrightarrow> b = take cap (bytes_upto body n) \<and>
           (length b < cap \<longrightarrow> body n = EndOfBody)"
        by auto
      moreover have "i + 1 + (cap - length (acc @ c)) \<le> i + (cap - length acc)"
        using c False less.prems(1) by (cases c) auto
      ultimately show ?thesis using eq by (intro exI [of _ r] exI [of _ n]) auto
    qed
  qed (use less.prems in \<open>subst collect_body.simps; simp\<close>)+
qed

definition network_productive :: "(prepared_request \<Rightarrow> upstream) \<Rightarrow> bool" where
  "network_productive network \<longleftrightarrow>
     (\<forall>r resp. network r = Responds resp \<longrightarrow> productive (up_body resp))"

lemma httpx_send_total:
  assumes "network_productive network"
  shows "\<exists>x. httpx_send network r l = Some x \<and>
    (\<forall>st h b. x = Inr (st, h, b) \<longrightarrow>
      (\<exists>resp n. network (r\<lparr>req_headers := sent_headers r\<rparr>) = Responds resp \<and>
         st = up_status resp \<and> h = up_headers resp \<and> n \<le> max_response_bytes l + 1 \<and>
         b = take (max_response_bytes l + 1) (bytes_upto (up_body resp) n) \<and>
         (length b \<le> max_response_bytes l \<longrightarrow>
            up_body resp n = EndOfBody \<and> b = bytes_upto (up_body resp) n)))"
proof (cases "network (r\<lparr>req_headers := sent_headers r\<rparr>)")
  case (Responds resp)
  then have p: "productive (up_body resp)" using assms by (auto simp: network_productive_def)
  let ?cap = "max_response_bytes l + 1"
  obtain x n where c: "collect_body (up_body resp) ?cap 0 [] = Some (x, n)" "n \<le> ?cap"
    and b: "\<forall>b. x = Inr b \<longrightarrow> b = take ?cap (bytes_upto (up_body resp) n) \<and>
       (length b < ?cap \<longrightarrow> up_body resp n = EndOfBody)"
    using collect_body_total [OF p, of "[]" ?cap 0] by (auto simp: bytes_upto_def)
  show ?thesis
  proof (cases "declared_length_exceeds (up_headers resp) (max_response_bytes l)")
    case False
    then have send: "httpx_send network r l
        = Some (rbind x (\<lambda>b. Inr (up_status resp, up_headers resp, b)))"
      using c(1) by (simp add: httpx_send_def Responds)
    show ?thesis
    proof (cases x)
      case (Inr bd)
      with b have bd: "bd = take ?cap (bytes_upto (up_body resp) n)"
        "length bd < ?cap \<Longrightarrow> up_body resp n = EndOfBody" by simp_all
      have fits: "length bd \<le> max_response_bytes l \<Longrightarrow> length bd < ?cap" by simp
      have whole: "length bd < ?cap \<Longrightarrow> bd = bytes_upto (up_body resp) n"
        by (subst bd(1), subst (asm) bd(1)) simp
      show ?thesis
      proof (rule exI [of _ "Inr (up_status resp, up_headers resp, bd)"], intro conjI allI impI)
        show "httpx_send network r l = Some (Inr (up_status resp, up_headers resp, bd))"
          by (simp add: send Inr)
        fix st h b
        assume "Inr (up_status resp, up_headers resp, bd) = (Inr (st, h, b) :: http_reply res)"
        then have "st = up_status resp" "h = up_headers resp" "b = bd" by simp_all
        then show "\<exists>resp n. network (r\<lparr>req_headers := sent_headers r\<rparr>) = Responds resp \<and>
          st = up_status resp \<and> h = up_headers resp \<and> n \<le> max_response_bytes l + 1 \<and>
          b = take (max_response_bytes l + 1) (bytes_upto (up_body resp) n) \<and>
          (length b \<le> max_response_bytes l \<longrightarrow>
            up_body resp n = EndOfBody \<and> b = bytes_upto (up_body resp) n)"
          using Responds c(2) bd whole fits by blast
      qed
    qed (simp add: send)
  qed (simp add: httpx_send_def Responds)
qed (simp_all add: httpx_send_def)

section \<open>The interface of a bounded transport\<close>

text \<open>
  What the executor relies on: a reply that does not exceed the limit is a whole reply, never a
  truncated one. The executor refuses longer replies, so it never decodes part of a body.
\<close>

locale bounded_transport =
  fixes send :: "prepared_request \<Rightarrow> execution_limits \<Rightarrow> http_reply res"
    and whole :: "prepared_request \<Rightarrow> http_reply \<Rightarrow> bool"
  assumes within_limit_is_whole:
    "send r l = Inr (st, h, b) \<Longrightarrow> length b \<le> max_response_bytes l \<Longrightarrow> whole r (st, h, b)"
begin

lemma build_result_whole:
  assumes "send r l = Inr reply" and "build_result P tool k v i e reply l = Inr res"
  shows "\<exists>h b. whole r (http_status res, h, b) \<and> content res = decode_body P b h \<and>
    length b \<le> max_response_bytes l"
proof -
  obtain st h b where reply: "reply = (st, h, b)" by (cases reply)
  have b: "length b \<le> max_response_bytes l" and res: "http_status res = st" "content res = decode_body P b h"
    using assms(2) by (auto simp: build_result_def reply res_simps split: if_splits)
  with within_limit_is_whole [OF assms(1) [unfolded reply]] show ?thesis by auto
qed

end

definition httpx_transport ::
  "(prepared_request \<Rightarrow> upstream) \<Rightarrow> prepared_request \<Rightarrow> execution_limits \<Rightarrow> http_reply res" where
  "httpx_transport network r l = the (httpx_send network r l)"

definition whole_reply :: "(prepared_request \<Rightarrow> upstream) \<Rightarrow> prepared_request \<Rightarrow> http_reply \<Rightarrow> bool" where
  "whole_reply network r reply \<longleftrightarrow>
     (network_productive network \<longrightarrow>
       (\<exists>resp n. network (r\<lparr>req_headers := sent_headers r\<rparr>) = Responds resp \<and>
          up_body resp n = EndOfBody \<and>
          reply = (up_status resp, up_headers resp, bytes_upto (up_body resp) n)))"

interpretation httpx: bounded_transport "httpx_transport network" "whole_reply network" for network
proof
  fix r l st h b
  assume s: "httpx_transport network r l = Inr (st, h, b)" and b: "length b \<le> max_response_bytes l"
  show "whole_reply network r (st, h, b)"
    unfolding whole_reply_def
  proof
    assume "network_productive network"
    from httpx_send_total [OF this, of r l] s b
    show "\<exists>resp n. network (r\<lparr>req_headers := sent_headers r\<rparr>) = Responds resp \<and>
        up_body resp n = EndOfBody \<and>
        (st, h, b) = (up_status resp, up_headers resp, bytes_upto (up_body resp) n)"
      unfolding httpx_transport_def by (elim exE conjE) (auto 0 4)
  qed
qed

section \<open>Lemmas on executing\<close>

lemma with_lookups_sel [simp]:
  "fst (with_lookups m) = map (\<lambda>(h, p). Lookup h p) (fst m)" "snd (with_lookups m) = snd m"
  by (simp_all add: with_lookups_def)

lemma prepare_call_Inr:
  "snd (prepare_call P ex tool arguments base) = Inr r \<longleftrightarrow>
     check_method (ex_policy ex) (op_method (operation tool)) = Inr () \<and>
     (\<exists>args d. validate_arguments P tool arguments = Inr args \<and>
        prepare_request P tool args base = Inr r \<and>
        snd (check_destination (ex_policy ex) (req_url r) (ex_resolver ex)) = Inr d)"
  by (auto simp: prepare_call_def res_simps)

lemma prepare_call_trace: "Sent r \<notin> set (fst (prepare_call P ex tool arguments base))"
  by (auto simp: prepare_call_def tbind_trace split: sum.splits)

lemma execute_trace:
  "fst (execute P ex tool arguments base k v i) =
     fst (prepare_call P ex tool arguments base) @
     (case snd (prepare_call P ex tool arguments base) of Inl e \<Rightarrow> [] | Inr r \<Rightarrow> [Sent r])"
  by (auto simp: execute_def tbind_trace split: sum.splits)

lemma execute_Inr:
  "snd (execute P ex tool arguments base k v i) = Inr res \<longleftrightarrow>
     (\<exists>r reply. snd (prepare_call P ex tool arguments base) = Inr r \<and>
        ex_transport ex r (ex_limits ex) = Inr reply \<and>
        build_result P tool k v i (ex_elapsed_ms ex r) reply (ex_limits ex) = Inr res)"
  by (auto simp: execute_def res_simps)

lemma validate_arguments_Inr:
  "validate_arguments P tool arguments = Inr args \<longleftrightarrow>
     arguments = JObj args \<and>
     length (utf8_encode (dumps P plain_style arguments)) \<le> MAX_ARGUMENT_BYTES \<and>
     schema_errors P (JObj (input_schema tool)) arguments = []"
  by (cases arguments) (auto simp: validate_arguments_def Let_def)

lemma execute_sent:
  assumes "Sent r \<in> set (fst (execute P ex tool arguments base k v i))"
  shows "snd (prepare_call P ex tool arguments base) = Inr r"
  using assms prepare_call_trace [of _ P ex tool arguments base]
  by (auto simp: execute_trace split: sum.splits)

section \<open>Properties\<close>

text \<open>
  C29: A request leaves the process only after every check: if executing a tool sends a request, that
  request is the last effect and the only one sent, its method is allowlisted, the arguments are an
  object of bounded size without a schema error, the request is the one built from them by the
  bindings, and its URL passed the destination check.
\<close>

theorem request_only_after_every_check:
  assumes "Sent r \<in> set (fst (execute P ex tool arguments base k v i))"
  shows "(\<exists>before. fst (execute P ex tool arguments base k v i) = before @ [Sent r] \<and>
      (\<forall>q. Sent q \<notin> set before)) \<and>
    str_upper (op_method (operation tool)) \<in> allowed_methods (ex_policy ex) \<and>
    (\<exists>args d. arguments = JObj args \<and>
       length (utf8_encode (dumps P plain_style arguments)) \<le> 65536 \<and>
       schema_errors P (JObj (input_schema tool)) arguments = [] \<and>
       prepare_request P tool args base = Inr r \<and>
       snd (check_destination (ex_policy ex) (req_url r) (ex_resolver ex)) = Inr d)"
proof -
  have p: "snd (prepare_call P ex tool arguments base) = Inr r" using execute_sent [OF assms] .
  have "\<exists>before. fst (execute P ex tool arguments base k v i) = before @ [Sent r] \<and>
      (\<forall>q. Sent q \<notin> set before)"
    using p prepare_call_trace by (simp add: execute_trace)
  with p show ?thesis
    unfolding prepare_call_Inr validate_arguments_Inr check_method_def MAX_ARGUMENT_BYTES_def
    by (auto split: if_splits)
qed

definition example_executor :: executor where
  "example_executor = \<lparr>ex_policy = example_policy, ex_limits = default_limits,
     ex_transport = (\<lambda>r l. Inr (200, [(''content-type'', ''application/json'')], ''{}'')),
     ex_resolver = (\<lambda>h p. Inr [''93.184.216.34'']), ex_elapsed_ms = (\<lambda>r. 5)\<rparr>"

definition example_request :: prepared_request where
  "example_request = \<lparr>req_method = ''GET'', req_url = ''https://api.example.org/tickets/7'',
     req_path = ''/tickets/7'', req_query = [], req_headers = [(''accept'', ''application/json'')],
     req_body = None, req_content_type = None\<rparr>"

definition example_result :: execution_result where
  "example_result = \<lparr>result_tool_name = ''get_ticket'', result_connector_key = ''tickets'',
     result_connector_version = ''1.0.0'', result_status = ''succeeded'', http_status = 200,
     duration_ms = 5, content = JObj [], untrusted = True, result_request_id = None\<rparr>"

lemma example_execution:
  "execute sample_platform example_executor example_tool (JObj [(''id'', JInt 7)])
     ''https://api.example.org'' ''tickets'' ''1.0.0'' None
   = ([Lookup ''api.example.org'' 443, Sent example_request], Inr example_result)"
  by code_simp

lemma request_only_after_every_check_witness:
  "\<exists>d. snd (check_destination example_policy ''https://api.example.org/tickets/7''
      (\<lambda>h p. Inr [''93.184.216.34''])) = Inr d"
proof -
  have "Sent example_request \<in> set (fst (execute sample_platform example_executor example_tool
      (JObj [(''id'', JInt 7)]) ''https://api.example.org'' ''tickets'' ''1.0.0'' None))"
    by (simp add: example_execution)
  from request_only_after_every_check [OF this] show ?thesis
    by (auto simp: example_executor_def example_request_def)
qed

text \<open>
  C32: A result is always marked untrusted, never comes from a redirect, and its content decodes the
  whole body the upstream sent, which fits the configured limit: an oversized body is refused, not
  cut off.
\<close>

theorem result_is_whole_and_bounded:
  assumes "network_productive network" and "ex_transport ex = httpx_transport network"
    and "snd (execute P ex tool arguments base k v i) = Inr res"
  shows "untrusted res \<and> \<not> (300 \<le> http_status res \<and> http_status res < 400) \<and>
    (result_status res = ''succeeded'' \<longleftrightarrow> http_status res < 400) \<and>
    (\<exists>r resp n. network (r\<lparr>req_headers := sent_headers r\<rparr>) = Responds resp \<and>
       Sent r \<in> set (fst (execute P ex tool arguments base k v i)) \<and>
       http_status res = up_status resp \<and> up_body resp n = EndOfBody \<and>
       length (bytes_upto (up_body resp) n) \<le> max_response_bytes (ex_limits ex) \<and>
       content res = decode_body P (bytes_upto (up_body resp) n) (up_headers resp))"
proof -
  obtain r reply where r: "snd (prepare_call P ex tool arguments base) = Inr r"
    and s: "httpx_transport network r (ex_limits ex) = Inr reply"
    and b: "build_result P tool k v i (ex_elapsed_ms ex r) reply (ex_limits ex) = Inr res"
    using assms(2,3) by (auto simp: execute_Inr)
  obtain h bd where w: "whole_reply network r (http_status res, h, bd)"
    "content res = decode_body P bd h" "length bd \<le> max_response_bytes (ex_limits ex)"
    using httpx.build_result_whole [OF s b] by blast
  have "Sent r \<in> set (fst (execute P ex tool arguments base k v i))"
    by (simp add: execute_trace r)
  moreover have "untrusted res \<and> \<not> (300 \<le> http_status res \<and> http_status res < 400) \<and>
    (result_status res = ''succeeded'' \<longleftrightarrow> http_status res < 400)"
    using b by (cases reply) (auto simp: build_result_def res_simps split: if_splits)
  ultimately show ?thesis using w assms(1) unfolding whole_reply_def by auto
qed

definition example_network :: "prepared_request \<Rightarrow> upstream" where
  "example_network r = Responds \<lparr>up_status = 200, up_headers = [],
     up_body = (\<lambda>i. if i = 0 then Chunk ''hi'' else EndOfBody)\<rparr>"

lemma result_is_whole_and_bounded_witness:
  "\<exists>res. snd (execute sample_platform
      (example_executor\<lparr>ex_transport := httpx_transport example_network\<rparr>) example_tool
      (JObj [(''id'', JInt 7)]) ''https://api.example.org'' ''tickets'' ''1.0.0'' None) = Inr res \<and>
    untrusted res"
proof -
  let ?ex = "example_executor\<lparr>ex_transport := httpx_transport example_network\<rparr>"
  have p: "network_productive example_network"
    by (auto simp: network_productive_def example_network_def productive_def)
  have "collect_body (\<lambda>i. if i = 0 then Chunk ''hi'' else EndOfBody) (Suc (max_response_bytes default_limits)) 0 []
      = Some (Inr ''hi'', 1)"
    by (subst collect_body.simps, simp add: default_limits_def, subst collect_body.simps, simp)
  then have send: "httpx_transport example_network r default_limits = Inr (200, [], ''hi'')" for r
    by (simp add: httpx_transport_def httpx_send_def example_network_def declared_length_exceeds_def)
  have "snd (prepare_call sample_platform ?ex example_tool (JObj [(''id'', JInt 7)]) ''https://api.example.org'')
      = Inr example_request"
    unfolding example_executor_def by code_simp
  moreover have "is_ok (build_result sample_platform example_tool ''tickets'' ''1.0.0'' None 5 (200, [], ''hi'')
      default_limits)" by code_simp
  ultimately obtain res where res: "snd (execute sample_platform ?ex example_tool
      (JObj [(''id'', JInt 7)]) ''https://api.example.org'' ''tickets'' ''1.0.0'' None) = Inr res"
    using send by (auto simp: execute_Inr example_executor_def is_ok_iff)
  from result_is_whole_and_bounded [OF p _ res] res show ?thesis by auto
qed

text \<open>
  C33: Reading a body always ends: for an upstream whose chunks are not empty, even one that never stops
  sending, the transport returns after at most one chunk more than the byte limit, and what it has
  collected is a prefix of the body that exceeds the limit by at most one byte.
\<close>

theorem streaming_read_ends:
  assumes "productive body"
  shows "\<exists>r n. collect_body body (limit + 1) 0 [] = Some (r, n) \<and> n \<le> limit + 1 \<and>
    (case r of Inl e \<Rightarrow> True
     | Inr b \<Rightarrow> length b \<le> limit + 1 \<and> b = take (limit + 1) (concat (map (item_bytes \<circ> body) [0..<n])))"
proof -
  obtain r n where c: "collect_body body (limit + 1) 0 [] = Some (r, n)" "n \<le> limit + 1"
    and b: "\<forall>b. r = Inr b \<longrightarrow> b = take (limit + 1) (bytes_upto body n)"
    using collect_body_total [OF assms, of "[]" "limit + 1" 0] by (auto simp: bytes_upto_def)
  show ?thesis
  proof (intro exI conjI)
    show "case r of Inl e \<Rightarrow> True
      | Inr b \<Rightarrow> length b \<le> limit + 1 \<and> b = take (limit + 1) (concat (map (item_bytes \<circ> body) [0..<n]))"
      using b by (cases r) (simp_all add: bytes_upto_def)
  qed (use c in auto)
qed

lemma streaming_read_ends_witness:
  "\<exists>r n. collect_body (\<lambda>i. Chunk ''x'') (5 + 1) 0 [] = Some (r, n) \<and> n \<le> 5 + 1"
proof -
  have "productive (\<lambda>i. Chunk ''x'')" by (simp add: productive_def)
  from streaming_read_ends [OF this] show ?thesis by blast
qed

text \<open>
  A request id that the caller makes longer than 64 characters does not stop the call: the request
  is sent all the same, and only then building the result fails with an unhandled validation error.
\<close>

theorem long_request_id_fails_after_sending:
  assumes "snd (execute P ex tool arguments base k v None) = Inr res" and "64 < length rid"
  shows "fst (execute P ex tool arguments base k v (Some rid)) = fst (execute P ex tool arguments base k v None) \<and>
    (\<exists>r. Sent r \<in> set (fst (execute P ex tool arguments base k v (Some rid)))) \<and>
    snd (execute P ex tool arguments base k v (Some rid)) = Inl PydanticError"
proof -
  obtain r reply where r: "snd (prepare_call P ex tool arguments base) = Inr r"
    and s: "ex_transport ex r (ex_limits ex) = Inr reply"
    and b: "build_result P tool k v None (ex_elapsed_ms ex r) reply (ex_limits ex) = Inr res"
    using assms(1) by (auto simp: execute_Inr)
  have "build_result P tool k v (Some rid) (ex_elapsed_ms ex r) reply (ex_limits ex) = Inl PydanticError"
    using b assms(2)
    by (cases reply) (auto simp: build_result_def checked_def bad_def result_ok_def split: if_splits)
  with r s have "snd (execute P ex tool arguments base k v (Some rid)) = Inl PydanticError"
    unfolding execute_def tbind_Inl tbind_Inr by (cases reply) auto
  then show ?thesis using r by (auto simp: execute_trace)
qed

lemma long_request_id_fails_after_sending_witness:
  "snd (execute sample_platform example_executor example_tool (JObj [(''id'', JInt 7)])
     ''https://api.example.org'' ''tickets'' ''1.0.0'' (Some (replicate 65 CHR ''r''))) = Inl PydanticError"
  using long_request_id_fails_after_sending [of sample_platform example_executor example_tool
      "JObj [(''id'', JInt 7)]" "''https://api.example.org''" "''tickets''" "''1.0.0''" example_result
      "replicate 65 CHR ''r''"]
  by (simp add: example_execution)

end
