(* ===== verification/Authorization.thy ===== *)
theory Authorization
  imports Errors Patterns
begin

text \<open>
  The authorization decision of \<^verbatim>\<open>packages/policy-engine/toollayer_policy/authorization.py\<close>:
  parsing a stored tool policy into an audience policy, and the one decision that discovery and
  execution share. Every unreadable policy denies.
\<close>

section \<open>Data\<close>

record audience_policy =
  access_mode :: string
  allowed_roles :: "string set"

definition restricted :: "audience_policy \<Rightarrow> bool" where
  "restricted p \<longleftrightarrow> access_mode p = ''restricted''"

definition PUBLIC_POLICY :: audience_policy where
  "PUBLIC_POLICY = \<lparr>access_mode = ''public'', allowed_roles = {}\<rparr>"

record caller_identity =
  subject :: string
  roles :: "string set"

definition caller_of :: "string \<Rightarrow> string list \<Rightarrow> caller_identity" where
  "caller_of s rs = \<lparr>subject = s, roles = set rs\<rparr>"

record decision =
  allowed :: bool
  reason_code :: "string option"
  decided_mode :: string

definition denied :: "decision \<Rightarrow> bool" where
  "denied d \<longleftrightarrow> \<not> allowed d"

definition MAX_ROLES :: nat where
  "MAX_ROLES = 32"

section \<open>Parsing\<close>

fun role_key :: "json \<Rightarrow> string res" where
  "role_key (JStr s) = (if rx_match KEY_PATTERN s then Inr s else Inl ToolPolicyError)"
| "role_key _ = Inl ToolPolicyError"

fun parse_roles :: "json \<Rightarrow> string set res" where
  "parse_roles JNull = Inr {}"
| "parse_roles (JArr xs) =
     (if MAX_ROLES < length xs then Inl ToolPolicyError
      else rbind (rmap role_key xs) (\<lambda>rs. Inr (set rs)))"
| "parse_roles _ = Inl ToolPolicyError"

definition parse_access :: "json dict \<Rightarrow> audience_policy res" where
  "parse_access access =
     (let mode = jget access ''access_mode'' in
      if mode \<noteq> JStr ''public'' \<and> mode \<noteq> JStr ''restricted'' then Inl ToolPolicyError
      else rbind (parse_roles (jget access ''allowed_roles'')) (\<lambda>rs.
        if mode = JStr ''restricted'' \<and> rs = {} then Inl ToolPolicyError
        else if mode = JStr ''public'' \<and> rs \<noteq> {} then Inl ToolPolicyError
        else Inr \<lparr>access_mode = str_of mode, allowed_roles = rs\<rparr>))"

fun parse_audience_policy :: "json \<Rightarrow> audience_policy res" where
  "parse_audience_policy (JObj policy) =
     (case jget policy ''access'' of
        JNull \<Rightarrow> Inr PUBLIC_POLICY
      | JObj access \<Rightarrow> parse_access access
      | _ \<Rightarrow> Inl ToolPolicyError)"
| "parse_audience_policy _ = Inl ToolPolicyError"

section \<open>Deciding\<close>

definition authorize_tool :: "audience_policy option \<Rightarrow> caller_identity option \<Rightarrow> decision" where
  "authorize_tool policy caller =
     (case policy of
        None \<Rightarrow> \<lparr>allowed = False, reason_code = Some ''tool_policy_unreadable'',
                  decided_mode = ''restricted''\<rparr>
      | Some p \<Rightarrow>
          if \<not> restricted p
          then \<lparr>allowed = True, reason_code = None, decided_mode = ''public''\<rparr>
          else (case caller of
                  None \<Rightarrow> \<lparr>allowed = False, reason_code = Some ''caller_has_no_roles'',
                            decided_mode = ''restricted''\<rparr>
                | Some c \<Rightarrow>
                    if roles c = {}
                    then \<lparr>allowed = False, reason_code = Some ''caller_has_no_roles'',
                           decided_mode = ''restricted''\<rparr>
                    else if roles c \<inter> allowed_roles p \<noteq> {}
                    then \<lparr>allowed = True, reason_code = None, decided_mode = ''restricted''\<rparr>
                    else \<lparr>allowed = False, reason_code = Some ''role_not_permitted'',
                           decided_mode = ''restricted''\<rparr>))"

definition authorize_stored_policy :: "json \<Rightarrow> caller_identity option \<Rightarrow> decision" where
  "authorize_stored_policy tool_policy caller =
     authorize_tool
       (case parse_audience_policy tool_policy of Inl ToolPolicyError \<Rightarrow> None | Inr p \<Rightarrow> Some p)
       caller"

definition DENY_REASONS :: "string list" where
  "DENY_REASONS = [''role_not_permitted'', ''caller_has_no_roles'', ''tool_policy_unreadable'']"

section \<open>Lemmas\<close>

text \<open>The parser fails in exactly one way, so the handler of the stored decision is total.\<close>

lemma role_key_Inl: "role_key v = Inl e \<Longrightarrow> e = ToolPolicyError"
  by (cases v) (auto split: if_splits)

lemma rmap_role_key_Inl: "rmap role_key xs = Inl e \<Longrightarrow> e = ToolPolicyError"
  by (induction xs) (auto simp: res_simps dest: role_key_Inl)

lemma parse_roles_Inl: "parse_roles v = Inl e \<Longrightarrow> e = ToolPolicyError"
  by (cases v) (auto simp: res_simps dest: rmap_role_key_Inl split: if_splits)

lemma parse_access_Inl: "parse_access a = Inl e \<Longrightarrow> e = ToolPolicyError"
  by (auto simp: parse_access_def Let_def res_simps dest: parse_roles_Inl split: if_splits)

lemma parse_audience_policy_Inl: "parse_audience_policy v = Inl e \<Longrightarrow> e = ToolPolicyError"
  by (cases v) (auto dest: parse_access_Inl split: json.splits)

lemma authorize_stored_policy_cases:
  "authorize_stored_policy v c =
     (case parse_audience_policy v of
        Inl e \<Rightarrow> authorize_tool None c | Inr p \<Rightarrow> authorize_tool (Some p) c)"
  by (auto simp: authorize_stored_policy_def dest: parse_audience_policy_Inl
      split: sum.splits exn.splits)

lemma role_key_Inr: "role_key v = Inr s \<longleftrightarrow> v = JStr s \<and> rx_match KEY_PATTERN s"
  by (cases v) auto

lemma rmap_role_key_Inr:
  "rmap role_key xs = Inr rs \<longleftrightarrow> xs = map JStr rs \<and> (\<forall>r\<in>set rs. rx_match KEY_PATTERN r)"
proof (induction xs arbitrary: rs)
  case (Cons x xs)
  then show ?case by (cases rs) (auto simp: res_simps role_key_Inr)
qed auto

lemma parse_roles_Inr:
  "parse_roles v = Inr R \<longleftrightarrow>
     v = JNull \<and> R = {} \<or>
     (\<exists>rs. v = JArr (map JStr rs) \<and> length rs \<le> MAX_ROLES \<and> R = set rs
        \<and> (\<forall>r\<in>set rs. rx_match KEY_PATTERN r))"
  by (cases v) (auto simp: res_simps rmap_role_key_Inr not_less)

lemma parse_access_Inr:
  "parse_access a = Inr p \<longleftrightarrow>
     parse_roles (jget a ''allowed_roles'') = Inr (allowed_roles p) \<and>
     jget a ''access_mode'' = JStr (access_mode p) \<and>
     (access_mode p = ''public'' \<and> allowed_roles p = {} \<or>
      access_mode p = ''restricted'' \<and> allowed_roles p \<noteq> {})"
  by (cases p) (auto simp: parse_access_def Let_def res_simps)

text \<open>The three outcomes of a readable policy.\<close>

lemma authorize_tool_allowed:
  "allowed (authorize_tool q c) \<longleftrightarrow>
     (\<exists>p. q = Some p \<and> (\<not> restricted p \<or> (\<exists>id. c = Some id \<and> roles id \<inter> allowed_roles p \<noteq> {})))"
  by (auto simp: authorize_tool_def split: option.splits)

text \<open>A policy that names the same roles decides the same way, for every caller.\<close>

lemma authorize_monotone:
  assumes "allowed (authorize_tool q (Some c))" and "roles c \<subseteq> roles c'"
  shows "allowed (authorize_tool q (Some c'))"
  using assms by (auto simp: authorize_tool_allowed)

text \<open>What a readable \<open>access\<close> object admits, in terms of the stored document.\<close>

lemma parse_access_allowed:
  "(\<exists>p. parse_access a = Inr p \<and> allowed (authorize_tool (Some p) c)) \<longleftrightarrow>
     (\<exists>rs. length rs \<le> MAX_ROLES \<and> list_all (rx_match KEY_PATTERN) rs \<and>
        (jget a ''access_mode'' = JStr ''public'' \<and>
           rs = [] \<and> jget a ''allowed_roles'' \<in> {JNull, JArr []} \<or>
         jget a ''access_mode'' = JStr ''restricted'' \<and>
           jget a ''allowed_roles'' = JArr (map JStr rs) \<and>
           (\<exists>id. c = Some id \<and> roles id \<inter> set rs \<noteq> {})))" (is "?L \<longleftrightarrow> ?R")
proof
  assume ?L
  then obtain p where r: "parse_roles (jget a ''allowed_roles'') = Inr (allowed_roles p)"
    and m: "jget a ''access_mode'' = JStr (access_mode p)"
    and k: "access_mode p = ''public'' \<and> allowed_roles p = {} \<or>
            access_mode p = ''restricted'' \<and> allowed_roles p \<noteq> {}"
    and al: "\<not> restricted p \<or> (\<exists>id. c = Some id \<and> roles id \<inter> allowed_roles p \<noteq> {})"
    by (auto simp: parse_access_Inr authorize_tool_allowed)
  from k show ?R
  proof
    assume "access_mode p = ''public'' \<and> allowed_roles p = {}"
    with r m show ?R by (intro exI [of _ "[]"]) (auto simp: parse_roles_Inr)
  next
    assume k: "access_mode p = ''restricted'' \<and> allowed_roles p \<noteq> {}"
    with r obtain rs where "jget a ''allowed_roles'' = JArr (map JStr rs)" "length rs \<le> MAX_ROLES"
      "allowed_roles p = set rs" "list_all (rx_match KEY_PATTERN) rs"
      by (auto simp: parse_roles_Inr list_all_iff)
    with k m al show ?R by (intro exI [of _ rs]) (auto simp: restricted_def)
  qed
next
  assume ?R
  then obtain rs where len: "length rs \<le> MAX_ROLES" and ok: "list_all (rx_match KEY_PATTERN) rs"
    and cs: "jget a ''access_mode'' = JStr ''public'' \<and>
           rs = [] \<and> jget a ''allowed_roles'' \<in> {JNull, JArr []} \<or>
         jget a ''access_mode'' = JStr ''restricted'' \<and>
           jget a ''allowed_roles'' = JArr (map JStr rs) \<and>
           (\<exists>id. c = Some id \<and> roles id \<inter> set rs \<noteq> {})" by blast
  from cs show ?L
  proof
    assume "jget a ''access_mode'' = JStr ''public'' \<and>
           rs = [] \<and> jget a ''allowed_roles'' \<in> {JNull, JArr []}"
    then show ?L
      by (intro exI [of _ PUBLIC_POLICY])
        (auto simp: parse_access_Inr parse_roles_Inr PUBLIC_POLICY_def authorize_tool_allowed
          restricted_def)
  next
    assume "jget a ''access_mode'' = JStr ''restricted'' \<and>
           jget a ''allowed_roles'' = JArr (map JStr rs) \<and>
           (\<exists>id. c = Some id \<and> roles id \<inter> set rs \<noteq> {})"
    moreover have "parse_roles (JArr (map JStr rs)) = Inr (set rs)"
      unfolding parse_roles_Inr using len ok by (auto simp: list_all_iff)
    ultimately show ?L
      by (intro exI [of _ "\<lparr>access_mode = ''restricted'', allowed_roles = set rs\<rparr>"])
        (auto simp: parse_access_Inr authorize_tool_allowed restricted_def
          simp del: parse_roles.simps)
  qed
qed

section \<open>Properties\<close>

text \<open>
  C27: A stored policy admits a caller exactly when it is readable and either public, or restricted to
  at most 32 well-formed roles one of which the caller holds. Everything else, including every
  document the parser rejects, denies.
\<close>

theorem stored_policy_decision:
  "allowed (authorize_stored_policy v c) \<longleftrightarrow>
     (\<exists>policy. v = JObj policy \<and>
       (jget policy ''access'' = JNull \<or>
        (\<exists>access rs. jget policy ''access'' = JObj access \<and>
           length rs \<le> MAX_ROLES \<and> list_all (rx_match KEY_PATTERN) rs \<and>
           (jget access ''access_mode'' = JStr ''public'' \<and>
              rs = [] \<and> jget access ''allowed_roles'' \<in> {JNull, JArr []} \<or>
            jget access ''access_mode'' = JStr ''restricted'' \<and>
              jget access ''allowed_roles'' = JArr (map JStr rs) \<and>
              (\<exists>id. c = Some id \<and> roles id \<inter> set rs \<noteq> {})))))"
proof (cases "\<exists>policy a. v = JObj policy \<and> jget policy ''access'' = JObj a")
  case True
  then obtain policy a where v: "v = JObj policy" and a: "jget policy ''access'' = JObj a" by blast
  have "allowed (authorize_stored_policy v c) \<longleftrightarrow>
      (\<exists>p. parse_access a = Inr p \<and> allowed (authorize_tool (Some p) c))"
    by (cases "parse_access a") (simp_all add: v a authorize_stored_policy_cases authorize_tool_allowed)
  then show ?thesis unfolding parse_access_allowed by (simp add: v a)
next
  case False
  then show ?thesis
    by (cases v) (auto simp: authorize_stored_policy_cases authorize_tool_allowed PUBLIC_POLICY_def
        restricted_def split: json.splits)
qed

end
