(* ===== verification/Orchestrator.thy ===== *)
theory Orchestrator
  imports Snapshot Executor Authorization
begin

text \<open>
  One request, one snapshot, one fixed order of steps:
  \<^verbatim>\<open>apps/runtime/runtime_service/orchestrator.py\<close>, with the provider interface of
  \<^verbatim>\<open>packages/mock-llm/toollayer_mock_llm/provider.py\<close>. The provider, the clock, the snapshot source and
  the generated request id are arguments. An operation returns its outside effects, its outcome and the
  store it leaves.
\<close>

section \<open>The provider interface\<close>

record tool_selection =
  sel_tool_name :: string
  sel_score :: pyfloat
  sel_rationale :: string
  sel_runner_up :: "string option"

record argument_proposal =
  proposed :: "json dict"
  missing_required :: "string list"

definition proposal_complete :: "argument_proposal \<Rightarrow> bool" where
  "proposal_complete p \<longleftrightarrow> missing_required p = []"

record llm_provider =
  select_tool :: "string \<Rightarrow> tool_definition list \<Rightarrow> tool_selection option res"
  generate_arguments :: "string \<Rightarrow> tool_definition \<Rightarrow> argument_proposal res"
  format_response :: "string \<Rightarrow> tool_definition \<Rightarrow> json \<Rightarrow> string res"

section \<open>Traces and outcomes\<close>

type_synonym tool_trace = "json dict list"

definition with_step :: "tool_trace \<Rightarrow> string \<Rightarrow> json dict \<Rightarrow> tool_trace" where
  "with_step t name detail = t @ [(''step'', JStr name) # detail]"

record outcome =
  out_request_id :: string
  out_revision :: int
  out_snapshot_id :: string
  out_tool :: string
  out_connector_key :: string
  out_connector_version :: string
  out_arguments :: "json dict"
  out_result :: "execution_result option"
  out_message :: string
  out_trace :: tool_trace

definition sorted_names :: "json dict \<Rightarrow> json" where
  "sorted_names d = JArr (map JStr (sort (dkeys d)))"

definition or_fresh :: "string option \<Rightarrow> string \<Rightarrow> string" where
  "or_fresh request_id fresh =
     (case request_id of None \<Rightarrow> fresh | Some i \<Rightarrow> if i = [] then fresh else i)"

section \<open>Discovery\<close>

definition bound_policy :: "bound_tool \<Rightarrow> tool_policy" where
  "bound_policy b = policy (bound_definition b)"

definition bound_name :: "bound_tool \<Rightarrow> string" where
  "bound_name b = tool_name (bound_definition b)"

definition discover_in :: "loaded_snapshot \<Rightarrow> caller_identity option \<Rightarrow> bound_tool list" where
  "discover_in s caller =
     filter (\<lambda>b. allowed (authorize_stored_policy (dump_policy (bound_policy b)) caller)) (loaded_tools s)"

definition discover ::
  "source \<Rightarrow> rat \<Rightarrow> snapshot_store \<Rightarrow> caller_identity option \<Rightarrow> bound_tool list res \<times> snapshot_store" where
  "discover src now st caller =
     (case ensure_fresh src now st of
        (Inl e, st') \<Rightarrow> (Inl e, st')
      | (Inr s, st') \<Rightarrow> (Inr (discover_in s caller), st'))"

section \<open>Refusals\<close>

definition authorize_bound :: "bound_tool \<Rightarrow> caller_identity option \<Rightarrow> unit res" where
  "authorize_bound b caller =
     (if denied (authorize_stored_policy (dump_policy (bound_policy b)) caller)
      then Inl (ToolLayerError ROLE_NOT_PERMITTED None []) else Inr ())"

definition require_confirmation :: "bound_tool \<Rightarrow> bool \<Rightarrow> unit res" where
  "require_confirmation b confirmed =
     (if requires_confirmation (bound_policy b) \<and> \<not> confirmed
      then Inl (ToolLayerError CONFIRMATION_REQUIRED None []) else Inr ())"

definition no_tool_selected :: exn where
  "no_tool_selected = ToolLayerError NO_TOOL_SELECTED None []"

definition execute_bound ::
  "platform \<Rightarrow> executor \<Rightarrow> bound_tool \<Rightarrow> json dict \<Rightarrow> string \<Rightarrow> (effect, exn, execution_result) traced" where
  "execute_bound P ex b validated rid =
     execute P ex (bound_definition b) (JObj validated) (bound_base_url b) (bound_connector_key b)
       (bound_connector_version b) (Some rid)"

definition executed_step :: "execution_result \<Rightarrow> json dict" where
  "executed_step r = [(''http_status'', JInt (http_status r)), (''duration_ms'', JInt (duration_ms r))]"

definition outcome_of ::
  "string \<Rightarrow> loaded_snapshot \<Rightarrow> bound_tool \<Rightarrow> json dict \<Rightarrow> execution_result option \<Rightarrow> string \<Rightarrow> tool_trace
    \<Rightarrow> outcome" where
  "outcome_of rid s b validated result message trace =
     \<lparr>out_request_id = rid, out_revision = revision (loaded_document s),
      out_snapshot_id = snapshot_id (loaded_document s), out_tool = bound_name b,
      out_connector_key = bound_connector_key b, out_connector_version = bound_connector_version b,
      out_arguments = validated, out_result = result, out_message = message, out_trace = trace\<rparr>"

section \<open>Executing a named tool\<close>

definition execute_named ::
  "platform \<Rightarrow> executor \<Rightarrow> llm_provider \<Rightarrow> loaded_snapshot \<Rightarrow> string \<Rightarrow> json \<Rightarrow> caller_identity option
    \<Rightarrow> string \<Rightarrow> bool \<Rightarrow> (effect, exn, outcome) traced" where
  "execute_named P ex pr s name arguments caller rid confirmed =
     (let t0 = with_step [] ''snapshot_loaded''
                 [(''revision'', JInt (revision (loaded_document s))),
                  (''snapshot_id'', JStr (snapshot_id (loaded_document s)))]
      in
      tbind (quiet (resolve_tool s name)) (\<lambda>b.
      let t1 = with_step t0 ''tool_resolved''
                 [(''tool'', JStr (bound_name b)), (''connector'', JStr (bound_connector_key b)),
                  (''version'', JStr (bound_connector_version b))]
      in
      tbind (quiet (validate_arguments P (bound_definition b) arguments)) (\<lambda>validated.
      let t2 = with_step t1 ''arguments_validated'' [(''argument_names'', sorted_names validated)] in
      tbind (quiet (authorize_bound b caller)) (\<lambda>_.
      let t3 = with_step t2 ''policy_evaluated''
                 [(''effect'', JStr (effect_text (effect_class (bound_policy b))))]
      in
      tbind (quiet (require_confirmation b confirmed)) (\<lambda>_.
      tbind (execute_bound P ex b validated rid) (\<lambda>result.
      let t4 = with_step t3 ''executed'' (executed_step result) in
      tbind (quiet (format_response pr name (bound_definition b) (content result))) (\<lambda>message.
        quiet (Inr (outcome_of rid s b validated (Some result) message t4)))))))))"

definition execute_tool ::
  "platform \<Rightarrow> executor \<Rightarrow> llm_provider \<Rightarrow> source \<Rightarrow> rat \<Rightarrow> snapshot_store \<Rightarrow> string \<Rightarrow> json
    \<Rightarrow> caller_identity option \<Rightarrow> string option \<Rightarrow> string \<Rightarrow> bool
    \<Rightarrow> (effect, exn, outcome) traced \<times> snapshot_store" where
  "execute_tool P ex pr src now st name arguments caller request_id fresh confirmed =
     (case ensure_fresh src now st of
        (Inl e, st') \<Rightarrow> (quiet (Inl e), st')
      | (Inr s, st') \<Rightarrow>
          (execute_named P ex pr s name arguments caller (or_fresh request_id fresh) confirmed, st'))"

section \<open>A full turn\<close>

definition MAX_UTTERANCE :: nat where
  "MAX_UTTERANCE = 4000"

definition request_text :: "string \<Rightarrow> string res" where
  "request_text utterance =
     (let text = str_strip utterance in
      if text = [] then Inl (raise_at INVALID_REQUEST ''/utterance'')
      else if MAX_UTTERANCE < length text then Inl (raise_at INVALID_REQUEST ''/utterance'')
      else Inr text)"

text \<open>The call at the end of a turn, or what a dry run shows of it.\<close>

definition finish_turn ::
  "platform \<Rightarrow> executor \<Rightarrow> llm_provider \<Rightarrow> loaded_snapshot \<Rightarrow> string \<Rightarrow> bound_tool \<Rightarrow> json dict \<Rightarrow> string
    \<Rightarrow> bool \<Rightarrow> tool_trace \<Rightarrow> (effect, exn, outcome) traced" where
  "finish_turn P ex pr s text b validated rid dry_run t =
     (if dry_run then
        tbind (prepare_call P ex (bound_definition b) (JObj validated) (bound_base_url b)) (\<lambda>prepared.
          quiet (Inr (outcome_of rid s b validated None
            (req_method prepared @ '' '' @ req_path prepared @ '' (not executed)'')
            (with_step t ''dry_run''
              [(''method'', JStr (req_method prepared)), (''path'', JStr (req_path prepared))]))))
      else
        tbind (execute_bound P ex b validated rid) (\<lambda>result.
        let t1 = with_step t ''executed'' (executed_step result) in
        tbind (quiet (format_response pr text (bound_definition b) (content result))) (\<lambda>message.
          quiet (Inr (outcome_of rid s b validated (Some result) message
            (with_step t1 ''response_formatted'' [(''untrusted_content'', JBool True)]))))))"

definition handle_in ::
  "platform \<Rightarrow> executor \<Rightarrow> llm_provider \<Rightarrow> loaded_snapshot \<Rightarrow> string \<Rightarrow> caller_identity option \<Rightarrow> string
    \<Rightarrow> bool \<Rightarrow> bool \<Rightarrow> (effect, exn, outcome) traced" where
  "handle_in P ex pr s text caller rid confirmed dry_run =
     (let t0 = with_step [] ''snapshot_loaded''
                 [(''revision'', JInt (revision (loaded_document s))),
                  (''snapshot_id'', JStr (snapshot_id (loaded_document s))),
                  (''digest'', JStr (snapshot_digest (loaded_document s)))];
          available = discover_in s caller;
          t1 = with_step t0 ''tools_discovered''
                 [(''visible'', JArr (map (JStr \<circ> bound_name) available)),
                  (''hidden'', JInt (int (length (loaded_tools s)) - int (length available)))]
      in
      if available = [] then quiet (Inl no_tool_selected)
      else
      tbind (quiet (select_tool pr text (map bound_definition available))) (\<lambda>chosen.
      case chosen of
        None \<Rightarrow> quiet (Inl no_tool_selected)
      | Some sel \<Rightarrow>
      let t2 = with_step t1 ''tool_selected''
                 [(''tool'', JStr (sel_tool_name sel)), (''score'', JFloat (sel_score sel)),
                  (''rationale'', JStr (sel_rationale sel)), (''runner_up'', opt_str (sel_runner_up sel))]
      in
      tbind (quiet (resolve_tool s (sel_tool_name sel))) (\<lambda>b.
      tbind (quiet (generate_arguments pr text (bound_definition b))) (\<lambda>proposal.
      if \<not> proposal_complete proposal
      then quiet (Inl (raise_at ARGUMENT_VALIDATION_FAILED ''/utterance''))
      else
      let t3 = with_step t2 ''arguments_generated'' [(''argument_names'', sorted_names (proposed proposal))] in
      tbind (quiet (validate_arguments P (bound_definition b) (JObj (proposed proposal)))) (\<lambda>validated.
      let t4 = with_step t3 ''arguments_validated'' [(''arguments'', JObj validated)] in
      tbind (quiet (authorize_bound b caller)) (\<lambda>_.
      let t5 = with_step t4 ''policy_evaluated''
                 [(''effect'', JStr (effect_text (effect_class (bound_policy b)))),
                  (''requires_confirmation'', JBool (requires_confirmation (bound_policy b)))]
      in
      tbind (quiet (require_confirmation b confirmed)) (\<lambda>_.
        finish_turn P ex pr s text b validated rid dry_run t5)))))))"

definition handle ::
  "platform \<Rightarrow> executor \<Rightarrow> llm_provider \<Rightarrow> source \<Rightarrow> rat \<Rightarrow> snapshot_store \<Rightarrow> string
    \<Rightarrow> caller_identity option \<Rightarrow> string option \<Rightarrow> string \<Rightarrow> bool \<Rightarrow> bool
    \<Rightarrow> (effect, exn, outcome) traced \<times> snapshot_store" where
  "handle P ex pr src now st utterance caller request_id fresh confirmed dry_run =
     (case request_text utterance of
        Inl e \<Rightarrow> (quiet (Inl e), st)
      | Inr text \<Rightarrow>
          (case ensure_fresh src now st of
             (Inl e, st') \<Rightarrow> (quiet (Inl e), st')
           | (Inr s, st') \<Rightarrow>
               (handle_in P ex pr s text caller (or_fresh request_id fresh) confirmed dry_run, st')))"

section \<open>The gate of a call\<close>

text \<open>
  The checks between a tool name with its arguments and the network, as one function: both entry points
  are shown to go through it, whatever the provider does.
\<close>

definition admit ::
  "platform \<Rightarrow> loaded_snapshot \<Rightarrow> string \<Rightarrow> json \<Rightarrow> caller_identity option \<Rightarrow> bool
    \<Rightarrow> (bound_tool \<times> json dict) res" where
  "admit P s name arguments caller confirmed =
     rbind (resolve_tool s name) (\<lambda>b.
     rbind (validate_arguments P (bound_definition b) arguments) (\<lambda>validated.
     rbind (authorize_bound b caller) (\<lambda>_.
     rbind (require_confirmation b confirmed) (\<lambda>_. Inr (b, validated)))))"

lemma admit_Inr:
  "admit P s name arguments caller confirmed = Inr (b, args) \<longleftrightarrow>
     resolve_tool s name = Inr b \<and> validate_arguments P (bound_definition b) arguments = Inr args \<and>
     authorize_bound b caller = Inr () \<and> require_confirmation b confirmed = Inr ()"
  by (auto simp: admit_def res_simps)

lemma execute_named_admit:
  "execute_named P ex pr s name arguments caller rid confirmed =
     (case admit P s name arguments caller confirmed of
        Inl e \<Rightarrow> quiet (Inl e)
      | Inr (b, args) \<Rightarrow>
          tbind (execute_bound P ex b args rid) (\<lambda>result.
          tbind (quiet (format_response pr name (bound_definition b) (content result))) (\<lambda>message.
            quiet (Inr (outcome_of rid s b args (Some result) message
              (with_step (with_step (with_step (with_step (with_step []
                 ''snapshot_loaded'' [(''revision'', JInt (revision (loaded_document s))),
                    (''snapshot_id'', JStr (snapshot_id (loaded_document s)))])
                 ''tool_resolved'' [(''tool'', JStr (bound_name b)),
                    (''connector'', JStr (bound_connector_key b)), (''version'', JStr (bound_connector_version b))])
                 ''arguments_validated'' [(''argument_names'', sorted_names args)])
                 ''policy_evaluated'' [(''effect'', JStr (effect_text (effect_class (bound_policy b))))])
                 ''executed'' (executed_step result)))))))"
proof (cases "resolve_tool s name")
  case (Inr b)
  show ?thesis
  proof (cases "validate_arguments P (bound_definition b) arguments")
    case args: (Inr args)
    show ?thesis
      by (cases "authorize_bound b caller"; cases "require_confirmation b confirmed")
        (simp_all add: execute_named_def admit_def Inr args Let_def)
  qed (simp add: execute_named_def admit_def Inr Let_def)
qed (simp add: execute_named_def admit_def Let_def)

text \<open>What the provider contributed to a turn, when it got as far as proposing a call.\<close>

definition turn_proposal ::
  "llm_provider \<Rightarrow> loaded_snapshot \<Rightarrow> string \<Rightarrow> caller_identity option
    \<Rightarrow> (tool_selection \<times> argument_proposal) res" where
  "turn_proposal pr s text caller =
     (if discover_in s caller = [] then Inl no_tool_selected
      else rbind (select_tool pr text (map bound_definition (discover_in s caller))) (\<lambda>chosen.
        case chosen of
          None \<Rightarrow> Inl no_tool_selected
        | Some sel \<Rightarrow>
            rbind (resolve_tool s (sel_tool_name sel)) (\<lambda>b.
            rbind (generate_arguments pr text (bound_definition b)) (\<lambda>proposal.
              if proposal_complete proposal then Inr (sel, proposal)
              else Inl (raise_at ARGUMENT_VALIDATION_FAILED ''/utterance'')))))"

definition turn_trace ::
  "loaded_snapshot \<Rightarrow> caller_identity option \<Rightarrow> tool_selection \<Rightarrow> argument_proposal \<Rightarrow> bound_tool \<Rightarrow> json dict
    \<Rightarrow> tool_trace" where
  "turn_trace s caller sel proposal b args =
     with_step (with_step (with_step (with_step (with_step (with_step []
       ''snapshot_loaded'' [(''revision'', JInt (revision (loaded_document s))),
         (''snapshot_id'', JStr (snapshot_id (loaded_document s))),
         (''digest'', JStr (snapshot_digest (loaded_document s)))])
       ''tools_discovered'' [(''visible'', JArr (map (JStr \<circ> bound_name) (discover_in s caller))),
         (''hidden'', JInt (int (length (loaded_tools s)) - int (length (discover_in s caller))))])
       ''tool_selected'' [(''tool'', JStr (sel_tool_name sel)), (''score'', JFloat (sel_score sel)),
         (''rationale'', JStr (sel_rationale sel)), (''runner_up'', opt_str (sel_runner_up sel))])
       ''arguments_generated'' [(''argument_names'', sorted_names (proposed proposal))])
       ''arguments_validated'' [(''arguments'', JObj args)])
       ''policy_evaluated'' [(''effect'', JStr (effect_text (effect_class (bound_policy b)))),
         (''requires_confirmation'', JBool (requires_confirmation (bound_policy b)))]"

lemma handle_in_admit:
  "handle_in P ex pr s text caller rid confirmed dry_run =
     (case turn_proposal pr s text caller of
        Inl e \<Rightarrow> quiet (Inl e)
      | Inr (sel, proposal) \<Rightarrow>
          (case admit P s (sel_tool_name sel) (JObj (proposed proposal)) caller confirmed of
             Inl e \<Rightarrow> quiet (Inl e)
           | Inr (b, args) \<Rightarrow>
               finish_turn P ex pr s text b args rid dry_run (turn_trace s caller sel proposal b args)))"
proof (cases "discover_in s caller = []")
  case True
  then show ?thesis by (simp add: handle_in_def turn_proposal_def Let_def)
next
  case False
  show ?thesis
  proof (cases "select_tool pr text (map bound_definition (discover_in s caller))")
    case (Inl e)
    with False show ?thesis by (simp add: handle_in_def turn_proposal_def Let_def)
  next
    case chosen: (Inr chosen)
    show ?thesis
    proof (cases chosen)
      case None
      with False chosen show ?thesis by (simp add: handle_in_def turn_proposal_def Let_def)
    next
      case (Some sel)
      show ?thesis
      proof (cases "resolve_tool s (sel_tool_name sel)")
        case (Inl e)
        with False chosen Some show ?thesis by (simp add: handle_in_def turn_proposal_def Let_def)
      next
        case b: (Inr b)
        show ?thesis
        proof (cases "generate_arguments pr text (bound_definition b)")
          case (Inl e)
          with False chosen Some b show ?thesis by (simp add: handle_in_def turn_proposal_def Let_def)
        next
          case p: (Inr p)
          show ?thesis
          proof (cases "proposal_complete p")
            case True
            show ?thesis
            proof (cases "validate_arguments P (bound_definition b) (JObj (proposed p))")
              case (Inl e)
              with False chosen Some b p True show ?thesis
                by (simp add: handle_in_def turn_proposal_def admit_def Let_def)
            next
              case (Inr args)
              with False chosen Some b p True show ?thesis
                by (cases "authorize_bound b caller"; cases "require_confirmation b confirmed")
                  (simp_all add: handle_in_def turn_proposal_def admit_def Let_def turn_trace_def)
            qed
          qed (use False chosen Some b p in
              \<open>simp add: handle_in_def turn_proposal_def Let_def\<close>)
        qed
      qed
    qed
  qed
qed

section \<open>Lemmas\<close>

text \<open>The decision on a policy that a decoded tool carries.\<close>

definition may_use :: "tool_policy \<Rightarrow> caller_identity option \<Rightarrow> bool" where
  "may_use p caller \<longleftrightarrow>
     policy_mode (access p) = ''public'' \<or>
     (\<exists>id. caller = Some id \<and> roles id \<inter> set (policy_roles (access p)) \<noteq> {})"

lemma dump_policy_decision:
  assumes "access_ok (access p)"
  shows "allowed (authorize_stored_policy (dump_policy p) caller) \<longleftrightarrow>
    length (policy_roles (access p)) \<le> MAX_ROLES \<and> may_use p caller"
proof -
  let ?rs = "policy_roles (access p)"
  have "\<forall>r\<in>set ?rs. rx_match KEY_PATTERN r"
    using assms by (auto simp: access_ok_def list_all_iff resource_key_ok_def)
  then have keys: "rmap role_key (map JStr ?rs) = Inr ?rs" by (simp add: rmap_role_key_Inr)
  have mode: "policy_mode (access p) = ''public'' \<and> ?rs = [] \<or> policy_mode (access p) = ''restricted'' \<and> ?rs \<noteq> []"
    using assms by (auto simp: access_ok_def)
  have "parse_audience_policy (dump_policy p) =
      (if MAX_ROLES < length ?rs then Inl ToolPolicyError
       else Inr \<lparr>access_mode = policy_mode (access p), allowed_roles = set ?rs\<rparr>)"
    using mode by (auto simp: dump_policy_def dump_access_def jget_def parse_access_def Let_def keys MAX_ROLES_def)
  then show ?thesis
    using mode by (auto simp: authorize_stored_policy_cases authorize_tool_allowed restricted_def may_use_def)
qed

lemma authorize_bound_iff:
  assumes "access_ok (access (bound_policy b))"
  shows "authorize_bound b caller = Inr () \<longleftrightarrow>
    length (policy_roles (access (bound_policy b))) \<le> MAX_ROLES \<and> may_use (bound_policy b) caller"
  using dump_policy_decision [OF assms] by (simp add: authorize_bound_def denied_def)

lemma visible_iff:
  "b \<in> set (discover_in s caller) \<longleftrightarrow> b \<in> set (loaded_tools s) \<and> authorize_bound b caller = Inr ()"
  by (auto simp: discover_in_def authorize_bound_def denied_def)

text \<open>A tool of a loaded snapshot is a well-formed tool of one of its connectors.\<close>

lemma resolved_tool:
  assumes "verified_snapshot P V s" and "resolve_tool s name = Inr b"
  shows "\<exists>conn. conn \<in> set (connectors (loaded_document s)) \<and> bound_definition b \<in> set (tools conn) \<and>
    name = bound_name b \<and> bound_connector_key b = connector_key conn \<and>
    bound_connector_version b = conn_version conn \<and> bound_base_url b = base_url (runtime conn) \<and>
    tool_ok (bound_definition b)"
proof -
  from assms(1) have ix: "index_snapshot (loaded_document s) = Inr (tools_by_name s)"
    and "\<exists>d. decode_snapshot P (JObj d) = Inr (loaded_document s)"
    unfolding verified_snapshot_def by blast+
  then have ok: "list_all connector_ok (connectors (loaded_document s))"
    using decode_snapshot_ok by (auto simp: snapshot_ok_def)
  have "dget (tools_by_name s) name = Some b"
    using assms(2) by (auto simp: resolve_tool_def split: option.splits)
  then obtain conn t where c: "conn \<in> set (connectors (loaded_document s))" "t \<in> set (tools conn)"
    "name = tool_name t" "b = bind_tool conn t"
    unfolding index_snapshot_dget [OF ix] by blast
  moreover have "tool_ok t" using ok c(1,2) by (auto simp: list_all_iff connector_ok_def)
  ultimately show ?thesis by (intro exI [of _ conn]) (simp add: bind_tool_def bound_name_def)
qed

text \<open>What was sent went through the gate.\<close>

definition sent_under ::
  "platform \<Rightarrow> executor \<Rightarrow> loaded_snapshot \<Rightarrow> caller_identity option \<Rightarrow> bool \<Rightarrow> prepared_request
    \<Rightarrow> effect list \<Rightarrow> bool" where
  "sent_under P ex s caller confirmed r w \<longleftrightarrow>
     (\<exists>name arguments b args. admit P s name arguments caller confirmed = Inr (b, args) \<and>
        snd (prepare_call P ex (bound_definition b) (JObj args) (bound_base_url b)) = Inr r \<and>
        w = fst (prepare_call P ex (bound_definition b) (JObj args) (bound_base_url b)) @ [Sent r])"

lemma execute_bound_sent:
  assumes "Sent r \<in> set (fst (execute_bound P ex b args rid))"
  shows "snd (prepare_call P ex (bound_definition b) (JObj args) (bound_base_url b)) = Inr r \<and>
    fst (execute_bound P ex b args rid)
      = fst (prepare_call P ex (bound_definition b) (JObj args) (bound_base_url b)) @ [Sent r]"
  using execute_sent [of r P ex "bound_definition b" "JObj args" "bound_base_url b"] assms
  by (simp add: execute_bound_def execute_trace)

lemma execute_named_trace:
  "fst (execute_named P ex pr s name arguments caller rid confirmed) =
     (case admit P s name arguments caller confirmed of
        Inl e \<Rightarrow> [] | Inr (b, args) \<Rightarrow> fst (execute_bound P ex b args rid))"
  by (simp add: execute_named_admit tbind_trace split: sum.splits prod.splits)

lemma finish_turn_trace:
  "fst (finish_turn P ex pr s text b args rid dry_run t) =
     (if dry_run then fst (prepare_call P ex (bound_definition b) (JObj args) (bound_base_url b))
      else fst (execute_bound P ex b args rid))"
  by (simp add: finish_turn_def tbind_trace Let_def split: sum.splits)

lemma execute_named_sent:
  assumes "Sent r \<in> set (fst (execute_named P ex pr s name arguments caller rid confirmed))"
  shows "sent_under P ex s caller confirmed r (fst (execute_named P ex pr s name arguments caller rid confirmed))"
  using assms execute_bound_sent
  by (auto simp: execute_named_trace sent_under_def split: sum.splits prod.splits) blast

lemma handle_in_sent:
  assumes "Sent r \<in> set (fst (handle_in P ex pr s text caller rid confirmed dry_run))"
  shows "\<not> dry_run \<and>
    sent_under P ex s caller confirmed r (fst (handle_in P ex pr s text caller rid confirmed dry_run))"
proof -
  obtain sel proposal b args where
    ad: "admit P s (sel_tool_name sel) (JObj (proposed proposal)) caller confirmed = Inr (b, args)"
    and eq: "handle_in P ex pr s text caller rid confirmed dry_run =
      finish_turn P ex pr s text b args rid dry_run (turn_trace s caller sel proposal b args)"
    using assms by (auto simp: handle_in_admit split: sum.splits prod.splits)
  note sent = assms [unfolded eq finish_turn_trace]
  then have dry: "\<not> dry_run" using prepare_call_trace by (auto split: if_splits)
  with sent have "Sent r \<in> set (fst (execute_bound P ex b args rid))" by simp
  from execute_bound_sent [OF this] ad dry show ?thesis
    unfolding eq finish_turn_trace sent_under_def by auto
qed

lemma handle_sent:
  assumes "Sent r \<in> set (fst (fst (handle P ex pr src now st utterance caller rid fresh confirmed dry_run)))"
  shows "\<not> dry_run \<and>
    (\<exists>s. ensure_fresh src now st = (Inr s, snd (handle P ex pr src now st utterance caller rid fresh confirmed dry_run)) \<and>
       sent_under P ex s caller confirmed r
         (fst (fst (handle P ex pr src now st utterance caller rid fresh confirmed dry_run))))"
proof -
  obtain uttered s st' where "request_text utterance = Inr uttered" "ensure_fresh src now st = (Inr s, st')"
    using assms by (auto simp: handle_def split: sum.splits prod.splits)
  with assms handle_in_sent show ?thesis by (simp add: handle_def) blast
qed

lemma execute_tool_sent:
  assumes "Sent r \<in> set (fst (fst (execute_tool P ex pr src now st name arguments caller rid fresh confirmed)))"
  shows "\<exists>s. ensure_fresh src now st
      = (Inr s, snd (execute_tool P ex pr src now st name arguments caller rid fresh confirmed)) \<and>
    sent_under P ex s caller confirmed r
      (fst (fst (execute_tool P ex pr src now st name arguments caller rid fresh confirmed)))"
proof -
  obtain s st' where "ensure_fresh src now st = (Inr s, st')"
    using assms by (auto simp: execute_tool_def split: sum.splits prod.splits)
  with assms execute_named_sent show ?thesis by (simp add: execute_tool_def)
qed

text \<open>Every loaded tool resolves under its own name.\<close>

lemma loaded_tools_iff:
  assumes "verified_snapshot P V s"
  shows "b \<in> set (loaded_tools s) \<longleftrightarrow> resolve_tool s (bound_name b) = Inr b"
proof -
  have ix: "index_snapshot (loaded_document s) = Inr (tools_by_name s)"
    using assms unfolding verified_snapshot_def by blast
  have get: "resolve_tool s n = Inr b \<longleftrightarrow> dget (tools_by_name s) n = Some b" for n
    by (auto simp: resolve_tool_def split: option.splits)
  have own: "n = bound_name b" if "dget (tools_by_name s) n = Some b" for n
    using that unfolding index_snapshot_dget [OF ix] by (auto simp: bind_tool_def bound_name_def)
  show ?thesis
    unfolding get loaded_tools_def using own dict_ok_dget [OF index_snapshot_ok [OF ix]] dget_Some_in
    by (metis (no_types, opaque_lifting) imageE image_eqI list.set_map prod.collapse snd_conv)
qed

lemma handle_Inr:
  assumes "handle P ex pr src now st utterance caller rid fresh confirmed dry_run = ((w, Inr out), st')"
  shows "\<exists>s uttered sel proposal b args. request_text utterance = Inr uttered \<and>
    ensure_fresh src now st = (Inr s, st') \<and> turn_proposal pr s uttered caller = Inr (sel, proposal) \<and>
    admit P s (sel_tool_name sel) (JObj (proposed proposal)) caller confirmed = Inr (b, args) \<and>
    (w, Inr out) = finish_turn P ex pr s uttered b args (or_fresh rid fresh) dry_run
       (turn_trace s caller sel proposal b args)"
proof -
  obtain uttered s where u: "request_text utterance = Inr uttered" "ensure_fresh src now st = (Inr s, st')"
    and h: "handle_in P ex pr s uttered caller (or_fresh rid fresh) confirmed dry_run = (w, Inr out)"
    using assms by (auto simp: handle_def quiet_def split: sum.splits prod.splits)
  from h obtain sel proposal where t: "turn_proposal pr s uttered caller = Inr (sel, proposal)"
    by (auto simp: handle_in_admit quiet_def split: sum.splits prod.splits)
  from h t obtain b args where
    "admit P s (sel_tool_name sel) (JObj (proposed proposal)) caller confirmed = Inr (b, args)"
    by (auto simp: handle_in_admit quiet_def split: sum.splits prod.splits)
  with u h t show ?thesis by (auto simp: handle_in_admit)
qed

lemma handle_eq:
  assumes "request_text utterance = Inr uttered" and "ensure_fresh src now st = (Inr s, st')"
    and "turn_proposal pr s uttered caller = Inr (sel, proposal)"
    and "admit P s (sel_tool_name sel) (JObj (proposed proposal)) caller confirmed = Inr (b, args)"
  shows "handle P ex pr src now st utterance caller rid fresh confirmed dry_run =
    (finish_turn P ex pr s uttered b args (or_fresh rid fresh) dry_run
       (turn_trace s caller sel proposal b args), st')"
  using assms by (simp add: handle_def handle_in_admit)

lemma finish_turn_Inr:
  assumes "snd (finish_turn P ex pr s u b args rid dry_run t) = Inr out"
  shows "out_request_id out = rid \<and> out_revision out = revision (loaded_document s) \<and>
    out_snapshot_id out = snapshot_id (loaded_document s) \<and> out_tool out = bound_name b \<and>
    out_connector_key out = bound_connector_key b \<and> out_connector_version out = bound_connector_version b \<and>
    out_arguments out = args \<and>
    (if dry_run then out_result out = None else
       \<exists>res. out_result out = Some res \<and> snd (execute_bound P ex b args rid) = Inr res)"
  using assms by (auto simp: finish_turn_def res_simps outcome_of_def Let_def split: if_splits)

section \<open>The interface of a provider\<close>

text \<open>
  What the runtime would like of a provider, and never relies on for safety: it picks one of the tools
  it was offered, and a proposal it calls complete has every required argument and no undeclared one.
  With such a provider a turn is never refused for an unknown tool or for the caller's roles.
\<close>

definition declared_names :: "tool_definition \<Rightarrow> string list" where
  "declared_names t = dkeys (obj_of (jget (input_schema t) ''properties''))"

definition required_names :: "tool_definition \<Rightarrow> json list" where
  "required_names t = arr_of (jget (input_schema t) ''required'')"

locale lawful_provider =
  fixes pr :: llm_provider
  assumes picks_offered:
      "select_tool pr u ts = Inr (Some sel) \<Longrightarrow> \<exists>t\<in>set ts. tool_name t = sel_tool_name sel"
    and proposes_declared:
      "generate_arguments pr u t = Inr p \<Longrightarrow> set (dkeys (proposed p)) \<subseteq> set (declared_names t)"
    and proposes_required:
      "generate_arguments pr u t = Inr p \<Longrightarrow> proposal_complete p \<Longrightarrow>
        JStr n \<in> set (required_names t) \<Longrightarrow> n \<in> set (dkeys (proposed p))"
begin

lemma chosen_tool_is_permitted:
  assumes "verified_snapshot P V s" and "turn_proposal pr s u caller = Inr (sel, proposal)"
  shows "\<exists>b. resolve_tool s (sel_tool_name sel) = Inr b \<and> authorize_bound b caller = Inr () \<and>
    set (dkeys (proposed proposal)) \<subseteq> set (declared_names (bound_definition b)) \<and>
    (\<forall>n. JStr n \<in> set (required_names (bound_definition b)) \<longrightarrow> n \<in> set (dkeys (proposed proposal)))"
proof -
  obtain b where sel: "select_tool pr u (map bound_definition (discover_in s caller)) = Inr (Some sel)"
    and b: "resolve_tool s (sel_tool_name sel) = Inr b"
    and p: "generate_arguments pr u (bound_definition b) = Inr proposal" "proposal_complete proposal"
    using assms(2) by (auto simp: turn_proposal_def res_simps split: if_splits option.splits)
  obtain v where v: "v \<in> set (discover_in s caller)" "bound_name v = sel_tool_name sel"
    using picks_offered [OF sel] by (auto simp: bound_name_def)
  then have "resolve_tool s (sel_tool_name sel) = Inr v" and "authorize_bound v caller = Inr ()"
    using loaded_tools_iff [OF assms(1)] by (auto simp: visible_iff)
  with b p proposes_declared proposes_required show ?thesis by auto
qed

end

lemma sent_is_governed:
  assumes "store_reachable P c deployment st"
    and "call = handle P ex pr (fetch_snapshot P cp c deployment) now st utterance caller rid fresh confirmed dry_run \<or>
         \<not> dry_run \<and>
         call = execute_tool P ex pr (fetch_snapshot P cp c deployment) now st name arguments caller rid fresh confirmed"
    and "Sent r \<in> set (fst (fst call))"
  shows "\<not> dry_run \<and> (\<exists>before. fst (fst call) = before @ [Sent r] \<and> (\<forall>q. Sent q \<notin> set before)) \<and>
    (\<exists>s conn t args d. current (snd call) = Some s \<and> conn \<in> set (connectors (loaded_document s)) \<and>
       t \<in> set (tools conn) \<and>
       (policy_mode (access (policy t)) = ''public'' \<or>
        (\<exists>id. caller = Some id \<and> roles id \<inter> set (policy_roles (access (policy t))) \<noteq> {})) \<and>
       (requires_confirmation (policy t) \<longrightarrow> confirmed) \<and>
       schema_errors P (JObj (input_schema t)) (JObj args) = [] \<and>
       prepare_request P t args (base_url (runtime conn)) = Inr r \<and>
       str_upper (op_method (operation t)) \<in> allowed_methods (ex_policy ex) \<and>
       snd (check_destination (ex_policy ex) (req_url r) (ex_resolver ex)) = Inr d \<and>
       (verification_mode (client_verification c) = Required \<longrightarrow>
         (\<exists>doc key sig msg. decode_snapshot P (JObj doc) = Inr (loaded_document s) \<and>
            key \<in> set (trusted_keys (client_verification c)) \<and>
            canonical_bytes P (JObj (ddel [''signature''] doc)) = Inr msg \<and>
            length sig = 64 \<and> ed_verify P (ver_public key) msg sig)))"
proof -
  have "\<not> dry_run \<and> (\<exists>s. ensure_fresh (fetch_snapshot P cp c deployment) now st = (Inr s, snd call) \<and>
      sent_under P ex s caller confirmed r (fst (fst call)))"
    using assms(2)
  proof
    assume call: "call = handle P ex pr (fetch_snapshot P cp c deployment) now st utterance caller rid fresh
      confirmed dry_run"
    from assms(3) show ?thesis unfolding call by (rule handle_sent)
  next
    assume call: "\<not> dry_run \<and> call = execute_tool P ex pr (fetch_snapshot P cp c deployment) now st name
      arguments caller rid fresh confirmed"
    then have "Sent r \<in> set (fst (fst (execute_tool P ex pr (fetch_snapshot P cp c deployment) now st name
      arguments caller rid fresh confirmed)))" using assms(3) by simp
    from execute_tool_sent [OF this] call show ?thesis by simp
  qed
  then obtain s where sent: "\<not> dry_run" "sent_under P ex s caller confirmed r (fst (fst call))"
    and s: "ensure_fresh (fetch_snapshot P cp c deployment) now st = (Inr s, snd call)" by blast
  have "control_plane.holds_good P c st"
    using reachable_verified [OF assms(1)] unfolding control_plane.holds_good_def .
  from control_plane.ensure_fresh_good [OF this s]
  have v: "verified_snapshot P (client_verification c) s" and cur: "current (snd call) = Some s" by auto
  obtain nm arguments' b args where ad: "admit P s nm arguments' caller confirmed = Inr (b, args)"
    and pc: "snd (prepare_call P ex (bound_definition b) (JObj args) (bound_base_url b)) = Inr r"
    and w: "fst (fst call) = fst (prepare_call P ex (bound_definition b) (JObj args) (bound_base_url b)) @ [Sent r]"
    using sent(2) unfolding sent_under_def by blast
  obtain conn where conn: "conn \<in> set (connectors (loaded_document s))" "bound_definition b \<in> set (tools conn)"
    "bound_base_url b = base_url (runtime conn)" "tool_ok (bound_definition b)"
    using resolved_tool [OF v] ad unfolding admit_Inr by blast
  have "may_use (policy (bound_definition b)) caller"
    using ad authorize_bound_iff [of b caller] conn(4) by (simp add: admit_Inr tool_ok_def bound_policy_def)
  moreover have "requires_confirmation (policy (bound_definition b)) \<longrightarrow> confirmed"
    using ad by (auto simp: admit_Inr require_confirmation_def bound_policy_def split: if_splits)
  moreover obtain d where "prepare_request P (bound_definition b) args (base_url (runtime conn)) = Inr r"
    "schema_errors P (JObj (input_schema (bound_definition b))) (JObj args) = []"
    "str_upper (op_method (operation (bound_definition b))) \<in> allowed_methods (ex_policy ex)"
    "snd (check_destination (ex_policy ex) (req_url r) (ex_resolver ex)) = Inr d"
    using pc unfolding prepare_call_Inr validate_arguments_Inr check_method_def conn(3)
    by (auto split: if_splits)
  moreover have "\<exists>before. fst (fst call) = before @ [Sent r] \<and> (\<forall>q. Sent q \<notin> set before)"
    using w prepare_call_trace by blast
  ultimately show ?thesis
    using sent(1) cur conn(1,2) verified_is_authentic [OF v] unfolding may_use_def by blast
qed


section \<open>Properties\<close>

text \<open>
  C2: The governed call. Whatever the model provider proposes, whatever the Control Plane answers and
  however the store got to its state: if a turn or a direct call sends a request, then it is not a dry
  run, the request is the last effect and the only one sent, and it belongs to a tool of the one
  snapshot the store now holds. The caller may use that tool by the policy of that snapshot, a required
  confirmation was given, the arguments have no schema error, the request is the one the tool's
  bindings build from them against its connector's reviewed base URL, and method and destination are
  allowed. Where verification is required, a trusted key signed the document the snapshot decodes.
\<close>

theorem governed_call:
  assumes "store_reachable P c deployment st"
    and "call = handle P ex pr (fetch_snapshot P cp c deployment) now st utterance caller rid fresh confirmed dry_run \<or>
         \<not> dry_run \<and>
         call = execute_tool P ex pr (fetch_snapshot P cp c deployment) now st name arguments caller rid fresh confirmed"
    and "Sent r \<in> set (fst (fst call))"
  shows "\<not> dry_run \<and> (\<exists>before. fst (fst call) = before @ [Sent r] \<and> (\<forall>q. Sent q \<notin> set before)) \<and>
    (\<exists>s conn t args d. current (snd call) = Some s \<and> conn \<in> set (connectors (loaded_document s)) \<and>
       t \<in> set (tools conn) \<and>
       (policy_mode (access (policy t)) = ''public'' \<or>
        (\<exists>id. caller = Some id \<and> roles id \<inter> set (policy_roles (access (policy t))) \<noteq> {})) \<and>
       (requires_confirmation (policy t) \<longrightarrow> confirmed) \<and>
       schema_errors P (JObj (input_schema t)) (JObj args) = [] \<and>
       prepare_request P t args (base_url (runtime conn)) = Inr r \<and>
       str_upper (op_method (operation t)) \<in> allowed_methods (ex_policy ex) \<and>
       snd (check_destination (ex_policy ex) (req_url r) (ex_resolver ex)) = Inr d \<and>
       (verification_mode (client_verification c) = Required \<longrightarrow>
         (\<exists>doc key sig msg. decode_snapshot P (JObj doc) = Inr (loaded_document s) \<and>
            key \<in> set (trusted_keys (client_verification c)) \<and>
            canonical_bytes P (JObj (ddel [''signature''] doc)) = Inr msg \<and>
            length sig = 64 \<and> ed_verify P (ver_public key) msg sig)))"
  using assms by (rule sent_is_governed)

text \<open>
  C23: Discovery and execution decide alike. A tool is listed for a caller exactly when it resolves in
  the same snapshot and executing it would not be refused for the caller's roles; and that is the case
  exactly for a public tool or one that names at most 32 roles, one of them the caller's.
\<close>

theorem discovery_is_execution_policy:
  assumes "store_reachable P c deployment st" and "current st = Some s"
  shows "(b \<in> set (discover_in s caller) \<longleftrightarrow>
      resolve_tool s (bound_name b) = Inr b \<and> authorize_bound b caller = Inr ()) \<and>
    (resolve_tool s name = Inr b \<longrightarrow>
      (authorize_bound b caller = Inr () \<longleftrightarrow>
        length (policy_roles (access (policy (bound_definition b)))) \<le> 32 \<and>
        (policy_mode (access (policy (bound_definition b))) = ''public'' \<or>
         (\<exists>id. caller = Some id \<and> roles id \<inter> set (policy_roles (access (policy (bound_definition b)))) \<noteq> {}))))"
proof -
  have v: "verified_snapshot P (client_verification c) s"
    using reachable_verified [OF assms(1)] assms(2) by blast
  have "authorize_bound b caller = Inr () \<longleftrightarrow>
      length (policy_roles (access (policy (bound_definition b)))) \<le> 32 \<and> may_use (policy (bound_definition b)) caller"
    if "resolve_tool s name = Inr b"
    using resolved_tool [OF v that] authorize_bound_iff [of b caller]
    by (auto simp: tool_ok_def bound_policy_def MAX_ROLES_def)
  then show ?thesis
    using loaded_tools_iff [OF v, of b] unfolding visible_iff may_use_def by blast
qed

text \<open>
  One revision per request. Everything a successful turn reports belongs to the one snapshot that
  the store holds afterwards: its revision and id, the tool, which resolves in it and was visible to the
  caller's policy, the connector and its version, and the arguments, which satisfy that tool's schema.
\<close>

theorem turn_reports_one_revision:
  assumes "store_reachable P c deployment st"
    and "handle P ex pr (fetch_snapshot P cp c deployment) now st utterance caller rid fresh confirmed dry_run
      = ((w, Inr out), st')"
  shows "\<exists>s b. current st' = Some s \<and> out_revision out = revision (loaded_document s) \<and>
    out_snapshot_id out = snapshot_id (loaded_document s) \<and>
    resolve_tool s (out_tool out) = Inr b \<and> b \<in> set (discover_in s caller) \<and>
    out_connector_key out = bound_connector_key b \<and> out_connector_version out = bound_connector_version b \<and>
    schema_errors P (JObj (input_schema (bound_definition b))) (JObj (out_arguments out)) = [] \<and>
    out_request_id out = (case rid of None \<Rightarrow> fresh | Some i \<Rightarrow> if i = [] then fresh else i)"
proof -
  obtain s uttered sel proposal b args where s: "ensure_fresh (fetch_snapshot P cp c deployment) now st = (Inr s, st')"
    and ad: "admit P s (sel_tool_name sel) (JObj (proposed proposal)) caller confirmed = Inr (b, args)"
    and fin: "(w, Inr out) = finish_turn P ex pr s uttered b args (or_fresh rid fresh) dry_run
       (turn_trace s caller sel proposal b args)"
    using handle_Inr [OF assms(2)] by blast
  have "control_plane.holds_good P c st"
    using reachable_verified [OF assms(1)] unfolding control_plane.holds_good_def .
  from control_plane.ensure_fresh_good [OF this s]
  have v: "verified_snapshot P (client_verification c) s" and cur: "current st' = Some s" by auto
  have "snd (finish_turn P ex pr s uttered b args (or_fresh rid fresh) dry_run
      (turn_trace s caller sel proposal b args)) = Inr out"
    using fin by (metis snd_conv)
  note out = finish_turn_Inr [OF this]
  have b: "resolve_tool s (bound_name b) = Inr b"
    using resolved_tool [OF v] ad unfolding admit_Inr by metis
  then have "b \<in> set (discover_in s caller)"
    using ad loaded_tools_iff [OF v, of b] by (simp add: visible_iff admit_Inr)
  moreover have "schema_errors P (JObj (input_schema (bound_definition b))) (JObj args) = []"
    using ad by (auto simp: admit_Inr validate_arguments_Inr)
  ultimately show ?thesis
    using cur out b by (intro exI [of _ s] exI [of _ b]) (auto simp: or_fresh_def)
qed

text \<open>
  C24: A dry run is a faithful preview: it sends nothing and has no result, and the same turn without
  \<open>dry_run\<close> has the same effects followed by exactly the request whose method and path the dry run
  showed.
\<close>

theorem dry_run_previews_call:
  assumes "handle P ex pr src now st utterance caller rid fresh confirmed True = ((w, Inr out), st')"
  shows "(\<forall>q. Sent q \<notin> set w) \<and> out_result out = None \<and>
    (\<exists>r. fst (fst (handle P ex pr src now st utterance caller rid fresh confirmed False)) = w @ [Sent r] \<and>
       out_message out = req_method r @ '' '' @ req_path r @ '' (not executed)'')"
proof -
  obtain s uttered sel proposal b args where s: "request_text utterance = Inr uttered"
      "ensure_fresh src now st = (Inr s, st')" "turn_proposal pr s uttered caller = Inr (sel, proposal)"
      "admit P s (sel_tool_name sel) (JObj (proposed proposal)) caller confirmed = Inr (b, args)"
    and fin: "(w, Inr out) = finish_turn P ex pr s uttered b args (or_fresh rid fresh) True
       (turn_trace s caller sel proposal b args)"
    using handle_Inr [OF assms] by blast
  let ?p = "prepare_call P ex (bound_definition b) (JObj args) (bound_base_url b)"
  have "snd (finish_turn P ex pr s uttered b args (or_fresh rid fresh) True
      (turn_trace s caller sel proposal b args)) = Inr out" and w: "w = fst ?p"
    using fin finish_turn_trace [of P ex pr s uttered b args _ True] by (metis snd_conv, metis fst_conv)
  then obtain r where r: "snd ?p = Inr r" and
    out: "out_message out = req_method r @ '' '' @ req_path r @ '' (not executed)''" "out_result out = None"
    by (auto simp: finish_turn_def res_simps outcome_of_def)
  have "fst (execute_bound P ex b args (or_fresh rid fresh)) = w @ [Sent r]"
    by (simp add: execute_bound_def execute_trace r w)
  then have "fst (fst (handle P ex pr src now st utterance caller rid fresh confirmed False)) = w @ [Sent r]"
    by (simp add: handle_eq [OF s] finish_turn_trace)
  then show ?thesis using out w prepare_call_trace by auto
qed

text \<open>
  How a turn and a direct call end once the gate has admitted them: as the executor ends, refusals
  included, and after it as the formatting of the result ends.
\<close>

lemma finish_turn_result:
  "\<exists>tr. snd (finish_turn P ex pr s text b args rid False t) =
     rbind (snd (execute_bound P ex b args rid)) (\<lambda>r.
     rbind (format_response pr text (bound_definition b) (content r)) (\<lambda>m.
       Inr (outcome_of rid s b args (Some r) m (tr r))))"
  by (intro exI [of _ "\<lambda>r. with_step (with_step t ''executed'' (executed_step r)) ''response_formatted''
      [(''untrusted_content'', JBool True)]"])
    (simp add: finish_turn_def snd_tbind Let_def)

lemma execute_named_result:
  assumes "admit P s name arguments caller confirmed = Inr (b, args)"
  shows "\<exists>tr. snd (execute_named P ex pr s name arguments caller rid confirmed) =
     rbind (snd (execute_bound P ex b args rid)) (\<lambda>r.
     rbind (format_response pr name (bound_definition b) (content r)) (\<lambda>m.
       Inr (outcome_of rid s b args (Some r) m (tr r))))"
  unfolding execute_named_admit assms sum.case prod.case snd_tbind quiet_sel by (intro exI) (rule refl)

text \<open>
  C4: Nothing but the proposal distinguishes a turn from a direct call. When the provider proposes a tool
  and arguments, the turn has exactly the effects of the direct call of that tool with those arguments.
  When the gate refuses, both end with the error of the gate and no effect. When it admits the call, both
  run the executor on the same tool and validated arguments, and the ends of both are written out: a
  refusal of the executor is the refusal of both, and a result of the executor is in both answers, with
  the same tool, arguments and revision. Only the text that the provider is given to format the result
  differs (the utterance in a turn, the name of the tool in a direct call), and the recorded steps.
\<close>

theorem turn_is_direct_call:
  assumes "request_text utterance = Inr uttered" and "ensure_fresh src now st = (Inr s, st')"
    and "turn_proposal pr s uttered caller = Inr (sel, proposal)"
    and "turn = handle P ex pr src now st utterance caller rid fresh confirmed False"
    and "direct = execute_tool P ex pr src now st (sel_tool_name sel) (JObj (proposed proposal)) caller rid fresh
      confirmed"
  shows "fst (fst turn) = fst (fst direct) \<and> snd turn = snd direct \<and>
    (\<forall>e. admit P s (sel_tool_name sel) (JObj (proposed proposal)) caller confirmed = Inl e \<longrightarrow>
       fst turn = ([], Inl e) \<and> fst direct = ([], Inl e)) \<and>
    (\<forall>b args. admit P s (sel_tool_name sel) (JObj (proposed proposal)) caller confirmed = Inr (b, args) \<longrightarrow>
       fst (fst turn) = fst (execute_bound P ex b args (or_fresh rid fresh)) \<and>
       (\<forall>e. snd (execute_bound P ex b args (or_fresh rid fresh)) = Inl e \<longrightarrow>
          snd (fst turn) = Inl e \<and> snd (fst direct) = Inl e) \<and>
       (\<exists>tr. snd (fst turn) =
          rbind (snd (execute_bound P ex b args (or_fresh rid fresh))) (\<lambda>r.
          rbind (format_response pr uttered (bound_definition b) (content r)) (\<lambda>m.
            Inr (outcome_of (or_fresh rid fresh) s b args (Some r) m (tr r))))) \<and>
       (\<exists>tr. snd (fst direct) =
          rbind (snd (execute_bound P ex b args (or_fresh rid fresh))) (\<lambda>r.
          rbind (format_response pr (sel_tool_name sel) (bound_definition b) (content r)) (\<lambda>m.
            Inr (outcome_of (or_fresh rid fresh) s b args (Some r) m (tr r)))))) \<and>
    (\<forall>o1 o2. snd (fst turn) = Inr o1 \<and> snd (fst direct) = Inr o2 \<longrightarrow>
       out_tool o1 = out_tool o2 \<and> out_arguments o1 = out_arguments o2 \<and> out_result o1 = out_result o2 \<and>
       out_revision o1 = out_revision o2)"
proof -
  have turn: "turn = (handle_in P ex pr s uttered caller (or_fresh rid fresh) confirmed False, st')"
    and direct: "direct = (execute_named P ex pr s (sel_tool_name sel) (JObj (proposed proposal)) caller
      (or_fresh rid fresh) confirmed, st')"
    using assms by (simp_all add: handle_def execute_tool_def)
  show ?thesis
  proof (cases "admit P s (sel_tool_name sel) (JObj (proposed proposal)) caller confirmed")
    case (Inl e)
    then show ?thesis by (simp add: turn direct handle_in_admit execute_named_admit assms(3) quiet_def)
  next
    case (Inr ba)
    then obtain b args where ad: "admit P s (sel_tool_name sel) (JObj (proposed proposal)) caller confirmed
      = Inr (b, args)" by (cases ba) auto
    have t: "fst turn = finish_turn P ex pr s uttered b args (or_fresh rid fresh) False
        (turn_trace s caller sel proposal b args)"
      by (simp add: turn handle_in_admit assms(3) ad)
    have d: "fst direct = execute_named P ex pr s (sel_tool_name sel) (JObj (proposed proposal)) caller
        (or_fresh rid fresh) confirmed" by (simp add: direct)
    obtain tt where tt: "snd (fst turn) = rbind (snd (execute_bound P ex b args (or_fresh rid fresh))) (\<lambda>r.
          rbind (format_response pr uttered (bound_definition b) (content r)) (\<lambda>m.
            Inr (outcome_of (or_fresh rid fresh) s b args (Some r) m (tt r))))"
      using finish_turn_result unfolding t by blast
    obtain td where td: "snd (fst direct) = rbind (snd (execute_bound P ex b args (or_fresh rid fresh))) (\<lambda>r.
          rbind (format_response pr (sel_tool_name sel) (bound_definition b) (content r)) (\<lambda>m.
            Inr (outcome_of (or_fresh rid fresh) s b args (Some r) m (td r))))"
      using execute_named_result [OF ad] unfolding d by blast
    have "out_tool o1 = out_tool o2 \<and> out_arguments o1 = out_arguments o2 \<and> out_result o1 = out_result o2 \<and>
        out_revision o1 = out_revision o2" if o: "snd (fst turn) = Inr o1" "snd (fst direct) = Inr o2" for o1 o2
      using o unfolding tt td by (auto simp: res_simps outcome_of_def)
    moreover have "fst (fst turn) = fst (fst direct)" "fst (fst turn) = fst (execute_bound P ex b args (or_fresh rid fresh))"
      by (simp_all add: t direct execute_named_trace finish_turn_trace ad)
    moreover have "snd turn = snd direct" by (simp add: turn direct)
    moreover have "snd (fst turn) = Inl e \<and> snd (fst direct) = Inl e"
      if "snd (execute_bound P ex b args (or_fresh rid fresh)) = Inl e" for e
      unfolding tt td that by simp
    ultimately show ?thesis using tt td by (simp add: ad) blast
  qed
qed

section \<open>Examples\<close>

definition example_provider :: llm_provider where
  "example_provider = \<lparr>select_tool = (\<lambda>u ts. Inr (Some \<lparr>sel_tool_name = ''get_ticket'', sel_score = Finite 2,
       sel_rationale = [], sel_runner_up = None\<rparr>)),
     generate_arguments = (\<lambda>u t. Inr \<lparr>proposed = [(''id'', JInt 7)], missing_required = []\<rparr>),
     format_response = (\<lambda>u t c. Inr ''done'')\<rparr>"

lemma example_bound:
  assumes "store_reachable sample_platform c deployment st" and "current st = Some s"
    and "connectors (loaded_document s) = [example_connector]"
  shows "tools_by_name s = [(''get_ticket'', bind_tool example_connector example_tool)]"
proof -
  have "index_snapshot (loaded_document s) = Inr (tools_by_name s)"
    using reachable_verified [OF assms(1)] assms(2) unfolding verified_snapshot_def by blast
  then show ?thesis
    by (simp add: index_snapshot_def connector_tools_def assms(3) example_connector_def example_tool_def
        index_tool_def dhas_def)
qed

lemma example_prepared:
  "prepare_call sample_platform example_executor example_tool (JObj [(''id'', JInt 7)]) ''https://api.example.org''
   = ([Lookup ''api.example.org'' 443], Inr example_request)"
  by code_simp

lemma example_admit:
  assumes "tools_by_name s = [(''get_ticket'', bind_tool example_connector example_tool)]"
  shows "admit sample_platform s ''get_ticket'' (JObj [(''id'', JInt 7)]) caller confirmed
    = Inr (bind_tool example_connector example_tool, [(''id'', JInt 7)])"
    "turn_proposal example_provider s u caller
    = Inr (\<lparr>sel_tool_name = ''get_ticket'', sel_score = Finite 2, sel_rationale = [], sel_runner_up = None\<rparr>,
        \<lparr>proposed = [(''id'', JInt 7)], missing_required = []\<rparr>)"
proof -
  have r: "resolve_tool s ''get_ticket'' = Inr (bind_tool example_connector example_tool)"
    by (simp add: resolve_tool_def assms)
  have v: "validate_arguments sample_platform example_tool (JObj [(''id'', JInt 7)]) = Inr [(''id'', JInt 7)]"
    by code_simp
  have "access_ok (access (policy example_tool))" by code_simp
  then have a: "authorize_bound (bind_tool example_connector example_tool) caller = Inr ()"
    using authorize_bound_iff [of "bind_tool example_connector example_tool" caller]
    by (simp add: bound_policy_def bind_tool_def may_use_def) (simp add: example_tool_def public_access_def)
  have c: "require_confirmation (bind_tool example_connector example_tool) confirmed = Inr ()"
    by (simp add: require_confirmation_def bound_policy_def bind_tool_def example_tool_def)
  show "admit sample_platform s ''get_ticket'' (JObj [(''id'', JInt 7)]) caller confirmed
    = Inr (bind_tool example_connector example_tool, [(''id'', JInt 7)])"
    using v unfolding admit_Inr by (simp add: r a c) (simp add: bind_tool_def)
  have "bind_tool example_connector example_tool \<in> set (discover_in s caller)"
    using a by (simp add: visible_iff loaded_tools_def assms)
  then have "discover_in s caller \<noteq> []" by auto
  then show "turn_proposal example_provider s u caller
    = Inr (\<lparr>sel_tool_name = ''get_ticket'', sel_score = Finite 2, sel_rationale = [], sel_runner_up = None\<rparr>,
        \<lparr>proposed = [(''id'', JInt 7)], missing_required = []\<rparr>)"
    by (simp add: turn_proposal_def example_provider_def r proposal_complete_def)
qed

lemma example_fresh:
  "current st = Some s \<Longrightarrow> loaded_at s = 0 \<Longrightarrow> refresh_seconds st = 60 \<Longrightarrow> ensure_fresh src 0 st = (Inr s, st)"
  by (simp add: ensure_fresh_def)

lemma example_turn:
  assumes "tools_by_name s = [(''get_ticket'', bind_tool example_connector example_tool)]"
    and "ensure_fresh src now st = (Inr s, st')"
    and "prepare_call sample_platform ex example_tool (JObj [(''id'', JInt 7)]) ''https://api.example.org''
      = ([Lookup ''api.example.org'' 443], Inr example_request)"
  shows "fst (fst (handle sample_platform ex example_provider src now st ''ticket 7'' caller rid fresh
      False False)) = [Lookup ''api.example.org'' 443, Sent example_request]"
    "\<exists>out. handle sample_platform ex example_provider src now st ''ticket 7'' caller rid fresh
      False True = (([Lookup ''api.example.org'' 443], Inr out), st')"
proof -
  have utt: "request_text ''ticket 7'' = Inr ''ticket 7''" by code_simp
  have b: "bound_definition (bind_tool example_connector example_tool) = example_tool"
    "bound_base_url (bind_tool example_connector example_tool) = ''https://api.example.org''"
    by (simp_all add: bind_tool_def example_connector_def)
  have "admit sample_platform s (sel_tool_name \<lparr>sel_tool_name = ''get_ticket'', sel_score = Finite 2,
       sel_rationale = [], sel_runner_up = None\<rparr>) (JObj (proposed \<lparr>proposed = [(''id'', JInt 7)],
       missing_required = []\<rparr>)) caller False
      = Inr (bind_tool example_connector example_tool, [(''id'', JInt 7)])"
    using example_admit(1) [OF assms(1)] by simp
  note eq = handle_eq [OF utt assms(2) example_admit(2) [OF assms(1)] this]
  show "fst (fst (handle sample_platform ex example_provider src now st ''ticket 7'' caller rid fresh
      False False)) = [Lookup ''api.example.org'' 443, Sent example_request]"
    by (simp add: eq finish_turn_trace execute_bound_def execute_trace b assms(3))
  show "\<exists>out. handle sample_platform ex example_provider src now st ''ticket 7'' caller rid fresh
      False True = (([Lookup ''api.example.org'' 443], Inr out), st')"
    by (simp add: eq finish_turn_def b assms(3) tbind_def quiet_def)
qed

lemma governed_call_witness:
  "\<exists>(st :: snapshot_store) (s :: loaded_snapshot) (conn :: connector_definition) (t :: tool_definition). current st = Some s \<and> conn \<in> set (connectors (loaded_document s)) \<and>
     t \<in> set (tools conn) \<and> policy_mode (access (policy t)) = ''public''"
proof -
  obtain st s where st: "store_reachable sample_platform example_client ''demo'' st" "current st = Some s"
    "connectors (loaded_document s) = [example_connector]" "loaded_at s = 0" "refresh_seconds st = 60"
    using example_store by blast
  have "Sent example_request \<in> set (fst (fst (handle sample_platform example_executor example_provider
      (fetch_snapshot sample_platform (\<lambda>u h. None) example_client ''demo'') 0 st ''ticket 7'' None None ''r1''
      False False)))"
    by (simp add: example_turn(1) [OF example_bound [OF st(1-3)] example_fresh [OF st(2,4,5)] example_prepared])
  from governed_call [OF st(1) disjI1 [OF refl] this] show ?thesis by blast
qed

lemma discovery_is_execution_policy_witness:
  "\<exists>s :: loaded_snapshot. bind_tool example_connector example_tool \<in> set (discover_in s None)"
proof -
  obtain st s where st: "store_reachable sample_platform example_client ''demo'' st" "current st = Some s"
    "connectors (loaded_document s) = [example_connector]"
    using example_store by blast
  have "admit sample_platform s ''get_ticket'' (JObj [(''id'', JInt 7)]) None False
      = Inr (bind_tool example_connector example_tool, [(''id'', JInt 7)])"
    by (rule example_admit(1) [OF example_bound [OF st]])
  moreover have "bound_name (bind_tool example_connector example_tool) = ''get_ticket''"
    by (simp add: bound_name_def bind_tool_def example_tool_def)
  ultimately show ?thesis
    using discovery_is_execution_policy [OF st(1,2), of "bind_tool example_connector example_tool" None]
    by (auto simp: admit_Inr)
qed

lemma turn_reports_one_revision_witness:
  "\<exists>(st :: snapshot_store) (s :: loaded_snapshot) (out :: outcome). current st = Some s \<and> out_revision out = revision (loaded_document s)"
proof -
  obtain st s where st: "store_reachable sample_platform example_client ''demo'' st" "current st = Some s"
    "connectors (loaded_document s) = [example_connector]" "loaded_at s = 0" "refresh_seconds st = 60"
    using example_store by blast
  obtain out where "handle sample_platform example_executor example_provider
      (fetch_snapshot sample_platform (\<lambda>u h. None) example_client ''demo'') 0 st ''ticket 7'' None None ''r1''
      False True = (([Lookup ''api.example.org'' 443], Inr out), st)"
    using example_turn(2) [OF example_bound [OF st(1-3)] example_fresh [OF st(2,4,5)] example_prepared] by blast
  from turn_reports_one_revision [OF st(1) this] show ?thesis by blast
qed

lemma dry_run_previews_call_witness:
  "\<exists>(st :: snapshot_store) r. fst (fst (handle sample_platform example_executor example_provider
      (fetch_snapshot sample_platform (\<lambda>u h. None) example_client ''demo'') 0 st ''ticket 7'' None None ''r1''
      False False)) = [Lookup ''api.example.org'' 443, Sent r]"
proof -
  obtain st s where st: "store_reachable sample_platform example_client ''demo'' st" "current st = Some s"
    "connectors (loaded_document s) = [example_connector]" "loaded_at s = 0" "refresh_seconds st = 60"
    using example_store by blast
  obtain out where "handle sample_platform example_executor example_provider
      (fetch_snapshot sample_platform (\<lambda>u h. None) example_client ''demo'') 0 st ''ticket 7'' None None ''r1''
      False True = (([Lookup ''api.example.org'' 443], Inr out), st)"
    using example_turn(2) [OF example_bound [OF st(1-3)] example_fresh [OF st(2,4,5)] example_prepared] by blast
  from dry_run_previews_call [OF this] show ?thesis by auto
qed

lemma turn_is_direct_call_witness:
  "\<exists>(st :: snapshot_store). fst (fst (handle sample_platform example_executor example_provider
      (fetch_snapshot sample_platform (\<lambda>u h. None) example_client ''demo'') 0 st ''ticket 7'' None None ''r1''
      False False)) = fst (fst (execute_tool sample_platform example_executor example_provider
      (fetch_snapshot sample_platform (\<lambda>u h. None) example_client ''demo'') 0 st ''get_ticket''
      (JObj [(''id'', JInt 7)]) None None ''r1'' False))"
proof -
  obtain st s where st: "store_reachable sample_platform example_client ''demo'' st" "current st = Some s"
    "connectors (loaded_document s) = [example_connector]" "loaded_at s = 0" "refresh_seconds st = 60"
    using example_store by blast
  have "request_text ''ticket 7'' = Inr ''ticket 7''" by code_simp
  from turn_is_direct_call [OF this example_fresh [OF st(2,4,5)] example_admit(2) [OF example_bound [OF st(1-3)]]
      refl refl, of sample_platform example_executor
      "fetch_snapshot sample_platform (\<lambda>u h. None) example_client ''demo''" None None "''r1''" False]
  show ?thesis by auto
qed

end
