(* ===== verification/Identity.thy ===== *)
theory Identity
  imports Signing Authorization
begin

text \<open>
  Who is calling: \<^verbatim>\<open>apps/runtime/runtime_service/identity.py\<close>. A caller token is a compact JWS; the
  clock is an argument, and \<^verbatim>\<open>json.loads\<close> is the one of \<open>platform\<close>.
\<close>

section \<open>Data\<close>

datatype caller_auth_mode = AssertedHeader | VerifiedToken

record caller_authenticator =
  auth_mode :: caller_auth_mode
  caller_keys :: key_ring
  issuer :: string
  audience :: string

definition CLOCK_SKEW_SECONDS :: rat where
  "CLOCK_SKEW_SECONDS = 30"

definition MAX_TOKEN_BYTES :: nat where
  "MAX_TOKEN_BYTES = 8192"

definition invalid_caller_token :: exn where
  "invalid_caller_token = ToolLayerError UNAUTHENTICATED None []"

definition verifies_identity :: "caller_authenticator \<Rightarrow> bool" where
  "verifies_identity A \<longleftrightarrow> auth_mode A = VerifiedToken"

section \<open>Verifying a token\<close>

definition decode_part :: "platform \<Rightarrow> string \<Rightarrow> json res" where
  "decode_part P part =
     rbind (b64u_decode (JStr part) None) (\<lambda>raw.
       case json_loads P raw of None \<Rightarrow> Inl ValueError | Some v \<Rightarrow> Inr v)"

definition malformed :: "exn \<Rightarrow> bool" where
  "malformed e \<longleftrightarrow> is_value_error e"

definition audience_matches :: "json \<Rightarrow> string \<Rightarrow> bool" where
  "audience_matches claim expected =
     (case claim of
        JStr s \<Rightarrow> s = expected
      | JArr xs \<Rightarrow> list_ex (\<lambda>entry. entry = JStr expected) xs
      | _ \<Rightarrow> False)"

text \<open>\<open>now > float(exp) + skew\<close> and \<open>now + skew < float(nbf)\<close>, infinities and NaN included.\<close>

fun is_past :: "rat \<Rightarrow> pyfloat \<Rightarrow> bool" where
  "is_past now (Finite q) = (q + CLOCK_SKEW_SECONDS < now)"
| "is_past now (Infinite neg) = neg"
| "is_past now NotANumber = False"

fun is_future :: "rat \<Rightarrow> pyfloat \<Rightarrow> bool" where
  "is_future now (Finite q) = (now + CLOCK_SKEW_SECONDS < q)"
| "is_future now (Infinite neg) = (\<not> neg)"
| "is_future now NotANumber = False"

definition check_claims :: "caller_authenticator \<Rightarrow> rat \<Rightarrow> json dict \<Rightarrow> json dict res" where
  "check_claims A now claims =
     (if issuer A \<noteq> [] \<and> jget claims ''iss'' \<noteq> JStr (issuer A) then Inl invalid_caller_token
      else if audience A \<noteq> [] \<and> \<not> audience_matches (jget claims ''aud'') (audience A)
      then Inl invalid_caller_token
      else if \<not> is_number (jget claims ''exp'') then Inl invalid_caller_token
      else if is_past now (the (num_of (jget claims ''exp''))) then Inl invalid_caller_token
      else if is_number (jget claims ''nbf'') \<and> is_future now (the (num_of (jget claims ''nbf'')))
      then Inl invalid_caller_token
      else Inr claims)"

definition key_for_header :: "caller_authenticator \<Rightarrow> json \<Rightarrow> verifying_key res" where
  "key_for_header A header =
     (case header of
        JObj h \<Rightarrow>
          if jget h ''alg'' \<noteq> JStr ''EdDSA'' then Inl invalid_caller_token
          else (case jget h ''kid'' of
                  JStr kid \<Rightarrow>
                    if kid = [] then Inl invalid_caller_token
                    else (case ring_find (caller_keys A) kid of
                            None \<Rightarrow> Inl invalid_caller_token
                          | Some key \<Rightarrow> Inr key)
                | _ \<Rightarrow> Inl invalid_caller_token)
      | _ \<Rightarrow> Inl invalid_caller_token)"

text \<open>\<open>s.encode("ascii")\<close>\<close>

definition encode_ascii :: "string \<Rightarrow> string res" where
  "encode_ascii s = (if list_all is_ascii s then Inr s else Inl UnicodeError)"

definition verified_claims ::
  "platform \<Rightarrow> caller_authenticator \<Rightarrow> rat \<Rightarrow> string \<Rightarrow> json dict res" where
  "verified_claims P A now token =
     (if MAX_TOKEN_BYTES < length (utf8_encode token) then Inl invalid_caller_token
      else
        (case split_on CHR ''.'' token of
           [eh, ep, es] \<Rightarrow>
             rbind (catching malformed (\<lambda>_. Inl invalid_caller_token) (decode_part P eh)) (\<lambda>header.
             rbind (key_for_header A header) (\<lambda>key.
             rbind (catching malformed (\<lambda>_. Inl invalid_caller_token) (b64u_decode (JStr es) None)) (\<lambda>sig.
             rbind (encode_ascii (eh @ ''.'' @ ep)) (\<lambda>message.
               if \<not> key_verify P key message sig then Inl invalid_caller_token
               else
                 rbind (catching malformed (\<lambda>_. Inl invalid_caller_token) (decode_part P ep)) (\<lambda>payload.
                   case payload of
                     JObj claims \<Rightarrow> check_claims A now claims
                   | _ \<Rightarrow> Inl invalid_caller_token)))))
         | _ \<Rightarrow> Inl invalid_caller_token))"

section \<open>Identifying the caller\<close>

definition clean_roles :: "string list \<Rightarrow> string list" where
  "clean_roles rs = map str_strip (filter (\<lambda>r. str_strip r \<noteq> []) rs)"

definition from_token ::
  "platform \<Rightarrow> caller_authenticator \<Rightarrow> rat \<Rightarrow> string option \<Rightarrow> caller_identity res" where
  "from_token P A now bearer =
     (case bearer of
        None \<Rightarrow> Inl invalid_caller_token
      | Some token \<Rightarrow>
          if token = [] then Inl invalid_caller_token
          else
            rbind (verified_claims P A now token) (\<lambda>claims.
              case jget claims ''sub'' of
                JStr sub \<Rightarrow>
                  if sub = [] then Inl invalid_caller_token
                  else
                    (case (case dget claims ''roles'' of None \<Rightarrow> JArr [] | Some v \<Rightarrow> v) of
                       JArr rs \<Rightarrow>
                         if list_all is_str rs then Inr (caller_of sub (clean_roles (map str_of rs)))
                         else Inl invalid_caller_token
                     | _ \<Rightarrow> Inl invalid_caller_token)
              | _ \<Rightarrow> Inl invalid_caller_token))"

definition identify ::
  "platform \<Rightarrow> caller_authenticator \<Rightarrow> rat \<Rightarrow> string option \<Rightarrow> string option \<Rightarrow> string option
    \<Rightarrow> caller_identity option res" where
  "identify P A now bearer asserted_subject asserted_roles =
     (if auth_mode A = VerifiedToken then
        (if asserted_subject \<noteq> None \<or> asserted_roles \<noteq> None then Inl invalid_caller_token
         else rbind (from_token P A now bearer) (\<lambda>c. Inr (Some c)))
      else if asserted_subject = None \<and> asserted_roles = None then Inr None
      else
        Inr (Some (caller_of
          (case asserted_subject of None \<Rightarrow> ''anonymous'' | Some s \<Rightarrow> if s = [] then ''anonymous'' else s)
          (clean_roles (split_on CHR '','' (case asserted_roles of None \<Rightarrow> [] | Some r \<Rightarrow> r))))))"

text \<open>\<open>_bearer\<close> of \<^verbatim>\<open>main.py\<close>: the token of an authorization header.\<close>

definition bearer_token :: "string option \<Rightarrow> string option" where
  "bearer_token authorization =
     (case authorization of
        None \<Rightarrow> None
      | Some a \<Rightarrow>
          (let (scheme, separator, token) = partition_on CHR '' '' a in
           if \<not> separator \<or> str_lower scheme \<noteq> ''bearer'' \<or> str_strip token = [] then None
           else Some (str_strip token)))"

section \<open>Issuing a token\<close>

definition token_style :: dump_style where
  "token_style = \<lparr>sort_keys = True, ascii_only = True, item_sep = '','', key_sep = '':''\<rparr>"

definition token_header :: "signing_key \<Rightarrow> json" where
  "token_header key =
     JObj [(''alg'', JStr ''EdDSA''), (''typ'', JStr ''JWT''), (''kid'', JStr (sk_key_id key))]"

definition token_claims ::
  "string \<Rightarrow> string list \<Rightarrow> string \<Rightarrow> string \<Rightarrow> int \<Rightarrow> int \<Rightarrow> json" where
  "token_claims sub rs iss aud issued_at lifetime =
     JObj [(''iss'', JStr iss), (''aud'', JStr aud), (''sub'', JStr sub), (''roles'', JArr (map JStr rs)),
           (''iat'', JInt issued_at), (''exp'', JInt (issued_at + lifetime))]"

text \<open>The issue time is given in whole seconds, as after \<open>int(issued_at)\<close>.\<close>

definition issue_caller_token ::
  "platform \<Rightarrow> signing_key \<Rightarrow> string \<Rightarrow> string list \<Rightarrow> string \<Rightarrow> string \<Rightarrow> int \<Rightarrow> int \<Rightarrow> string" where
  "issue_caller_token P key sub rs iss aud issued_at lifetime =
     (let eh = b64u_encode (utf8_encode (dumps P token_style (token_header key)));
          ec = b64u_encode (utf8_encode (dumps P token_style (token_claims sub rs iss aud issued_at lifetime)));
          message = eh @ ''.'' @ ec
      in message @ ''.'' @ b64u_encode (ed_sign P (sk_seed key) message))"

section \<open>Lemmas\<close>

lemma encode_ascii_Inr [res_simps]: "encode_ascii s = Inr t \<longleftrightarrow> list_all is_ascii s \<and> t = s"
  by (auto simp: encode_ascii_def)

lemma key_for_header_Inr:
  assumes "key_for_header A v = Inr key"
  shows "\<exists>h kid. v = JObj h \<and> jget h ''alg'' = JStr ''EdDSA'' \<and> jget h ''kid'' = JStr kid \<and>
    ring_find (caller_keys A) kid = Some key"
  using assms
  by (cases v) (auto simp: key_for_header_def split: json.splits if_splits option.splits)

lemma check_claims_Inr:
  "check_claims A now claims = Inr c \<longleftrightarrow>
     c = claims \<and>
     (issuer A = [] \<or> jget claims ''iss'' = JStr (issuer A)) \<and>
     (audience A = [] \<or> audience_matches (jget claims ''aud'') (audience A)) \<and>
     is_number (jget claims ''exp'') \<and> \<not> is_past now (the (num_of (jget claims ''exp''))) \<and>
     (is_number (jget claims ''nbf'') \<longrightarrow> \<not> is_future now (the (num_of (jget claims ''nbf''))))"
  by (auto simp: check_claims_def)

lemma malformed_handler:
  "catching malformed (\<lambda>_. Inl invalid_caller_token) m = Inr x \<longleftrightarrow> m = Inr x"
  by (cases m) auto

lemma verified_claims_Inr:
  assumes "verified_claims P A now token = Inr claims"
  shows "\<exists>eh ep es header key sig. split_on CHR ''.'' token = [eh, ep, es] \<and>
    decode_part P eh = Inr header \<and> key_for_header A header = Inr key \<and>
    b64u_decode (JStr es) None = Inr sig \<and> key_verify P key (eh @ ''.'' @ ep) sig \<and>
    decode_part P ep = Inr (JObj claims) \<and> check_claims A now claims = Inr claims"
proof -
  obtain eh ep es where parts: "split_on CHR ''.'' token = [eh, ep, es]"
    using assms by (auto simp: verified_claims_def split: if_splits list.splits)
  from assms parts obtain header key sig payload where
    "decode_part P eh = Inr header" "key_for_header A header = Inr key"
    "b64u_decode (JStr es) None = Inr sig" "key_verify P key (eh @ ''.'' @ ep) sig"
    and pl: "decode_part P ep = Inr payload"
      "(case payload of JObj claims \<Rightarrow> check_claims A now claims | _ \<Rightarrow> Inl invalid_caller_token) = Inr claims"
    by (auto simp: verified_claims_def malformed_handler rbind_eq_Inr encode_ascii_Inr split: if_splits)
  moreover from pl have "payload = JObj claims" "check_claims A now claims = Inr claims"
    by (cases payload, auto simp: check_claims_Inr)+
  ultimately show ?thesis using parts by blast
qed

lemma from_token_Inr:
  assumes "from_token P A now bearer = Inr c"
  shows "\<exists>token claims sub rs. bearer = Some token \<and> verified_claims P A now token = Inr claims \<and>
    jget claims ''sub'' = JStr sub \<and> sub \<noteq> [] \<and>
    (dget claims ''roles'' = None \<and> rs = [] \<or> dget claims ''roles'' = Some (JArr (map JStr rs))) \<and>
    c = caller_of sub (clean_roles rs)"
proof -
  obtain token where b: "bearer = Some token"
    using assms by (auto simp: from_token_def split: option.splits)
  from assms b obtain claims where cl: "verified_claims P A now token = Inr claims"
    by (auto simp: from_token_def rbind_eq_Inr split: if_splits)
  define raw where "raw = (case dget claims ''roles'' of None \<Rightarrow> JArr [] | Some v \<Rightarrow> v)"
  from assms b cl obtain sub xs where s: "jget claims ''sub'' = JStr sub" "sub \<noteq> []"
    and r: "raw = JArr xs" "list_all is_str xs" "c = caller_of sub (clean_roles (map str_of xs))"
    by (auto simp: from_token_def raw_def [symmetric] split: json.splits if_splits)
  have "map JStr (map str_of xs) = xs"
    using r(2) by (induction xs) (auto simp: is_str_iff)
  with r(1) have "dget claims ''roles'' = None \<and> map str_of xs = []
      \<or> dget claims ''roles'' = Some (JArr (map JStr (map str_of xs)))"
    by (auto simp: raw_def split: option.splits)
  with b cl s r(3) show ?thesis by blast
qed

text \<open>What the documentation of \<^verbatim>\<open>json\<close> promises of one document: it is read back as it was written.\<close>

definition reads_back :: "platform \<Rightarrow> json \<Rightarrow> bool" where
  "reads_back P v \<longleftrightarrow> json_loads P (utf8_encode (dumps P token_style v)) = Some (jnorm v)"

lemma b64u_no_dot: "CHR ''.'' \<notin> set (b64u_encode s)"
  using b64u_encode_alphabet [of s]
  by (auto simp: list_all_iff is_b64u_def is_alnum_def is_alpha_def is_upper_def is_lower_def is_digit_def)

lemma token_split:
  "split_on CHR ''.'' (b64u_encode a @ ''.'' @ b64u_encode b @ ''.'' @ b64u_encode c)
     = [b64u_encode a, b64u_encode b, b64u_encode c]"
  using b64u_no_dot by (simp add: split_on_append split_on_id)

lemma decode_part_encode:
  assumes "reads_back P (JObj d)"
  shows "decode_part P (b64u_encode (utf8_encode (dumps P token_style (JObj d)))) = Inr (jnorm (JObj d))"
proof -
  have "utf8_encode (dumps P token_style (JObj d)) \<noteq> []"
    by (simp add: utf8_encode_def utf8_char_def)
  from b64u_decode_encode [OF this, of None] assms show ?thesis
    by (simp add: decode_part_def reads_back_def)
qed

text \<open>The claims and the header as they are read back, in key order.\<close>

lemma jnorm_header: "jnorm (token_header key) =
    JObj [(''alg'', JStr ''EdDSA''), (''kid'', JStr (sk_key_id key)), (''typ'', JStr ''JWT'')]"
  by (simp add: token_header_def)

lemma jnorm_claims: "jnorm (token_claims sub rs iss aud t life) =
    JObj [(''aud'', JStr aud), (''exp'', JInt (t + life)), (''iat'', JInt t), (''iss'', JStr iss),
          (''roles'', JArr (map JStr rs)), (''sub'', JStr sub)]"
  by (simp add: token_claims_def comp_def)

lemma token_accepted:
  assumes "ed25519_correct P" and "length (sk_seed key) = 32"
    and "ring_find (caller_keys A) (sk_key_id key) = Some (public_key P key)" and "sk_key_id key \<noteq> []"
    and "reads_back P (token_header key)" and "reads_back P (token_claims sub rs (issuer A) (audience A) t life)"
    and "auth_mode A = VerifiedToken" and "sub \<noteq> []"
    and "length (utf8_encode (issue_caller_token P key sub rs (issuer A) (audience A) t life)) \<le> 8192"
    and "now \<le> of_int (t + life) + 30"
  shows "identify P A now (Some (issue_caller_token P key sub rs (issuer A) (audience A) t life)) None None
    = Inr (Some (caller_of sub (clean_roles rs)))"
proof -
  let ?h = "utf8_encode (dumps P token_style (token_header key))"
  let ?c = "utf8_encode (dumps P token_style (token_claims sub rs (issuer A) (audience A) t life))"
  let ?m = "b64u_encode ?h @ ''.'' @ b64u_encode ?c"
  let ?sig = "ed_sign P (sk_seed key) ?m"
  define token where "token = issue_caller_token P key sub rs (issuer A) (audience A) t life"
  have tok: "token = b64u_encode ?h @ ''.'' @ b64u_encode ?c @ ''.'' @ b64u_encode ?sig"
    by (simp add: token_def issue_caller_token_def Let_def)
  have parts: "split_on CHR ''.'' token = [b64u_encode ?h, b64u_encode ?c, b64u_encode ?sig]"
    unfolding tok by (rule token_split)
  have header: "decode_part P (b64u_encode ?h) = Inr (jnorm (token_header key))"
    using decode_part_encode assms(5) unfolding token_header_def by blast
  have claims: "decode_part P (b64u_encode ?c)
      = Inr (jnorm (token_claims sub rs (issuer A) (audience A) t life))"
    using decode_part_encode assms(6) unfolding token_claims_def by blast
  have key: "key_for_header A (jnorm (token_header key)) = Inr (public_key P key)"
    using assms(3,4) by (simp add: jnorm_header key_for_header_def jget_def)
  have sg: "length ?sig = 64" "ed_verify P (ed_public P (sk_seed key)) ?m ?sig"
    using assms(1,2) by (simp_all add: ed25519_correct_def)
  then have dec: "b64u_decode (JStr (b64u_encode ?sig)) None = Inr ?sig"
    by (intro b64u_decode_encode) auto
  have asc: "encode_ascii ?m = Inr ?m"
    using b64u_encode_ascii by (simp add: encode_ascii_def is_ascii_def)
  have ok: "key_verify P (public_key P key) ?m ?sig"
    using sg by (simp add: key_verify_def public_key_def)
  have "verified_claims P A now token = Inr [(''aud'', JStr (audience A)), (''exp'', JInt (t + life)),
      (''iat'', JInt t), (''iss'', JStr (issuer A)), (''roles'', JArr (map JStr rs)), (''sub'', JStr sub)]"
    using assms(9,10) header claims key dec asc ok
    unfolding verified_claims_def parts list.case token_def [symmetric]
    by (simp add: MAX_TOKEN_BYTES_def jnorm_claims check_claims_Inr jget_def audience_matches_def
        CLOCK_SKEW_SECONDS_def)
  moreover have "token \<noteq> []" by (simp add: tok)
  moreover have "list_all is_str (map JStr rs)" "map (str_of \<circ> JStr) rs = rs"
    by (simp_all add: list_all_iff comp_def)
  ultimately have "from_token P A now (Some token) = Inr (caller_of sub (clean_roles rs))"
    using assms(8) by (simp add: from_token_def jget_def)
  then show ?thesis using assms(7) by (simp add: identify_def token_def)
qed

lemma identified_by_token:
  assumes "auth_mode A = VerifiedToken" and "identify P A now bearer asub aroles = Inr r"
  shows "asub = None \<and> aroles = None \<and>
    (\<exists>token eh ep es key sig claims c rs. bearer = Some token \<and> token = eh @ ''.'' @ ep @ ''.'' @ es \<and>
      key \<in> set (caller_keys A) \<and> length sig = 64 \<and> ed_verify P (ver_public key) (eh @ ''.'' @ ep) sig \<and>
      decode_part P ep = Inr (JObj claims) \<and> r = Some c \<and>
      jget claims ''sub'' = JStr (subject c) \<and> roles c = set (clean_roles rs) \<and>
      (dget claims ''roles'' = None \<and> rs = [] \<or> dget claims ''roles'' = Some (JArr (map JStr rs))) \<and>
      (issuer A = [] \<or> jget claims ''iss'' = JStr (issuer A)) \<and>
      (audience A = [] \<or> audience_matches (jget claims ''aud'') (audience A)) \<and>
      (\<exists>x. num_of (jget claims ''exp'') = Some x \<and> \<not> is_past now x))"
proof -
  obtain c where c: "r = Some c" "from_token P A now bearer = Inr c" "asub = None" "aroles = None"
    using assms by (auto simp: identify_def rbind_eq_Inr split: if_splits)
  obtain token claims sub rs where t: "bearer = Some token" "verified_claims P A now token = Inr claims"
    "jget claims ''sub'' = JStr sub"
    "dget claims ''roles'' = None \<and> rs = [] \<or> dget claims ''roles'' = Some (JArr (map JStr rs))"
    "c = caller_of sub (clean_roles rs)"
    using from_token_Inr [OF c(2)] by blast
  obtain eh ep es header key sig where v: "split_on CHR ''.'' token = [eh, ep, es]"
    "key_for_header A header = Inr key" "key_verify P key (eh @ ''.'' @ ep) sig"
    "decode_part P ep = Inr (JObj claims)" "check_claims A now claims = Inr claims"
    using verified_claims_Inr [OF t(2)] by blast
  have "token = eh @ ''.'' @ ep @ ''.'' @ es"
    using join_split [of "CHR ''.''" token] by (simp add: v(1))
  moreover have "key \<in> set (caller_keys A)"
    using key_for_header_Inr [OF v(2)] ring_find_Some by blast
  moreover have "\<exists>x. num_of (jget claims ''exp'') = Some x \<and> \<not> is_past now x"
    using v(5) by (cases "jget claims ''exp''") (auto simp: check_claims_Inr)
  moreover have "issuer A = [] \<or> jget claims ''iss'' = JStr (issuer A)"
    "audience A = [] \<or> audience_matches (jget claims ''aud'') (audience A)"
    using v(5) by (simp_all add: check_claims_Inr)
  moreover have "subject c = sub" "roles c = set (clean_roles rs)" using t(5) by (simp_all add: caller_of_def)
  ultimately show ?thesis
    using c t v(3,4) unfolding key_verify_def by blast
qed

section \<open>Properties\<close>

text \<open>
  C25: In verified mode there is no identity without a checked signature: if a caller is identified, no
  asserted header was present, the bearer token is a compact JWS whose first two parts a key of the
  configured ring signed, its payload is the object the subject and roles are read from, it names the
  configured issuer and audience, and it carries a numeric expiry that has not passed by more than
  the clock skew.
\<close>

theorem verified_identity_is_signed:
  assumes "auth_mode A = VerifiedToken" and "identify P A now bearer asub aroles = Inr r"
  shows "asub = None \<and> aroles = None \<and>
    (\<exists>token eh ep es key sig claims c rs. bearer = Some token \<and> token = eh @ ''.'' @ ep @ ''.'' @ es \<and>
      key \<in> set (caller_keys A) \<and> length sig = 64 \<and> ed_verify P (ver_public key) (eh @ ''.'' @ ep) sig \<and>
      decode_part P ep = Inr (JObj claims) \<and> r = Some c \<and>
      jget claims ''sub'' = JStr (subject c) \<and> roles c = set (clean_roles rs) \<and>
      (dget claims ''roles'' = None \<and> rs = [] \<or> dget claims ''roles'' = Some (JArr (map JStr rs))) \<and>
      (issuer A = [] \<or> jget claims ''iss'' = JStr (issuer A)) \<and>
      (audience A = [] \<or> audience_matches (jget claims ''aud'') (audience A)) \<and>
      (\<exists>x. num_of (jget claims ''exp'') = Some x \<and> \<not> is_past now x))"
  using assms by (rule identified_by_token)

text \<open>
  A token the host application issues is accepted, as exactly the subject and roles it was issued
  for, by every runtime that trusts the issuing key and is configured for that issuer and audience,
  until the clock skew after its expiry.
\<close>

theorem issued_token_identifies:
  assumes "ed25519_correct P" and "length (sk_seed key) = 32"
    and "ring_find (caller_keys A) (sk_key_id key) = Some (public_key P key)" and "sk_key_id key \<noteq> []"
    and "reads_back P (token_header key)" and "reads_back P (token_claims sub rs (issuer A) (audience A) t life)"
    and "auth_mode A = VerifiedToken" and "sub \<noteq> []"
    and "length (utf8_encode (issue_caller_token P key sub rs (issuer A) (audience A) t life)) \<le> 8192"
    and "now \<le> of_int (t + life) + 30"
  shows "identify P A now (Some (issue_caller_token P key sub rs (issuer A) (audience A) t life)) None None
    = Inr (Some (caller_of sub (clean_roles rs)))"
  using assms by (rule token_accepted)

text \<open>
  The verified path does not fail closed on every input: a token whose header names a trusted key
  and whose payload part contains a character outside ASCII ends in an unhandled
  \<open>UnicodeEncodeError\<close> instead of the refusal that maps to status 401.
\<close>

theorem non_ascii_payload_escapes:
  assumes "auth_mode A = VerifiedToken" and "split_on CHR ''.'' token = [eh, ep, es]"
    and "decode_part P eh = Inr header" and "key_for_header A header = Inr key"
    and "b64u_decode (JStr es) None = Inr sig" and "\<not> list_all is_ascii ep"
    and "length (utf8_encode token) \<le> 8192"
  shows "identify P A now (Some token) None None = Inl UnicodeError \<and> exn_code UnicodeError = None"
proof -
  have "token \<noteq> []" using assms(2) by auto
  then show ?thesis using assms
    by (simp add: identify_def from_token_def verified_claims_def MAX_TOKEN_BYTES_def encode_ascii_def)
qed

section \<open>Examples\<close>

definition example_authenticator :: caller_authenticator where
  "example_authenticator = \<lparr>auth_mode = VerifiedToken,
     caller_keys = [public_key sample_platform example_key], issuer = ''https://idp'', audience = ''runtime''\<rparr>"

lemma example_reads_back:
  "reads_back sample_platform (token_header example_key)"
  "reads_back sample_platform (token_claims ''ana'' [''support''] ''https://idp'' ''runtime'' 1000 300)"
proof -
  have texts: "utf8_encode (dumps sample_platform token_style (token_header example_key)) = fst (sample_documents ! 1)"
    "utf8_encode (dumps sample_platform token_style
       (token_claims ''ana'' [''support''] ''https://idp'' ''runtime'' 1000 300)) = fst (sample_documents ! 2)"
    by code_simp+
  have loads: "json_loads sample_platform = map_of sample_documents" by (simp add: sample_platform_def)
  show "reads_back sample_platform (token_header example_key)"
    "reads_back sample_platform (token_claims ''ana'' [''support''] ''https://idp'' ''runtime'' 1000 300)"
    unfolding reads_back_def texts loads jnorm_header jnorm_claims
    by (simp_all add: sample_documents_def example_key_def)
qed

lemma utf8_encode_length: "length (utf8_encode s) \<le> 2 * length s"
  by (induction s) (auto simp: utf8_encode_def utf8_char_def)

lemma example_lengths:
  "length (utf8_encode (dumps sample_platform token_style (token_header example_key))) \<le> 200"
  "length (utf8_encode (dumps sample_platform token_style
     (token_claims ''ana'' [''support''] ''https://idp'' ''runtime'' 1000 300))) \<le> 200"
  by code_simp+

lemma b64u_encode_bound: "length (b64u_encode s) \<le> 2 * length s + 3"
proof -
  have "length (b64u_encode s) \<le> 4 * (length s div 3) + 3"
    using mod_less_divisor [of 3 "length s"] unfolding b64u_encode_length by (simp del: mod_less_divisor)
  moreover have "3 * (length s div 3) \<le> length s" by simp
  ultimately show ?thesis by linarith
qed

text \<open>The example token.\<close>

definition example_token :: string where
  "example_token = issue_caller_token sample_platform example_key ''ana'' [''support'']
     ''https://idp'' ''runtime'' 1000 300"

lemma example_ring:
  "ring_find (caller_keys example_authenticator) (sk_key_id example_key)
    = Some (public_key sample_platform example_key)"
  by (simp add: example_authenticator_def public_key_def ring_find_def)

lemma example_seed: "length (sk_seed example_key) = 32" "sk_key_id example_key \<noteq> []"
  by (simp_all add: example_key_def)

lemma example_token_length: "length (utf8_encode example_token) \<le> 8192"
proof -
  have "length (ed_sign sample_platform (sk_seed example_key) m) = 64" for m
    using sample_ed25519 example_seed(1) by (simp add: ed25519_correct_def)
  then have "length example_token \<le> 1500"
    using b64u_encode_bound [of "utf8_encode (dumps sample_platform token_style (token_header example_key))"]
      b64u_encode_bound [of "utf8_encode (dumps sample_platform token_style
        (token_claims ''ana'' [''support''] ''https://idp'' ''runtime'' 1000 300))"] example_lengths
    by (simp add: example_token_def issue_caller_token_def Let_def b64u_encode_length)
  with utf8_encode_length [of example_token] show ?thesis by linarith
qed

lemma example_identified:
  assumes "auth_mode A = VerifiedToken" and "caller_keys A = [public_key sample_platform example_key]"
    and "issuer A = ''https://idp''" and "audience A = ''runtime''"
  shows "identify sample_platform A 1100 (Some example_token) None None
    = Inr (Some (caller_of ''ana'' [''support'']))"
proof -
  have "clean_roles [''support''] = [''support'']" by code_simp
  moreover have "ring_find (caller_keys A) (sk_key_id example_key) = Some (public_key sample_platform example_key)"
    using example_ring assms(2) by (simp add: example_authenticator_def)
  ultimately show ?thesis
    using token_accepted [OF sample_ed25519 example_seed(1) _ example_seed(2)
      example_reads_back(1), where A = A and sub = "''ana''" and rs = "[''support'']" and t = 1000
      and life = 300 and now = 1100]
      example_reads_back(2) example_token_length assms
    by (simp add: example_token_def)
qed

lemma issued_token_identifies_witness:
  "identify sample_platform example_authenticator 1100 (Some example_token) None None
    = Inr (Some (caller_of ''ana'' [''support'']))"
proof -
  have cfg: "issuer example_authenticator = ''https://idp''" "audience example_authenticator = ''runtime''"
    "auth_mode example_authenticator = VerifiedToken"
    by (simp_all add: example_authenticator_def)
  have "clean_roles [''support''] = [''support'']" by code_simp
  then show ?thesis
    using issued_token_identifies [OF sample_ed25519 example_seed(1) example_ring example_seed(2)
      example_reads_back(1), where sub = "''ana''" and rs = "[''support'']" and t = 1000 and life = 300 and now = 1100]
      example_reads_back(2) example_token_length
    by (simp add: cfg example_token_def)
qed

lemma verified_identity_is_signed_witness:
  "\<exists>eh ep es key sig claims. example_token = eh @ ''.'' @ ep @ ''.'' @ es \<and>
     key \<in> set (caller_keys example_authenticator) \<and>
     ed_verify sample_platform (ver_public key) (eh @ ''.'' @ ep) sig \<and>
     decode_part sample_platform ep = Inr (JObj claims) \<and> jget claims ''sub'' = JStr ''ana''"
proof -
  have cfg: "issuer example_authenticator = ''https://idp''" "audience example_authenticator = ''runtime''"
    "auth_mode example_authenticator = VerifiedToken"
    by (simp_all add: example_authenticator_def)
  have "identify sample_platform example_authenticator 1100 (Some example_token) None None
      = Inr (Some (caller_of ''ana'' [''support'']))"
    by (rule example_identified) (simp_all add: example_authenticator_def)
  from verified_identity_is_signed [OF cfg(3) this] show ?thesis
    by (auto simp: caller_of_def)
qed

text \<open>A token with an e-acute in its payload part.\<close>

definition accented_token :: string where
  "accented_token = b64u_encode (utf8_encode (dumps sample_platform token_style (token_header example_key)))
     @ ''.'' @ [CHR 0xE9] @ ''.'' @ b64u_encode ''x''"

lemma non_ascii_payload_escapes_witness:
  "identify sample_platform example_authenticator 1100 (Some accented_token) None None = Inl UnicodeError"
proof -
  let ?h = "b64u_encode (utf8_encode (dumps sample_platform token_style (token_header example_key)))"
  have split: "split_on CHR ''.'' accented_token = [?h, [CHR 0xE9], b64u_encode ''x'']"
    using b64u_no_dot by (simp add: accented_token_def split_on_append split_on_id del: b64u_encode.simps)
  have header: "decode_part sample_platform ?h = Inr (jnorm (token_header example_key))"
    using decode_part_encode example_reads_back(1) unfolding token_header_def by blast
  have key: "key_for_header example_authenticator (jnorm (token_header example_key))
      = Inr (public_key sample_platform example_key)"
    using example_ring example_seed(2) by (simp add: jnorm_header key_for_header_def jget_def)
  have sig: "b64u_decode (JStr (b64u_encode ''x'')) None = Inr ''x''"
    by (intro b64u_decode_encode) auto
  have "length accented_token \<le> 1500"
    using b64u_encode_bound [of "utf8_encode (dumps sample_platform token_style (token_header example_key))"]
      example_lengths(1)
    by (simp add: accented_token_def b64u_encode_length)
  then have len: "length (utf8_encode accented_token) \<le> 8192"
    using utf8_encode_length [of accented_token] by linarith
  show ?thesis
    using non_ascii_payload_escapes [OF _ split header key sig _ len, of 1100]
    by (simp add: example_authenticator_def is_ascii_def)
qed

end
