(* ===== verification/Config.thy ===== *)
theory Config
  imports Orchestrator Identity
begin

text \<open>
  The runtime's settings, \<^verbatim>\<open>apps/runtime/runtime_service/config.py\<close>, and how the collaborators are
  assembled from them, \<open>build_orchestrator\<close> of \<^verbatim>\<open>main.py\<close>. The environment is an argument, and so is
  Python's reading of a float.
\<close>

section \<open>Reading the environment\<close>

type_synonym environ = "string \<Rightarrow> string option"

definition env_or :: "environ \<Rightarrow> string \<Rightarrow> string \<Rightarrow> string" where
  "env_or env name fallback = (case env name of None \<Rightarrow> fallback | Some raw \<Rightarrow> raw)"

definition env_bool :: "environ \<Rightarrow> string \<Rightarrow> bool \<Rightarrow> bool" where
  "env_bool env name fallback =
     (case env name of
        None \<Rightarrow> fallback
      | Some raw \<Rightarrow> str_lower (str_strip raw) \<in> {''1'', ''true'', ''yes'', ''on''})"

definition env_float ::
  "(string \<Rightarrow> pyfloat option) \<Rightarrow> environ \<Rightarrow> string \<Rightarrow> pyfloat \<Rightarrow> pyfloat res" where
  "env_float to_float env name fallback =
     (case env name of
        None \<Rightarrow> Inr fallback
      | Some raw \<Rightarrow> (case to_float raw of None \<Rightarrow> Inl ConfigurationError | Some f \<Rightarrow> Inr f))"

definition env_int :: "environ \<Rightarrow> string \<Rightarrow> int \<Rightarrow> int res" where
  "env_int env name fallback =
     (case env name of
        None \<Rightarrow> Inr fallback
      | Some raw \<Rightarrow> (case py_int raw of None \<Rightarrow> Inl ConfigurationError | Some i \<Rightarrow> Inr i))"

definition env_tuple :: "environ \<Rightarrow> string \<Rightarrow> string list" where
  "env_tuple env name =
     map str_strip (filter (\<lambda>e. str_strip e \<noteq> []) (split_on CHR '','' (env_or env name [])))"

definition env_mode :: "environ \<Rightarrow> string \<Rightarrow> string \<Rightarrow> string" where
  "env_mode env name fallback =
     (let raw = str_strip (env_or env name []) in if raw = [] then fallback else raw)"

section \<open>Settings\<close>

definition DEV_SERVICE_TOKEN :: string where
  "DEV_SERVICE_TOKEN = ''dev-service-token-change-me''"

record runtime_settings =
  control_plane_url :: string
  service_token :: string
  cfg_deployment_key :: string
  cfg_allowed_origins :: "string list"
  cfg_allow_plaintext_http :: bool
  cfg_allow_loopback :: bool
  cfg_allow_private_addresses :: bool
  cfg_connect_timeout :: pyfloat
  cfg_read_timeout :: pyfloat
  cfg_max_response_bytes :: int
  snapshot_refresh_seconds :: int
  cors_origins :: "string list"
  cfg_snapshot_verification :: string
  snapshot_trusted_keys :: "string list"
  cfg_caller_auth_mode :: string
  caller_token_trusted_keys :: "string list"
  caller_token_issuer :: string
  caller_token_audience :: string

definition VERIFICATION_MODES :: "(string \<times> verification_mode) list" where
  "VERIFICATION_MODES = [(''required'', Required), (''disabled'', Disabled)]"

definition CALLER_AUTH_MODES :: "(string \<times> caller_auth_mode) list" where
  "CALLER_AUTH_MODES = [(''asserted_header'', AssertedHeader), (''verified_token'', VerifiedToken)]"

definition parse_setting_ring :: "string list \<Rightarrow> key_ring res" where
  "parse_setting_ring entries =
     catching (\<lambda>e. e = InvalidKeyMaterial) (\<lambda>_. Inl ConfigurationError) (ring_parse entries)"

text \<open>\<open>__post_init__\<close>\<close>

definition mk_settings :: "runtime_settings \<Rightarrow> runtime_settings res" where
  "mk_settings s =
     (if \<not> dhas (cfg_snapshot_verification s) VERIFICATION_MODES then Inl ConfigurationError
      else if \<not> dhas (cfg_caller_auth_mode s) CALLER_AUTH_MODES then Inl ConfigurationError
      else
        rbind (parse_setting_ring (snapshot_trusted_keys s)) (\<lambda>snapshot_ring.
        rbind (parse_setting_ring (caller_token_trusted_keys s)) (\<lambda>caller_ring.
          if cfg_snapshot_verification s = ''required'' \<and> snapshot_ring = [] then Inl ConfigurationError
          else if cfg_caller_auth_mode s = ''verified_token'' \<and> caller_ring = [] then Inl ConfigurationError
          else if cfg_caller_auth_mode s = ''verified_token'' \<and>
                  (caller_token_issuer s = [] \<or> caller_token_audience s = [])
          then Inl ConfigurationError
          else Inr s)))"

definition get_settings :: "(string \<Rightarrow> pyfloat option) \<Rightarrow> environ \<Rightarrow> runtime_settings res" where
  "get_settings to_float env =
     rbind (env_float to_float env ''TOOLLAYER_CONNECT_TIMEOUT_SECONDS'' (Finite 3)) (\<lambda>connect.
     rbind (env_float to_float env ''TOOLLAYER_READ_TIMEOUT_SECONDS'' (Finite 10)) (\<lambda>read.
     rbind (env_int env ''TOOLLAYER_MAX_RESPONSE_BYTES'' (1024 * 1024)) (\<lambda>maximum.
     rbind (env_int env ''TOOLLAYER_SNAPSHOT_REFRESH_SECONDS'' 60) (\<lambda>every.
       mk_settings
         \<lparr>control_plane_url = env_or env ''TOOLLAYER_CONTROL_PLANE_URL'' ''http://localhost:8080'',
          service_token =
            (let t = env_or env ''TOOLLAYER_SERVICE_TOKEN'' [] in if t = [] then DEV_SERVICE_TOKEN else t),
          cfg_deployment_key = env_or env ''TOOLLAYER_DEPLOYMENT_KEY'' ''demo-workspace'',
          cfg_allowed_origins = env_tuple env ''TOOLLAYER_ALLOWED_ORIGINS'',
          cfg_allow_plaintext_http = env_bool env ''TOOLLAYER_ALLOW_PLAINTEXT_HTTP'' False,
          cfg_allow_loopback = env_bool env ''TOOLLAYER_ALLOW_LOOPBACK_DESTINATIONS'' False,
          cfg_allow_private_addresses = env_bool env ''TOOLLAYER_ALLOW_PRIVATE_ADDRESSES'' False,
          cfg_connect_timeout = connect, cfg_read_timeout = read, cfg_max_response_bytes = maximum,
          snapshot_refresh_seconds = every,
          cors_origins =
            (let origins = env_tuple env ''TOOLLAYER_RUNTIME_CORS_ORIGINS''
             in if origins = [] then [''http://localhost:5173''] else origins),
          cfg_snapshot_verification = env_mode env ''TOOLLAYER_SNAPSHOT_VERIFICATION'' ''required'',
          snapshot_trusted_keys = env_tuple env ''TOOLLAYER_SNAPSHOT_TRUSTED_KEYS'',
          cfg_caller_auth_mode = env_mode env ''TOOLLAYER_CALLER_AUTH_MODE'' ''asserted_header'',
          caller_token_trusted_keys = env_tuple env ''TOOLLAYER_CALLER_TOKEN_TRUSTED_KEYS'',
          caller_token_issuer = str_strip (env_or env ''TOOLLAYER_CALLER_TOKEN_ISSUER'' []),
          caller_token_audience = str_strip (env_or env ''TOOLLAYER_CALLER_TOKEN_AUDIENCE'' [])\<rparr>))))"

section \<open>What is built from settings\<close>

definition snapshot_verification_policy :: "runtime_settings \<Rightarrow> snapshot_verification res" where
  "snapshot_verification_policy s =
     rbind (ring_parse (snapshot_trusted_keys s)) (\<lambda>ring.
       case dget VERIFICATION_MODES (cfg_snapshot_verification s) of
         None \<Rightarrow> Inl ConfigurationError
       | Some m \<Rightarrow> Inr \<lparr>verification_mode = m, trusted_keys = ring\<rparr>)"

definition settings_authenticator :: "runtime_settings \<Rightarrow> caller_authenticator res" where
  "settings_authenticator s =
     rbind (ring_parse (caller_token_trusted_keys s)) (\<lambda>ring.
       case dget CALLER_AUTH_MODES (cfg_caller_auth_mode s) of
         None \<Rightarrow> Inl ConfigurationError
       | Some m \<Rightarrow> Inr \<lparr>auth_mode = m, caller_keys = ring, issuer = caller_token_issuer s,
                         audience = caller_token_audience s\<rparr>)"

definition settings_destination_policy :: "runtime_settings \<Rightarrow> destination_policy res" where
  "settings_destination_policy s =
     from_origins (cfg_allowed_origins s) (Some DEFAULT_ALLOWED_METHODS) (cfg_allow_plaintext_http s)
       (cfg_allow_loopback s) (cfg_allow_private_addresses s)"

definition settings_limits :: "runtime_settings \<Rightarrow> execution_limits res" where
  "settings_limits s =
     (case (cfg_connect_timeout s, cfg_read_timeout s) of
        (Finite c, Finite r) \<Rightarrow>
          if cfg_max_response_bytes s < 0 then Inl ValueError
          else mk_limits c r (nat (cfg_max_response_bytes s))
      | _ \<Rightarrow> Inl ValueError)"

definition relaxed_for_local_development :: "runtime_settings \<Rightarrow> bool" where
  "relaxed_for_local_development s \<longleftrightarrow>
     cfg_allow_plaintext_http s \<or> cfg_allow_loopback s \<or> cfg_allow_private_addresses s"

definition security_posture :: "runtime_settings \<Rightarrow> json dict res" where
  "security_posture s =
     rbind (ring_parse (snapshot_trusted_keys s)) (\<lambda>ring. Inr
       [(''destination_policy_relaxed'', JBool (relaxed_for_local_development s)),
        (''snapshot_verification'', JStr (cfg_snapshot_verification s)),
        (''snapshot_trusted_key_ids'', JArr (map JStr (ring_key_ids ring))),
        (''caller_authentication'', JStr (cfg_caller_auth_mode s)),
        (''caller_identity_is_verified'', JBool (cfg_caller_auth_mode s = ''verified_token''))])"

record runtime_parts =
  part_client :: snapshot_client
  part_deployment :: string
  part_store :: snapshot_store
  part_policy :: destination_policy
  part_limits :: execution_limits

definition build_orchestrator :: "runtime_settings \<Rightarrow> runtime_parts res" where
  "build_orchestrator s =
     rbind (snapshot_verification_policy s) (\<lambda>V.
     rbind (settings_destination_policy s) (\<lambda>D.
     rbind (settings_limits s) (\<lambda>L.
       Inr \<lparr>part_client = \<lparr>client_base_url = control_plane_url s, client_token = service_token s,
              client_verification = V\<rparr>,
            part_deployment = cfg_deployment_key s, part_store = new_store (snapshot_refresh_seconds s),
            part_policy = D, part_limits = L\<rparr>)))"

section \<open>Lemmas\<close>

lemma parse_setting_ring_Inr [res_simps]: "parse_setting_ring es = Inr r \<longleftrightarrow> ring_parse es = Inr r"
  by (simp add: parse_setting_ring_def res_simps)

lemma mk_settings_Inr:
  "mk_settings s = Inr s' \<longleftrightarrow> s' = s \<and>
     cfg_snapshot_verification s \<in> {''required'', ''disabled''} \<and>
     cfg_caller_auth_mode s \<in> {''asserted_header'', ''verified_token''} \<and>
     (\<exists>ring. ring_parse (snapshot_trusted_keys s) = Inr ring \<and>
        (cfg_snapshot_verification s = ''required'' \<longrightarrow> ring \<noteq> [])) \<and>
     (\<exists>ring. ring_parse (caller_token_trusted_keys s) = Inr ring \<and>
        (cfg_caller_auth_mode s = ''verified_token'' \<longrightarrow>
           ring \<noteq> [] \<and> caller_token_issuer s \<noteq> [] \<and> caller_token_audience s \<noteq> []))"
  by (auto simp: mk_settings_def dhas_def VERIFICATION_MODES_def CALLER_AUTH_MODES_def res_simps)

lemma settings_ring:
  assumes "mk_settings s = Inr s'"
  shows "\<exists>ring. ring_parse (snapshot_trusted_keys s) = Inr ring \<and>
    snapshot_verification_policy s = Inr \<lparr>verification_mode =
      (if cfg_snapshot_verification s = ''required'' then Required else Disabled), trusted_keys = ring\<rparr>"
  using assms
  by (auto simp: mk_settings_Inr snapshot_verification_policy_def VERIFICATION_MODES_def)

lemma settings_authenticator_Inr:
  assumes "mk_settings s = Inr s'"
  shows "\<exists>ring. ring_parse (caller_token_trusted_keys s) = Inr ring \<and>
    settings_authenticator s = Inr \<lparr>auth_mode =
      (if cfg_caller_auth_mode s = ''verified_token'' then VerifiedToken else AssertedHeader),
      caller_keys = ring, issuer = caller_token_issuer s, audience = caller_token_audience s\<rparr>"
  using assms
  by (auto simp: mk_settings_Inr settings_authenticator_def CALLER_AUTH_MODES_def)

lemma verified_key_listed:
  assumes "verify_document P d ring = Inr i"
  shows "i \<in> set (ring_key_ids ring)"
proof (rule verify_document_Inr [OF assms], goal_cases)
  case (1 block val key sig msg)
  then have "key \<in> set ring" "ver_key_id key = i" using ring_find_Some by blast+
  then show ?case by (auto simp: ring_key_ids_def)
qed

section \<open>Properties\<close>

text \<open>
  C35: Settings that the process starts with are usable: reading the key rings again never fails, and a
  runtime that requires signed snapshots trusts at least one key, while one that verifies caller tokens
  trusts at least one key and checks a named issuer and a named audience.
\<close>

theorem started_settings_are_usable:
  assumes "get_settings to_float env = Inr s"
  shows "\<exists>V A. snapshot_verification_policy s = Inr V \<and> settings_authenticator s = Inr A \<and>
    is_ok (security_posture s) \<and>
    (verification_mode V = Required \<longrightarrow> trusted_keys V \<noteq> []) \<and>
    (verification_mode V = Required \<longleftrightarrow> cfg_snapshot_verification s = ''required'') \<and>
    (verifies_identity A \<longrightarrow> caller_keys A \<noteq> [] \<and> issuer A \<noteq> [] \<and> audience A \<noteq> []) \<and>
    (verifies_identity A \<longleftrightarrow> cfg_caller_auth_mode s = ''verified_token'')"
proof -
  obtain s0 where "mk_settings s0 = Inr s" using assms by (auto simp: get_settings_def res_simps)
  then have ok: "mk_settings s = Inr s" by (simp add: mk_settings_Inr)
  from settings_ring [OF ok] settings_authenticator_Inr [OF ok] ok show ?thesis
    by (auto simp: mk_settings_Inr verifies_identity_def security_posture_def)
qed

text \<open>An environment that enforces both: every snapshot signed, every caller token verified.\<close>

definition example_environ :: environ where
  "example_environ = dget
     [(''TOOLLAYER_SNAPSHOT_TRUSTED_KEYS'', ''k1:'' @ replicate 43 CHR ''A''),
      (''TOOLLAYER_CALLER_AUTH_MODE'', ''verified_token''),
      (''TOOLLAYER_CALLER_TOKEN_TRUSTED_KEYS'', ''idp:'' @ replicate 43 CHR ''A''),
      (''TOOLLAYER_CALLER_TOKEN_ISSUER'', ''https://idp''), (''TOOLLAYER_CALLER_TOKEN_AUDIENCE'', ''runtime''),
      (''TOOLLAYER_ALLOWED_ORIGINS'', ''https://api.example.org'')]"

lemma example_starts: "\<exists>s. get_settings (\<lambda>_. None) example_environ = Inr s"
proof -
  have "is_ok (get_settings (\<lambda>_. None) example_environ)" by code_simp
  then show ?thesis by (auto simp: is_ok_iff)
qed

lemma started_settings_are_usable_witness:
  "\<exists>s A. get_settings (\<lambda>_. None) example_environ = Inr s \<and> settings_authenticator s = Inr A"
proof -
  obtain s where s: "get_settings (\<lambda>_. None) example_environ = Inr s" using example_starts by blast
  from started_settings_are_usable [OF this] s show ?thesis by blast
qed

text \<open>
  Secure by default: in an environment that sets nothing the runtime does not start, and where only
  verification is disabled by its exact name it starts without any destination, with every relaxation
  of the destination policy off; any other spelling of the mode does not start either.
\<close>

theorem default_environment:
  "get_settings to_float (\<lambda>_. None) = Inl ConfigurationError \<and>
   (str_strip m \<notin> {[], ''required'', ''disabled''} \<longrightarrow>
     get_settings to_float [''TOOLLAYER_SNAPSHOT_VERIFICATION'' \<mapsto> m] = Inl ConfigurationError) \<and>
   (\<exists>s D. get_settings to_float [''TOOLLAYER_SNAPSHOT_VERIFICATION'' \<mapsto> ''disabled''] = Inr s \<and>
      settings_destination_policy s = Inr D \<and> allowed_origins D = {} \<and> \<not> relaxed_for_local_development s)"
proof -
  have tuple: "env_tuple env name = []" if "env name = None" for env name
    by (simp add: env_tuple_def env_or_def that str_strip_def strip_by_def lstrip_by_def rstrip_by_def)
  have strip: "str_strip [] = []" by (simp add: str_strip_def strip_by_def lstrip_by_def rstrip_by_def)
  have dis: "str_strip ''disabled'' = ''disabled''" by code_simp
  note env = get_settings_def env_float_def env_int_def env_bool_def env_mode_def env_or_def tuple strip
    mk_settings_def VERIFICATION_MODES_def CALLER_AUTH_MODES_def dhas_def ring_parse_def parse_setting_ring_def
  show ?thesis
    by (simp add: env dis settings_destination_policy_def from_origins_def relaxed_for_local_development_def)
qed

lemma default_environment_witness:
  "get_settings (\<lambda>_. None) [''TOOLLAYER_SNAPSHOT_VERIFICATION'' \<mapsto> ''Off''] = Inl ConfigurationError"
proof -
  have "str_strip ''Off'' \<notin> {[], ''required'', ''disabled''}" by code_simp
  then show ?thesis using default_environment [of "\<lambda>_. None" "''Off''"] by blast
qed

text \<open>
  What \<open>/healthz\<close> discloses is what the runtime does: it reports signature verification as
  required exactly when no unauthenticated document passes, and then every accepted document was signed
  by one of the key ids it lists; it reports caller identity as verified exactly when the authenticator
  verifies tokens; and it reports a relaxed destination policy exactly when one of the three relaxations
  is in force.
\<close>

theorem posture_is_honest:
  assumes "get_settings to_float env = Inr s" and "security_posture s = Inr p"
    and "snapshot_verification_policy s = Inr V" and "settings_authenticator s = Inr A"
    and "settings_destination_policy s = Inr D"
  shows "(jget p ''snapshot_verification'' = JStr ''required'' \<longleftrightarrow> (\<forall>P d k. check_producer P V d = Inr k \<longrightarrow> k \<noteq> None)) \<and>
    (jget p ''snapshot_verification'' = JStr ''required'' \<longrightarrow>
      (\<forall>P d i. check_producer P V d = Inr (Some i) \<longrightarrow>
         JStr i \<in> set (arr_of (jget p ''snapshot_trusted_key_ids'')))) \<and>
    (jget p ''caller_identity_is_verified'' = JBool True \<longleftrightarrow> verifies_identity A) \<and>
    (jget p ''destination_policy_relaxed'' = JBool True \<longleftrightarrow>
      allow_plaintext_http D \<or> allow_loopback D \<or> allow_private_addresses D)"
proof -
  obtain s0 where "mk_settings s0 = Inr s" using assms(1) by (auto simp: get_settings_def res_simps)
  then have ok: "mk_settings s = Inr s" by (simp add: mk_settings_Inr)
  obtain ring where ring: "ring_parse (snapshot_trusted_keys s) = Inr ring"
    and V: "V = \<lparr>verification_mode = (if cfg_snapshot_verification s = ''required'' then Required else Disabled),
      trusted_keys = ring\<rparr>"
    using settings_ring [OF ok] assms(3) by auto
  have p: "jget p ''snapshot_verification'' = JStr (cfg_snapshot_verification s)"
    "jget p ''snapshot_trusted_key_ids'' = JArr (map JStr (ring_key_ids ring))"
    "jget p ''caller_identity_is_verified'' = JBool (cfg_caller_auth_mode s = ''verified_token'')"
    "jget p ''destination_policy_relaxed'' = JBool (relaxed_for_local_development s)"
    using assms(2) ring by (auto simp: security_posture_def jget_def)
  have A: "verifies_identity A \<longleftrightarrow> cfg_caller_auth_mode s = ''verified_token''"
    using settings_authenticator_Inr [OF ok] assms(4) by (auto simp: verifies_identity_def split: if_splits)
  have D: "allow_plaintext_http D = cfg_allow_plaintext_http s" "allow_loopback D = cfg_allow_loopback s"
    "allow_private_addresses D = cfg_allow_private_addresses s"
    using assms(5) by (auto simp: settings_destination_policy_def from_origins_def res_simps)
  have unsigned: "check_producer P V [] = Inr None" if "cfg_snapshot_verification s \<noteq> ''required''" for P
    using that by (simp add: check_producer_def V jget_def)
  have listed: "i \<in> set (ring_key_ids ring)" if v: "check_producer P V d = Inr (Some i)" for P d i
  proof -
    have "verify_document P d ring = Inr i" using v by (simp add: check_producer_Inr V)
    from verified_key_listed [OF this] show ?thesis .
  qed
  have req: "(cfg_snapshot_verification s = ''required'') =
      (\<forall>P d k. check_producer P V d = Inr k \<longrightarrow> k \<noteq> None)"
  proof
    show "\<forall>P d k. check_producer P V d = Inr k \<longrightarrow> k \<noteq> None"
      if "cfg_snapshot_verification s = ''required''"
      using that by (auto simp: check_producer_Inr V split: option.splits)
    show "cfg_snapshot_verification s = ''required''"
      if "\<forall>P d k. check_producer P V d = Inr k \<longrightarrow> k \<noteq> None"
      using that unsigned by blast
  qed
  show ?thesis
    unfolding p json.inject A D req [symmetric] relaxed_for_local_development_def
    using listed by auto
qed

lemma posture_is_honest_witness:
  "\<exists>s p A. get_settings (\<lambda>_. None) example_environ = Inr s \<and> security_posture s = Inr p \<and>
     settings_authenticator s = Inr A \<and>
     (jget p ''caller_identity_is_verified'' = JBool True \<longleftrightarrow> verifies_identity A)"
proof -
  have "is_ok (rbind (get_settings (\<lambda>_. None) example_environ) (\<lambda>s. rbind (security_posture s) (\<lambda>p.
      rbind (snapshot_verification_policy s) (\<lambda>V. rbind (settings_authenticator s) (\<lambda>A.
      settings_destination_policy s)))))"
    by code_simp
  then obtain s p V A D where s: "get_settings (\<lambda>_. None) example_environ = Inr s" "security_posture s = Inr p"
    "snapshot_verification_policy s = Inr V" "settings_authenticator s = Inr A"
    "settings_destination_policy s = Inr D"
    by (auto simp: is_ok_iff res_simps)
  from posture_is_honest [OF s] s show ?thesis by blast
qed

end
