(* ===== verification/RuntimeApp.thy ===== *)
theory RuntimeApp
  imports Config
begin

text \<open>
  The runtime's HTTP surface: \<^verbatim>\<open>apps/runtime/runtime_service/main.py\<close>. A request arrives with its
  JSON body parsed; a reply is a status and a body. The wall clock of tokens, the monotonic clock of the
  store, the generated request id and the prose of an error are arguments.
\<close>

section \<open>Requests\<close>

record chat_request =
  utterance :: string
  chat_confirmed :: bool
  chat_dry_run :: bool

record execute_request =
  exec_arguments :: "json dict"
  exec_confirmed :: bool

definition field_or :: "json dict \<Rightarrow> string \<Rightarrow> 'a \<Rightarrow> (json \<Rightarrow> 'a res) \<Rightarrow> 'a res" where
  "field_or d k fallback f = (case dget d k of None \<Rightarrow> Inr fallback | Some v \<Rightarrow> f v)"

definition decode_chat :: "platform \<Rightarrow> json \<Rightarrow> chat_request res" where
  "decode_chat P v = with_obj [''utterance'', ''confirmed'', ''dry_run''] v (\<lambda>d.
     rbind (field d ''utterance'' as_str) (\<lambda>u.
     rbind (field_or d ''confirmed'' False (as_bool P)) (\<lambda>c.
     rbind (field_or d ''dry_run'' False (as_bool P)) (\<lambda>dry.
       checked (\<lambda>r. len_between 1 4000 (utterance r))
         \<lparr>utterance = u, chat_confirmed = c, chat_dry_run = dry\<rparr>))))"

definition decode_execute :: "platform \<Rightarrow> json \<Rightarrow> execute_request res" where
  "decode_execute P v = with_obj [''arguments'', ''confirmed''] v (\<lambda>d.
     rbind (field_or d ''arguments'' [] as_dict) (\<lambda>a.
     rbind (field_or d ''confirmed'' False (as_bool P)) (\<lambda>c.
       Inr \<lparr>exec_arguments = a, exec_confirmed = c\<rparr>)))"

datatype runtime_call =
    Healthz
  | Readyz
  | ListTools
  | Chat json
  | Execute string json
  | RefreshSnapshot

record runtime_request =
  rq_call :: runtime_call
  rq_request_id :: "string option"
  rq_authorization :: "string option"
  rq_caller :: "string option"
  rq_roles :: "string option"

record runtime_app =
  app_settings :: runtime_settings
  app_executor :: executor
  app_provider :: llm_provider
  app_source :: source

definition request_caller ::
  "platform \<Rightarrow> runtime_app \<Rightarrow> rat \<Rightarrow> runtime_request \<Rightarrow> caller_identity option res" where
  "request_caller P app clock rq =
     rbind (settings_authenticator (app_settings app)) (\<lambda>A.
       identify P A clock (bearer_token (rq_authorization rq)) (rq_caller rq) (rq_roles rq))"

section \<open>Bodies\<close>

definition outcome_body :: "outcome \<Rightarrow> json" where
  "outcome_body out = JObj
     ([(''request_id'', JStr (out_request_id out)),
       (''snapshot'', JObj [(''revision'', JInt (out_revision out)), (''snapshot_id'', JStr (out_snapshot_id out))]),
       (''selected_tool'', JStr (out_tool out)), (''connector_key'', JStr (out_connector_key out)),
       (''connector_version'', JStr (out_connector_version out)), (''arguments'', JObj (out_arguments out)),
       (''message'', JStr (out_message out)), (''trace'', JArr (map JObj (out_trace out)))] @
      (case out_result out of
         None \<Rightarrow> []
       | Some r \<Rightarrow>
           [(''result'', JObj
              [(''status'', JStr (result_status r)), (''http_status'', JInt (http_status r)),
               (''duration_ms'', JInt (duration_ms r)), (''content'', content r),
               (''untrusted'', JBool True)])]))"

definition tool_entry :: "bound_tool \<Rightarrow> json" where
  "tool_entry b = JObj
     [(''tool_name'', JStr (bound_name b)), (''display_name'', JStr (display_name (bound_definition b))),
      (''description'', JStr (description (bound_definition b))),
      (''connector_key'', JStr (bound_connector_key b)),
      (''connector_version'', JStr (bound_connector_version b)),
      (''effect_class'', JStr (effect_text (effect_class (bound_policy b)))),
      (''requires_confirmation'', JBool (requires_confirmation (bound_policy b))),
      (''input_schema'', JObj (input_schema (bound_definition b)))]"

definition tools_body :: "caller_identity option \<Rightarrow> bound_tool list \<Rightarrow> json" where
  "tools_body caller visible = JObj
     [(''caller'', (case caller of None \<Rightarrow> JNull | Some c \<Rightarrow> JStr (subject c))),
      (''roles'', JArr (map JStr (case caller of None \<Rightarrow> [] | Some c \<Rightarrow> sorted_list_of_set (roles c)))),
      (''tools'', JArr (map tool_entry visible))]"

definition signed_fields :: "loaded_snapshot \<Rightarrow> json dict" where
  "signed_fields s =
     [(''snapshot_signed'', JBool (is_signed s)), (''snapshot_signing_key_id'', opt_str (signing_key_id s))]"

definition ready_body :: "loaded_snapshot \<Rightarrow> json" where
  "ready_body s = JObj
     ([(''status'', JStr ''ready''), (''snapshot_revision'', JInt (revision (loaded_document s))),
       (''snapshot_id'', JStr (snapshot_id (loaded_document s))),
       (''tool_count'', JInt (int (length (loaded_tools s))))] @ signed_fields s)"

definition refreshed_body :: "loaded_snapshot \<Rightarrow> json" where
  "refreshed_body s = JObj
     ([(''snapshot_revision'', JInt (revision (loaded_document s))),
       (''snapshot_id'', JStr (snapshot_id (loaded_document s))),
       (''snapshot_digest'', JStr (snapshot_digest (loaded_document s))),
       (''tool_count'', JInt (int (length (loaded_tools s))))] @ signed_fields s)"

definition health_body :: "runtime_settings \<Rightarrow> json res" where
  "health_body s =
     rbind (security_posture s) (\<lambda>posture. Inr (JObj
       ([(''status'', JStr ''ok''), (''contract_version'', JStr CONTRACT_VERSION), (''provider'', JStr ''mock'')]
        @ posture)))"

section \<open>Exception handlers\<close>

definition INTERNAL_PROSE :: string where
  "INTERNAL_PROSE = ''the request could not be completed''"

definition SHAPE_PROSE :: string where
  "SHAPE_PROSE = ''the request body does not match the expected shape''"

definition domain_error :: "string \<Rightarrow> string \<Rightarrow> exn \<Rightarrow> nat \<times> json" where
  "domain_error prose rid e =
     (case to_envelope e prose (Some rid) of
        Some env \<Rightarrow> (envelope_status env, envelope_to_dict env)
      | None \<Rightarrow>
          (500, envelope_to_dict \<lparr>env_code = code_text INTERNAL_ERROR, env_message = INTERNAL_PROSE,
                  env_pointer = None, env_details = [], env_request_id = Some rid\<rparr>))"

definition invalid_shape :: "string \<Rightarrow> nat \<times> json" where
  "invalid_shape rid =
     (422, envelope_to_dict \<lparr>env_code = code_text INVALID_REQUEST, env_message = SHAPE_PROSE,
             env_pointer = None, env_details = [], env_request_id = Some rid\<rparr>)"

definition reply_of :: "string \<Rightarrow> string \<Rightarrow> json res \<Rightarrow> nat \<times> json" where
  "reply_of prose rid r = (case r of Inl e \<Rightarrow> domain_error prose rid e | Inr body \<Rightarrow> (200, body))"

section \<open>Endpoints\<close>

definition readyz ::
  "source \<Rightarrow> rat \<Rightarrow> string \<Rightarrow> string \<Rightarrow> snapshot_store \<Rightarrow> (nat \<times> json) \<times> snapshot_store" where
  "readyz src now prose rid st =
     (let (loading, st') = (if current st = None then refresh src now st else (current_snapshot st, st)) in
      (case loading of
         Inl e \<Rightarrow>
           if current st = None \<and> is_tool_layer_error e
           then (503, JObj [(''status'', JStr ''unavailable''), (''reason'', JStr ''no deployment snapshot'')])
           else domain_error prose rid e
       | Inr _ \<Rightarrow> reply_of prose rid (rbind (current_snapshot st') (\<lambda>s. Inr (ready_body s))), st'))"

definition list_tools ::
  "runtime_app \<Rightarrow> rat \<Rightarrow> snapshot_store \<Rightarrow> caller_identity option \<Rightarrow> json res \<times> snapshot_store" where
  "list_tools app now st caller =
     (case discover (app_source app) now st caller of
        (r, st') \<Rightarrow> (rbind r (\<lambda>visible. Inr (tools_body caller visible)), st'))"

definition refresh_snapshot :: "runtime_app \<Rightarrow> rat \<Rightarrow> snapshot_store \<Rightarrow> json res \<times> snapshot_store" where
  "refresh_snapshot app now st =
     (case refresh (app_source app) now st of
        (r, st') \<Rightarrow> (rbind r (\<lambda>s. Inr (refreshed_body s)), st'))"

definition chat ::
  "platform \<Rightarrow> runtime_app \<Rightarrow> rat \<Rightarrow> string \<Rightarrow> snapshot_store \<Rightarrow> caller_identity option \<Rightarrow> chat_request
    \<Rightarrow> (effect, exn, json) traced \<times> snapshot_store" where
  "chat P app now rid st caller payload =
     (case handle P (app_executor app) (app_provider app) (app_source app) now st (utterance payload) caller
             (Some rid) [] (chat_confirmed payload) (chat_dry_run payload) of
        (m, st') \<Rightarrow> (tbind m (\<lambda>out. quiet (Inr (outcome_body out))), st'))"

definition execute_endpoint ::
  "platform \<Rightarrow> runtime_app \<Rightarrow> rat \<Rightarrow> string \<Rightarrow> snapshot_store \<Rightarrow> caller_identity option \<Rightarrow> string
    \<Rightarrow> execute_request \<Rightarrow> (effect, exn, json) traced \<times> snapshot_store" where
  "execute_endpoint P app now rid st caller name payload =
     (case execute_tool P (app_executor app) (app_provider app) (app_source app) now st name
             (JObj (exec_arguments payload)) caller (Some rid) [] (exec_confirmed payload) of
        (m, st') \<Rightarrow> (tbind m (\<lambda>out. quiet (Inr (outcome_body out))), st'))"

text \<open>An endpoint with a body: the caller is established, then the body is validated.\<close>

definition with_payload ::
  "string \<Rightarrow> string \<Rightarrow> snapshot_store \<Rightarrow> caller_identity option res \<Rightarrow> 'p res
    \<Rightarrow> (caller_identity option \<Rightarrow> 'p \<Rightarrow> (effect, exn, json) traced \<times> snapshot_store)
    \<Rightarrow> (effect list \<times> nat \<times> json) \<times> snapshot_store" where
  "with_payload prose rid st caller payload run =
     (case caller of
        Inl e \<Rightarrow> (([], domain_error prose rid e), st)
      | Inr c \<Rightarrow>
          (case payload of
             Inl _ \<Rightarrow> (([], invalid_shape rid), st)
           | Inr p \<Rightarrow> (case run c p of ((w, r), st') \<Rightarrow> ((w, reply_of prose rid r), st'))))"

definition request_id_of :: "runtime_request \<Rightarrow> string \<Rightarrow> string" where
  "request_id_of rq fresh = or_fresh (rq_request_id rq) fresh"

definition serve ::
  "platform \<Rightarrow> runtime_app \<Rightarrow> rat \<Rightarrow> rat \<Rightarrow> string \<Rightarrow> string \<Rightarrow> snapshot_store \<Rightarrow> runtime_request
    \<Rightarrow> (effect list \<times> nat \<times> json) \<times> snapshot_store" where
  "serve P app clock now fresh prose st rq =
     (let rid = request_id_of rq fresh; caller = request_caller P app clock rq in
      case rq_call rq of
        Healthz \<Rightarrow> (([], reply_of prose rid (health_body (app_settings app))), st)
      | Readyz \<Rightarrow> (case readyz (app_source app) now prose rid st of (reply, st') \<Rightarrow> (([], reply), st'))
      | ListTools \<Rightarrow>
          (case caller of
             Inl e \<Rightarrow> (([], domain_error prose rid e), st)
           | Inr c \<Rightarrow> (case list_tools app now st c of (r, st') \<Rightarrow> (([], reply_of prose rid r), st')))
      | RefreshSnapshot \<Rightarrow>
          (case refresh_snapshot app now st of (r, st') \<Rightarrow> (([], reply_of prose rid r), st'))
      | Chat body \<Rightarrow> with_payload prose rid st caller (decode_chat P body) (chat P app now rid st)
      | Execute name body \<Rightarrow>
          with_payload prose rid st caller (decode_execute P body)
            (\<lambda>c. execute_endpoint P app now rid st c name))"

section \<open>Lemmas\<close>

lemma jget_error_code [simp]:
  "\<exists>err. envelope_to_dict e = JObj [(''error'', JObj err)] \<and> jget err ''code'' = JStr (env_code e) \<and>
    (env_request_id e = Some rid \<longrightarrow> jget err ''request_id'' = JStr rid)"
  by (auto simp: envelope_to_dict_def Let_def jget_def dget_def split: option.splits)

text \<open>A reply that is an error envelope: its code decides its status.\<close>

definition error_reply :: "string \<Rightarrow> nat \<times> json \<Rightarrow> bool" where
  "error_reply rid reply \<longleftrightarrow>
     (\<exists>err c. snd reply = JObj [(''error'', JObj err)] \<and> jget err ''code'' = JStr (code_text c) \<and>
        jget err ''request_id'' = JStr rid \<and>
        (fst reply = status_for (code_text c) \<or> c = INVALID_REQUEST \<and> fst reply = 422))"

lemma to_envelope_code:
  "to_envelope e prose (Some rid) = Some env \<Longrightarrow>
     \<exists>c. exn_code e = Some c \<and> env_code env = code_text c \<and> env_request_id env = Some rid"
  by (cases e) auto

lemma envelope_reply:
  assumes "env_code e = code_text c" and "env_request_id e = Some rid"
    and "status = status_for (code_text c) \<or> c = INVALID_REQUEST \<and> status = 422"
  shows "error_reply rid (status, envelope_to_dict e)"
proof -
  obtain err where "envelope_to_dict e = JObj [(''error'', JObj err)]" "jget err ''code'' = JStr (env_code e)"
    "jget err ''request_id'' = JStr rid"
    using jget_error_code [of e rid] assms(2) by blast
  with assms show ?thesis unfolding error_reply_def by (intro exI [of _ err] exI [of _ c]) auto
qed

definition unavailable :: "nat \<times> json" where
  "unavailable = (503, JObj [(''status'', JStr ''unavailable''), (''reason'', JStr ''no deployment snapshot'')])"

definition shaped :: "string \<Rightarrow> nat \<times> json \<Rightarrow> bool" where
  "shaped rid reply \<longleftrightarrow> fst reply = 200 \<or> reply = unavailable \<or> error_reply rid reply"

lemma shaped_unavailable [simp]:
  "shaped rid (503, JObj [(''status'', JStr ''unavailable''), (''reason'', JStr ''no deployment snapshot'')])"
  by (simp add: shaped_def unavailable_def)

lemma domain_error_shaped [simp]: "shaped rid (domain_error prose rid e)"
proof (cases "to_envelope e prose (Some rid)")
  case None
  then have "error_reply rid (domain_error prose rid e)"
    unfolding domain_error_def None option.case using status_500_iff [of INTERNAL_ERROR]
    by (intro envelope_reply [of _ INTERNAL_ERROR]) simp_all
  then show ?thesis by (simp add: shaped_def)
next
  case (Some env)
  from to_envelope_code [OF this] obtain c where "env_code env = code_text c" "env_request_id env = Some rid"
    by blast
  then have "error_reply rid (domain_error prose rid e)"
    unfolding domain_error_def Some option.case envelope_status_def by (intro envelope_reply [of _ c]) simp_all
  then show ?thesis by (simp add: shaped_def)
qed

lemma invalid_shape_shaped [simp]: "shaped rid (invalid_shape rid)"
  unfolding shaped_def invalid_shape_def by (intro disjI2 envelope_reply [of _ INVALID_REQUEST]) simp_all

lemma reply_of_shaped [simp]: "shaped rid (reply_of prose rid r)"
  by (cases r) (simp_all add: reply_of_def, simp add: shaped_def)

lemma with_payload_shaped [simp]: "shaped rid (snd (fst (with_payload prose rid st caller payload run)))"
  by (simp add: with_payload_def split: sum.splits prod.splits)

lemma readyz_shaped [simp]: "shaped rid (fst (readyz src now prose rid st))"
  by (simp add: readyz_def Let_def split: sum.splits prod.splits)

lemma chat_trace:
  "fst (fst (chat P app now rid st c p)) = fst (fst (handle P (app_executor app) (app_provider app)
     (app_source app) now st (utterance p) c (Some rid) [] (chat_confirmed p) (chat_dry_run p)))"
  by (cases "handle P (app_executor app) (app_provider app) (app_source app) now st (utterance p) c
        (Some rid) [] (chat_confirmed p) (chat_dry_run p)")
    (simp add: chat_def tbind_trace split: sum.splits)

text \<open>What a served request sends, an orchestrated call sent for the caller it identified.\<close>

lemma serve_sent:
  assumes "Sent r \<in> set (fst (fst (serve P app clock now fresh prose st rq)))"
  shows "\<exists>c confirmed call. request_caller P app clock rq = Inr c \<and>
    ((\<exists>utter dry. call = handle P (app_executor app) (app_provider app) (app_source app) now st utter c
        (Some (request_id_of rq fresh)) [] confirmed dry) \<or>
     (\<exists>name args. call = execute_tool P (app_executor app) (app_provider app) (app_source app) now st name args c
        (Some (request_id_of rq fresh)) [] confirmed)) \<and>
    Sent r \<in> set (fst (fst call)) \<and> snd call = snd (serve P app clock now fresh prose st rq)"
proof -
  define rid where "rid = request_id_of rq fresh"
  have quiet_out: "fst (tbind m (\<lambda>out. quiet (Inr (outcome_body out)))) = fst m" for m :: "(effect, exn, outcome) traced"
    by (simp add: tbind_trace split: sum.splits)
  show ?thesis
  proof (cases "rq_call rq")
    case (Chat body)
    then obtain c p where cp: "request_caller P app clock rq = Inr c" "decode_chat P body = Inr p"
      using assms by (auto simp: serve_def with_payload_def Let_def split: sum.splits)
    let ?call = "handle P (app_executor app) (app_provider app) (app_source app) now st (utterance p) c
      (Some rid) [] (chat_confirmed p) (chat_dry_run p)"
    have "fst (fst (serve P app clock now fresh prose st rq)) = fst (fst ?call)"
      "snd (serve P app clock now fresh prose st rq) = snd ?call"
      by (simp_all add: serve_def Chat with_payload_def cp chat_def rid_def [symmetric] quiet_out Let_def
          split: prod.splits) (metis fst_conv quiet_out)+
    with assms cp(1) show ?thesis unfolding rid_def by metis
  next
    case (Execute name body)
    then obtain c p where cp: "request_caller P app clock rq = Inr c" "decode_execute P body = Inr p"
      using assms by (auto simp: serve_def with_payload_def Let_def split: sum.splits)
    let ?call = "execute_tool P (app_executor app) (app_provider app) (app_source app) now st name
      (JObj (exec_arguments p)) c (Some rid) [] (exec_confirmed p)"
    have "fst (fst (serve P app clock now fresh prose st rq)) = fst (fst ?call)"
      "snd (serve P app clock now fresh prose st rq) = snd ?call"
      by (simp_all add: serve_def Execute with_payload_def cp execute_endpoint_def rid_def [symmetric] quiet_out
          Let_def split: prod.splits) (metis fst_conv quiet_out)+
    with assms cp(1) show ?thesis unfolding rid_def by metis
  qed (use assms in \<open>auto simp: serve_def Let_def split: prod.splits sum.splits\<close>)
qed

section \<open>Properties\<close>

text \<open>
  Every reply of the runtime is either a success, the fixed "not ready" answer, or an error envelope
  that carries the id of this very request and whose code decides its status.
\<close>

theorem every_reply_is_shaped:
  "fst (snd (fst (serve P app clock now fresh prose st rq))) = 200 \<or>
   snd (fst (serve P app clock now fresh prose st rq)) =
     (503, JObj [(''status'', JStr ''unavailable''), (''reason'', JStr ''no deployment snapshot'')]) \<or>
   error_reply (request_id_of rq fresh) (snd (fst (serve P app clock now fresh prose st rq)))"
proof -
  have "shaped (request_id_of rq fresh) (snd (fst (serve P app clock now fresh prose st rq)))"
  proof (cases "rq_call rq")
    case Readyz
    obtain reply st' where r: "readyz (app_source app) now prose (request_id_of rq fresh) st = (reply, st')"
      by fastforce
    with readyz_shaped [of "request_id_of rq fresh" "app_source app" now prose st] Readyz show ?thesis
      by (simp add: serve_def Let_def)
  qed (simp_all add: serve_def Let_def split: sum.splits prod.splits)
  then show ?thesis by (simp add: shaped_def unavailable_def)
qed

text \<open>
  In verified mode nothing that serves a tool answers an unauthenticated request: without a bearer
  token, or with an asserted identity header, listing, chatting and executing have no effect, leave the
  store as it was and answer 401.
\<close>

theorem unauthenticated_is_refused:
  assumes "get_settings to_float env = Inr (app_settings app)"
    and "cfg_caller_auth_mode (app_settings app) = ''verified_token''"
    and "bearer_token (rq_authorization rq) = None \<or> rq_caller rq \<noteq> None \<or> rq_roles rq \<noteq> None"
    and "rq_call rq = ListTools \<or> rq_call rq = Chat body \<or> rq_call rq = Execute name body"
  shows "\<exists>err. serve P app clock now fresh prose st rq = (([], 401, JObj [(''error'', JObj err)]), st) \<and>
    jget err ''code'' = JStr ''unauthenticated''"
proof -
  obtain s0 where "mk_settings s0 = Inr (app_settings app)"
    using assms(1) by (auto simp: get_settings_def res_simps)
  then have ok: "mk_settings (app_settings app) = Inr (app_settings app)" by (simp add: mk_settings_Inr)
  have "request_caller P app clock rq = Inl invalid_caller_token"
    using settings_authenticator_Inr [OF ok] assms(2,3)
    by (auto simp: request_caller_def identify_def from_token_def)
  moreover have "\<exists>err. domain_error prose (request_id_of rq fresh) invalid_caller_token
      = (401, JObj [(''error'', JObj err)]) \<and> jget err ''code'' = JStr ''unauthenticated''"
    by (simp add: domain_error_def invalid_caller_token_def envelope_status_def status_for_def status_by_code_def
        envelope_to_dict_def jget_def)
  ultimately show ?thesis
    using assms(4) by (elim disjE) (auto simp: serve_def with_payload_def Let_def)
qed

text \<open>A runtime that enforces both, asked to chat without a token.\<close>

lemma unauthenticated_is_refused_witness:
  "\<exists>app reply. serve sample_platform app 0 0 ''r1'' ''denied'' (new_store 60)
     \<lparr>rq_call = Chat JNull, rq_request_id = None, rq_authorization = None, rq_caller = None, rq_roles = None\<rparr>
     = (([], 401, reply), new_store 60)"
proof -
  have "is_ok (get_settings (\<lambda>_. None) example_environ) \<and>
    (case get_settings (\<lambda>_. None) example_environ of
       Inl e \<Rightarrow> False | Inr s \<Rightarrow> cfg_caller_auth_mode s = ''verified_token'')" by code_simp
  then obtain s where s: "get_settings (\<lambda>_. None) example_environ = Inr s"
    "cfg_caller_auth_mode s = ''verified_token''"
    by (auto split: sum.splits)
  let ?app = "\<lparr>app_settings = s, app_executor = example_executor, app_provider = example_provider,
     app_source = (\<lambda>now tag. Inl snapshot_error)\<rparr>"
  let ?rq = "\<lparr>rq_call = Chat JNull, rq_request_id = None, rq_authorization = None, rq_caller = None,
     rq_roles = None\<rparr>"
  have "get_settings (\<lambda>_. None) example_environ = Inr (app_settings ?app)" using s(1) by simp
  from unauthenticated_is_refused [OF this, where rq = ?rq and body = JNull and P = sample_platform and clock = 0
      and now = 0 and fresh = "''r1''" and prose = "''denied''" and st = "new_store 60"] s(2)
  have "\<exists>err. serve sample_platform ?app 0 0 ''r1'' ''denied'' (new_store 60) ?rq
      = (([], 401, JObj [(''error'', JObj err)]), new_store 60)"
    by (simp add: bearer_token_def) blast
  then show ?thesis by blast
qed

end
