(* ===== verification/MockLlm.thy ===== *)
theory MockLlm
  imports Orchestrator "HOL-Library.Product_Lexorder"
begin

text \<open>
  The deterministic provider: \<^verbatim>\<open>packages/mock-llm/toollayer_mock_llm/provider.py\<close>. Its regular
  expressions are scanners; scores are exact, since every weight is a multiple of a half; Python's
  \<open>str()\<close> of a JSON value, which only shapes prose, is an argument.
\<close>

section \<open>Scanning text\<close>

definition is_tok :: "char \<Rightarrow> bool" where
  "is_tok c \<longleftrightarrow> is_lower c \<or> is_digit c"

text \<open>\<^verbatim>\<open>\w\<close>, on Latin-1.\<close>

definition is_word :: "char \<Rightarrow> bool" where
  "is_word c \<longleftrightarrow> is_alnum c \<or> c = CHR ''_'' \<or> code c \<in> {170, 178, 179, 181, 185, 186, 188, 189, 190} \<or>
     192 \<le> code c \<and> code c \<noteq> 215 \<and> code c \<noteq> 247"

definition at_end_of_word :: "string \<Rightarrow> bool" where
  "at_end_of_word rest \<longleftrightarrow> (case rest of [] \<Rightarrow> True | c # _ \<Rightarrow> \<not> is_word c)"

text \<open>\<open>findall\<close> of a maximal run of characters.\<close>

function runs :: "(char \<Rightarrow> bool) \<Rightarrow> string \<Rightarrow> string list" where
  "runs p [] = []"
| "runs p (c # s) = (if p c then (c # takeWhile p s) # runs p (dropWhile p s) else runs p s)"
  by pat_completeness auto
termination
  by (relation "measure (\<lambda>(p, s). length s)") (auto simp: length_dropWhile_le less_Suc_eq_le)

definition tokens :: "string \<Rightarrow> string list" where
  "tokens = runs is_tok"

text \<open>
  \<open>finditer\<close> of a pattern that starts and ends at word boundaries with a word character: \<open>m\<close> gives the
  match at the beginning of a text, \<open>prev\<close> tells whether a word character precedes it.
\<close>

function scan :: "(string \<Rightarrow> string option) \<Rightarrow> bool \<Rightarrow> string \<Rightarrow> string list" where
  "scan m prev [] = []"
| "scan m prev (c # s) =
     (case (if prev then None else m (c # s)) of
        Some w \<Rightarrow> w # scan m True (drop (length w - 1) s)
      | None \<Rightarrow> scan m (is_word c) s)"
  by pat_completeness auto
termination
  by (relation "measure (\<lambda>(m, prev, s). length s)") auto

function kebab_groups :: "string \<Rightarrow> string list \<times> string" where
  "kebab_groups s =
     (case s of
        c # t \<Rightarrow>
          if c = CHR ''-'' \<and> takeWhile is_tok t \<noteq> []
          then (case kebab_groups (dropWhile is_tok t) of
                  (gs, rest) \<Rightarrow> ((c # takeWhile is_tok t) # gs, rest))
          else ([], s)
      | [] \<Rightarrow> ([], s))"
  by pat_completeness auto
termination
  by (relation "measure length") (auto simp: length_dropWhile_le less_Suc_eq_le)

declare kebab_groups.simps [simp del]

text \<open>A trailing group that does not end at a word boundary is given back.\<close>

definition kebab_here :: "string \<Rightarrow> string option" where
  "kebab_here s =
     (case s of
        [] \<Rightarrow> None
      | c # _ \<Rightarrow>
          if \<not> is_lower c then None
          else
            (case kebab_groups (dropWhile is_tok s) of
               (gs, rest) \<Rightarrow>
                 (let kept = (if at_end_of_word rest then gs else butlast gs) in
                  if kept = [] then None else Some (takeWhile is_tok s @ concat kept))))"

definition upper_here :: "string \<Rightarrow> string option" where
  "upper_here s =
     (let p = (\<lambda>c. is_upper c \<or> is_digit c); head = takeWhile p s in
      (case (s, dropWhile p s) of
         (c # _, d # t) \<Rightarrow>
           if is_upper c \<and> d = CHR ''-'' \<and> takeWhile is_digit t \<noteq> [] \<and> at_end_of_word (dropWhile is_digit t)
           then Some (head @ [d] @ takeWhile is_digit t) else None
       | _ \<Rightarrow> None))"

definition integer_here :: "string \<Rightarrow> string option" where
  "integer_here s =
     (if takeWhile is_digit s \<noteq> [] \<and> at_end_of_word (dropWhile is_digit s)
      then Some (takeWhile is_digit s) else None)"

definition kebab_ids :: "string \<Rightarrow> string list" where
  "kebab_ids = scan kebab_here False"

definition upper_ids :: "string \<Rightarrow> string list" where
  "upper_ids = scan upper_here False"

definition integers :: "string \<Rightarrow> string list" where
  "integers = scan integer_here False"

section \<open>Words\<close>

definition STOPWORDS :: "string set" where
  "STOPWORDS = {''a'', ''all'', ''am'', ''an'', ''and'', ''any'', ''are'', ''as'', ''at'', ''be'', ''by'', ''can'',
     ''could'', ''do'', ''does'', ''for'', ''from'', ''get'', ''give'', ''has'', ''have'', ''i'', ''in'', ''is'',
     ''it'', ''me'', ''my'', ''of'', ''on'', ''or'', ''please'', ''show'', ''that'', ''the'', ''then'', ''there'',
     ''these'', ''this'', ''to'', ''up'', ''us'', ''want'', ''was'', ''we'', ''what'', ''when'', ''which'', ''who'',
     ''will'', ''with'', ''would'', ''you'', ''your''}"

definition MUTATION_VERBS :: "string set" where
  "MUTATION_VERBS = {''add'', ''assign'', ''cancel'', ''change'', ''close'', ''create'', ''delete'', ''edit'',
     ''file'', ''hand'', ''mark'', ''modify'', ''move'', ''new'', ''purge'', ''raise'', ''reassign'', ''remove'',
     ''reopen'', ''replace'', ''resolve'', ''set'', ''update''}"

definition content_words :: "string \<Rightarrow> string set" where
  "content_words s = set (filter (\<lambda>t. 1 < length t \<and> t \<notin> STOPWORDS) (tokens (str_lower s)))"

definition effect_synonyms :: "string set dict" where
  "effect_synonyms =
     [(''assign'', {''assign'', ''assigned'', ''give'', ''hand'', ''reassign''}),
      (''change'', {''change'', ''set'', ''mark'', ''move'', ''update'', ''close'', ''reopen'', ''resolve''}),
      (''update'', {''update'', ''change'', ''set'', ''edit'', ''modify''}),
      (''create'', {''create'', ''add'', ''open'', ''file'', ''raise'', ''new''}),
      (''delete'', {''delete'', ''remove'', ''drop'', ''purge''}),
      (''replace'', {''replace'', ''overwrite'', ''set''})]"

definition effect_verbs :: "string \<Rightarrow> string set" where
  "effect_verbs name =
     (let head = hd (split_on CHR ''_'' name) in
      case dget effect_synonyms head of None \<Rightarrow> {head} | Some vs \<Rightarrow> vs)"

section \<open>Selecting a tool\<close>

definition SELECTION_THRESHOLD :: rat where
  "SELECTION_THRESHOLD = 2"

definition tool_words :: "string list \<Rightarrow> string set" where
  "tool_words texts = set (concat (map (tokens \<circ> str_lower) texts))"

definition score :: "string set \<Rightarrow> bool \<Rightarrow> tool_definition \<Rightarrow> rat" where
  "score ws mutating t =
     (let name_words = set (tokens (tool_name t));
          description_words = content_words (description t);
          tag_words = tool_words (tags (provenance t));
          argument_words = tool_words (declared_names t);
          base = 2 * of_nat (card (ws \<inter> name_words)) + 3 / 2 * of_nat (card (ws \<inter> tag_words)) +
                 of_nat (card (ws \<inter> argument_words)) + 1 / 2 * of_nat (card (ws \<inter> description_words))
      in if effect_class (policy t) \<noteq> ReadEffect then
           (if ws \<inter> effect_verbs (tool_name t) = {} then base - 3 else base)
         else if mutating then base - 4 else base)"

definition scored :: "string set \<Rightarrow> tool_definition list \<Rightarrow> (rat \<times> string) list" where
  "scored ws ts =
     sort_key (\<lambda>(s, n). (- s, n)) (map (\<lambda>t. (score ws (ws \<inter> MUTATION_VERBS \<noteq> {}) t, tool_name t)) ts)"

text \<open>\<open>int()\<close> truncates towards zero.\<close>

definition truncate_rat :: "rat \<Rightarrow> int" where
  "truncate_rat q = (if q < 0 then \<lceil>q\<rceil> else \<lfloor>q\<rfloor>)"

definition rationale :: "rat \<Rightarrow> string" where
  "rationale best = ''matched '' @ string_of_int (truncate_rat best) @
     '' weighted term(s) from the request against the tool name, description, and tags''"

definition mock_select :: "string \<Rightarrow> tool_definition list \<Rightarrow> tool_selection option res" where
  "mock_select u ts =
     (let ws = content_words u in
      if ws = {} then Inr None
      else
        (case scored ws ts of
           [] \<Rightarrow> Inl IndexError
         | (best, name) # others \<Rightarrow>
             if best < SELECTION_THRESHOLD then Inr None
             else Inr (Some \<lparr>sel_tool_name = name, sel_score = Finite best, sel_rationale = rationale best,
               sel_runner_up = (case others of
                  (second, other) # _ \<Rightarrow> if 0 < second then Some other else None
                | [] \<Rightarrow> None)\<rparr>)))"

section \<open>Extracting arguments\<close>

fun occurs_alone :: "string \<Rightarrow> bool \<Rightarrow> string \<Rightarrow> bool" where
  "occurs_alone v prev s =
     (\<not> prev \<and> starts_with v s \<and> (case drop (length v) s of [] \<Rightarrow> True | c # _ \<Rightarrow> \<not> is_tok c) \<or>
      (case s of [] \<Rightarrow> False | c # t \<Rightarrow> occurs_alone v (is_tok c) t))"

declare occurs_alone.simps [simp del]

definition mentions :: "string \<Rightarrow> string \<Rightarrow> bool" where
  "mentions lowered candidate =
     (let c = str_lower candidate in
      list_ex (\<lambda>v. occurs_alone v False lowered) [c, replace_char CHR ''_'' '' '' c, replace_char CHR ''_'' ''-'' c])"

definition ENTITY_ALIASES :: "string list dict" where
  "ENTITY_ALIASES = [(''assignee'', [''agent'', ''owner'']), (''member'', [''agent''])]"

definition neighbour_at :: "string list \<Rightarrow> string \<Rightarrow> nat \<Rightarrow> int \<Rightarrow> string option" where
  "neighbour_at ts prefix index offset =
     (let i = int index + offset in
      if 0 \<le> i \<and> i < int (length ts) \<and> ts ! nat i \<notin> STOPWORDS \<and> ts ! nat i \<noteq> prefix \<and> 2 < length (ts ! nat i)
      then Some (prefix @ ''-'' @ ts ! nat i) else None)"

text \<open>The first value a search yields, in the order of its nested loops.\<close>

definition described_id :: "string list \<Rightarrow> string list \<Rightarrow> string option" where
  "described_id ts prefixes =
     (case List.map_filter (\<lambda>(prefix, i, offset). if ts ! i = prefix then neighbour_at ts prefix i offset else None)
             (concat (map (\<lambda>prefix. concat (map (\<lambda>i. map (\<lambda>offset. (prefix, i, offset)) [-1, 1, -2, 2])
                [0..<length ts])) (sort prefixes))) of
        [] \<Rightarrow> None | v # _ \<Rightarrow> Some v)"

definition extract_identifier :: "string \<Rightarrow> string \<Rightarrow> string \<Rightarrow> string option" where
  "extract_identifier name u lowered =
     (if \<not> ends_with ''_id'' name then None
      else
        (let entity = take (length name - 3) name;
             prefixes = remdups (entity # (case dget ENTITY_ALIASES entity of None \<Rightarrow> [] | Some as \<Rightarrow> as));
             ts = tokens lowered
         in case first_match (\<lambda>k. hd (split_on CHR ''-'' k) \<in> set prefixes) (kebab_ids lowered) of
              Some k \<Rightarrow> Some k
            | None \<Rightarrow>
                (case (if set prefixes \<inter> set ts \<noteq> {} then upper_ids u else []) of
                   up # _ \<Rightarrow> Some up
                 | [] \<Rightarrow> described_id ts prefixes)))"

text \<open>\<open>value < minimum\<close> for a bound that is a number (a boolean counts as one).\<close>

definition below :: "int \<Rightarrow> json \<Rightarrow> bool" where
  "below i bound =
     (case num_of bound of
        Some (Finite q) \<Rightarrow> of_int i < q
      | Some (Infinite neg) \<Rightarrow> \<not> neg
      | _ \<Rightarrow> False)"

definition above :: "int \<Rightarrow> json \<Rightarrow> bool" where
  "above i bound =
     (case num_of bound of
        Some (Finite q) \<Rightarrow> q < of_int i
      | Some (Infinite neg) \<Rightarrow> neg
      | _ \<Rightarrow> False)"

definition FLAG_NOISE :: "string set" where
  "FLAG_NOISE = {''only'', ''is'', ''has'', ''include''}"

definition extract_leaf :: "string \<Rightarrow> string \<Rightarrow> json dict \<Rightarrow> json option" where
  "extract_leaf u name schema =
     (case jget schema ''enum'' of
        JArr candidates \<Rightarrow> first_match (\<lambda>c. is_str c \<and> mentions (str_lower u) (str_of c)) candidates
      | _ \<Rightarrow>
          if jget schema ''type'' = JStr ''boolean'' then
            (let flag_words = set (tokens name) - FLAG_NOISE in
             if flag_words \<noteq> {} \<and> flag_words \<subseteq> content_words u then Some (JBool True) else None)
          else if jget schema ''type'' = JStr ''integer'' then
            map_option JInt (first_match
              (\<lambda>i. \<not> below i (jget schema ''minimum'') \<and> \<not> above i (jget schema ''maximum''))
              (map (int \<circ> nat_of_digits) (integers u)))
          else if jget schema ''type'' = JStr ''string'' then
            map_option JStr (extract_identifier name u (str_lower u))
          else None)"

definition schema_properties :: "json dict \<Rightarrow> json dict res" where
  "schema_properties schema =
     (case dget schema ''properties'' of
        None \<Rightarrow> Inr []
      | Some (JObj ps) \<Rightarrow> Inr ps
      | Some _ \<Rightarrow> Inl AttributeError)"

lemma schema_properties_size [termination_simp]:
  assumes "schema_properties schema = Inr ps" and "(n, JObj c) \<in> set ps"
  shows "size (JObj c) < size (JObj schema)"
proof -
  have "ps = [] \<or> (''properties'', JObj ps) \<in> set schema"
    using assms(1) by (auto simp: schema_properties_def dest!: dget_Some_in split: option.splits json.splits)
  with assms(2) have "(''properties'', JObj ps) \<in> set schema" by auto
  from size_obj_elem [OF this] size_obj_elem [OF assms(2)] show ?thesis by linarith
qed

function extract_value :: "string \<Rightarrow> string \<Rightarrow> json dict \<Rightarrow> json option res" where
  "extract_value u name schema =
     (if jget schema ''type'' = JStr ''object'' then
        rbind (schema_properties schema) (\<lambda>ps.
        rbind (rfold (\<lambda>p acc.
                 case snd p of
                   JObj child \<Rightarrow>
                     rbind (extract_value u (fst p) child) (\<lambda>v.
                       Inr (case v of None \<Rightarrow> acc | Some x \<Rightarrow> dset (fst p) x acc))
                 | _ \<Rightarrow> Inr acc) ps []) (\<lambda>nested.
          Inr (if nested = [] then None else Some (JObj nested))))
      else Inr (extract_leaf u name schema))"
  by pat_completeness auto
termination
proof (relation "measure (\<lambda>(u, name, schema). size (JObj schema))", goal_cases)
  case (2 u name schema ps p acc child)
  then have "(fst p, JObj child) \<in> set ps" by (cases p) simp
  from schema_properties_size [OF 2(2) this] show ?case by (simp only: in_measure prod.case)
qed simp

declare extract_value.simps [simp del]

definition extract_object :: "string \<Rightarrow> json dict \<Rightarrow> json dict res" where
  "extract_object u ps =
     rfold (\<lambda>p acc.
        case snd p of
          JObj child \<Rightarrow>
            rbind (extract_value u (fst p) child) (\<lambda>v.
              Inr (case v of None \<Rightarrow> acc | Some x \<Rightarrow> dset (fst p) x acc))
        | _ \<Rightarrow> Inr acc) ps []"

definition required_of :: "tool_definition \<Rightarrow> string list res" where
  "required_of t =
     (case dget (input_schema t) ''required'' of
        None \<Rightarrow> Inr []
      | Some (JArr xs) \<Rightarrow> if list_all is_str xs then Inr (remdups (map str_of xs)) else Inl TypeError
      | Some _ \<Rightarrow> Inl TypeError)"

definition mock_generate :: "string \<Rightarrow> tool_definition \<Rightarrow> argument_proposal res" where
  "mock_generate u t =
     rbind (schema_properties (input_schema t)) (\<lambda>ps.
     rbind (required_of t) (\<lambda>required.
     rbind (extract_object u ps) (\<lambda>arguments.
       Inr \<lparr>proposed = arguments,
            missing_required = sort (filter (\<lambda>n. \<not> dhas n arguments) required)\<rparr>)))"

section \<open>Describing a result\<close>

definition DESCRIBED_KEYS :: "string list" where
  "DESCRIBED_KEYS = [''ticket_id'', ''team_id'', ''member_id'', ''subject'', ''display_name'', ''name'', ''status'',
     ''priority'', ''assignee_id'', ''role'', ''available'']"

definition describe :: "platform \<Rightarrow> json \<Rightarrow> string" where
  "describe P entry =
     (case entry of
        JObj d \<Rightarrow>
          (let pair = (\<lambda>(k, v). k @ ''='' @ py_str P v);
               preferred = map (\<lambda>k. pair (k, jget d k)) (filter (\<lambda>k. jget d k \<noteq> JNull) DESCRIBED_KEYS);
               parts = (if preferred = [] then map pair (take 4 d) else preferred)
           in take 240 (join_with '', '' parts))
      | _ \<Rightarrow> take 120 (py_str P entry))"

fun type_name :: "json \<Rightarrow> string" where
  "type_name JNull = ''NoneType''"
| "type_name (JBool b) = ''bool''"
| "type_name (JInt i) = ''int''"
| "type_name (JFloat f) = ''float''"
| "type_name (JStr s) = ''str''"
| "type_name (JArr xs) = ''list''"
| "type_name (JObj d) = ''dict''"
| "type_name (JOther k) = k"

definition mock_format :: "platform \<Rightarrow> string \<Rightarrow> tool_definition \<Rightarrow> json \<Rightarrow> string res" where
  "mock_format P u t body =
     Inr (display_name t @
       (case body of
          JNull \<Rightarrow> '' completed and returned no content.''
        | JObj d \<Rightarrow>
            (case jget d ''items'' of
               JArr items \<Rightarrow>
                 if items = [] then '' matched no records.''
                 else
                   join_with [newline]
                     (['' returned '' @ string_of_nat (length items) @ '' of '' @
                        py_str P (case dget d ''total_matched'' of None \<Rightarrow> JInt (int (length items)) | Some v \<Rightarrow> v) @
                        '' matching records:''] @
                      map (\<lambda>entry. ''  - '' @ describe P entry) (take 10 items) @
                      (if 10 < length items
                       then [''  ... and '' @ string_of_nat (length items - 10) @ '' more''] else []))
             | _ \<Rightarrow> '' returned: '' @ describe P body)
        | JArr items \<Rightarrow> '' returned '' @ string_of_nat (length items) @ '' records.''
        | _ \<Rightarrow> '' returned a '' @ type_name body @ '' value.''))"

definition mock_provider :: "platform \<Rightarrow> llm_provider" where
  "mock_provider P =
     \<lparr>select_tool = mock_select, generate_arguments = mock_generate, format_response = mock_format P\<rparr>"

section \<open>Lemmas on scanning\<close>

definition matches_prefix :: "(string \<Rightarrow> string option) \<Rightarrow> bool" where
  "matches_prefix m \<longleftrightarrow> (\<forall>s w. m s = Some w \<longrightarrow> w \<noteq> [] \<and> (\<exists>rest. s = w @ rest))"

lemma scan_sound:
  "matches_prefix m \<Longrightarrow> w \<in> set (scan m prev s) \<Longrightarrow> \<exists>a b. s = a @ w @ b"
proof (induction m prev s rule: scan.induct)
  case (2 m prev c s)
  show ?case
  proof (cases "if prev then None else m (c # s)")
    case None
    with 2 obtain a b where "s = a @ w @ b" by auto
    then have "c # s = (c # a) @ w @ b" by simp
    then show ?thesis by blast
  next
    case (Some v)
    then obtain rest where v: "v \<noteq> []" "c # s = v @ rest"
      using 2(3) unfolding matches_prefix_def by (auto split: if_splits)
    then have rest: "drop (length v - 1) s = rest" by (cases v) auto
    from Some 2(4) have "w = v \<or> w \<in> set (scan m True (drop (length v - 1) s))" by simp
    then show ?thesis
    proof
      assume "w = v"
      with v(2) have "c # s = [] @ w @ rest" by simp
      then show ?thesis by blast
    next
      assume "w \<in> set (scan m True (drop (length v - 1) s))"
      from 2(2) [OF Some 2(3) this] obtain a b where "rest = a @ w @ b" unfolding rest by blast
      with v(2) have "c # s = (v @ a) @ w @ b" by simp
      then show ?thesis by blast
    qed
  qed
qed simp

lemma kebab_groups_append: "kebab_groups s = (gs, rest) \<Longrightarrow> s = concat gs @ rest"
proof (induction s arbitrary: gs rest rule: kebab_groups.induct)
  case (1 s)
  show ?case
  proof (cases s)
    case (Cons c t)
    show ?thesis
    proof (cases "c = CHR ''-'' \<and> takeWhile is_tok t \<noteq> []")
      case True
      obtain gs' rest' where g: "kebab_groups (dropWhile is_tok t) = (gs', rest')" by fastforce
      then have "kebab_groups s = ((c # takeWhile is_tok t) # gs', rest')"
        using True by (subst kebab_groups.simps) (simp add: Cons)
      with 1(2) have "gs = (c # takeWhile is_tok t) # gs'" "rest' = rest" by simp_all
      with 1(1) [OF Cons True g] takeWhile_dropWhile_id [of is_tok t] Cons show ?thesis by simp
    next
      case False
      then have "kebab_groups s = ([], s)" by (subst kebab_groups.simps) (auto simp: Cons)
      with 1(2) show ?thesis by simp
    qed
  next
    case Nil
    then have "kebab_groups s = ([], s)" by (subst kebab_groups.simps) simp
    with 1(2) show ?thesis by simp
  qed
qed

lemma concat_butlast: "xs \<noteq> [] \<Longrightarrow> concat xs = concat (butlast xs) @ last xs"
  by (metis append_butlast_last_id append_Nil2 concat.simps concat_append)

lemma kebab_matches: "matches_prefix kebab_here"
  unfolding matches_prefix_def
proof (intro allI impI)
  fix s w assume h: "kebab_here s = Some w"
  obtain c t where s: "s = c # t" "is_lower c"
    using h by (auto simp: kebab_here_def split: list.splits if_splits)
  obtain gs rest where g: "kebab_groups (dropWhile is_tok s) = (gs, rest)" by fastforce
  define kept where "kept = (if at_end_of_word rest then gs else butlast gs)"
  have tok: "is_tok c" using s(2) by (simp add: is_tok_def)
  have "kebab_here s = (if kept = [] then None else Some (takeWhile is_tok s @ concat kept))"
    unfolding kebab_here_def kept_def g prod.case Let_def using s by simp
  with h have w: "kept \<noteq> []" "w = takeWhile is_tok s @ concat kept" by (auto split: if_splits)
  have "\<exists>r. concat gs = concat kept @ r"
    using w(1) concat_butlast [of gs] by (cases "gs = []") (simp_all add: kept_def)
  then obtain r where "concat gs = concat kept @ r" by blast
  then have "s = w @ r @ rest"
    using kebab_groups_append [OF g] w(2) takeWhile_dropWhile_id [of is_tok s] by simp
  moreover have "w \<noteq> []" using w(2) s(1) tok by simp
  ultimately show "w \<noteq> [] \<and> (\<exists>rest. s = w @ rest)" by blast
qed

lemma upper_matches: "matches_prefix upper_here"
  unfolding matches_prefix_def
proof (intro allI impI)
  fix s w assume h: "upper_here s = Some w"
  define p where "p = (\<lambda>c. is_upper c \<or> is_digit c)"
  obtain d t where d: "dropWhile p s = d # t" "w = takeWhile p s @ [d] @ takeWhile is_digit t"
    using h by (auto simp: upper_here_def Let_def p_def [symmetric] split: list.splits if_splits)
  then have "s = w @ dropWhile is_digit t"
    using takeWhile_dropWhile_id [of p s] takeWhile_dropWhile_id [of is_digit t] by (metis append.assoc append_Cons append_Nil)
  with d(2) show "w \<noteq> [] \<and> (\<exists>rest. s = w @ rest)" by blast
qed

lemma integer_matches: "matches_prefix integer_here"
  unfolding matches_prefix_def integer_here_def
  by (metis option.distinct(1) option.inject takeWhile_dropWhile_id)

lemmas ids_in_text =
  scan_sound [OF kebab_matches, of _ False, folded kebab_ids_def]
  scan_sound [OF upper_matches, of _ False, folded upper_ids_def]
  scan_sound [OF integer_matches, of _ False, folded integers_def]

section \<open>Lemmas on proposals\<close>

lemma collected:
  assumes "extract_object u ps = Inr out" and "(n, v) \<in> set out"
  shows "\<exists>child. (n, JObj child) \<in> set ps \<and> extract_value u n child = Inr (Some v)"
proof -
  have "\<forall>q\<in>set out. \<exists>child. (fst q, JObj child) \<in> set ps \<and> extract_value u (fst q) child = Inr (Some (snd q))"
  proof (rule rfold_invariant [OF assms(1) [unfolded extract_object_def]], goal_cases)
    case (2 p acc acc')
    show ?case
    proof (cases "\<exists>child v. snd p = JObj child \<and> extract_value u (fst p) child = Inr (Some v) \<and> acc' = dset (fst p) v acc")
      case True
      then obtain child v where c: "snd p = JObj child" "extract_value u (fst p) child = Inr (Some v)"
        "acc' = dset (fst p) v acc" by blast
      have "q = (fst p, v) \<or> q \<in> set acc" if "q \<in> set acc'" for q
        using that unfolding c(3) by (rule dset_elem)
      moreover have "(fst p, JObj child) \<in> set ps" using 2(1) c(1) by (metis prod.collapse)
      ultimately show ?thesis using 2(2) c(2) by (metis fst_conv snd_conv)
    next
      case False
      then have "acc' = acc"
        using 2(3) by (auto simp: res_simps split: json.splits option.splits)
      with 2(2) show ?thesis by simp
    qed
  qed simp
  with assms(2) show ?thesis by fastforce
qed

lemma extract_value_object:
  "extract_value u n schema =
     (if jget schema ''type'' = JStr ''object'' then
        rbind (schema_properties schema) (\<lambda>ps.
        rbind (extract_object u ps) (\<lambda>nested. Inr (if nested = [] then None else Some (JObj nested))))
      else Inr (extract_leaf u n schema))"
  by (subst extract_value.simps) (simp add: extract_object_def)

lemma schema_properties_declared:
  "schema_properties (input_schema t) = Inr ps \<Longrightarrow> declared_names t = dkeys ps"
  by (auto simp: schema_properties_def declared_names_def jget_def dkeys_def split: option.splits json.splits)

lemma mock_generate_Inr:
  assumes "mock_generate u t = Inr p"
  shows "\<exists>ps required. schema_properties (input_schema t) = Inr ps \<and> required_of t = Inr required \<and>
    extract_object u ps = Inr (proposed p) \<and>
    missing_required p = sort (filter (\<lambda>n. \<not> dhas n (proposed p)) required)"
  using assms by (auto simp: mock_generate_def res_simps)

lemma required_of_names: "required_of t = Inr r \<Longrightarrow> JStr n \<in> set (required_names t) \<Longrightarrow> n \<in> set r"
  by (force simp: required_of_def required_names_def jget_def split: option.splits json.splits if_splits)

section \<open>Lemmas on selection\<close>

lemma scored_set: "set (scored ws ts) = (\<lambda>t. (score ws (ws \<inter> MUTATION_VERBS \<noteq> {}) t, tool_name t)) ` set ts"
  by (simp add: scored_def)

lemma scored_head:
  assumes "scored ws ts = (best, name) # others" and "t \<in> set ts"
  shows "score ws (ws \<inter> MUTATION_VERBS \<noteq> {}) t < best \<or>
    score ws (ws \<inter> MUTATION_VERBS \<noteq> {}) t = best \<and> name \<le> tool_name t"
proof -
  have "sorted (map (\<lambda>(s, n). (- s, n)) (scored ws ts))"
    unfolding scored_def by (rule sorted_sort_key)
  then have "\<forall>q\<in>set (scored ws ts). (- best, name) \<le> (- fst q, snd q)"
    using assms(1) by (auto simp: case_prod_beta)
  moreover have "(score ws (ws \<inter> MUTATION_VERBS \<noteq> {}) t, tool_name t) \<in> set (scored ws ts)"
    unfolding scored_set using assms(2) by blast
  ultimately have "(- best, name) \<le> (- score ws (ws \<inter> MUTATION_VERBS \<noteq> {}) t, tool_name t)" by fastforce
  then show ?thesis by (auto simp: less_eq_prod_def)
qed

text \<open>The order in which the tools are offered does not matter.\<close>

lemma scored_order:
  assumes "mset ts = mset ts'"
  shows "scored ws ts = scored ws ts'"
  unfolding scored_def
proof (rule properties_for_sort_key)
  let ?f = "\<lambda>t. (score ws (ws \<inter> MUTATION_VERBS \<noteq> {}) t, tool_name t)"
  have m: "mset (map ?f ts) = mset (map ?f ts')" using assms by (metis mset_map)
  then show "mset (sort_key (\<lambda>(s, n). (- s, n)) (map ?f ts')) = mset (map ?f ts)" by simp
  show "sorted (map (\<lambda>(s, n). (- s, n)) (sort_key (\<lambda>(s, n). (- s, n)) (map ?f ts')))" by simp
  fix k assume "k \<in> set (sort_key (\<lambda>(s, n). (- s, n)) (map ?f ts'))"
  have inj: "(case x of (s, n) \<Rightarrow> (- s, n)) = (case y of (s, n) \<Rightarrow> (- s, n)) \<longleftrightarrow> x = y" for x y :: "rat \<times> string"
    by (cases x; cases y) auto
  have "filter ((=) k) xs = replicate (count (mset xs) k) k" for xs :: "(rat \<times> string) list"
    by (induction xs) auto
  then show "filter (\<lambda>y. (case k of (s, n) \<Rightarrow> (- s, n)) = (case y of (s, n) \<Rightarrow> (- s, n)))
        (sort_key (\<lambda>(s, n). (- s, n)) (map ?f ts')) =
      filter (\<lambda>y. (case k of (s, n) \<Rightarrow> (- s, n)) = (case y of (s, n) \<Rightarrow> (- s, n))) (map ?f ts)"
    unfolding inj using m by simp
qed

lemma mock_select_Inr:
  assumes "mock_select u ts = Inr (Some sel)"
  shows "\<exists>best others. scored (content_words u) ts = (best, sel_tool_name sel) # others \<and> 2 \<le> best \<and>
    sel_score sel = Finite best"
  using assms
  by (auto simp: mock_select_def Let_def SELECTION_THRESHOLD_def split: if_splits list.splits)

interpretation mock: lawful_provider "mock_provider P" for P
proof
  fix u ts sel
  assume "select_tool (mock_provider P) u ts = Inr (Some sel)"
  then have "mock_select u ts = Inr (Some sel)" by (simp add: mock_provider_def)
  from mock_select_Inr [OF this] obtain best others where
    "scored (content_words u) ts = (best, sel_tool_name sel) # others" by blast
  then have "(best, sel_tool_name sel) \<in> set (scored (content_words u) ts)" by simp
  then show "\<exists>t\<in>set ts. tool_name t = sel_tool_name sel" unfolding scored_set by auto
next
  fix u t p
  assume "generate_arguments (mock_provider P) u t = Inr p"
  then have "mock_generate u t = Inr p" by (simp add: mock_provider_def)
  from mock_generate_Inr [OF this] obtain ps where ps: "schema_properties (input_schema t) = Inr ps"
    "extract_object u ps = Inr (proposed p)" by blast
  show "set (dkeys (proposed p)) \<subseteq> set (declared_names t)"
    unfolding schema_properties_declared [OF ps(1)] using collected [OF ps(2)] by (force simp: dkeys_def)
next
  fix u t p n
  assume "generate_arguments (mock_provider P) u t = Inr p" and c: "proposal_complete p"
    and n: "JStr n \<in> set (required_names t)"
  then have "mock_generate u t = Inr p" by (simp add: mock_provider_def)
  from mock_generate_Inr [OF this] obtain r where r: "required_of t = Inr r"
    "missing_required p = sort (filter (\<lambda>n. \<not> dhas n (proposed p)) r)" by blast
  have "filter (\<lambda>n. \<not> dhas n (proposed p)) r = []"
    using c r(2) by (metis length_0_conv length_sort proposal_complete_def)
  then show "n \<in> set (dkeys (proposed p))"
    using required_of_names [OF r(1) n] by (auto simp: filter_empty_conv dhas_iff dget_None_iff)
qed

section \<open>Where a proposed value comes from\<close>

text \<open>
  A value is grounded in a request by the schema it was read for: an enum member the request mentions,
  a flag, a number of the request within the declared bounds, an identifier, or an object of such.
\<close>

inductive grounded :: "string \<Rightarrow> string \<Rightarrow> json dict \<Rightarrow> json \<Rightarrow> bool" for u where
  from_enum: "jget schema ''enum'' = JArr cs \<Longrightarrow> JStr c \<in> set cs \<Longrightarrow> mentions (str_lower u) c \<Longrightarrow>
    grounded u n schema (JStr c)"
| from_flag: "jget schema ''type'' = JStr ''boolean'' \<Longrightarrow> set (tokens n) - FLAG_NOISE \<noteq> {} \<Longrightarrow>
    set (tokens n) - FLAG_NOISE \<subseteq> content_words u \<Longrightarrow> grounded u n schema (JBool True)"
| from_number: "jget schema ''type'' = JStr ''integer'' \<Longrightarrow> u = a @ digits @ b \<Longrightarrow>
    \<not> below (int (nat_of_digits digits)) (jget schema ''minimum'') \<Longrightarrow>
    \<not> above (int (nat_of_digits digits)) (jget schema ''maximum'') \<Longrightarrow>
    grounded u n schema (JInt (int (nat_of_digits digits)))"
| from_identifier: "jget schema ''type'' = JStr ''string'' \<Longrightarrow> str_lower u = a @ i @ b \<or> u = a @ i @ b \<Longrightarrow>
    grounded u n schema (JStr i)"
| from_description: "jget schema ''type'' = JStr ''string'' \<Longrightarrow> {prefix, word} \<subseteq> set (tokens (str_lower u)) \<Longrightarrow>
    grounded u n schema (JStr (prefix @ ''-'' @ word))"
| from_object: "jget schema ''type'' = JStr ''object'' \<Longrightarrow> schema_properties schema = Inr ps \<Longrightarrow>
    \<forall>q\<in>set d. \<exists>child. (fst q, JObj child) \<in> set ps \<and> grounded u (fst q) child (snd q) \<Longrightarrow>
    grounded u n schema (JObj d)"

inductive_cases grounded_number: "grounded u n schema (JInt i)"

lemma map_filter_elem: "x \<in> set (List.map_filter f xs) \<Longrightarrow> \<exists>y\<in>set xs. f y = Some x"
  by (auto simp: List.map_filter_def)

lemma described_id_Some:
  assumes "described_id ts prefixes = Some i"
  shows "\<exists>prefix word. prefix \<in> set ts \<and> word \<in> set ts \<and> i = prefix @ ''-'' @ word"
proof -
  have "i \<in> set (List.map_filter (\<lambda>(prefix, i, offset). if ts ! i = prefix then neighbour_at ts prefix i offset else None)
      (concat (map (\<lambda>prefix. concat (map (\<lambda>i. map (\<lambda>offset. (prefix, i, offset)) [-1, 1, -2, 2])
        [0..<length ts])) (sort prefixes))))"
    using assms unfolding described_id_def by (auto split: list.splits)
  from map_filter_elem [OF this] obtain prefix j offset where
    "j < length ts" "ts ! j = prefix" "neighbour_at ts prefix j offset = Some i"
    by (auto split: if_splits)
  moreover from this(3) have "\<exists>k < length ts. i = prefix @ ''-'' @ ts ! k"
    by (auto simp: neighbour_at_def Let_def split: if_splits intro!: exI [of _ "nat (int j + offset)"])
  ultimately show ?thesis by (metis nth_mem)
qed

lemma identifier_grounded:
  assumes "extract_identifier n u (str_lower u) = Some i" and "jget schema ''type'' = JStr ''string''"
  shows "grounded u n schema (JStr i)"
proof -
  define prefixes where "prefixes = remdups (take (length n - 3) n #
    (case dget ENTITY_ALIASES (take (length n - 3) n) of None \<Rightarrow> [] | Some as \<Rightarrow> as))"
  define ts where "ts = tokens (str_lower u)"
  have "Some i = (case first_match (\<lambda>k. hd (split_on CHR ''-'' k) \<in> set prefixes) (kebab_ids (str_lower u)) of
        Some k \<Rightarrow> Some k
      | None \<Rightarrow>
          (case (if set prefixes \<inter> set ts \<noteq> {} then upper_ids u else []) of
             up # _ \<Rightarrow> Some up
           | [] \<Rightarrow> described_id ts prefixes))"
    using assms(1) unfolding extract_identifier_def Let_def prefixes_def [symmetric] ts_def [symmetric]
    by (simp split: if_splits)
  then consider
      "i \<in> set (kebab_ids (str_lower u))" | "i \<in> set (upper_ids u)" | "described_id ts prefixes = Some i"
    using first_match_Some by (fastforce split: option.splits list.splits if_splits)
  then show ?thesis
  proof cases
    case 1
    then show ?thesis using ids_in_text(1) assms(2) from_identifier by blast
  next
    case 2
    then show ?thesis using ids_in_text(2) assms(2) from_identifier by blast
  next
    case 3
    then show ?thesis using described_id_Some from_description [OF assms(2)] unfolding ts_def by blast
  qed
qed

lemma leaf_grounded:
  assumes "extract_leaf u n schema = Some v"
  shows "grounded u n schema v"
proof (cases "\<exists>cs. jget schema ''enum'' = JArr cs")
  case True
  then obtain cs where cs: "jget schema ''enum'' = JArr cs" by blast
  with assms have "first_match (\<lambda>c. is_str c \<and> mentions (str_lower u) (str_of c)) cs = Some v"
    by (simp add: extract_leaf_def)
  from first_match_Some [OF this] have v: "v \<in> set cs" "is_str v" "mentions (str_lower u) (str_of v)" by simp_all
  then obtain c where "v = JStr c" unfolding is_str_iff by blast
  with v from_enum [OF cs, of c u n] show ?thesis by simp
next
  case False
  define ty where "ty = jget schema ''type''"
  have leaf: "extract_leaf u n schema =
      (if ty = JStr ''boolean'' then
            (let flag_words = set (tokens n) - FLAG_NOISE in
             if flag_words \<noteq> {} \<and> flag_words \<subseteq> content_words u then Some (JBool True) else None)
          else if ty = JStr ''integer'' then
            map_option JInt (first_match
              (\<lambda>i. \<not> below i (jget schema ''minimum'') \<and> \<not> above i (jget schema ''maximum''))
              (map (int \<circ> nat_of_digits) (integers u)))
          else if ty = JStr ''string'' then map_option JStr (extract_identifier n u (str_lower u)) else None)"
    using False unfolding extract_leaf_def ty_def by (cases "jget schema ''enum''") simp_all
  show ?thesis
  proof (cases "ty = JStr ''boolean''")
    case True
    with assms [unfolded leaf] have "v = JBool True" "set (tokens n) - FLAG_NOISE \<noteq> {}"
      "set (tokens n) - FLAG_NOISE \<subseteq> content_words u"
      unfolding Let_def by (auto split: if_splits)
    then show ?thesis using from_flag True unfolding ty_def by blast
  next
    case not_flag: False
    show ?thesis
    proof (cases "ty = JStr ''integer''")
      case True
      with assms [unfolded leaf] obtain i where "v = JInt i" and i: "first_match
          (\<lambda>i. \<not> below i (jget schema ''minimum'') \<and> \<not> above i (jget schema ''maximum''))
          (map (int \<circ> nat_of_digits) (integers u)) = Some i"
        by auto
      from first_match_Some [OF i] obtain ds where ds: "ds \<in> set (integers u)" "i = int (nat_of_digits ds)"
        "\<not> below i (jget schema ''minimum'')" "\<not> above i (jget schema ''maximum'')" by auto
      then obtain a b where "u = a @ ds @ b" using ids_in_text(3) by blast
      with ds \<open>v = JInt i\<close> True show ?thesis unfolding ty_def using from_number by blast
    next
      case False
      with assms [unfolded leaf] not_flag obtain i where "ty = JStr ''string''" "v = JStr i"
        "extract_identifier n u (str_lower u) = Some i"
        by (auto split: if_splits)
      then show ?thesis unfolding ty_def by (simp add: identifier_grounded)
    qed
  qed
qed

lemma value_grounded: "extract_value u n schema = Inr (Some v) \<Longrightarrow> grounded u n schema v"
proof (induction "size (JObj schema)" arbitrary: n schema v rule: less_induct)
  case less
  show ?case
  proof (cases "jget schema ''type'' = JStr ''object''")
    case True
    with less.prems obtain ps d where ps: "schema_properties schema = Inr ps" "extract_object u ps = Inr d" "v = JObj d"
      by (auto simp: extract_value_object res_simps split: if_splits)
    have "\<exists>child. (fst q, JObj child) \<in> set ps \<and> grounded u (fst q) child (snd q)" if "q \<in> set d" for q
      using collected [OF ps(2), of "fst q" "snd q"] that less.hyps schema_properties_size [OF ps(1)] by fastforce
    then show ?thesis using from_object [OF True ps(1)] ps(3) by blast
  next
    case False
    with less.prems show ?thesis by (simp add: extract_value_object leaf_grounded)
  qed
qed

section \<open>Properties\<close>

text \<open>
  The provider stays inside what it was offered: a tool it selects is visible to the caller in the
  same snapshot, it proposes only declared arguments and all required ones, so the gate behind it can
  only refuse the turn for an invalid argument or a missing confirmation, never for an unknown tool or
  for the caller's roles.
\<close>

theorem mock_turn_refusals:
  assumes "store_reachable P c deployment st" and "current st = Some s"
    and "turn_proposal (mock_provider P) s u caller = Inr (sel, proposal)"
  shows "(\<exists>b. resolve_tool s (sel_tool_name sel) = Inr b \<and> b \<in> set (discover_in s caller) \<and>
      set (dkeys (proposed proposal)) \<subseteq> set (declared_names (bound_definition b)) \<and>
      (\<forall>n. JStr n \<in> set (required_names (bound_definition b)) \<longrightarrow> n \<in> set (dkeys (proposed proposal)))) \<and>
    (\<forall>e. admit P s (sel_tool_name sel) (JObj (proposed proposal)) caller confirmed = Inl e \<longrightarrow>
      exn_code e \<in> {Some ARGUMENT_VALIDATION_FAILED, Some CONFIRMATION_REQUIRED})"
proof -
  have v: "verified_snapshot P (client_verification c) s"
    using reachable_verified [OF assms(1)] assms(2) by blast
  obtain b where b: "resolve_tool s (sel_tool_name sel) = Inr b" "authorize_bound b caller = Inr ()"
    "set (dkeys (proposed proposal)) \<subseteq> set (declared_names (bound_definition b))"
    "\<forall>n. JStr n \<in> set (required_names (bound_definition b)) \<longrightarrow> n \<in> set (dkeys (proposed proposal))"
    using mock.chosen_tool_is_permitted [OF v assms(3)] by blast
  have "bound_name b = sel_tool_name sel" using resolved_tool [OF v b(1)] by auto
  then have "b \<in> set (discover_in s caller)"
    using b(1,2) loaded_tools_iff [OF v, of b] by (simp add: visible_iff)
  moreover have "exn_code e = Some ARGUMENT_VALIDATION_FAILED" if "validate_arguments P t (JObj d) = Inl e" for t d e
    using that by (auto simp: validate_arguments_def raise_at_def Let_def split: if_splits)
  ultimately show ?thesis
    using b by (auto simp: admit_def res_simps require_confirmation_def split: if_splits)
qed

lemma mock_example:
  "mock_select ''ticket 7'' [example_tool] = Inr (Some \<lparr>sel_tool_name = ''get_ticket'', sel_score = Finite 2,
     sel_rationale = rationale 2, sel_runner_up = None\<rparr>)"
  "mock_generate ''ticket 7'' example_tool = Inr \<lparr>proposed = [(''id'', JInt 7)], missing_required = []\<rparr>"
  by code_simp+

lemma mock_turn_refusals_witness:
  "\<exists>(s :: loaded_snapshot) (b :: bound_tool). resolve_tool s ''get_ticket'' = Inr b \<and> b \<in> set (discover_in s None)"
proof -
  obtain st s where st: "store_reachable sample_platform example_client ''demo'' st" "current st = Some s"
    "connectors (loaded_document s) = [example_connector]"
    using example_store by blast
  note ix = example_bound [OF st]
  have "bind_tool example_connector example_tool \<in> set (discover_in s None)"
    using example_admit(1) [OF ix, of None False] by (simp add: visible_iff loaded_tools_def ix admit_Inr)
  moreover have "discover_in s None = [] \<or> discover_in s None = [bind_tool example_connector example_tool]"
    by (simp add: discover_in_def loaded_tools_def ix)
  ultimately have vis: "discover_in s None = [bind_tool example_connector example_tool]" by auto
  have "turn_proposal (mock_provider sample_platform) s ''ticket 7'' None =
      Inr (\<lparr>sel_tool_name = ''get_ticket'', sel_score = Finite 2, sel_rationale = rationale 2, sel_runner_up = None\<rparr>,
        \<lparr>proposed = [(''id'', JInt 7)], missing_required = []\<rparr>)"
    by (simp add: turn_proposal_def vis mock_provider_def mock_example resolve_tool_def ix proposal_complete_def
        bind_tool_def)
  from mock_turn_refusals [OF st(1,2) this, THEN conjunct1] show ?thesis by auto
qed

text \<open>
  The selection is the best offered tool: it reaches the threshold, every other offered tool scores
  less or ties with a name that sorts later, and the order in which the tools are offered is irrelevant.
\<close>

theorem selection_is_best:
  assumes "mock_select u ts = Inr (Some sel)"
  shows "(\<exists>t\<in>set ts. tool_name t = sel_tool_name sel \<and>
      sel_score sel = Finite (score (content_words u) (content_words u \<inter> MUTATION_VERBS \<noteq> {}) t) \<and>
      2 \<le> score (content_words u) (content_words u \<inter> MUTATION_VERBS \<noteq> {}) t \<and>
      (\<forall>t'\<in>set ts.
         score (content_words u) (content_words u \<inter> MUTATION_VERBS \<noteq> {}) t'
           < score (content_words u) (content_words u \<inter> MUTATION_VERBS \<noteq> {}) t \<or>
         score (content_words u) (content_words u \<inter> MUTATION_VERBS \<noteq> {}) t'
           = score (content_words u) (content_words u \<inter> MUTATION_VERBS \<noteq> {}) t \<and> tool_name t \<le> tool_name t')) \<and>
    (\<forall>ts'. mset ts' = mset ts \<longrightarrow> mock_select u ts' = Inr (Some sel))"
proof -
  obtain best others where h: "scored (content_words u) ts = (best, sel_tool_name sel) # others" "2 \<le> best"
    "sel_score sel = Finite best"
    using mock_select_Inr [OF assms] by blast
  have "(best, sel_tool_name sel) \<in> set (scored (content_words u) ts)" using h(1) by simp
  then obtain t where t: "t \<in> set ts" "tool_name t = sel_tool_name sel"
    "score (content_words u) (content_words u \<inter> MUTATION_VERBS \<noteq> {}) t = best"
    unfolding scored_set by auto
  have "mock_select u ts' = Inr (Some sel)" if "mset ts' = mset ts" for ts'
    using assms unfolding mock_select_def scored_order [OF that] .
  moreover have "\<forall>t'\<in>set ts.
      score (content_words u) (content_words u \<inter> MUTATION_VERBS \<noteq> {}) t' < best \<or>
      score (content_words u) (content_words u \<inter> MUTATION_VERBS \<noteq> {}) t' = best \<and> tool_name t \<le> tool_name t'"
    using scored_head [OF h(1)] t(2) by simp
  ultimately show ?thesis using h(2,3) t by blast
qed

lemma selection_is_best_witness:
  "score {''ticket''} False example_tool = 2 \<and>
   (\<exists>t\<in>{example_tool}. 2 \<le> score (content_words ''ticket 7'')
      (content_words ''ticket 7'' \<inter> MUTATION_VERBS \<noteq> {}) t)"
proof -
  have "score {''ticket''} False example_tool = 2" by code_simp
  then show ?thesis using selection_is_best [OF mock_example(1)] by auto
qed

text \<open>
  Nothing is invented: every proposed argument is declared by the tool's schema and grounded in the
  request, as an enum member it mentions, a flag whose words it says, a number it contains and the
  schema admits, an identifier it contains or one made of two of its words, or an object of such.
\<close>

theorem proposals_are_grounded:
  assumes "mock_generate u t = Inr p" and "(n, v) \<in> set (proposed p)"
  shows "\<exists>child. (n, JObj child) \<in> set (obj_of (jget (input_schema t) ''properties'')) \<and> grounded u n child v"
proof -
  obtain ps where ps: "schema_properties (input_schema t) = Inr ps" "extract_object u ps = Inr (proposed p)"
    using mock_generate_Inr [OF assms(1)] by blast
  have "obj_of (jget (input_schema t) ''properties'') = ps"
    using ps(1) by (auto simp: schema_properties_def jget_def split: option.splits json.splits)
  with collected [OF ps(2) assms(2)] value_grounded show ?thesis by blast
qed

lemma proposals_are_grounded_witness: "\<exists>child. grounded ''ticket 7'' ''id'' child (JInt 7)"
  using proposals_are_grounded [OF mock_example(2), of "''id''" "JInt 7"] by auto

end
