(* ===== verification/Review.thy ===== *)
theory Review
  imports Validation
begin

text \<open>
  What a reviewer decided about an analysed document:
  \<^verbatim>\<open>apps/control-plane/backend/control_plane/review.py\<close>. The review is stored as JSON and read back, so
  the fields that \<open>from_dict\<close> does not convert are JSON values; the type invariant at the end states
  what every stored review nevertheless is.
\<close>

section \<open>Python access to JSON\<close>

text \<open>Iteration over a value and \<open>v.get(k, d)\<close>.\<close>

fun py_iter :: "json \<Rightarrow> json list res" where
  "py_iter (JArr xs) = Inr xs"
| "py_iter (JObj d) = Inr (map JStr (dkeys d))"
| "py_iter (JStr s) = Inr (map (\<lambda>c. JStr [c]) s)"
| "py_iter _ = Inl TypeError"

fun py_get :: "json \<Rightarrow> string \<Rightarrow> json \<Rightarrow> json res" where
  "py_get (JObj d) k v = Inr (get_or d k v)"
| "py_get _ k v = Inl AttributeError"

section \<open>Decisions\<close>

record operation_review =
  or_key :: string
  or_selection :: json
  or_description :: string
  or_origin :: json
  or_effect :: json
  or_confirm :: bool
  or_mode :: json
  or_roles :: "json list"

definition review_to_dict :: "operation_review \<Rightarrow> json" where
  "review_to_dict r = JObj
     [(''operation_key'', JStr (or_key r)), (''selection'', or_selection r),
      (''description'', JStr (or_description r)), (''description_origin'', or_origin r),
      (''effect_class'', or_effect r), (''requires_confirmation'', JBool (or_confirm r)),
      (''access_mode'', or_mode r), (''allowed_roles'', JArr (or_roles r))]"

definition review_from_dict :: "platform \<Rightarrow> json \<Rightarrow> operation_review res" where
  "review_from_dict P v =
     rbind (item v ''operation_key'') (\<lambda>key.
     rbind (py_get v ''selection'' (JStr ''included'')) (\<lambda>sel.
     rbind (py_get v ''description'' (JStr [])) (\<lambda>desc.
     rbind (py_get v ''description_origin'' (JStr ''source'')) (\<lambda>origin.
     rbind (py_get v ''effect_class'' (JStr ''read'')) (\<lambda>effect.
     rbind (py_get v ''requires_confirmation'' (JBool False)) (\<lambda>confirm.
     rbind (py_get v ''access_mode'' (JStr ''public'')) (\<lambda>mode.
     rbind (rbind (py_get v ''allowed_roles'' (JArr [])) py_iter) (\<lambda>rs.
       Inr \<lparr>or_key = py_str P key, or_selection = sel, or_description = py_str P desc,
            or_origin = origin, or_effect = effect, or_confirm = truthy confirm, or_mode = mode,
            or_roles = rs\<rparr>))))))))"

text \<open>\<open>ToolAccessPolicy(access_mode=m, allowed_roles=rs)\<close> on unchecked values.\<close>

definition build_access :: "json \<Rightarrow> json list \<Rightarrow> access_policy res" where
  "build_access mode rs = decode_access (JObj [(''access_mode'', mode), (''allowed_roles'', JArr rs)])"

text \<open>\<open>sorted\<close> of roles that are not all strings raises.\<close>

definition access_policy_of :: "operation_review \<Rightarrow> access_policy res" where
  "access_policy_of r =
     (if list_all is_str (or_roles r)
      then build_access (or_mode r) (map JStr (sort (map str_of (or_roles r))))
      else if length (or_roles r) \<le> 1 then build_access (or_mode r) (or_roles r)
      else Inl TypeError)"

type_synonym review_state = "operation_review list"

definition state_to_dict :: "review_state \<Rightarrow> json dict" where
  "state_to_dict st = [(''operations'', JArr (map review_to_dict st))]"

definition state_from_dict :: "platform \<Rightarrow> json dict \<Rightarrow> review_state res" where
  "state_from_dict P d =
     rbind (py_iter (get_or d ''operations'' (JArr []))) (\<lambda>raw. rmap (review_from_dict P) raw)"

definition review_get :: "review_state \<Rightarrow> string \<Rightarrow> operation_review option" where
  "review_get st key = first_match (\<lambda>r. or_key r = key) st"

definition included :: "review_state \<Rightarrow> review_state" where
  "included st = filter (\<lambda>r. or_selection r = JStr ''included'') st"

section \<open>The initial review\<close>

definition initial_entry :: "platform \<Rightarrow> json \<Rightarrow> operation_review list res" where
  "initial_entry P oper =
     rbind (py_get oper ''tool'' JNull) (\<lambda>tool.
       if tool = JNull then Inr []
       else
         rbind (py_get tool ''policy'' (JObj [])) (\<lambda>policy.
         rbind (py_get policy ''access'' (JObj [])) (\<lambda>access.
         rbind (item oper ''key'') (\<lambda>key.
         rbind (item tool ''description'') (\<lambda>desc.
         rbind (rbind (py_get tool ''provenance'' (JObj []))
                  (\<lambda>p. py_get p ''description_origin'' (JStr ''source''))) (\<lambda>origin.
         rbind (py_get policy ''effect_class'' (JStr ''read'')) (\<lambda>effect.
         rbind (py_get policy ''requires_confirmation'' (JBool False)) (\<lambda>confirm.
         rbind (py_get access ''access_mode'' (JStr ''public'')) (\<lambda>mode.
         rbind (rbind (py_get access ''allowed_roles'' (JArr [])) py_iter) (\<lambda>rs.
           Inr [\<lparr>or_key = py_str P key, or_selection = JStr ''included'', or_description = py_str P desc,
                 or_origin = origin, or_effect = effect, or_confirm = truthy confirm, or_mode = mode,
                 or_roles = rs\<rparr>]))))))))))"

definition build_initial_review :: "platform \<Rightarrow> json dict \<Rightarrow> review_state res" where
  "build_initial_review P analysis =
     rbind (py_iter (get_or analysis ''operations'' (JArr []))) (\<lambda>ops.
     rbind (rmap (initial_entry P) ops) (\<lambda>entries. Inr (concat entries)))"

section \<open>Updates\<close>

record review_update =
  up_key :: string
  up_selection :: "string option"
  up_description :: "string option"
  up_origin :: "string option"
  up_effect :: "string option"
  up_confirm :: "bool option"
  up_mode :: "string option"
  up_roles :: "string list option"

definition EFFECT_CLASSES :: "string list" where
  "EFFECT_CLASSES = [''read'', ''write'', ''destructive'']"

definition MAX_DESCRIPTION :: nat where
  "MAX_DESCRIPTION = 1024"

definition validation_error :: "string \<Rightarrow> exn" where
  "validation_error ptr = raise_at INVALID_REQUEST ptr"

definition update_selection :: "review_update \<Rightarrow> operation_review \<Rightarrow> operation_review res" where
  "update_selection u r =
     (case up_selection u of
        None \<Rightarrow> Inr r
      | Some s \<Rightarrow> if s \<notin> {''included'', ''excluded''} then Inl (validation_error ''/selection'')
                  else Inr (r\<lparr>or_selection := JStr s\<rparr>))"

text \<open>A new text without an explicit origin was written by the person who sent it.\<close>

definition update_description :: "review_update \<Rightarrow> operation_review \<Rightarrow> operation_review res" where
  "update_description u r =
     (case up_description u of
        Some raw \<Rightarrow>
          (let s = str_strip raw in
           if s = [] then Inl (validation_error ''/description'')
           else if MAX_DESCRIPTION < length s then Inl (validation_error ''/description'')
           else Inr (r\<lparr>or_description := s,
                  or_origin := JStr (case up_origin u of
                    Some origin \<Rightarrow> if origin = [] then ''human'' else origin | None \<Rightarrow> ''human'')\<rparr>))
      | None \<Rightarrow>
          (case up_origin u of None \<Rightarrow> Inr r | Some origin \<Rightarrow> Inr (r\<lparr>or_origin := JStr origin\<rparr>)))"

definition update_effect :: "review_update \<Rightarrow> operation_review \<Rightarrow> operation_review res" where
  "update_effect u r =
     (case up_effect u of
        None \<Rightarrow> Inr r
      | Some e \<Rightarrow> if e \<notin> set EFFECT_CLASSES then Inl (validation_error ''/effect_class'')
                  else Inr (r\<lparr>or_effect := JStr e\<rparr>))"

definition update_confirm :: "review_update \<Rightarrow> operation_review \<Rightarrow> operation_review" where
  "update_confirm u r = (case up_confirm u of None \<Rightarrow> r | Some b \<Rightarrow> r\<lparr>or_confirm := b\<rparr>)"

text \<open>Mode and roles are checked together by building the contract model from both.\<close>

definition update_access :: "review_update \<Rightarrow> operation_review \<Rightarrow> operation_review res" where
  "update_access u r =
     (let mode = (case up_mode u of None \<Rightarrow> or_mode r | Some m \<Rightarrow> JStr m);
          rs = (case up_roles u of None \<Rightarrow> or_roles r | Some xs \<Rightarrow> map JStr xs)
      in if up_mode u = None \<and> up_roles u = None then Inr r
         else rbind (catching (\<lambda>_. True) (\<lambda>_. Inl (validation_error ''/access'')) (build_access mode rs))
                (\<lambda>a. Inr (r\<lparr>or_mode := JStr (policy_mode a), or_roles := map JStr (policy_roles a)\<rparr>)))"

definition updated_entry :: "review_update \<Rightarrow> operation_review \<Rightarrow> operation_review res" where
  "updated_entry u r =
     rbind (update_selection u r) (\<lambda>r.
     rbind (update_description u r) (\<lambda>r.
     rbind (update_effect u r) (\<lambda>r.
       update_access u (update_confirm u r))))"

definition apply_update :: "review_update \<Rightarrow> review_state \<Rightarrow> review_state res" where
  "apply_update u st =
     (case review_get st (up_key u) of
        None \<Rightarrow> Inl (validation_error ''/operation_key'')
      | Some existing \<Rightarrow>
          rbind (updated_entry u existing) (\<lambda>updated.
            Inr (map (\<lambda>r. if or_key r = up_key u then updated else r) st)))"

section \<open>Readiness\<close>

text \<open>The operations of a stored analysis that have a tool, by key.\<close>

definition analyzed_entry :: "platform \<Rightarrow> json \<Rightarrow> (string \<times> json) list res" where
  "analyzed_entry P oper =
     rbind (py_get oper ''tool'' JNull) (\<lambda>tool.
       if tool = JNull then Inr []
       else rbind (item oper ''key'') (\<lambda>key. Inr [(py_str P key, oper)]))"

definition analyzed_operations :: "platform \<Rightarrow> json dict \<Rightarrow> json dict res" where
  "analyzed_operations P analysis =
     rbind (py_iter (get_or analysis ''operations'' (JArr []))) (\<lambda>ops.
     rbind (rmap (analyzed_entry P) ops) (\<lambda>entries.
       Inr (fold (\<lambda>kv d. dset (fst kv) (snd kv) d) (concat entries) [])))"

definition entry_issues :: "platform \<Rightarrow> operation_review \<Rightarrow> string list" where
  "entry_issues P r =
     (if or_origin r = JStr ''generated''
      then [''publication.description_placeholder:'' @ or_key r] else []) @
     (if or_mode r = JStr ''restricted'' \<and> or_roles r = []
      then [''publication.restricted_without_roles:'' @ or_key r] else [])"

definition review_readiness :: "platform \<Rightarrow> json dict \<Rightarrow> review_state \<Rightarrow> string option \<Rightarrow> string list res" where
  "review_readiness P analysis st base =
     rbind (analyzed_operations P analysis) (\<lambda>analyzed.
       Inr ((if base = None \<or> base = Some [] then [''publication.base_url_missing''] else []) @
            (if included st = [] then [''publication.no_operation_selected''] else []) @
            (if set (map or_key st) \<noteq> set (dkeys analyzed) then [''publication.review_out_of_sync''] else []) @
            concat (map (entry_issues P) (included st))))"

section \<open>The type of stored reviews\<close>

definition DESCRIPTION_ORIGINS :: "string list" where
  "DESCRIPTION_ORIGINS = [''source'', ''generated'', ''assisted'', ''human'']"

definition origin_ok :: "json \<Rightarrow> bool" where
  "origin_ok v \<longleftrightarrow> is_str v \<and> str_of v \<in> set DESCRIPTION_ORIGINS"

definition effect_ok :: "json \<Rightarrow> bool" where
  "effect_ok v \<longleftrightarrow> is_str v \<and> str_of v \<in> set EFFECT_CLASSES"

definition review_ok :: "operation_review \<Rightarrow> bool" where
  "review_ok r \<longleftrightarrow>
     or_selection r \<in> {JStr ''included'', JStr ''excluded''} \<and> len_between 1 1024 (or_description r) \<and>
     origin_ok (or_origin r) \<and> effect_ok (or_effect r) \<and>
     (\<exists>a. access_ok a \<and> or_mode r = JStr (policy_mode a) \<and> or_roles r = map JStr (policy_roles a))"

text \<open>The request schema admits only the origins of the contract.\<close>

definition update_typed :: "review_update \<Rightarrow> bool" where
  "update_typed u \<longleftrightarrow>
     (case up_origin u of None \<Rightarrow> True | Some s \<Rightarrow> s \<in> set DESCRIPTION_ORIGINS)"

lemma state_roundtrip: "state_from_dict P (state_to_dict st) = Inr st"
proof -
  have "review_from_dict P (review_to_dict r) = Inr r" for r
    by (simp add: review_from_dict_def review_to_dict_def get_or_def)
  then have "rmap (review_from_dict P) (map review_to_dict st) = Inr st" by (rule rmap_dump)
  then show ?thesis by (simp add: state_from_dict_def state_to_dict_def get_or_def)
qed

lemma build_access_Inr:
  "build_access mode rs = Inr a \<longleftrightarrow>
     access_ok a \<and> mode = JStr (policy_mode a) \<and> (\<exists>xs. rs = map JStr xs \<and> policy_roles a = sort xs)"
proof -
  have "rmap as_str rs = Inr xs \<longleftrightarrow> rs = map JStr xs" for xs
    by (induction rs arbitrary: xs) (auto simp: res_simps bad_def elim!: as_str.elims)
  then show ?thesis
    by (cases mode; cases a)
       (auto simp: build_access_def decode_access_def field_def dkeys_def res_simps mk_access_def bad_def)
qed

lemma update_description_ok:
  assumes "update_description u r = Inr r'" and "review_ok r" and "update_typed u"
  shows "review_ok r' \<and> or_key r' = or_key r"
proof (cases "up_description u")
  case None
  with assms show ?thesis
    by (auto simp: update_description_def review_ok_def update_typed_def origin_ok_def split: option.splits)
next
  case (Some raw)
  have given: "origin_ok (JStr (case up_origin u of
      Some origin \<Rightarrow> if origin = [] then ''human'' else origin | None \<Rightarrow> ''human''))"
    using assms(3) by (auto simp: update_typed_def origin_ok_def DESCRIPTION_ORIGINS_def split: option.splits)
  with assms(1) Some have "len_between 1 1024 (str_strip raw)"
    and "r' = r\<lparr>or_description := str_strip raw, or_origin := JStr (case up_origin u of
      Some origin \<Rightarrow> if origin = [] then ''human'' else origin | None \<Rightarrow> ''human'')\<rparr>"
    by (simp_all add: update_description_def Let_def len_between_def MAX_DESCRIPTION_def Suc_le_eq not_less
        split: if_splits)
  with given assms(2) show ?thesis by (simp add: review_ok_def)
qed

lemma updated_entry_ok:
  assumes "updated_entry u r = Inr r'" and "review_ok r" and "update_typed u"
  shows "review_ok r' \<and> or_key r' = or_key r"
proof -
  from assms(1) obtain r1 r2 r3 where s: "update_selection u r = Inr r1" "update_description u r1 = Inr r2"
    "update_effect u r2 = Inr r3" "update_access u (update_confirm u r3) = Inr r'"
    by (auto simp: updated_entry_def res_simps)
  have "review_ok r1 \<and> or_key r1 = or_key r"
    using s(1) assms(2) by (auto simp: update_selection_def review_ok_def split: option.splits if_splits)
  then have "review_ok r2 \<and> or_key r2 = or_key r"
    using update_description_ok [OF s(2)] assms(3) by simp
  then have "review_ok r3 \<and> or_key r3 = or_key r"
    using s(3) by (auto simp: update_effect_def review_ok_def effect_ok_def split: option.splits if_splits)
  then have "review_ok (update_confirm u r3) \<and> or_key (update_confirm u r3) = or_key r"
    by (auto simp: update_confirm_def review_ok_def split: option.splits)
  then show ?thesis
    using s(4)
    by (auto simp: update_access_def Let_def review_ok_def res_simps build_access_Inr split: if_splits)
qed

lemma apply_update_ok:
  assumes "apply_update u st = Inr st'" and "list_all review_ok st" and "update_typed u"
  shows "list_all review_ok st' \<and> map or_key st' = map or_key st"
proof -
  from assms(1) obtain r r' where r: "review_get st (up_key u) = Some r" "updated_entry u r = Inr r'"
    and st': "st' = map (\<lambda>x. if or_key x = up_key u then r' else x) st"
    by (auto simp: apply_update_def res_simps split: option.splits)
  from r(1) have "r \<in> set st" "or_key r = up_key u" by (auto simp: review_get_def dest: first_match_Some)
  with updated_entry_ok [OF r(2) _ assms(3)] assms(2) have "review_ok r' \<and> or_key r' = up_key u"
    by (auto simp: list_all_iff)
  with assms(2) show ?thesis by (auto simp: st' list_all_iff)
qed

end
