(* ===== verification/Naming.thy ===== *)
theory Naming
  imports Errors Patterns
begin

text \<open>
  Tool names: \<^verbatim>\<open>packages/openapi-converter/toollayer_openapi/naming.py\<close>, and the failures and
  diagnostics of \<^verbatim>\<open>errors.py\<close> next to it. The main fact is that every name the module produces
  satisfies the pattern and the length bound of the contract.
\<close>

section \<open>Failures and diagnostics\<close>

definition invalid_document :: "string \<Rightarrow> string \<Rightarrow> exn" where
  "invalid_document msg ptr = ConversionError INVALID_SOURCE_DOCUMENT ptr msg"

definition unsupported_feature :: "string \<Rightarrow> string \<Rightarrow> exn" where
  "unsupported_feature msg ptr = ConversionError UNSUPPORTED_SPEC_FEATURE ptr msg"

definition document_too_large :: "string \<Rightarrow> exn" where
  "document_too_large msg = ConversionError SOURCE_TOO_LARGE [] msg"

record diagnostic =
  diag_code :: string
  diag_message :: string
  diag_pointer :: string
  diag_severity :: string
  diag_operation :: "string option"

definition diagnostic_to_dict :: "diagnostic \<Rightarrow> json" where
  "diagnostic_to_dict d = JObj
     [(''code'', JStr (diag_code d)), (''message'', JStr (diag_message d)),
      (''pointer'', JStr (diag_pointer d)), (''severity'', JStr (diag_severity d)),
      (''operation_key'', opt_str (diag_operation d))]"

text \<open>\<open>ConversionError.as_diagnostic\<close>\<close>

definition as_diagnostic :: "error_code \<Rightarrow> string \<Rightarrow> string \<Rightarrow> diagnostic" where
  "as_diagnostic c ptr msg =
     \<lparr>diag_code = code_text c, diag_message = msg, diag_pointer = ptr, diag_severity = ''error'',
      diag_operation = None\<rparr>"

section \<open>Snake case\<close>

definition MAX_TOOL_NAME_LENGTH :: nat where
  "MAX_TOOL_NAME_LENGTH = 64"

text \<open>\<^verbatim>\<open>(?<=[a-z0-9])(?=[A-Z])\<close> and \<^verbatim>\<open>(?<=[A-Z])(?=[A-Z][a-z])\<close>, replaced by an underscore.\<close>

fun camel_boundary :: "string \<Rightarrow> string" where
  "camel_boundary (c # d # s) =
     (if is_lower_or_digit c \<and> is_upper d then c # CHR ''_'' # camel_boundary (d # s)
      else c # camel_boundary (d # s))"
| "camel_boundary s = s"

fun acronym_boundary :: "string \<Rightarrow> string" where
  "acronym_boundary (c # d # e # s) =
     (if is_upper c \<and> is_upper d \<and> is_lower e then c # CHR ''_'' # acronym_boundary (d # e # s)
      else c # acronym_boundary (d # e # s))"
| "acronym_boundary s = s"

text \<open>\<^verbatim>\<open>[^A-Za-z0-9]+\<close>, each run replaced by one underscore; the flag is set inside a run.\<close>

fun non_identifier :: "bool \<Rightarrow> string \<Rightarrow> string" where
  "non_identifier inside [] = []"
| "non_identifier inside (c # s) =
     (if is_alnum c then c # non_identifier False s
      else if inside then non_identifier True s
      else CHR ''_'' # non_identifier True s)"

definition snake_case :: "string \<Rightarrow> string" where
  "snake_case s =
     str_lower (strip_by (\<lambda>c. c = CHR ''_'')
       (non_identifier False (acronym_boundary (camel_boundary s))))"

section \<open>Names\<close>

definition bounded :: "platform \<Rightarrow> string \<Rightarrow> string" where
  "bounded P candidate =
     (if length candidate \<le> MAX_TOOL_NAME_LENGTH then candidate
      else let suffix = take 10 (sha256_hex P (utf8_encode candidate));
               keep = MAX_TOOL_NAME_LENGTH - length suffix - 1
           in rstrip_by (\<lambda>c. c = CHR ''_'') (take keep candidate) @ ''_'' @ suffix)"

definition normalize_tool_name :: "platform \<Rightarrow> string \<Rightarrow> string res" where
  "normalize_tool_name P v =
     (let candidate = snake_case v in
      if candidate = [] then Inl ValueError
      else Inr (bounded P (if is_digit (hd candidate) then ''op_'' @ candidate else candidate)))"

definition METHOD_VERB :: "(string \<times> string) list" where
  "METHOD_VERB =
     [(''get'', ''get''), (''post'', ''create''), (''put'', ''replace''), (''patch'', ''update''),
      (''delete'', ''delete'')]"

text \<open>\<^verbatim>\<open>v\d+[a-z0-9]*\<close>, matched as a whole against the lower-cased segment.\<close>

definition VERSION_SEGMENT :: rx where
  "VERSION_SEGMENT =
     Seq (Cls (\<lambda>c. c = CHR ''v'')) (Seq (rx_plus (Cls is_digit)) (Star (Cls is_lower_or_digit)))"

definition segment_words :: "nat \<times> string \<Rightarrow> string list" where
  "segment_words it =
     (let segment = snd it in
      if fst it = 0 \<and> rx_match VERSION_SEGMENT (str_lower segment) then []
      else if starts_with ''{'' segment \<and> ends_with ''}'' segment then
        (let n = snake_case (butlast (tl segment)) in if n = [] then [] else [''by'', n])
      else (let n = snake_case segment in if n = [] then [] else [n]))"

definition derive_tool_name :: "platform \<Rightarrow> string \<Rightarrow> string \<Rightarrow> string res" where
  "derive_tool_name P method path =
     (case map_of METHOD_VERB (str_lower method) of
        None \<Rightarrow> Inl ValueError
      | Some verb \<Rightarrow>
          (let raw = filter (\<lambda>s. s \<noteq> []) (split_on CHR ''/'' (strip_by (\<lambda>c. c = CHR ''/'') path));
               segments = concat (map segment_words (indexed raw))
           in if segments = [] then Inr (bounded P (verb @ ''_root''))
              else Inr (bounded P (verb @ ''_'' @ join_with ''_'' segments))))"

text \<open>\<open>str.capitalize\<close> on a name, which is ASCII.\<close>

fun capitalize :: "string \<Rightarrow> string" where
  "capitalize [] = []"
| "capitalize (c # s) = upper_char c # str_lower s"

definition to_display_name :: "string \<Rightarrow> string" where
  "to_display_name name =
     (let words = filter (\<lambda>w. w \<noteq> []) (split_on CHR ''_'' name) in
      if words = [] then name else join_with '' '' (capitalize (hd words) # tl words))"

section \<open>Lemmas\<close>

definition name_char :: "char \<Rightarrow> bool" where
  "name_char c \<longleftrightarrow> is_lower_or_digit c \<or> c = CHR ''_''"

lemma non_identifier_chars: "c \<in> set (non_identifier b s) \<Longrightarrow> is_alnum c \<or> c = CHR ''_''"
  by (induction b s rule: non_identifier.induct) (auto split: if_splits)

lemma lower_name_char: "is_alnum c \<or> c = CHR ''_'' \<Longrightarrow> name_char (lower_char c)"
  by (auto simp: name_char_def is_alnum_def is_alpha_def is_lower_or_digit_def lower_char_def is_lower_def
      is_upper_def is_digit_def)

lemma snake_case_chars: "c \<in> set (snake_case s) \<Longrightarrow> name_char c"
proof -
  assume "c \<in> set (snake_case s)"
  then obtain d where c: "c = lower_char d"
    and d: "d \<in> set (strip_by (\<lambda>c. c = CHR ''_'')
      (non_identifier False (acronym_boundary (camel_boundary s))))"
    unfolding snake_case_def str_lower_def by auto
  from d have "d \<in> set (non_identifier False (acronym_boundary (camel_boundary s)))"
    using set_strip_by by (rule rev_subsetD)
  then have "is_alnum d \<or> d = CHR ''_''" by (rule non_identifier_chars)
  then show "name_char c" unfolding c by (rule lower_name_char)
qed

lemma lstrip_hd: "dropWhile p s \<noteq> [] \<Longrightarrow> \<not> p (hd (dropWhile p s))"
  by (rule hd_dropWhile)

lemma strip_hd:
  assumes "strip_by p s \<noteq> []" shows "\<not> p (hd (strip_by p s))"
proof -
  let ?t = "dropWhile p s"
  have pre: "\<exists>u. ?t = strip_by p s @ u"
  proof -
    have "rev ?t = takeWhile p (rev ?t) @ dropWhile p (rev ?t)" by simp
    then have "?t = rev (dropWhile p (rev ?t)) @ rev (takeWhile p (rev ?t))"
      by (metis rev_append rev_rev_ident)
    then show ?thesis by (auto simp: strip_by_def rstrip_by_def lstrip_by_def)
  qed
  with assms obtain u where t: "?t = strip_by p s @ u" by blast
  with assms have ne: "?t \<noteq> []" by simp
  have "hd ?t = hd (strip_by p s)" unfolding t using assms by simp
  with lstrip_hd [OF ne] show ?thesis by simp
qed

lemma lower_char_underscore: "lower_char c = CHR ''_'' \<Longrightarrow> c = CHR ''_''"
proof -
  assume eq: "lower_char c = CHR ''_''"
  then have "code (lower_char c) = 95" by simp
  then have "\<not> (is_upper c \<or> 192 \<le> code c \<and> code c \<le> 222 \<and> code c \<noteq> 215)"
    by (auto simp: lower_char_code is_upper_def split: if_splits)
  with eq show ?thesis by (simp add: lower_char_def split: if_splits)
qed

lemma snake_case_hd: "snake_case s \<noteq> [] \<Longrightarrow> hd (snake_case s) \<noteq> CHR ''_''"
  using strip_hd [of "\<lambda>c. c = CHR ''_''"] lower_char_underscore
  by (fastforce simp: snake_case_def str_lower_def hd_map)

definition proper_name :: "string \<Rightarrow> bool" where
  "proper_name s \<longleftrightarrow> s \<noteq> [] \<and> is_lower (hd s) \<and> list_all name_char s"

lemma proper_name_match: "proper_name s \<Longrightarrow> rx_match TOOL_NAME_PATTERN s"
  by (cases s) (auto simp: proper_name_def TOOL_NAME_match name_char_def list_all_iff simp del: rx_match.simps)

text \<open>What is documented of a SHA-256 digest in hexadecimal.\<close>

definition hex_digests :: "platform \<Rightarrow> bool" where
  "hex_digests P \<longleftrightarrow> (\<forall>b. length (sha256_hex P b) = 64 \<and> list_all is_hex_lower (sha256_hex P b))"

lemma hex_name_char: "is_hex_lower c \<Longrightarrow> name_char c"
  by (auto simp: name_char_def is_hex_lower_def is_lower_or_digit_def is_lower_def)

lemma rstrip_hd:
  assumes "s \<noteq> []" and "\<not> p (hd s)"
  shows "rstrip_by p s \<noteq> [] \<and> hd (rstrip_by p s) = hd s"
proof -
  obtain c t where s: "s = c # t" using assms(1) by (cases s) auto
  have "dropWhile p (rev s) = dropWhile p (rev t @ [c])" using s by simp
  also have "\<dots> = dropWhile p (rev t) @ [c]"
    using assms(2) s by (simp add: dropWhile_append split: if_splits)
  finally show ?thesis by (simp add: rstrip_by_def s)
qed

lemma bounded_proper:
  assumes "hex_digests P" and "proper_name s"
  shows "proper_name (bounded P s) \<and> length (bounded P s) \<le> MAX_TOOL_NAME_LENGTH"
proof (cases "length s \<le> MAX_TOOL_NAME_LENGTH")
  case True
  with assms show ?thesis by (simp add: bounded_def)
next
  case False
  define suffix where "suffix = take 10 (sha256_hex P (utf8_encode s))"
  define pre where "pre = rstrip_by (\<lambda>c. c = CHR ''_'') (take 53 s)"
  have len: "length suffix = 10" and hexs: "list_all name_char suffix"
    using assms(1) hex_name_char unfolding suffix_def hex_digests_def
    by (auto simp: list_all_iff dest: in_set_takeD)
  have b: "bounded P s = pre @ ''_'' @ suffix"
    using False len by (simp add: bounded_def Let_def suffix_def pre_def MAX_TOOL_NAME_LENGTH_def)
  obtain c t where s: "s = c # t" using assms(2) by (cases s) (auto simp: proper_name_def)
  have c: "is_lower c" "c \<noteq> CHR ''_''" using assms(2) s by (auto simp: proper_name_def is_lower_def)
  then have pre: "pre \<noteq> [] \<and> hd pre = c"
    unfolding pre_def using rstrip_hd [of "take 53 s" "\<lambda>c. c = CHR ''_''"] s by simp
  have "set pre \<subseteq> set s"
    unfolding pre_def using set_rstrip_by [of _ "take 53 s"] set_take_subset [of 53 s] by blast
  then have "list_all name_char pre" using assms(2) by (auto simp: proper_name_def list_all_iff)
  moreover have "length pre \<le> 53"
    unfolding pre_def rstrip_by_def by (simp add: le_trans [OF length_dropWhile_le])
  ultimately show ?thesis
    using pre c hexs len unfolding b proper_name_def
    by (auto simp: name_char_def MAX_TOOL_NAME_LENGTH_def)
qed


lemma snake_case_proper:
  assumes "snake_case s \<noteq> []"
  shows "if is_digit (hd (snake_case s)) then proper_name (''op_'' @ snake_case s)
         else proper_name (snake_case s)"
proof -
  have all: "list_all name_char (snake_case s)" by (simp add: list_all_iff snake_case_chars)
  obtain c t where ct: "snake_case s = c # t" using assms by (cases "snake_case s") auto
  with all have "name_char c" by simp
  then have c: "is_lower c \<or> is_digit c"
    using snake_case_hd [OF assms] ct by (auto simp: name_char_def is_lower_or_digit_def)
  show ?thesis
  proof (cases "is_digit c")
    case True
    have "is_lower CHR ''o''" "name_char CHR ''o''" "name_char CHR ''p''" "name_char CHR ''_''" by code_simp+
    with True all ct show ?thesis by (simp add: proper_name_def)
  next
    case False
    with all ct c show ?thesis by (simp add: proper_name_def)
  qed
qed

lemma segment_words_chars: "w \<in> set (segment_words it) \<Longrightarrow> list_all name_char w"
proof -
  have by_ok: "list_all name_char ''by''" by code_simp
  assume "w \<in> set (segment_words it)"
  then show ?thesis
    using by_ok snake_case_chars
    by (auto simp: segment_words_def Let_def list_all_iff split: if_splits)
qed

lemma join_chars:
  "list_all p sep \<Longrightarrow> (\<And>w. w \<in> set ws \<Longrightarrow> list_all p w) \<Longrightarrow> list_all p (join_with sep ws)"
  by (induction sep ws rule: join_with.induct) auto

lemma METHOD_VERB_proper: "map_of METHOD_VERB m = Some v \<Longrightarrow> proper_name (v @ ''_'' @ s) \<longleftrightarrow> list_all name_char s"
proof -
  assume "map_of METHOD_VERB m = Some v"
  then have "v \<in> {''get'', ''create'', ''replace'', ''update'', ''delete''}"
    by (auto simp: METHOD_VERB_def split: if_splits)
  moreover have "list_all proper_name [''get'', ''create'', ''replace'', ''update'', ''delete'']" by code_simp
  moreover have "name_char CHR ''_''" by code_simp
  ultimately show ?thesis by (auto simp: proper_name_def)
qed

lemma names_proper:
  assumes "hex_digests P"
    and "normalize_tool_name P v = Inr n \<or> derive_tool_name P method path = Inr n"
  shows "proper_name n \<and> length n \<le> MAX_TOOL_NAME_LENGTH"
  using assms(2)
proof
  assume n: "normalize_tool_name P v = Inr n"
  then have ne: "snake_case v \<noteq> []"
    and n': "n = bounded P (if is_digit (hd (snake_case v)) then ''op_'' @ snake_case v else snake_case v)"
    by (auto simp: normalize_tool_name_def Let_def split: if_splits)
  show ?thesis unfolding n' using snake_case_proper [OF ne]
    by (intro bounded_proper [OF assms(1)]) (simp split: if_splits)
next
  assume n: "derive_tool_name P method path = Inr n"
  then obtain verb where verb: "map_of METHOD_VERB (str_lower method) = Some verb"
    by (auto simp: derive_tool_name_def split: option.splits)
  have us: "list_all name_char ''_''" "list_all name_char ''root''" by code_simp+
  from n verb obtain ws where n': "n = bounded P (verb @ ''_'' @ ws)" and ws: "list_all name_char ws"
    using us segment_words_chars
    by (fastforce simp: derive_tool_name_def Let_def split: if_splits intro!: join_chars)
  have "proper_name (verb @ ''_'' @ ws)" using METHOD_VERB_proper [OF verb] ws by simp
  then show ?thesis unfolding n' by (rule bounded_proper [OF assms(1)])
qed

text \<open>A name is empty exactly when nothing in the identifier is an ASCII letter or digit.\<close>

lemma camel_set: "set (camel_boundary s) \<subseteq> insert CHR ''_'' (set s)"
  by (induction s rule: camel_boundary.induct) auto

lemma acronym_set: "set (acronym_boundary s) \<subseteq> insert CHR ''_'' (set s)"
  by (induction s rule: acronym_boundary.induct) auto

lemma non_identifier_plain:
  "list_all (\<lambda>c. \<not> is_alnum c) s \<Longrightarrow> set (non_identifier b s) \<subseteq> {CHR ''_''}"
  by (induction b s rule: non_identifier.induct) auto

lemma strip_all: "set s \<subseteq> {c} \<Longrightarrow> strip_by (\<lambda>x. x = c) s = []"
proof -
  assume "set s \<subseteq> {c}"
  then have "dropWhile (\<lambda>x. x = c) s = []" by (auto simp: dropWhile_eq_Nil_conv)
  then show ?thesis by (simp only: strip_by_def lstrip_by_def rstrip_by_def rev.simps dropWhile.simps)
qed

lemma snake_case_plain: "list_all (\<lambda>c. \<not> is_alnum c) s \<Longrightarrow> snake_case s = []"
proof -
  assume s: "list_all (\<lambda>c. \<not> is_alnum c) s"
  have us: "\<not> is_alnum CHR ''_''" by code_simp
  have "list_all (\<lambda>c. \<not> is_alnum c) (acronym_boundary (camel_boundary s))"
    using s us camel_set [of s] acronym_set [of "camel_boundary s"] by (auto simp: list_all_iff)
  then show ?thesis
    using strip_all [OF non_identifier_plain] by (simp add: snake_case_def str_lower_def)
qed

section \<open>Properties\<close>

text \<open>
  Every tool name the converter produces, from an operation id or from the method and the path, is a
  valid dispatch identifier: it starts with a lower-case letter, holds only lower-case letters, digits
  and underscores, and has at most 64 characters.
\<close>

theorem tool_names_are_valid:
  assumes "hex_digests P"
    and "normalize_tool_name P v = Inr n \<or> derive_tool_name P method path = Inr n"
  shows "rx_match TOOL_NAME_PATTERN n \<and> 1 \<le> length n \<and> length n \<le> 64"
  using names_proper [OF assms] proper_name_match [of n]
  by (auto simp: proper_name_def MAX_TOOL_NAME_LENGTH_def Suc_le_eq)

lemma sample_hex: "hex_digests sample_platform"
  by (simp add: hex_digests_def sample_platform_def is_hex_lower_def is_digit_def list_all_iff)

lemma tool_names_are_valid_witness:
  "\<exists>n. normalize_tool_name sample_platform ''getHTTPTicket v2'' = Inr n \<and> n = ''get_http_ticket_v2'' \<and>
     rx_match TOOL_NAME_PATTERN n"
proof -
  have n: "normalize_tool_name sample_platform ''getHTTPTicket v2'' = Inr ''get_http_ticket_v2''" by code_simp
  from tool_names_are_valid [OF sample_hex disjI1 [OF n]] n show ?thesis by blast
qed

end
