(* ===== verification/Loader.thy ===== *)
theory Loader
  imports Canonical Naming
begin

text \<open>
  Ingestion of an uploaded API description:
  \<^verbatim>\<open>packages/openapi-converter/toollayer_openapi/loader.py\<close>. The tokenizers of the JSON and YAML
  libraries are arguments: they turn a text into a tree in document order, and what the module adds,
  the rejection of duplicate keys, the limits and the checks of the root, is modelled here.
\<close>

section \<open>Parsed trees\<close>

text \<open>
  A YAML scalar is the value its constructor builds, or the exception the constructor raises (an
  impossible date is a \<open>ValueError\<close>); the flag of a mapping entry tells a merge key.
\<close>

datatype ynode =
    YScalar "json res"
  | YSeq "ynode list"
  | YMap "(bool \<times> ynode \<times> ynode) list"

text \<open>A Python object before its keys are known to be strings.\<close>

datatype pyobj =
    PyLeaf json
  | PyList "pyobj list"
  | PyDict "(pyobj \<times> pyobj) list"

datatype 'a parse = Parsed 'a | Malformed | TooDeep

text \<open>Sizes of the parts, so that recursion through sequences and mappings is seen to end.\<close>

lemma size_YSeq_elem [termination_simp]: "n \<in> set ns \<Longrightarrow> size n < size (YSeq ns)"
  by (induction ns) auto

lemma size_YMap_elem [termination_simp]:
  "e \<in> set es \<Longrightarrow> size (fst (snd e)) < size (YMap es)"
  "e \<in> set es \<Longrightarrow> size (snd (snd e)) < size (YMap es)"
  by (induction es) auto

lemma size_PyList_elem [termination_simp]: "x \<in> set xs \<Longrightarrow> size x < size (PyList xs)"
  by (induction xs) auto

lemma size_PyDict_elem [termination_simp]:
  "p \<in> set kvs \<Longrightarrow> size (snd p) < size (PyDict kvs)"
  by (induction kvs) auto

text \<open>
  \<open>utf8_strict\<close> is \<^verbatim>\<open>bytes.decode("utf-8")\<close>; \<open>json_tree\<close> is \<^verbatim>\<open>json.loads\<close> with pairs kept as they are
  written (\<open>None\<close> for malformed text); \<open>yaml_opens\<close> tells whether the YAML reader accepts the
  characters of the text, \<open>yaml_tree\<close> is its composer, whose stack can overflow.
\<close>

record parsers =
  utf8_strict :: "string \<Rightarrow> string option"
  json_tree :: "string \<Rightarrow> json option"
  yaml_opens :: "string \<Rightarrow> bool"
  yaml_tree :: "string \<Rightarrow> ynode parse"

section \<open>JSON\<close>

definition non_finite :: exn where
  "non_finite = invalid_document ''the document contains a non-finite number'' []"

definition add_pair :: "string \<times> json \<Rightarrow> json dict \<Rightarrow> json dict res" where
  "add_pair p result =
     (if dhas (fst p) result
      then Inl (invalid_document ''the document contains a duplicate object key'' (''/'' @ fst p))
      else Inr (result @ [p]))"

definition strict_json_object_pairs :: "(string \<times> json) list \<Rightarrow> json dict res" where
  "strict_json_object_pairs pairs = rfold add_pair pairs []"

text \<open>The hooks run on the values first and then on the object that holds them.\<close>

fun run_hooks :: "json \<Rightarrow> json res" where
  "run_hooks (JFloat f) = (case f of Finite q \<Rightarrow> Inr (JFloat f) | _ \<Rightarrow> Inl non_finite)"
| "run_hooks (JArr xs) = rbind (rmap run_hooks xs) (\<lambda>ys. Inr (JArr ys))"
| "run_hooks (JObj kvs) =
     rbind (rmap (\<lambda>p. rbind (run_hooks (snd p)) (\<lambda>w. Inr (fst p, w))) kvs) (\<lambda>pairs.
     rbind (strict_json_object_pairs pairs) (\<lambda>d. Inr (JObj d)))"
| "run_hooks v = Inr v"

definition parse_json :: "parsers \<Rightarrow> string \<Rightarrow> json res" where
  "parse_json R t =
     (case json_tree R t of
        None \<Rightarrow> Inl (invalid_document ''the document is not well-formed JSON'' [])
      | Some v \<Rightarrow> run_hooks v)"

section \<open>YAML\<close>

text \<open>\<open>key in seen\<close>: a list or a dictionary as a key raises \<open>TypeError\<close>.\<close>

fun add_key :: "pyobj \<Rightarrow> json list \<Rightarrow> json list res" where
  "add_key (PyLeaf k) seen =
     (if py_in k seen
      then Inl (invalid_document ''the document contains a duplicate mapping key'' [])
      else Inr (k # seen))"
| "add_key _ seen = Inl (invalid_document ''object keys must be scalars'' [])"

function construct :: "ynode \<Rightarrow> pyobj res" where
  "construct (YScalar r) = rbind r (\<lambda>v. Inr (PyLeaf v))"
| "construct (YSeq ns) = rbind (rmap construct ns) (\<lambda>xs. Inr (PyList xs))"
| "construct (YMap entries) =
     rbind (rfold (\<lambda>e seen.
              if fst e
              then Inl (invalid_document
                     ''YAML merge keys are not supported; write the merged keys explicitly'' [])
              else rbind (construct (fst (snd e))) (\<lambda>key. add_key key seen)) entries []) (\<lambda>_.
     rbind (rmap (\<lambda>e. rbind (construct (fst (snd e))) (\<lambda>key.
              rbind (construct (snd (snd e))) (\<lambda>v. Inr (key, v)))) entries) (\<lambda>kvs. Inr (PyDict kvs)))"
  by pat_completeness auto
termination
  by (relation "measure size") (simp_all add: termination_simp del: ynode.size)

definition parse_yaml :: "parsers \<Rightarrow> string \<Rightarrow> pyobj res" where
  "parse_yaml R t =
     (if \<not> yaml_opens R t then Inl YamlError
      else case yaml_tree R t of
        Malformed \<Rightarrow> Inl (invalid_document ''the document is not well-formed YAML'' [])
      | TooDeep \<Rightarrow> Inl (document_too_large ''the document nests too deeply'')
      | Parsed n \<Rightarrow>
          catching (\<lambda>e. e = YamlError)
            (\<lambda>_. Inl (invalid_document ''the document is not well-formed YAML'' [])) (construct n))"

fun of_json :: "json \<Rightarrow> pyobj" where
  "of_json (JArr xs) = PyList (map of_json xs)"
| "of_json (JObj kvs) = PyDict (map (\<lambda>p. (PyLeaf (JStr (fst p)), of_json (snd p))) kvs)"
| "of_json v = PyLeaf v"

text \<open>The view of an object whose keys are strings as a JSON value.\<close>

fun key_text :: "pyobj \<Rightarrow> string" where
  "key_text (PyLeaf k) = str_of k"
| "key_text _ = []"

function to_json :: "pyobj \<Rightarrow> json" where
  "to_json (PyLeaf v) = v"
| "to_json (PyList xs) = JArr (map to_json xs)"
| "to_json (PyDict kvs) = JObj (map (\<lambda>p. (key_text (fst p), to_json (snd p))) kvs)"
  by pat_completeness auto
termination
  by (relation "measure size") (simp_all add: termination_simp del: pyobj.size)

section \<open>Limits\<close>

record source_limits =
  max_bytes :: nat
  max_depth :: nat
  max_nodes :: nat
  max_operations :: nat

definition default_source_limits :: source_limits where
  "default_source_limits = \<lparr>max_bytes = 2 * 1024 * 1024, max_depth = 64, max_nodes = 200000, max_operations = 256\<rparr>"

definition push_entry :: "nat \<Rightarrow> pyobj \<times> pyobj \<Rightarrow> (pyobj \<times> nat) list \<Rightarrow> (pyobj \<times> nat) list res" where
  "push_entry depth p stack =
     (case fst p of
        PyLeaf (JStr k) \<Rightarrow> Inr ((snd p, Suc depth) # stack)
      | _ \<Rightarrow> Inl (invalid_document ''object keys must be strings'' []))"

definition push_children :: "pyobj \<Rightarrow> nat \<Rightarrow> (pyobj \<times> nat) list \<Rightarrow> (pyobj \<times> nat) list res" where
  "push_children node depth stack =
     (case node of
        PyDict kvs \<Rightarrow> rfold (push_entry depth) kvs stack
      | PyList xs \<Rightarrow> Inr (rev (map (\<lambda>x. (x, Suc depth)) xs) @ stack)
      | PyLeaf (JFloat f) \<Rightarrow> (case f of Finite q \<Rightarrow> Inr stack | _ \<Rightarrow> Inl non_finite)
      | _ \<Rightarrow> Inr stack)"

text \<open>The loop over an explicit stack, whose end is popped first; the stack is held reversed.\<close>

function shape_loop :: "source_limits \<Rightarrow> (pyobj \<times> nat) list \<Rightarrow> nat \<Rightarrow> unit res" where
  "shape_loop L [] nodes = Inr ()"
| "shape_loop L ((current, depth) # stack) nodes =
     (if max_nodes L < Suc nodes
      then Inl (document_too_large ''the document contains too many nodes'')
      else if max_depth L < depth
      then Inl (document_too_large ''the document nests too deeply'')
      else rbind (push_children current depth stack) (\<lambda>stack'. shape_loop L stack' (Suc nodes)))"
  by pat_completeness auto
termination
  by (relation "measure (\<lambda>(L, stack, nodes). max_nodes L - nodes)") auto

definition enforce_shape :: "source_limits \<Rightarrow> pyobj \<Rightarrow> unit res" where
  "enforce_shape L node = shape_loop L [(node, 0)] 0"

section \<open>Loading\<close>

record loaded_document =
  doc_content :: "json dict"
  doc_spec_version :: string
  doc_filename :: string
  doc_digest :: string
  doc_byte_length :: nat
  doc_format :: string

definition check_root ::
  "platform \<Rightarrow> string \<Rightarrow> string \<Rightarrow> string \<Rightarrow> json dict \<Rightarrow> loaded_document res" where
  "check_root P raw filename fmt d =
     (case jget d ''openapi'' of
        JStr version \<Rightarrow>
          if version = []
          then Inl (invalid_document (''the document must declare a string '' @ repr_str ''openapi''
                      @ '' version'') ''/openapi'')
          else if \<not> starts_with ''3.'' version
          then Inl (invalid_document ''only OpenAPI 3.x documents are supported'' ''/openapi'')
          else if \<not> is_obj (jget d ''paths'')
          then Inl (invalid_document (''the document must declare a '' @ repr_str ''paths'' @ '' object'')
                      ''/paths'')
          else Inr \<lparr>doc_content = d, doc_spec_version = version, doc_filename = filename,
                    doc_digest = digest_of P raw, doc_byte_length = length raw, doc_format = fmt\<rparr>
      | _ \<Rightarrow> Inl (invalid_document (''the document must declare a string '' @ repr_str ''openapi''
               @ '' version'') ''/openapi''))"

definition check_upload :: "source_limits \<Rightarrow> string \<Rightarrow> unit res" where
  "check_upload L raw =
     (if raw = [] then Inl (invalid_document ''the uploaded document is empty'' [])
      else if max_bytes L < length raw
      then Inl (document_too_large (''the uploaded document exceeds the ''
                  @ string_of_nat (max_bytes L) @ '' byte ingestion limit''))
      else if starts_with [CHR 0xEF, CHR 0xBB, CHR 0xBF] raw
      then Inl (invalid_document ''the uploaded document starts with a UTF-8 byte order mark'' [])
      else Inr ())"

definition parse_text :: "parsers \<Rightarrow> string \<Rightarrow> (string \<times> pyobj) res" where
  "parse_text R t =
     (let stripped = lstrip_by is_space t in
      if starts_with ''{'' stripped \<or> starts_with ''['' stripped
      then rbind (parse_json R t) (\<lambda>v. Inr (''json'', of_json v))
      else rbind (parse_yaml R t) (\<lambda>v. Inr (''yaml'', v)))"

definition load_document ::
  "platform \<Rightarrow> parsers \<Rightarrow> source_limits \<Rightarrow> string \<Rightarrow> string \<Rightarrow> loaded_document res" where
  "load_document P R L raw filename =
     rbind (check_upload L raw) (\<lambda>_.
       case utf8_strict R raw of
         None \<Rightarrow> Inl (invalid_document ''the uploaded document is not valid UTF-8'' [])
       | Some t \<Rightarrow>
           rbind (parse_text R t) (\<lambda>parsed.
             case snd parsed of
               PyDict kvs \<Rightarrow>
                 rbind (enforce_shape L (snd parsed)) (\<lambda>_.
                   check_root P raw filename (fst parsed) (obj_of (to_json (snd parsed))))
             | _ \<Rightarrow> Inl (invalid_document ''the document root must be an object'' [])))"

section \<open>The shape of a document\<close>

text \<open>
  What the walk over the explicit stack is meant to compute: the number of nodes, the depth, and
  whether every node is acceptable by itself.
\<close>

fun children :: "pyobj \<Rightarrow> pyobj list" where
  "children (PyLeaf v) = []"
| "children (PyList xs) = xs"
| "children (PyDict kvs) = map snd kvs"

fun string_key :: "pyobj \<Rightarrow> bool" where
  "string_key (PyLeaf k) = is_str k"
| "string_key _ = False"

fun node_ok :: "pyobj \<Rightarrow> bool" where
  "node_ok (PyLeaf (JFloat f)) = (case f of Finite q \<Rightarrow> True | _ \<Rightarrow> False)"
| "node_ok (PyDict kvs) = list_all (\<lambda>p. string_key (fst p)) kvs"
| "node_ok _ = True"

lemma children_size [termination_simp]: "c \<in> set (children x) \<Longrightarrow> size c < size x"
  using size_PyDict_elem by (cases x) (fastforce simp: size_PyList_elem simp del: pyobj.size)+

function node_count :: "pyobj \<Rightarrow> nat" where
  "node_count x = Suc (sum_list (map node_count (children x)))"
  by pat_completeness auto
termination by (relation "measure size") (simp_all add: children_size)

function node_depth :: "pyobj \<Rightarrow> nat" where
  "node_depth x = foldr max (map (\<lambda>c. Suc (node_depth c)) (children x)) 0"
  by pat_completeness auto
termination by (relation "measure size") (simp_all add: children_size)

function nodes_ok :: "pyobj \<Rightarrow> bool" where
  "nodes_ok x \<longleftrightarrow> node_ok x \<and> list_all nodes_ok (children x)"
  by pat_completeness auto
termination by (relation "measure size") (simp_all add: children_size)

declare node_count.simps [simp del] node_depth.simps [simp del] nodes_ok.simps [simp del]

lemma push_entries:
  "rfold (push_entry d) kvs stack =
     (if list_all (\<lambda>p. string_key (fst p)) kvs
      then Inr (rev (map (\<lambda>p. (snd p, Suc d)) kvs) @ stack)
      else Inl (invalid_document ''object keys must be strings'' []))"
proof (induction kvs arbitrary: stack)
  case (Cons p kvs)
  have "push_entry d p stack =
      (if string_key (fst p) then Inr ((snd p, Suc d) # stack)
       else Inl (invalid_document ''object keys must be strings'' []))"
    by (auto simp: push_entry_def is_str_iff split: pyobj.splits json.splits)
  then show ?case using Cons.IH by simp
qed simp

lemma push_children_ok:
  "push_children x d stack = Inr stack' \<longleftrightarrow>
     node_ok x \<and> stack' = rev (map (\<lambda>c. (c, Suc d)) (children x)) @ stack"
proof (cases x)
  case (PyLeaf v)
  then show ?thesis by (cases v) (auto simp: push_children_def split: pyfloat.splits)
next
  case (PyDict kvs)
  then show ?thesis by (auto simp: push_children_def push_entries comp_def)
qed (auto simp: push_children_def)

lemma foldr_max_le: "foldr max ns (0 :: nat) \<le> b \<longleftrightarrow> (\<forall>n\<in>set ns. n \<le> b)"
  by (induction ns) auto

lemma depth_step: "d + node_depth x \<le> b \<longleftrightarrow> d \<le> b \<and> (\<forall>c\<in>set (children x). Suc d + node_depth c \<le> b)"
proof (cases "d \<le> b")
  case True
  then have "d + node_depth x \<le> b \<longleftrightarrow> node_depth x \<le> b - d" by linarith
  also have "\<dots> \<longleftrightarrow> (\<forall>c\<in>set (children x). Suc (node_depth c) \<le> b - d)"
    by (subst node_depth.simps) (simp add: foldr_max_le)
  finally show ?thesis using True by fastforce
qed simp

lemma shape_loop_ok:
  "n \<le> max_nodes L \<Longrightarrow>
   shape_loop L stack n = Inr () \<longleftrightarrow>
     n + sum_list (map (\<lambda>e. node_count (fst e)) stack) \<le> max_nodes L \<and>
     (\<forall>e\<in>set stack. snd e + node_depth (fst e) \<le> max_depth L \<and> nodes_ok (fst e))"
proof (induction L stack n rule: shape_loop.induct)
  case (2 L x d stack n)
  let ?cs = "rev (map (\<lambda>c. (c, Suc d)) (children x))"
  have count: "n + sum_list (map (\<lambda>e. node_count (fst e)) ((x, d) # stack)) =
      Suc n + sum_list (map (\<lambda>e. node_count (fst e)) (?cs @ stack))"
    by (simp add: node_count.simps [of x] rev_map [symmetric] comp_def)
  show ?case
  proof (cases "max_nodes L < Suc n \<or> max_depth L < d \<or> \<not> node_ok x")
    case True
    then show ?thesis
    proof (elim disjE)
      assume "max_nodes L < Suc n"
      then show ?thesis by (simp add: node_count.simps [of x])
    next
      assume "\<not> node_ok x"
      then have "push_children x d stack \<noteq> Inr s" for s by (simp add: push_children_ok)
      then obtain e where "push_children x d stack = Inl e" by (cases "push_children x d stack") auto
      with \<open>\<not> node_ok x\<close> show ?thesis by (simp add: nodes_ok.simps [of x])
    qed simp
  next
    case False
    then have push: "push_children x d stack = Inr (?cs @ stack)" by (simp add: push_children_ok)
    have "shape_loop L ((x, d) # stack) n = shape_loop L (?cs @ stack) (Suc n)"
      using False push by simp
    also have "\<dots> = Inr () \<longleftrightarrow>
        Suc n + sum_list (map (\<lambda>e. node_count (fst e)) (?cs @ stack)) \<le> max_nodes L \<and>
        (\<forall>e\<in>set (?cs @ stack). snd e + node_depth (fst e) \<le> max_depth L \<and> nodes_ok (fst e))"
      using False push by (intro "2.IH") auto
    finally show ?thesis
      using False unfolding count [symmetric]
      by (auto simp: depth_step [of d x] nodes_ok.simps [of x] list_all_iff ball_Un)
  qed
qed simp

lemma shape_check_ok:
  "enforce_shape L node = Inr () \<longleftrightarrow>
     node_count node \<le> max_nodes L \<and> node_depth node \<le> max_depth L \<and> nodes_ok node"
  by (simp add: enforce_shape_def shape_loop_ok del: shape_loop.simps)

text \<open>
  The iterative walk accepts a parsed document exactly when it has at most \<open>max_nodes\<close> nodes, is
  at most \<open>max_depth\<close> deep, has only strings as keys and contains no infinite or undefined number.
\<close>

theorem shape_check_is_exact:
  "enforce_shape L node = Inr () \<longleftrightarrow>
     node_count node \<le> max_nodes L \<and> node_depth node \<le> max_depth L \<and> nodes_ok node"
  by (rule shape_check_ok)

section \<open>Loaded documents\<close>

text \<open>Every object, at any depth, has each key once.\<close>

fun distinct_keys :: "json \<Rightarrow> bool" where
  "distinct_keys (JObj kvs) \<longleftrightarrow> dict_ok kvs \<and> list_all (\<lambda>p. distinct_keys (snd p)) kvs"
| "distinct_keys (JArr xs) \<longleftrightarrow> list_all distinct_keys xs"
| "distinct_keys _ = True"

text \<open>The trees the two parsers build: leaves are scalars and string keys do not repeat.\<close>

fun tree_node :: "pyobj \<Rightarrow> bool" where
  "tree_node (PyLeaf v) \<longleftrightarrow> \<not> is_obj v \<and> \<not> is_arr v"
| "tree_node (PyDict kvs) \<longleftrightarrow>
     (list_all (\<lambda>p. string_key (fst p)) kvs \<longrightarrow> distinct (map (\<lambda>p. key_text (fst p)) kvs))"
| "tree_node _ = True"

function tree_ok :: "pyobj \<Rightarrow> bool" where
  "tree_ok x \<longleftrightarrow> tree_node x \<and> list_all tree_ok (children x)"
  by pat_completeness auto
termination by (relation "measure size") (simp_all add: children_size)

declare tree_ok.simps [simp del]

lemma tree_ok_simps [simp]:
  "tree_ok (PyLeaf v) \<longleftrightarrow> \<not> is_obj v \<and> \<not> is_arr v"
  "tree_ok (PyList xs) \<longleftrightarrow> list_all tree_ok xs"
  "tree_ok (PyDict kvs) \<longleftrightarrow> tree_node (PyDict kvs) \<and> list_all (\<lambda>p. tree_ok (snd p)) kvs"
  by (subst tree_ok.simps, simp add: list_all_iff)+

lemma nodes_ok_simps [simp]:
  "nodes_ok (PyLeaf v) \<longleftrightarrow> node_ok (PyLeaf v)"
  "nodes_ok (PyList xs) \<longleftrightarrow> list_all nodes_ok xs"
  "nodes_ok (PyDict kvs) \<longleftrightarrow> list_all (\<lambda>p. string_key (fst p)) kvs \<and> list_all (\<lambda>p. nodes_ok (snd p)) kvs"
  by (subst nodes_ok.simps, simp add: list_all_iff)+

lemma string_key_text: "string_key k \<Longrightarrow> k = PyLeaf (JStr (key_text k))"
  by (cases k) (auto simp: is_str_iff)

text \<open>On such a tree the view as a JSON value loses nothing.\<close>

lemma pyobj_children_induct [case_names Node]:
  assumes "\<And>x. (\<And>c. c \<in> set (children x) \<Longrightarrow> Q c) \<Longrightarrow> Q x"
  shows "Q x"
  by (induction x rule: measure_induct_rule [of size]) (blast intro: assms children_size)

lemma of_json_to_json:
  "tree_ok x \<Longrightarrow> nodes_ok x \<Longrightarrow> of_json (to_json x) = x \<and> distinct_keys (to_json x)"
proof (induction x rule: pyobj_children_induct)
  case (Node x)
  show ?case
  proof (cases x)
    case (PyLeaf v)
    with Node.prems show ?thesis by (cases v) simp_all
  next
    case (PyList xs)
    with Node show ?thesis by (auto simp: list_all_iff intro: map_idI)
  next
    case (PyDict kvs)
    have sub: "of_json (to_json (snd p)) = snd p \<and> distinct_keys (to_json (snd p))"
      and key: "PyLeaf (JStr (key_text (fst p))) = fst p" if "p \<in> set kvs" for p
      using Node that PyDict string_key_text by (auto simp: list_all_iff)
    have "map (\<lambda>p. (PyLeaf (JStr (key_text (fst p))), of_json (to_json (snd p)))) kvs = kvs"
      using sub key by (intro map_idI) simp
    moreover have "dict_ok (map (\<lambda>p. (key_text (fst p), to_json (snd p))) kvs)"
      using Node.prems PyDict by (simp add: dict_ok_def dkeys_def comp_def)
    ultimately show ?thesis using PyDict sub by (simp add: comp_def list_all_iff)
  qed
qed

lemma distinct_of_json: "distinct_keys w \<Longrightarrow> tree_ok (of_json w) \<and> to_json (of_json w) = w"
proof (induction w rule: json_obj_induct)
  case (Arr xs)
  then show ?case by (auto simp: list_all_iff comp_def intro: map_idI)
next
  case (Obj kvs)
  have sub: "tree_ok (of_json (snd p)) \<and> to_json (of_json (snd p)) = snd p" if "p \<in> set kvs" for p
    using Obj that by (cases p) (auto simp: list_all_iff)
  then have "map (\<lambda>p. (fst p, to_json (of_json (snd p)))) kvs = kvs" by (intro map_idI) simp
  with sub Obj.prems show ?case by (auto simp: comp_def list_all_iff dict_ok_def dkeys_def)
qed simp_all

text \<open>The hooks of the JSON reader refuse repeated keys.\<close>

lemma strict_pairs: "strict_json_object_pairs ps = Inr d \<Longrightarrow> d = ps \<and> dict_ok ps"
proof -
  have "rfold add_pair ps d0 = Inr d \<Longrightarrow> dict_ok d0 \<Longrightarrow> d = d0 @ ps \<and> dict_ok d" for d0
  proof (induction ps arbitrary: d0)
    case (Cons p ps)
    from Cons.prems(1) obtain d1 where d1: "add_pair p d0 = Inr d1" and "rfold add_pair ps d1 = Inr d"
      by (auto simp: res_simps)
    from d1 have new: "\<not> dhas (fst p) d0" and "d1 = d0 @ [p]"
      by (auto simp: add_pair_def split: if_splits)
    with \<open>rfold add_pair ps d1 = Inr d\<close> have rest: "rfold add_pair ps (d0 @ [p]) = Inr d" by simp
    from new Cons.prems(2) have "dict_ok (d0 @ [p])"
      by (auto simp: dict_ok_def dkeys_def dhas_def)
    from Cons.IH [OF rest this] show ?case by auto
  qed simp
  from this [of "[]"] show "strict_json_object_pairs ps = Inr d \<Longrightarrow> d = ps \<and> dict_ok ps"
    by (auto simp: strict_json_object_pairs_def)
qed

lemma run_hooks_distinct: "run_hooks v = Inr w \<Longrightarrow> distinct_keys w"
proof (induction v arbitrary: w rule: json_obj_induct)
  case (Float f)
  then show ?case by (cases f) auto
next
  case (Arr xs)
  then obtain ys where ys: "rmap run_hooks xs = Inr ys" and w: "w = JArr ys" by (auto simp: res_simps)
  then show ?case using rmap_Inr_elem [OF ys] Arr.IH by (auto simp: list_all_iff)
next
  case (Obj kvs)
  then obtain ps where ps: "rmap (\<lambda>p. rbind (run_hooks (snd p)) (\<lambda>w. Inr (fst p, w))) kvs = Inr ps"
    and w: "w = JObj ps" "dict_ok ps"
    by (auto simp: res_simps dest!: strict_pairs)
  have "distinct_keys (snd q)" if q: "q \<in> set ps" for q
  proof -
    from rmap_Inr_elem [OF ps q] obtain p where "p \<in> set kvs" "run_hooks (snd p) = Inr (snd q)"
      by (auto simp: res_simps)
    then show ?thesis using Obj.IH [of "fst p" "snd p"] by simp
  qed
  with w show ?case by (simp add: list_all_iff)
qed auto

text \<open>
  The scalar constructors of the YAML library build no list and no dictionary, which is what makes a
  scalar a scalar.
\<close>

function scalar_tree :: "ynode \<Rightarrow> bool" where
  "scalar_tree (YScalar r) = (case r of Inl e \<Rightarrow> True | Inr v \<Rightarrow> \<not> is_obj v \<and> \<not> is_arr v)"
| "scalar_tree (YSeq ns) = list_all scalar_tree ns"
| "scalar_tree (YMap es) = list_all (\<lambda>e. scalar_tree (snd (snd e))) es"
  by pat_completeness auto
termination by (relation "measure size") (simp_all add: termination_simp del: ynode.size)

definition scalar_constructors :: "parsers \<Rightarrow> bool" where
  "scalar_constructors R \<longleftrightarrow> (\<forall>t n. yaml_tree R t = Parsed n \<longrightarrow> scalar_tree n)"

lemma py_in_string: "py_in (JStr s) seen \<longleftrightarrow> JStr s \<in> set seen"
proof -
  have "py_eq (JStr s) v \<longleftrightarrow> v = JStr s" for v
    by (cases v) (auto simp: py_eq.simps [of "JStr s"])
  then show ?thesis by (auto simp: py_in_def list_ex_iff)
qed

lemma keys_once:
  assumes "rfold (\<lambda>e seen. if fst e then Inl (m :: exn)
      else rbind (construct (fst (snd e))) (\<lambda>key. add_key key seen)) es seen = Inr seen'"
    and "rmap (\<lambda>e. rbind (construct (fst (snd e))) (\<lambda>key.
      rbind (construct (snd (snd e))) (\<lambda>v. Inr (key, v)))) es = Inr kvs"
    and "list_all (\<lambda>p. string_key (fst p)) kvs"
  shows "distinct (map (\<lambda>p. key_text (fst p)) kvs) \<and>
    (\<forall>p\<in>set kvs. JStr (key_text (fst p)) \<notin> set seen)"
  using assms
proof (induction es arbitrary: seen kvs)
  case (Cons e es)
  then obtain k v rest mid where k: "construct (fst (snd e)) = Inr k" and kvs: "kvs = (k, v) # rest"
    and add: "add_key k seen = Inr mid"
    and fold: "rfold (\<lambda>e seen. if fst e then Inl (m :: exn)
      else rbind (construct (fst (snd e))) (\<lambda>key. add_key key seen)) es mid = Inr seen'"
    and rmap: "rmap (\<lambda>e. rbind (construct (fst (snd e))) (\<lambda>key.
      rbind (construct (snd (snd e))) (\<lambda>v. Inr (key, v)))) es = Inr rest"
    by (auto simp: res_simps split: if_splits)
  from Cons.prems(3) kvs have "string_key k" and rest: "list_all (\<lambda>p. string_key (fst p)) rest" by simp_all
  then have "k = PyLeaf (JStr (key_text k))" using string_key_text by blast
  with add have mid: "mid = JStr (key_text k) # seen" and new: "JStr (key_text k) \<notin> set seen"
    using py_in_string [of "key_text k" seen] add
      add_key.simps(1) [of "JStr (key_text k)" seen] by (simp_all split: if_splits)
  from Cons.IH [OF fold rmap rest] show ?case unfolding mid kvs using new by auto
qed simp

lemma construct_tree: "scalar_tree n \<Longrightarrow> construct n = Inr x \<Longrightarrow> tree_ok x"
proof (induction n arbitrary: x rule: measure_induct_rule [of size])
  case (less n)
  show ?case
  proof (cases n)
    case (YScalar r)
    with less.prems show ?thesis by (auto simp: res_simps)
  next
    case (YSeq ns)
    with less.prems obtain xs where xs: "rmap construct ns = Inr xs" and x: "x = PyList xs"
      by (auto simp: res_simps)
    have "tree_ok y" if y: "y \<in> set xs" for y
    proof -
      from rmap_Inr_elem [OF xs y] obtain m where m: "m \<in> set ns" "construct m = Inr y" by blast
      with less.prems YSeq have "scalar_tree m" by (simp add: list_all_iff)
      then show ?thesis using less.IH [of m y] m YSeq size_YSeq_elem by blast
    qed
    with x show ?thesis by (simp add: list_all_iff)
  next
    case (YMap es)
    with less.prems(2) obtain seen kvs where
      fold: "rfold (\<lambda>e seen. if fst e
              then Inl (invalid_document
                     ''YAML merge keys are not supported; write the merged keys explicitly'' [])
              else rbind (construct (fst (snd e))) (\<lambda>key. add_key key seen)) es [] = Inr seen"
      and rmap: "rmap (\<lambda>e. rbind (construct (fst (snd e))) (\<lambda>key.
              rbind (construct (snd (snd e))) (\<lambda>v. Inr (key, v)))) es = Inr kvs"
      and x: "x = PyDict kvs"
      by (auto simp: res_simps)
    have "tree_ok (snd q)" if q: "q \<in> set kvs" for q
    proof -
      from rmap_Inr_elem [OF rmap q] obtain e where e: "e \<in> set es" "construct (snd (snd e)) = Inr (snd q)"
        by (auto simp: res_simps)
      with less.prems YMap have "scalar_tree (snd (snd e))" by (simp add: list_all_iff)
      then show ?thesis using less.IH [of "snd (snd e)" "snd q"] e YMap size_YMap_elem(2) by blast
    qed
    with keys_once [OF fold rmap] x show ?thesis by (simp add: list_all_iff)
  qed
qed

lemma loaded_document_facts:
  assumes "load_document P R L raw filename = Inr doc" and "scalar_constructors R"
  shows "distinct_keys (JObj (doc_content doc)) \<and>
    enforce_shape L (of_json (JObj (doc_content doc))) = Inr () \<and>
    is_obj (jget (doc_content doc) ''paths'') \<and> starts_with ''3.'' (doc_spec_version doc) \<and>
    jget (doc_content doc) ''openapi'' = JStr (doc_spec_version doc) \<and>
    doc_digest doc = digest_of P raw \<and> length raw \<le> max_bytes L"
proof -
  from assms(1) obtain t parsed where len: "length raw \<le> max_bytes L" and t: "parse_text R t = Inr parsed"
    and "(case snd parsed of
            PyDict kvs \<Rightarrow> rbind (enforce_shape L (snd parsed)) (\<lambda>_.
              check_root P raw filename (fst parsed) (obj_of (to_json (snd parsed))))
          | _ \<Rightarrow> Inl (invalid_document ''the document root must be an object'' [])) = Inr doc"
    by (auto simp: load_document_def check_upload_def res_simps split: option.splits if_splits)
  then obtain fmt kvs where parsed: "parse_text R t = Inr (fmt, PyDict kvs)"
    and shape: "enforce_shape L (PyDict kvs) = Inr ()"
    and root: "check_root P raw filename fmt (obj_of (to_json (PyDict kvs))) = Inr doc"
    by (cases parsed) (auto simp: res_simps split: pyobj.splits)
  have "tree_ok (PyDict kvs)"
  proof (cases "fmt = ''json''")
    case True
    with parsed obtain v where v: "parse_json R t = Inr v" "PyDict kvs = of_json v"
      by (auto simp: parse_text_def Let_def res_simps split: if_splits)
    then obtain u where "run_hooks u = Inr v" by (auto simp: parse_json_def split: option.splits)
    then show ?thesis using v(2) run_hooks_distinct distinct_of_json by metis
  next
    case False
    with parsed have "parse_yaml R t = Inr (PyDict kvs)"
      by (auto simp: parse_text_def Let_def res_simps split: if_splits)
    then obtain n where "yaml_tree R t = Parsed n" "construct n = Inr (PyDict kvs)"
        by (auto simp: parse_yaml_def catching_Inr split: if_splits parse.splits)
    then show ?thesis using construct_tree assms(2) unfolding scalar_constructors_def by blast
  qed
  moreover have "nodes_ok (PyDict kvs)" using shape unfolding shape_check_ok by simp
  ultimately have c: "of_json (to_json (PyDict kvs)) = PyDict kvs" "distinct_keys (to_json (PyDict kvs))"
    using of_json_to_json by blast+
  have "JObj (obj_of (to_json (PyDict kvs))) = to_json (PyDict kvs)" by simp
  moreover have "doc_content doc = obj_of (to_json (PyDict kvs))"
    "jget (doc_content doc) ''openapi'' = JStr (doc_spec_version doc)"
    "starts_with ''3.'' (doc_spec_version doc)" "is_obj (jget (doc_content doc) ''paths'')"
    "doc_digest doc = digest_of P raw"
    using root by (auto simp: check_root_def split: json.splits if_splits)
  ultimately show ?thesis using c shape len by metis
qed

text \<open>
  C17: A loaded document is unambiguous and within the limits: at every depth each object has each key
  once, the walk accepts it, its root declares an OpenAPI 3 version and an object of paths, and it is
  recorded with the digest of exactly the bytes that were uploaded.
\<close>

theorem loaded_document_is_unambiguous:
  assumes "load_document P R L raw filename = Inr doc" and "scalar_constructors R"
  shows "distinct_keys (JObj (doc_content doc)) \<and>
    enforce_shape L (of_json (JObj (doc_content doc))) = Inr () \<and>
    is_obj (jget (doc_content doc) ''paths'') \<and> starts_with ''3.'' (doc_spec_version doc) \<and>
    jget (doc_content doc) ''openapi'' = JStr (doc_spec_version doc) \<and>
    doc_digest doc = digest_of P raw \<and> length raw \<le> max_bytes L"
  using loaded_document_facts [OF assms] .

definition sample_parsers :: parsers where
  "sample_parsers =
     \<lparr>utf8_strict = Some,
      json_tree = (\<lambda>t. if t = ''{}'' then Some (JObj [(''openapi'', JStr ''3.1.0''), (''paths'', JObj [])])
                     else None),
      yaml_opens = (\<lambda>t. newline \<notin> set t),
      yaml_tree = (\<lambda>t. Parsed (YMap [(False, YScalar (Inr (JStr ''day'')), YScalar (Inl ValueError))]))\<rparr>"

definition sample_loaded :: loaded_document where
  "sample_loaded =
     \<lparr>doc_content = [(''openapi'', JStr ''3.1.0''), (''paths'', JObj [])], doc_spec_version = ''3.1.0'',
      doc_filename = ''a.json'', doc_digest = digest_of sample_platform ''{}'', doc_byte_length = 2,
      doc_format = ''json''\<rparr>"

lemma loaded_document_is_unambiguous_witness:
  "load_document sample_platform sample_parsers default_source_limits ''{}'' ''a.json'' = Inr sample_loaded \<and>
   enforce_shape default_source_limits (of_json (JObj (doc_content sample_loaded))) = Inr ()"
proof -
  have "load_document sample_platform sample_parsers default_source_limits ''{}'' ''a.json'' = Inr sample_loaded"
    by code_simp
  moreover have "scalar_constructors sample_parsers"
    by (simp add: scalar_constructors_def sample_parsers_def)
  ultimately show ?thesis using loaded_document_is_unambiguous by blast
qed

text \<open>
  Two kinds of YAML upload end in an exception that is not the package's own: a text with a
  character the YAML reader refuses, because the loader is constructed before the \<^verbatim>\<open>try\<close>, and a
  scalar whose constructor raises \<^verbatim>\<open>ValueError\<close>, such as a date that does not exist.
\<close>

theorem unreadable_yaml_escapes:
  assumes "check_upload L raw = Inr ()" and "utf8_strict R raw = Some t"
    and "hd (lstrip_by is_space t) \<notin> {CHR ''{'', CHR ''[''}" and "lstrip_by is_space t \<noteq> []"
    and "\<not> yaml_opens R t \<or>
      yaml_tree R t = Parsed (YMap [(False, YScalar (Inr (JStr k)), YScalar (Inl ValueError))])"
  shows "load_document P R L raw filename = Inl (if yaml_opens R t then ValueError else YamlError)"
proof -
  from assms(3,4) have "\<not> (starts_with ''{'' (lstrip_by is_space t) \<or> starts_with ''['' (lstrip_by is_space t))"
    by (cases "lstrip_by is_space t") auto
  then have "parse_text R t = rbind (parse_yaml R t) (\<lambda>v. Inr (''yaml'', v))"
    by (simp add: parse_text_def Let_def)
  moreover have "parse_yaml R t = Inl (if yaml_opens R t then ValueError else YamlError)"
    using assms(5) by (auto simp: parse_yaml_def py_in_def)
  ultimately show ?thesis using assms(1,2) by (simp add: load_document_def)
qed

lemma unreadable_yaml_escapes_witness:
  "load_document sample_platform sample_parsers default_source_limits [CHR ''a'', newline] ''a.yaml'' = Inl YamlError"
  using unreadable_yaml_escapes [of default_source_limits "[CHR ''a'', newline]" sample_parsers "[CHR ''a'', newline]" "[]" sample_platform]
  by (simp add: check_upload_def default_source_limits_def sample_parsers_def lstrip_by_def is_space_def newline_def)

end
