(* ===== verification/References.thy ===== *)
theory References
  imports Naming
begin

text \<open>
  Same-document references: \<^verbatim>\<open>packages/openapi-converter/toollayer_openapi/references.py\<close>. Resolution
  is a total function: every call is one level deeper and the depth is bounded. What it returns holds
  no reference, and how large that can be is the subject of the last section.
\<close>

section \<open>Resolution\<close>

definition MAX_RESOLUTION_DEPTH :: nat where
  "MAX_RESOLUTION_DEPTH = 32"

definition reference_pointer :: "json \<Rightarrow> string \<Rightarrow> string res" where
  "reference_pointer reference ptr =
     (case reference of
        JStr s \<Rightarrow>
          if s = [] then Inl (invalid_document ''a $ref value must be a non-empty string'' ptr)
          else if \<not> starts_with ''#/'' s
          then Inl (unsupported_feature
                      ''only same-document references of the form '#/...' are supported'' ptr)
          else Inr (tl s)
      | _ \<Rightarrow> Inl (invalid_document ''a $ref value must be a non-empty string'' ptr))"

fun step_into :: "string \<Rightarrow> json \<Rightarrow> string \<Rightarrow> json res" where
  "step_into origin (JObj d) key =
     (case dget d key of
        None \<Rightarrow> Inl (invalid_document ''a $ref points at a node the document does not contain'' origin)
      | Some v \<Rightarrow> Inr v)"
| "step_into origin (JArr xs) key =
     (case py_int key of
        None \<Rightarrow> Inl (invalid_document ''a $ref uses a non-numeric index into an array'' origin)
      | Some i \<Rightarrow>
          if i < 0 \<or> int (length xs) \<le> i
          then Inl (invalid_document ''a $ref points past the end of an array'' origin)
          else Inr (xs ! nat i))"
| "step_into origin v key =
     Inl (invalid_document ''a $ref traverses into a value that is not an object or array'' origin)"

definition dereference :: "json dict \<Rightarrow> string \<Rightarrow> string \<Rightarrow> json res" where
  "dereference doc target origin =
     rfold (\<lambda>token current. step_into origin current (decode_pointer_token token))
       (tl (split_on CHR ''/'' target)) (JObj doc)"

text \<open>The recursion passes the depth of the next level, and stops above the bound.\<close>

function resolve_at :: "json dict \<Rightarrow> nat \<Rightarrow> string list \<Rightarrow> string \<Rightarrow> json \<Rightarrow> json res" where
  "resolve_at doc depth seen ptr node =
     (if MAX_RESOLUTION_DEPTH < depth
      then Inl (unsupported_feature
                  ''the referenced schema nests deeper than the resolver supports'' ptr)
      else
        case node of
          JObj d \<Rightarrow>
            if jget d ''$ref'' = JNull then
              rbind (rmap (\<lambda>p. rbind (resolve_at doc (Suc depth) seen
                       (ptr @ ''/'' @ encode_pointer_token (fst p)) (snd p))
                       (\<lambda>w. Inr (fst p, w))) d) (\<lambda>kvs. Inr (JObj kvs))
            else
              rbind (reference_pointer (jget d ''$ref'') ptr) (\<lambda>target_pointer.
                if target_pointer \<in> set seen
                then Inl (unsupported_feature ''recursive schema references are not supported'' ptr)
                else
                  rbind (dereference doc target_pointer ptr) (\<lambda>target.
                  rbind (resolve_at doc (Suc depth) (seen @ [target_pointer]) target_pointer target)
                    (\<lambda>resolved.
                    let siblings = ddel [''$ref''] d in
                    if siblings \<noteq> [] \<and> is_obj resolved then
                      rbind (rfold (\<lambda>p merged. rbind (resolve_at doc (Suc depth) seen
                               (ptr @ ''/'' @ encode_pointer_token (fst p)) (snd p))
                               (\<lambda>w. Inr (dset (fst p) w merged))) siblings (obj_of resolved))
                        (\<lambda>merged. Inr (JObj merged))
                    else Inr resolved)))
        | JArr xs \<Rightarrow>
            rbind (rmap (\<lambda>it. resolve_at doc (Suc depth) seen
                     (ptr @ ''/'' @ string_of_nat (fst it)) (snd it)) (indexed xs)) (\<lambda>ys. Inr (JArr ys))
        | _ \<Rightarrow> Inr node)"
  by pat_completeness auto
termination
  by (relation "measure (\<lambda>(doc, depth, seen, ptr, node). Suc MAX_RESOLUTION_DEPTH - depth)") auto

declare resolve_at.simps [simp del]

definition resolve_references :: "json dict \<Rightarrow> string \<Rightarrow> json \<Rightarrow> json res" where
  "resolve_references doc ptr node = resolve_at doc 0 [] ptr node"

section \<open>What resolution returns\<close>

text \<open>No object in the value has a \<open>$ref\<close> other than an explicit null.\<close>

inductive ref_free :: "json \<Rightarrow> bool" where
  rf_obj: "jget d ''$ref'' = JNull \<Longrightarrow> (\<And>k v. (k, v) \<in> set d \<Longrightarrow> ref_free v) \<Longrightarrow> ref_free (JObj d)"
| rf_arr: "(\<And>x. x \<in> set xs \<Longrightarrow> ref_free x) \<Longrightarrow> ref_free (JArr xs)"
| rf_leaf: "\<not> is_obj v \<Longrightarrow> \<not> is_arr v \<Longrightarrow> ref_free v"

inductive_simps ref_free_obj: "ref_free (JObj d)"
inductive_simps ref_free_arr: "ref_free (JArr xs)"

lemma ddel_elem: "p \<in> set (ddel ks d) \<Longrightarrow> fst p \<notin> set ks \<and> p \<in> set d"
  by (auto simp: ddel_def)

lemma ref_free_dset:
  assumes "ref_free (JObj m)" and "ref_free w" and "k \<noteq> ''$ref''"
  shows "ref_free (JObj (dset k w m))"
  using assms dset_elem [of "(_, _)" k w m]
  by (force simp: ref_free_obj jget_def)

lemma rmap_items_jget:
  assumes "rmap (\<lambda>p. rbind (f p) (\<lambda>w. Inr (fst p, w))) d = Inr kvs" and "jget d k = JNull"
    and "\<And>p w. p \<in> set d \<Longrightarrow> snd p = JNull \<Longrightarrow> f p = Inr w \<Longrightarrow> w = JNull"
  shows "jget kvs k = JNull"
  using assms
proof (induction d arbitrary: kvs)
  case (Cons p d)
  then obtain w rest where w: "f p = Inr w" and kvs: "kvs = (fst p, w) # rest"
    and rest: "rmap (\<lambda>p. rbind (f p) (\<lambda>w. Inr (fst p, w))) d = Inr rest"
    by (auto simp: res_simps)
  show ?case
  proof (cases "fst p = k")
    case True
    with Cons.prems(2) have "snd p = JNull" by (cases p) (simp add: jget_def)
    then have "w = JNull" using Cons.prems(3) w list.set_intros(1) by metis
    with True kvs show ?thesis by (simp add: jget_def)
  next
    case False
    with Cons.prems(2) have "jget d k = JNull" by (cases p) (simp add: jget_def)
    then have "jget rest k = JNull"
      using Cons.IH [OF rest] Cons.prems(3) list.set_intros(2) by metis
    with False kvs show ?thesis by (simp add: jget_def)
  qed
qed simp

lemma rmap_items_elem:
  assumes "rmap (\<lambda>p. rbind (f p) (\<lambda>w. Inr (fst p, w))) d = Inr kvs" and "(k, v) \<in> set kvs"
  shows "\<exists>p\<in>set d. f p = Inr v"
  using rmap_Inr_elem [OF assms] by (auto simp: res_simps)

lemma resolve_at_null: "resolve_at doc depth seen ptr JNull = Inr w \<Longrightarrow> w = JNull"
  by (subst (asm) resolve_at.simps) (auto split: if_splits)

lemma resolve_at_depth: "resolve_at doc depth seen ptr node = Inr w \<Longrightarrow> depth \<le> MAX_RESOLUTION_DEPTH"
  by (subst (asm) resolve_at.simps) (auto split: if_splits)

lemma resolve_at_leaf:
  assumes "resolve_at doc depth seen ptr node = Inr w" and "\<not> is_obj node" and "\<not> is_arr node"
  shows "w = node"
  using assms by (subst (asm) resolve_at.simps) (auto split: if_splits json.splits)

lemma resolve_at_arr:
  assumes "resolve_at doc depth seen ptr (JArr xs) = Inr w"
  obtains ys where "w = JArr ys"
    and "rmap (\<lambda>it. resolve_at doc (Suc depth) seen (ptr @ ''/'' @ string_of_nat (fst it)) (snd it)) (indexed xs) = Inr ys"
  using assms by (subst (asm) resolve_at.simps) (auto simp: res_simps split: if_splits)

lemma resolve_at_obj:
  assumes "resolve_at doc depth seen ptr (JObj d) = Inr w" and "jget d ''$ref'' = JNull"
  obtains kvs where "w = JObj kvs" and "jget kvs ''$ref'' = JNull"
    and "rmap (\<lambda>p. rbind (resolve_at doc (Suc depth) seen (ptr @ ''/'' @ encode_pointer_token (fst p)) (snd p))
      (\<lambda>w. Inr (fst p, w))) d = Inr kvs"
proof -
  from assms obtain kvs where w: "w = JObj kvs"
    and kvs: "rmap (\<lambda>p. rbind (resolve_at doc (Suc depth) seen (ptr @ ''/'' @ encode_pointer_token (fst p)) (snd p))
      (\<lambda>w. Inr (fst p, w))) d = Inr kvs"
    by (subst (asm) resolve_at.simps) (auto simp: res_simps split: if_splits)
  have "jget kvs ''$ref'' = JNull"
    by (rule rmap_items_jget [OF kvs assms(2)]) (use resolve_at_null in auto)
  with that w kvs show ?thesis by blast
qed

text \<open>A reference resolves to its target, with the siblings laid over an object.\<close>

lemma resolve_at_ref:
  assumes "resolve_at doc depth seen ptr (JObj d) = Inr w" and "jget d ''$ref'' \<noteq> JNull"
  obtains (plain) tp target where "reference_pointer (jget d ''$ref'') ptr = Inr tp" and "tp \<notin> set seen"
    and "dereference doc tp ptr = Inr target" and "resolve_at doc (Suc depth) (seen @ [tp]) tp target = Inr w"
  | (overlaid) tp target m m0 where "reference_pointer (jget d ''$ref'') ptr = Inr tp" and "tp \<notin> set seen"
    and "dereference doc tp ptr = Inr target" and "resolve_at doc (Suc depth) (seen @ [tp]) tp target = Inr (JObj m0)"
    and "ddel [''$ref''] d \<noteq> [] \<and> is_obj (JObj m0)" and "w = JObj m"
    and "rfold (\<lambda>p merged. rbind (resolve_at doc (Suc depth) seen (ptr @ ''/'' @ encode_pointer_token (fst p)) (snd p))
      (\<lambda>w. Inr (dset (fst p) w merged))) (ddel [''$ref''] d) m0 = Inr m"
proof -
  from assms obtain tp target r where
    r: "reference_pointer (jget d ''$ref'') ptr = Inr tp" "tp \<notin> set seen" "dereference doc tp ptr = Inr target"
      "resolve_at doc (Suc depth) (seen @ [tp]) tp target = Inr r"
    and rest: "(if ddel [''$ref''] d \<noteq> [] \<and> is_obj r then
        rbind (rfold (\<lambda>p merged. rbind (resolve_at doc (Suc depth) seen
          (ptr @ ''/'' @ encode_pointer_token (fst p)) (snd p)) (\<lambda>w. Inr (dset (fst p) w merged)))
          (ddel [''$ref''] d) (obj_of r)) (\<lambda>merged. Inr (JObj merged)) else Inr r) = Inr w"
    by (subst (asm) resolve_at.simps) (auto simp: res_simps Let_def split: if_splits)
  show ?thesis
  proof (cases "ddel [''$ref''] d \<noteq> [] \<and> is_obj r")
    case True
    then obtain m0 where m0: "r = JObj m0" by (auto simp: is_obj_iff)
    from rest True obtain m where "w = JObj m" and
      "rfold (\<lambda>p merged. rbind (resolve_at doc (Suc depth) seen (ptr @ ''/'' @ encode_pointer_token (fst p)) (snd p))
        (\<lambda>w. Inr (dset (fst p) w merged))) (ddel [''$ref''] d) m0 = Inr m"
      by (auto simp: m0 res_simps)
    with r True show ?thesis unfolding m0 by (rule overlaid)
  next
    case False
    with rest have "r = w" by (simp only: if_False sum.inject)
    with r show ?thesis by (intro plain) simp_all
  qed
qed

text \<open>
  What every result satisfies: a property of depths and values that the constructors of JSON keep, that holds
  a level higher, and that survives the overlay of a sibling.
\<close>

lemma resolve_at_preserves:
  assumes leaf: "\<And>n v. n \<le> MAX_RESOLUTION_DEPTH \<Longrightarrow> \<not> is_obj v \<Longrightarrow> \<not> is_arr v \<Longrightarrow> Q n v"
    and arr: "\<And>n xs. n \<le> MAX_RESOLUTION_DEPTH \<Longrightarrow> (\<And>x. x \<in> set xs \<Longrightarrow> Q (Suc n) x) \<Longrightarrow> Q n (JArr xs)"
    and obj: "\<And>n d. n \<le> MAX_RESOLUTION_DEPTH \<Longrightarrow> jget d ''$ref'' = JNull \<Longrightarrow>
      (\<And>k v. (k, v) \<in> set d \<Longrightarrow> Q (Suc n) v) \<Longrightarrow> Q n (JObj d)"
    and higher: "\<And>n v. Q (Suc n) v \<Longrightarrow> Q n v"
    and overlay: "\<And>n m k w. Q n (JObj m) \<Longrightarrow> Q (Suc n) w \<Longrightarrow> k \<noteq> ''$ref'' \<Longrightarrow> Q n (JObj (dset k w m))"
  shows "resolve_at doc depth seen ptr node = Inr w \<Longrightarrow> Q depth w"
proof (induction doc depth seen ptr node arbitrary: w rule: resolve_at.induct)
  case (1 doc depth seen ptr node)
  note le = resolve_at_depth [OF "1.prems"]
  then have deep: "\<not> MAX_RESOLUTION_DEPTH < depth" by simp
  consider xs where "node = JArr xs" | d where "node = JObj d" "jget d ''$ref'' = JNull"
    | d where "node = JObj d" "jget d ''$ref'' \<noteq> JNull" | "\<not> is_obj node" "\<not> is_arr node"
    by (cases node) auto
  then show ?case
  proof cases
    case (1 xs)
    from "1.prems" [unfolded 1] obtain ys where w: "w = JArr ys"
      and ys: "rmap (\<lambda>it. resolve_at doc (Suc depth) seen (ptr @ ''/'' @ string_of_nat (fst it)) (snd it)) (indexed xs)
        = Inr ys"
      by (rule resolve_at_arr)
    have "Q (Suc depth) y" if "y \<in> set ys" for y
      using rmap_Inr_elem [OF ys that] "1.IH"(1) [OF deep 1] by blast
    then show ?thesis unfolding w by (rule arr [OF le])
  next
    case (2 d)
    from "1.prems" [unfolded 2(1)] 2(2) obtain kvs where w: "w = JObj kvs" "jget kvs ''$ref'' = JNull"
      and kvs: "rmap (\<lambda>p. rbind (resolve_at doc (Suc depth) seen (ptr @ ''/'' @ encode_pointer_token (fst p)) (snd p))
        (\<lambda>w. Inr (fst p, w))) d = Inr kvs"
      by (rule resolve_at_obj)
    have "Q (Suc depth) v" if "(k, v) \<in> set kvs" for k v
      using rmap_items_elem [OF kvs that] "1.IH"(2) [OF deep 2] by blast
    then show ?thesis unfolding w(1) by (rule obj [OF le w(2)])
  next
    case (3 d)
    from "1.prems" [unfolded 3(1)] 3(2) show ?thesis
    proof (cases rule: resolve_at_ref)
      case (plain tp target)
      show ?thesis by (rule higher, rule "1.IH"(3) [OF deep 3 plain])
    next
      case (overlaid tp target m m0)
      have "Q depth (JObj m0)" by (rule higher, rule "1.IH"(3) [OF deep 3 overlaid(1-4)])
      with overlaid(7) have "Q depth (JObj m)"
      proof (rule rfold_invariant)
        fix p m m'
        assume p: "p \<in> set (ddel [''$ref''] d)" and m: "Q depth (JObj m)"
          and step: "rbind (resolve_at doc (Suc depth) seen (ptr @ ''/'' @ encode_pointer_token (fst p)) (snd p))
            (\<lambda>w. Inr (dset (fst p) w m)) = Inr m'"
        from step obtain u where u: "resolve_at doc (Suc depth) seen (ptr @ ''/'' @ encode_pointer_token (fst p))
            (snd p) = Inr u" and m': "m' = dset (fst p) u m"
          by (auto simp: res_simps)
        have "fst p \<noteq> ''$ref''" using ddel_elem [OF p] by simp
        with overlay m "1.IH"(4) [OF deep 3 overlaid(1-4) refl overlaid(5) p u] show "Q depth (JObj m')"
          unfolding m' by blast
      qed
      then show ?thesis unfolding overlaid(6) .
    qed
  next
    case 4
    with resolve_at_leaf [OF "1.prems"] leaf [OF le] show ?thesis by simp
  qed
qed

lemma resolve_at_ref_free: "resolve_at doc depth seen ptr node = Inr w \<Longrightarrow> ref_free w"
  by (rule resolve_at_preserves [where Q = "\<lambda>n. ref_free"]) (auto intro: rf_obj rf_arr rf_leaf ref_free_dset)

text \<open>The height of a value: resolution at a depth only returns what fits below the bound.\<close>

fun json_height :: "json \<Rightarrow> nat" where
  "json_height (JArr xs) = (if xs = [] then 0 else Suc (fold max (map json_height xs) 0))"
| "json_height (JObj kvs) =
     (if kvs = [] then 0 else Suc (fold max (map (\<lambda>p. json_height (snd p)) kvs) 0))"
| "json_height v = 0"

lemma fold_max_le: "fold max ns m \<le> b \<longleftrightarrow> m \<le> (b :: nat) \<and> (\<forall>n\<in>set ns. n \<le> b)"
  by (induction ns arbitrary: m) auto

lemma height_list_le:
  "d + (if ns = [] then 0 else Suc (fold max ns 0)) \<le> b \<longleftrightarrow> d \<le> b \<and> (\<forall>n\<in>set ns. Suc d + n \<le> (b :: nat))"
proof (cases ns)
  case (Cons n ms)
  have "Suc d + fold max ns 0 \<le> b \<longleftrightarrow> Suc d \<le> b \<and> fold max ns 0 \<le> b - Suc d" by arith
  also have "\<dots> \<longleftrightarrow> Suc d \<le> b \<and> (\<forall>m\<in>set ns. m \<le> b - Suc d)" by (simp only: fold_max_le) simp
  also have "\<dots> \<longleftrightarrow> d \<le> b \<and> (\<forall>m\<in>set ns. Suc d + m \<le> b)" unfolding Cons by auto
  finally show ?thesis using Cons by simp
qed simp

lemma height_arr_le: "d + json_height (JArr xs) \<le> b \<longleftrightarrow> d \<le> b \<and> (\<forall>x\<in>set xs. Suc d + json_height x \<le> b)"
  using height_list_le [of d "map json_height xs" b] by simp

lemma height_obj_le:
  "d + json_height (JObj kvs) \<le> b \<longleftrightarrow> d \<le> b \<and> (\<forall>p\<in>set kvs. Suc d + json_height (snd p) \<le> b)"
  using height_list_le [of d "map (\<lambda>p. json_height (snd p)) kvs" b] by simp

definition fits :: "nat \<Rightarrow> json \<Rightarrow> bool" where
  "fits depth v \<longleftrightarrow> depth + json_height v \<le> MAX_RESOLUTION_DEPTH"

lemma fits_obj: "fits d (JObj kvs) \<longleftrightarrow> d \<le> MAX_RESOLUTION_DEPTH \<and> (\<forall>p\<in>set kvs. fits (Suc d) (snd p))"
  unfolding fits_def by (rule height_obj_le)

lemma fits_arr: "fits d (JArr xs) \<longleftrightarrow> d \<le> MAX_RESOLUTION_DEPTH \<and> (\<forall>x\<in>set xs. fits (Suc d) x)"
  unfolding fits_def by (rule height_arr_le)

lemma fits_mono: "fits (Suc d) v \<Longrightarrow> fits d v"
  by (simp add: fits_def)

lemma fits_dset: "fits d (JObj m) \<Longrightarrow> fits (Suc d) w \<Longrightarrow> fits d (JObj (dset k w m))"
  using dset_elem [of _ k w m] by (fastforce simp: fits_obj)

lemma resolve_at_fits: "resolve_at doc depth seen ptr node = Inr w \<Longrightarrow> fits depth w"
proof (rule resolve_at_preserves [where Q = fits])
  show "fits n v" if "n \<le> MAX_RESOLUTION_DEPTH" "\<not> is_obj v" "\<not> is_arr v" for n v
    using that by (cases v) (simp_all add: fits_def)
  show "fits n (JObj (dset k w m))" if "fits n (JObj m)" "fits (Suc n) w" for n m k w
    using that by (rule fits_dset)
qed (auto simp: fits_arr fits_obj intro: fits_mono)

lemma rmap_same: "(\<And>x. x \<in> set xs \<Longrightarrow> f x = Inr (g x)) \<Longrightarrow> rmap f xs = Inr (map g xs)"
  by (rule rmap_all_ok)

lemma resolve_at_ref_free_id:
  "ref_free v \<Longrightarrow> fits depth v \<Longrightarrow> resolve_at doc depth seen ptr v = Inr v"
proof (induction v arbitrary: depth ptr rule: ref_free.induct)
  case (rf_obj d)
  have "rmap (\<lambda>p. rbind (resolve_at doc (Suc depth) seen (ptr @ ''/'' @ encode_pointer_token (fst p)) (snd p))
      (\<lambda>w. Inr (fst p, w))) d = Inr (map (\<lambda>p. p) d)"
    using rf_obj.IH rf_obj.prems by (intro rmap_all_ok) (auto simp: fits_obj)
  then show ?case using rf_obj by (subst resolve_at.simps) (simp add: fits_obj)
next
  case (rf_arr xs)
  have "rmap (\<lambda>it. resolve_at doc (Suc depth) seen (ptr @ ''/'' @ string_of_nat (fst it)) (snd it)) (indexed xs)
      = Inr (map snd (indexed xs))"
    using rf_arr.IH rf_arr.prems by (intro rmap_all_ok) (auto simp: fits_arr indexed_elem)
  moreover have "map snd (indexed xs) = xs" by (simp add: indexed_def)
  ultimately show ?case using rf_arr by (subst resolve_at.simps) (simp add: fits_arr)
next
  case (rf_leaf v)
  then show ?case by (subst resolve_at.simps) (auto simp: fits_def split: json.splits)
qed


section \<open>Siblings of a reference\<close>

lemma overlay_other:
  assumes "rfold (\<lambda>p m. rbind (f p) (\<lambda>w. Inr (dset (fst p) w m))) ps m0 = Inr m"
    and "k \<notin> set (dkeys ps)"
  shows "dget m k = dget m0 k"
  using assms by (induction ps arbitrary: m0) (auto simp: res_simps dkeys_def)

lemma overlay_dget:
  assumes "rfold (\<lambda>p m. rbind (f p) (\<lambda>w. Inr (dset (fst p) w m))) ps m0 = Inr m"
    and "dict_ok ps" and "q \<in> set ps"
  shows "\<exists>w. f q = Inr w \<and> dget m (fst q) = Some w"
  using assms
proof (induction ps arbitrary: m0)
  case (Cons p ps)
  then obtain w where w: "f p = Inr w"
    and rest: "rfold (\<lambda>p m. rbind (f p) (\<lambda>w. Inr (dset (fst p) w m))) ps (dset (fst p) w m0) = Inr m"
    by (auto simp: res_simps)
  have ok: "dict_ok ps" "fst p \<notin> set (dkeys ps)" using Cons.prems(2) by (auto simp: dict_ok_def dkeys_def)
  show ?case
  proof (cases "q = p")
    case True
    with w overlay_other [OF rest ok(2)] show ?thesis by simp
  next
    case False
    with Cons.prems(3) have "q \<in> set ps" by simp
    with rest ok(1) show ?thesis by (rule Cons.IH)
  qed
qed simp

lemma resolve_ref:
  assumes "resolve_at doc depth seen ptr (JObj d) = Inr (JObj m)" and "jget d ''$ref'' \<noteq> JNull"
  shows "\<exists>r. rfold (\<lambda>p merged. rbind (resolve_at doc (Suc depth) seen
              (ptr @ ''/'' @ encode_pointer_token (fst p)) (snd p)) (\<lambda>w. Inr (dset (fst p) w merged)))
              (ddel [''$ref''] d) r = Inr m"
  using assms
  by (subst (asm) resolve_at.simps) (auto simp: res_simps Let_def split: if_splits)

section \<open>How large a resolved value is\<close>

fun json_leaves :: "json \<Rightarrow> nat" where
  "json_leaves (JArr xs) = sum_list (map json_leaves xs)"
| "json_leaves (JObj kvs) = sum_list (map (\<lambda>p. json_leaves (snd p)) kvs)"
| "json_leaves v = 1"

text \<open>
  A document of \<open>n\<close> layers: every layer is an object with \<open>k\<close> properties, each a reference to the
  layer below.
\<close>

definition layer_name :: "nat \<Rightarrow> string" where
  "layer_name i = ''s'' @ string_of_nat i"

definition layer_ref :: "nat \<Rightarrow> json" where
  "layer_ref i = JObj [(''$ref'', JStr (''#/'' @ layer_name i))]"

fun layer :: "nat \<Rightarrow> nat \<Rightarrow> json" where
  "layer k 0 = JBool True"
| "layer k (Suc i) = JObj (map (\<lambda>j. (''p'' @ string_of_nat j, layer_ref i)) [0..<k])"

definition layered :: "nat \<Rightarrow> nat \<Rightarrow> json dict" where
  "layered k n = map (\<lambda>i. (layer_name i, layer k i)) [0..<Suc n]"

lemma layered_leaves: "json_leaves (JObj (layered k n)) \<le> Suc (n * k)"
proof -
  have leaf: "json_leaves (layer k i) \<le> (if i = 0 then 1 else k)" for i
    by (cases i) (simp_all add: layer_ref_def comp_def sum_list_triv)
  have "json_leaves (JObj (layered k n)) = sum_list (map (\<lambda>i. json_leaves (layer k i)) [0..<Suc n])"
    by (simp add: layered_def comp_def)
  also have "\<dots> \<le> sum_list (map (\<lambda>i. if i = 0 then 1 else k) [0..<Suc n])"
    by (rule sum_list_mono) (rule leaf)
  also have "\<dots> = Suc (n * k)" by (induction n) simp_all
  finally show ?thesis .
qed

lemma layer_name_plain: "CHR ''/'' \<notin> set (layer_name i)" "CHR ''~'' \<notin> set (layer_name i)"
proof -
  have "\<not> is_digit CHR ''/''" "\<not> is_digit CHR ''~''" by code_simp+
  then show "CHR ''/'' \<notin> set (layer_name i)" "CHR ''~'' \<notin> set (layer_name i)"
    using set_string_of_nat [of _ i] by (auto simp: layer_name_def)
qed

lemma layer_name_inject: "layer_name i = layer_name j \<longleftrightarrow> i = j"
  by (simp add: layer_name_def string_of_nat_inject)

lemma no_tilde_decode: "CHR ''~'' \<notin> set t \<Longrightarrow> decode_pointer_token t = t"
proof -
  assume t: "CHR ''~'' \<notin> set t"
  have absent: "\<not> str_contains (CHR ''~'' # x) t" for x
    using t by (induction t) auto
  show ?thesis by (simp add: decode_pointer_token_def str_replace_absent [OF absent])
qed

lemma layered_dget: "i \<le> n \<Longrightarrow> dget (layered k n) (layer_name i) = Some (layer k i)"
proof -
  assume i: "i \<le> n"
  have "dict_ok (layered k n)"
    unfolding dict_ok_def dkeys_def layered_def
    by (auto simp: distinct_map comp_def inj_on_def layer_name_inject)
  moreover have "(layer_name i, layer k i) \<in> set (layered k n)"
    unfolding layered_def set_map using i by (intro image_eqI [of _ _ i]) (simp_all del: upt_Suc)
  ultimately show ?thesis by (rule dict_ok_dget)
qed

lemma layered_dereference:
  "i \<le> n \<Longrightarrow> dereference (layered k n) (''/'' @ layer_name i) ptr = Inr (layer k i)"
proof -
  assume i: "i \<le> n"
  have "split_on CHR ''/'' (''/'' @ layer_name i) = [[], layer_name i]"
    using layer_name_plain(1) [of i] by (simp add: split_on_id)
  then show ?thesis
    using layered_dget [OF i] layer_name_plain(2) [of i]
    by (simp add: dereference_def no_tilde_decode)
qed

lemma layer_resolves:
  assumes "i \<le> n" and "depth + 2 * i + 1 \<le> MAX_RESOLUTION_DEPTH"
    and "\<And>j. j \<le> i \<Longrightarrow> ''/'' @ layer_name j \<notin> set seen"
  shows "\<exists>w. resolve_at (layered k n) depth seen ptr (layer_ref i) = Inr w \<and> json_leaves w = k ^ i"
  using assms
proof (induction i arbitrary: depth seen ptr)
  case 0
  have ref: "reference_pointer (JStr (''#/'' @ layer_name 0)) ptr = Inr (''/'' @ layer_name 0)"
    by (simp add: reference_pointer_def)
  show ?case using 0 ref layered_dereference [of 0 n k ptr]
    by (subst layer_ref_def, subst resolve_at.simps, subst resolve_at.simps)
      (simp add: jget_def ddel_def Let_def)
next
  case (Suc i)
  let ?seen = "seen @ [''/'' @ layer_name (Suc i)]"
  have ref: "reference_pointer (JStr (''#/'' @ layer_name (Suc i))) ptr = Inr (''/'' @ layer_name (Suc i))"
    by (simp add: reference_pointer_def)
  have "\<exists>w. resolve_at (layered k n) (Suc (Suc depth)) ?seen q (layer_ref i) = Inr w \<and> json_leaves w = k ^ i" for q
    using Suc.prems by (intro Suc.IH) (auto simp: layer_name_inject)
  then obtain W where W: "\<And>q. resolve_at (layered k n) (Suc (Suc depth)) ?seen q (layer_ref i) = Inr (W q)"
      "\<And>q. json_leaves (W q) = k ^ i"
    by metis
  define g where "g = (\<lambda>p :: string \<times> json. (fst p, W ((''/'' @ layer_name (Suc i)) @ ''/'' @ encode_pointer_token (fst p))))"
  let ?d = "map (\<lambda>j. (''p'' @ string_of_nat j, layer_ref i)) [0..<k]"
  have "rmap (\<lambda>p. rbind (resolve_at (layered k n) (Suc (Suc depth)) ?seen
        ((''/'' @ layer_name (Suc i)) @ ''/'' @ encode_pointer_token (fst p)) (snd p)) (\<lambda>w. Inr (fst p, w))) ?d
      = Inr (map g ?d)"
    by (rule rmap_all_ok) (auto simp: g_def W(1) simp del: append.simps)
  moreover have "jget ?d ''$ref'' = JNull"
  proof -
    have "dget ?d ''$ref'' = None" by (auto simp: dget_None_iff dkeys_def)
    then show ?thesis by (simp add: jget_def)
  qed
  ultimately have "resolve_at (layered k n) (Suc depth) ?seen (''/'' @ layer_name (Suc i)) (layer k (Suc i))
      = Inr (JObj (map g ?d))"
    using Suc.prems(2) by (subst resolve_at.simps) (simp del: append.simps append_Cons)
  then have "resolve_at (layered k n) depth seen ptr (layer_ref (Suc i)) = Inr (JObj (map g ?d))"
    using Suc.prems ref layered_dereference [OF Suc.prems(1), of k ptr]
    by (subst layer_ref_def, subst resolve_at.simps) (simp add: jget_def ddel_def Let_def del: layer.simps)
  moreover have "json_leaves (JObj (map g ?d)) = k ^ Suc i"
    by (simp add: g_def W(2) comp_def sum_list_triv)
  ultimately show ?case by blast
qed

section \<open>Properties\<close>

text \<open>
  C19: What resolution returns holds no reference at any depth, and it is final: resolving it again, in
  whatever document and at whatever place, returns it unchanged.
\<close>

theorem resolution_is_final:
  assumes "resolve_references doc ptr node = Inr w"
  shows "ref_free w \<and> resolve_references doc' ptr' w = Inr w"
  using resolve_at_ref_free resolve_at_ref_free_id resolve_at_fits assms
  unfolding resolve_references_def by blast

lemma resolution_is_final_witness:
  "resolve_references [(''a'', JObj [(''type'', JStr ''string'')])] [] (JArr [JObj [(''$ref'', JStr ''#/a'')]]) =
     Inr (JArr [JObj [(''type'', JStr ''string'')]]) \<and>
   resolve_references [] ''/x'' (JArr [JObj [(''type'', JStr ''string'')]]) =
     Inr (JArr [JObj [(''type'', JStr ''string'')]])"
proof -
  have r: "resolve_references [(''a'', JObj [(''type'', JStr ''string'')])] [] (JArr [JObj [(''$ref'', JStr ''#/a'')]]) =
     Inr (JArr [JObj [(''type'', JStr ''string'')]])"
    by code_simp
  with resolution_is_final [OF r] show ?thesis by blast
qed

text \<open>
  A sibling of a reference always replaces the keyword of the same name in the resolved target, a
  validation keyword included, so a document can weaken at the reference what the target asserts.
\<close>

theorem sibling_replaces_target_keyword:
  assumes "resolve_references doc ptr (JObj d) = Inr (JObj m)" and "dict_ok d"
    and "jget d ''$ref'' \<noteq> JNull" and "(k, v) \<in> set d" and "k \<noteq> ''$ref''"
    and "\<not> is_obj v" and "\<not> is_arr v"
  shows "dget m k = Some v"
proof -
  obtain r where r: "rfold (\<lambda>p merged. rbind (resolve_at doc (Suc 0) []
      (ptr @ ''/'' @ encode_pointer_token (fst p)) (snd p)) (\<lambda>w. Inr (dset (fst p) w merged)))
      (ddel [''$ref''] d) r = Inr m"
    using resolve_ref assms(1,3) unfolding resolve_references_def by blast
  have "(k, v) \<in> set (ddel [''$ref''] d)" using assms(4,5) by (simp add: ddel_def)
  then obtain w where w: "resolve_at doc (Suc 0) [] (ptr @ ''/'' @ encode_pointer_token k) v = Inr w"
    and m: "dget m k = Some w"
    using overlay_dget [OF r dict_ok_ddel [OF assms(2)]] by fastforce
  have "ref_free v" using assms(6,7) by (rule rf_leaf)
  moreover have "fits (Suc 0) v" using assms(6,7) by (cases v) (simp_all add: fits_def MAX_RESOLUTION_DEPTH_def)
  ultimately have "w = v" using resolve_at_ref_free_id w by fastforce
  with m show ?thesis by simp
qed

lemma sibling_replaces_target_keyword_witness:
  "resolve_references [(''s'', JObj [(''type'', JStr ''string''), (''maxLength'', JInt 8)])] []
     (JObj [(''$ref'', JStr ''#/s''), (''maxLength'', JInt 100000)])
   = Inr (JObj [(''type'', JStr ''string''), (''maxLength'', JInt 100000)]) \<and>
   dget [(''type'', JStr ''string''), (''maxLength'', JInt 100000)] ''maxLength'' = Some (JInt 100000)"
proof -
  let ?d = "[(''$ref'', JStr ''#/s''), (''maxLength'', JInt 100000)]"
  have r: "resolve_references [(''s'', JObj [(''type'', JStr ''string''), (''maxLength'', JInt 8)])] [] (JObj ?d)
     = Inr (JObj [(''type'', JStr ''string''), (''maxLength'', JInt 100000)])"
    by code_simp
  have "dict_ok ?d" by (simp add: dict_ok_def dkeys_def)
  from sibling_replaces_target_keyword [OF r this, of "''maxLength''" "JInt 100000"] r show ?thesis
    by (simp add: jget_def)
qed

text \<open>
  Resolution is bounded in depth but not in size. For every number \<open>k\<close> of properties and up to
  fifteen layers \<open>n\<close>, a document with at most \<open>n * k + 1\<close> leaves resolves to a value with \<open>k ^ n\<close>.
\<close>

theorem resolution_grows_exponentially:
  assumes "n \<le> 15"
  shows "json_leaves (JObj (layered k n)) \<le> n * k + 1 \<and>
    (\<exists>w. resolve_references (layered k n) ptr (layer_ref n) = Inr w \<and> json_leaves w = k ^ n)"
proof -
  have "\<exists>w. resolve_at (layered k n) 0 [] ptr (layer_ref n) = Inr w \<and> json_leaves w = k ^ n"
    using assms by (intro layer_resolves) (simp_all add: MAX_RESOLUTION_DEPTH_def)
  then show ?thesis using layered_leaves [of k n] by (simp add: resolve_references_def)
qed

lemma resolution_grows_exponentially_witness:
  "\<exists>w. resolve_references (layered 20 15) [] (layer_ref 15) = Inr w \<and> json_leaves w = 20 ^ 15"
  using resolution_grows_exponentially [of 15 20 "[]"] by simp

end
