(* ===== verification/SchemaConversion.thy ===== *)
theory SchemaConversion
  imports Naming
begin

text \<open>
  Schema conversion: \<^verbatim>\<open>packages/openapi-converter/toollayer_openapi/schema_conversion.py\<close>. The
  conversion is an allowlist: the last sections state which schemas it can return and which keywords
  it lets through.
\<close>

section \<open>Keywords\<close>

definition MAX_SCHEMA_DEPTH :: nat where
  "MAX_SCHEMA_DEPTH = 8"

definition SCALAR_TYPES :: "string list" where
  "SCALAR_TYPES = [''string'', ''integer'', ''number'', ''boolean'']"

definition ALL_TYPES :: "string list" where
  "ALL_TYPES = SCALAR_TYPES @ [''object'', ''array'', ''null'']"

text \<open>The keyword sets, in the order in which the code walks them, which is sorted.\<close>

definition ANNOTATION_KEYWORDS :: "string list" where
  "ANNOTATION_KEYWORDS = [''description'', ''title'']"

definition STRING_KEYWORDS :: "string list" where
  "STRING_KEYWORDS = [''format'', ''maxLength'', ''minLength'', ''pattern'']"

definition NUMBER_KEYWORDS :: "string list" where
  "NUMBER_KEYWORDS = [''maximum'', ''minimum'']"

definition ARRAY_KEYWORDS :: "string list" where
  "ARRAY_KEYWORDS = [''maxItems'', ''minItems'']"

definition IGNORED_KEYWORDS :: "string list" where
  "IGNORED_KEYWORDS =
     [''example'', ''examples'', ''externalDocs'', ''readOnly'', ''writeOnly'', ''xml'', ''discriminator'']"

definition COMPOSITION_KEYWORDS :: "string list" where
  "COMPOSITION_KEYWORDS = [''allOf'', ''anyOf'', ''not'', ''oneOf'']"

section \<open>Single keywords\<close>

fun matches_type :: "json \<Rightarrow> string \<Rightarrow> bool" where
  "matches_type v t =
     (if t = ''string'' then is_str v
      else if t = ''boolean'' then is_bool v
      else if t = ''integer'' then (case v of JInt i \<Rightarrow> True | _ \<Rightarrow> False)
      else if t = ''number'' then is_number v
      else if t = ''array'' then is_arr v
      else if t = ''object'' then is_obj v
      else if t = ''null'' then v = JNull
      else False)"

text \<open>\<open>'k'\<close> in a message\<close>

abbreviation quoted :: "string \<Rightarrow> string" where
  "quoted k \<equiv> repr_str k"

declare matches_type.simps [simp del]

definition apply_nullable :: "json dict \<Rightarrow> json dict \<Rightarrow> string \<Rightarrow> json dict res" where
  "apply_nullable schema converted ptr =
     (case jget schema ''nullable'' of
        JNull \<Rightarrow> Inr converted
      | JBool b \<Rightarrow>
          Inr (if b then dset ''type'' (JArr [jget converted ''type'', JStr ''null'']) converted
               else converted)
      | _ \<Rightarrow> Inl (invalid_document (quoted ''nullable'' @ '' must be a boolean'') ptr))"

definition apply_annotation ::
  "json dict \<Rightarrow> string \<Rightarrow> string \<Rightarrow> json dict \<Rightarrow> json dict res" where
  "apply_annotation schema ptr keyword converted =
     (case dget schema keyword of
        None \<Rightarrow> Inr converted
      | Some (JStr s) \<Rightarrow>
          Inr (if str_strip s \<noteq> [] then dset keyword (JStr (str_strip s)) converted else converted)
      | Some _ \<Rightarrow> Inl (invalid_document (quoted keyword @ '' must be a string'') ptr))"

definition apply_annotations :: "json dict \<Rightarrow> json dict \<Rightarrow> string \<Rightarrow> json dict res" where
  "apply_annotations schema converted ptr =
     rfold (apply_annotation schema ptr) ANNOTATION_KEYWORDS converted"

definition apply_enum :: "json dict \<Rightarrow> json dict \<Rightarrow> string \<Rightarrow> string \<Rightarrow> json dict res" where
  "apply_enum schema converted t ptr =
     (case dget schema ''enum'' of
        None \<Rightarrow> Inr converted
      | Some e \<Rightarrow>
          if \<not> is_arr e \<or> arr_of e = []
          then Inl (invalid_document (quoted ''enum'' @ '' must be a non-empty array'') ptr)
          else if list_ex (\<lambda>v. v \<noteq> JNull \<and> \<not> matches_type v t) (arr_of e)
          then Inl (invalid_document
                      (''an '' @ quoted ''enum'' @ '' value does not match the declared type'') ptr)
          else Inr (dset ''enum'' e converted))"

definition apply_default :: "json dict \<Rightarrow> json dict \<Rightarrow> string \<Rightarrow> string \<Rightarrow> json dict res" where
  "apply_default schema converted t ptr =
     (case dget schema ''default'' of
        None \<Rightarrow> Inr converted
      | Some v \<Rightarrow>
          if \<not> matches_type v t
          then Inl (invalid_document (quoted ''default'' @ '' does not match the declared type'') ptr)
          else if dhas ''enum'' converted \<and> \<not> py_in v (arr_of (jget converted ''enum''))
          then Inl (invalid_document (quoted ''default'' @ '' is not one of the enum values'') ptr)
          else Inr (dset ''default'' v converted))"

definition apply_enum_and_default ::
  "json dict \<Rightarrow> json dict \<Rightarrow> string \<Rightarrow> string \<Rightarrow> json dict res" where
  "apply_enum_and_default schema converted t ptr =
     rbind (apply_enum schema converted t ptr) (\<lambda>c. apply_default schema c t ptr)"

definition apply_exclusive_bound ::
  "json dict \<Rightarrow> string \<Rightarrow> string \<times> string \<Rightarrow> json dict \<Rightarrow> json dict res" where
  "apply_exclusive_bound schema ptr names converted =
     (let bound = fst names; exclusive = snd names in
      case dget schema exclusive of
        None \<Rightarrow> Inr converted
      | Some v \<Rightarrow>
          if v = JBool False then Inr converted
          else if v = JBool True then
            (if jget converted bound = JNull
             then Inl (invalid_document
                         (repr_str (exclusive @ '': true'') @ '' requires a '' @ quoted bound) ptr)
             else Inr (dset exclusive (jget converted bound) (ddel [bound] converted)))
          else if is_number v then Inr (dset exclusive v converted)
          else Inl (invalid_document (quoted exclusive @ '' must be a number or a boolean'') ptr))"

definition apply_exclusive_bounds :: "json dict \<Rightarrow> json dict \<Rightarrow> string \<Rightarrow> json dict res" where
  "apply_exclusive_bounds schema converted ptr =
     rfold (apply_exclusive_bound schema ptr)
       [(''minimum'', ''exclusiveMinimum''), (''maximum'', ''exclusiveMaximum'')] converted"

definition copy_keyword :: "json dict \<Rightarrow> string \<Rightarrow> string \<Rightarrow> json dict \<Rightarrow> json dict res" where
  "copy_keyword schema ptr keyword converted =
     (case dget schema keyword of
        None \<Rightarrow> Inr converted
      | Some v \<Rightarrow>
          if keyword = ''pattern'' \<or> keyword = ''format'' then
            (if \<not> is_str v \<or> str_of v = []
             then Inl (invalid_document (quoted keyword @ '' must be a non-empty string'') ptr)
             else Inr (dset keyword v converted))
          else if \<not> is_number v
          then Inl (invalid_document (quoted keyword @ '' must be a number'') ptr)
          else Inr (dset keyword v converted))"

definition copy_supported ::
  "json dict \<Rightarrow> json dict \<Rightarrow> string list \<Rightarrow> string \<Rightarrow> json dict res" where
  "copy_supported schema converted keywords ptr = rfold (copy_keyword schema ptr) keywords converted"

definition known_keywords :: "string \<Rightarrow> string list" where
  "known_keywords t =
     [''type'', ''nullable'', ''enum'', ''default'', ''exclusiveMinimum'', ''exclusiveMaximum'']
     @ ANNOTATION_KEYWORDS @ IGNORED_KEYWORDS
     @ (if t = ''string'' then STRING_KEYWORDS
        else if t = ''integer'' \<or> t = ''number'' then NUMBER_KEYWORDS
        else if t = ''array'' then ARRAY_KEYWORDS @ [''items'']
        else if t = ''object'' then [''properties'', ''required'', ''additionalProperties'']
        else [])"

definition reject_unknown_keywords :: "json dict \<Rightarrow> string \<Rightarrow> string \<Rightarrow> unit res" where
  "reject_unknown_keywords schema t ptr =
     (let unknown = sort (filter (\<lambda>k. k \<notin> set (known_keywords t)) (dkeys schema)) in
      if unknown \<noteq> [] then
        Inl (unsupported_feature (''the schema keyword '' @ repr_str (hd unknown)
               @ '' is not supported for a '' @ repr_str t @ '' schema'') ptr)
      else Inr ())"

section \<open>Objects and whole schemas\<close>

definition add_required :: "json dict \<Rightarrow> string \<Rightarrow> json \<Rightarrow> json list \<Rightarrow> json list res" where
  "add_required properties ptr entry required =
     (case entry of
        JStr s \<Rightarrow>
          if \<not> dhas s properties
          then Inl (invalid_document
                      (quoted ''required'' @ '' names a property the schema does not declare'')
                      (ptr @ ''/required''))
          else Inr (if entry \<in> set required then required else required @ [entry])
      | _ \<Rightarrow> Inl (invalid_document (quoted ''required'' @ '' entries must be strings'')
               (ptr @ ''/required'')))"

definition required_list :: "json dict \<Rightarrow> json dict \<Rightarrow> string \<Rightarrow> json list res" where
  "required_list schema properties ptr =
     (case get_or schema ''required'' (JArr []) of
        JArr xs \<Rightarrow> rfold (add_required properties ptr) xs []
      | _ \<Rightarrow> Inl (invalid_document (quoted ''required'' @ '' must be an array'') (ptr @ ''/required'')))"

definition schema_type :: "json dict \<Rightarrow> string \<Rightarrow> string res" where
  "schema_type schema ptr =
     (case jget schema ''type'' of
        JArr xs \<Rightarrow>
          Inl (unsupported_feature (''union types are only supported through '' @ quoted ''nullable'') ptr)
      | JNull \<Rightarrow>
          Inl (unsupported_feature
                 ''the schema does not declare a type; untyped values cannot be validated'' ptr)
      | JStr t \<Rightarrow>
          if t \<in> set ALL_TYPES then Inr t
          else Inl (unsupported_feature ''the schema declares an unsupported type'' ptr)
      | _ \<Rightarrow> Inl (unsupported_feature ''the schema declares an unsupported type'' ptr))"

text \<open>The checks on a schema object before anything is converted.\<close>

definition check_schema_head :: "json dict \<Rightarrow> string \<Rightarrow> nat \<Rightarrow> string res" where
  "check_schema_head schema ptr depth =
     (let present = filter (\<lambda>k. dhas k schema) COMPOSITION_KEYWORDS in
      if MAX_SCHEMA_DEPTH < depth
      then Inl (unsupported_feature
                  (''the schema nests deeper than '' @ string_of_nat MAX_SCHEMA_DEPTH @ '' levels'') ptr)
      else if present \<noteq> []
      then Inl (unsupported_feature
                  (''the schema keyword '' @ repr_str (hd present) @ '' is not supported'') ptr)
      else if dhas ''$ref'' schema
      then Inl (invalid_document ''the schema still contains a reference after resolution'' ptr)
      else schema_type schema ptr)"

text \<open>\<open>_convert_object\<close>, given how a property is converted.\<close>

definition convert_property ::
  "(string \<Rightarrow> json \<Rightarrow> json dict res) \<Rightarrow> string \<Rightarrow> string \<times> json \<Rightarrow> (string \<times> json) res" where
  "convert_property conv ptr p =
     (if fst p = [] then Inl (invalid_document ''a property name must be a non-empty string'' ptr)
      else rbind (conv (ptr @ ''/properties/'' @ encode_pointer_token (fst p)) (snd p))
             (\<lambda>c. Inr (fst p, JObj c)))"

definition convert_object ::
  "(string \<Rightarrow> json \<Rightarrow> json dict res) \<Rightarrow> json dict \<Rightarrow> string \<Rightarrow> json dict \<Rightarrow> json dict res" where
  "convert_object conv schema ptr converted =
     (let raw = jget schema ''properties'' in
      if \<not> is_obj raw \<or> obj_of raw = []
      then Inl (unsupported_feature
                  (''an object schema must declare at least one property; free-form objects cannot ''
                   @ ''be validated and are refused rather than passed through'') ptr)
      else if \<not> py_in (jget schema ''additionalProperties'') [JNull, JBool False]
      then Inl (unsupported_feature
                  (''an object schema that permits additional properties cannot be converted into a ''
                   @ ''closed tool schema'') ptr)
      else
        rbind (rmap (convert_property conv ptr) (obj_of raw)) (\<lambda>properties.
        rbind (required_list schema properties ptr) (\<lambda>required.
          Inr (dset ''additionalProperties'' (JBool False)
                (dset ''required'' (JArr required) (dset ''properties'' (JObj properties) converted))))))"

text \<open>The keywords that depend on the declared type.\<close>

definition type_keywords ::
  "(string \<Rightarrow> json \<Rightarrow> json dict res) \<Rightarrow> json dict \<Rightarrow> string \<Rightarrow> string \<Rightarrow> json dict \<Rightarrow> json dict res" where
  "type_keywords conv schema ptr t converted =
     (if t = ''string'' then copy_supported schema converted STRING_KEYWORDS ptr
      else if t = ''integer'' \<or> t = ''number'' then
        rbind (copy_supported schema converted NUMBER_KEYWORDS ptr) (\<lambda>c. apply_exclusive_bounds schema c ptr)
      else if t = ''array'' then
        rbind (copy_supported schema converted ARRAY_KEYWORDS ptr) (\<lambda>c.
          if jget schema ''items'' = JNull
          then Inl (unsupported_feature ''an array schema must declare its items'' ptr)
          else rbind (conv (ptr @ ''/items'') (jget schema ''items''))
                 (\<lambda>i. Inr (dset ''items'' (JObj i) c)))
      else if t = ''object'' then convert_object conv schema ptr converted
      else Inr converted)"

lemma type_keywords_cong [fundef_cong]:
  assumes "s = s'" and "ptr = ptr'" and "t = t'" and "c = c'"
    and "\<And>u v. f u v = g u v"
  shows "type_keywords f s ptr t c = type_keywords g s' ptr' t' c'"
proof -
  have "f = g" using assms(5) by blast
  with assms(1-4) show ?thesis by simp
qed

function convert_schema :: "string \<Rightarrow> nat \<Rightarrow> json \<Rightarrow> json dict res" where
  "convert_schema ptr depth node =
     (case node of
        JObj schema \<Rightarrow>
          rbind (check_schema_head schema ptr depth) (\<lambda>t.
          rbind (apply_nullable schema [(''type'', JStr t)] ptr) (\<lambda>c1.
          rbind (apply_annotations schema c1 ptr) (\<lambda>c2.
          rbind (apply_enum_and_default schema c2 t ptr) (\<lambda>c3.
          rbind (type_keywords (\<lambda>u v. convert_schema u (Suc depth) v) schema ptr t c3) (\<lambda>c4.
          rbind (reject_unknown_keywords schema t ptr) (\<lambda>_. Inr c4))))))
      | _ \<Rightarrow> Inl (invalid_document ''a schema must be an object'' ptr))"
  by pat_completeness auto
termination
  by (relation "measure (\<lambda>(ptr, depth, node). Suc MAX_SCHEMA_DEPTH - depth)")
    (auto simp: check_schema_head_def Let_def split: if_splits)

declare convert_schema.simps [simp del]


section \<open>What a conversion can return\<close>

definition output_keywords :: "string \<Rightarrow> string list" where
  "output_keywords t =
     [''type'', ''enum'', ''default''] @ ANNOTATION_KEYWORDS
     @ (if t = ''string'' then STRING_KEYWORDS
        else if t = ''integer'' \<or> t = ''number''
        then NUMBER_KEYWORDS @ [''exclusiveMinimum'', ''exclusiveMaximum'']
        else if t = ''array'' then ARRAY_KEYWORDS @ [''items'']
        else if t = ''object'' then [''properties'', ''required'', ''additionalProperties'']
        else [])"

definition declares :: "string \<Rightarrow> json dict \<Rightarrow> bool" where
  "declares t c \<longleftrightarrow>
     t \<in> set ALL_TYPES \<and> jget c ''type'' \<in> {JStr t, JArr [JStr t, JStr ''null'']} \<and>
     set (dkeys c) \<subseteq> set (output_keywords t) \<and>
     (\<forall>v\<in>set (arr_of (jget c ''enum'')). v = JNull \<or> matches_type v t) \<and>
     (\<forall>v. dget c ''default'' = Some v \<longrightarrow> matches_type v t)"

text \<open>Schemas of at most the given number of nested levels, closed at every object.\<close>

inductive closed_schema :: "nat \<Rightarrow> json dict \<Rightarrow> bool" where
  closed_scalar: "declares t c \<Longrightarrow> t \<notin> {''array'', ''object''} \<Longrightarrow> closed_schema n c"
| closed_array: "declares ''array'' c \<Longrightarrow> dget c ''items'' = Some (JObj i) \<Longrightarrow> closed_schema n i \<Longrightarrow>
     closed_schema (Suc n) c"
| closed_object: "declares ''object'' c \<Longrightarrow> dget c ''properties'' = Some (JObj ps) \<Longrightarrow> ps \<noteq> [] \<Longrightarrow>
     (\<And>k v. (k, v) \<in> set ps \<Longrightarrow> k \<noteq> [] \<and> (\<exists>s. v = JObj s \<and> closed_schema n s)) \<Longrightarrow>
     dget c ''required'' = Some (JArr (map JStr rs)) \<Longrightarrow> distinct rs \<Longrightarrow> set rs \<subseteq> set (dkeys ps) \<Longrightarrow>
     dget c ''additionalProperties'' = Some (JBool False) \<Longrightarrow>
     closed_schema (Suc n) c"

text \<open>\<open>frame K c c'\<close>: only keywords of \<open>K\<close> differ.\<close>

definition frame :: "string list \<Rightarrow> json dict \<Rightarrow> json dict \<Rightarrow> bool" where
  "frame K c c' \<longleftrightarrow> (\<forall>k. k \<notin> set K \<longrightarrow> dget c' k = dget c k)"

lemma frame_refl [simp]: "frame K c c"
  by (simp add: frame_def)

lemma frame_dset [simp]: "k \<in> set K \<Longrightarrow> frame K c (dset k v c)"
  by (auto simp: frame_def)

lemma frame_ddel: "set ks \<subseteq> set K \<Longrightarrow> frame K c (ddel ks c)"
  by (auto simp: frame_def dget_ddel)

lemma frame_trans: "frame K a b \<Longrightarrow> frame K b c \<Longrightarrow> frame K a c"
  by (simp add: frame_def)

lemma frame_mono: "frame K a b \<Longrightarrow> set K \<subseteq> set L \<Longrightarrow> frame L a b"
  by (auto simp: frame_def)

lemma frame_fold:
  assumes "rfold f xs c = Inr c'" and "\<And>x s s'. x \<in> set xs \<Longrightarrow> f x s = Inr s' \<Longrightarrow> frame K s s'"
  shows "frame K c c'"
  using assms(1)
proof (rule rfold_invariant)
  show "frame K c c" by simp
  show "frame K c s'" if "x \<in> set xs" and "frame K c s" and "f x s = Inr s'" for x s s'
    using frame_trans assms(2) that by blast
qed

lemma frame_keys: "frame K c c' \<Longrightarrow> set (dkeys c') \<subseteq> set (dkeys c) \<union> set K"
  unfolding frame_def by (metis UnI1 UnI2 dget_None_iff subsetI)

lemma apply_nullable_frame:
  "apply_nullable schema [(''type'', JStr t)] ptr = Inr c \<Longrightarrow>
     frame [''type''] [] c \<and> dget c ''type'' \<in> {Some (JStr t), Some (JArr [JStr t, JStr ''null''])}"
  by (auto simp: apply_nullable_def frame_def jget_def split: json.splits option.splits if_splits)

lemma apply_annotations_frame:
  "apply_annotations schema c ptr = Inr c' \<Longrightarrow> frame ANNOTATION_KEYWORDS c c'"
  unfolding apply_annotations_def
  by (rule frame_fold) (auto simp: apply_annotation_def split: option.splits json.splits if_splits)

lemma copy_supported_frame: "copy_supported schema c ks ptr = Inr c' \<Longrightarrow> frame ks c c'"
  unfolding copy_supported_def
  by (rule frame_fold) (auto simp: copy_keyword_def split: option.splits if_splits)

lemma apply_exclusive_frame:
  "apply_exclusive_bounds schema c ptr = Inr c' \<Longrightarrow>
     frame (NUMBER_KEYWORDS @ [''exclusiveMinimum'', ''exclusiveMaximum'']) c c'"
  unfolding apply_exclusive_bounds_def
proof (rule frame_fold)
  fix x s s'
  assume x: "x \<in> set [(''minimum'', ''exclusiveMinimum''), (''maximum'', ''exclusiveMaximum'')]"
    and step: "apply_exclusive_bound schema ptr x s = Inr s'"
  show "frame (NUMBER_KEYWORDS @ [''exclusiveMinimum'', ''exclusiveMaximum'']) s s'"
    using x step
    by (auto simp: apply_exclusive_bound_def NUMBER_KEYWORDS_def frame_def dget_ddel Let_def
        split: option.splits if_splits)
qed

lemma apply_enum_facts:
  "apply_enum schema c t ptr = Inr c' \<Longrightarrow>
     c' = c \<or> (\<exists>es. c' = dset ''enum'' (JArr es) c \<and> (\<forall>v\<in>set es. v = JNull \<or> matches_type v t))"
  by (auto simp: apply_enum_def is_arr_iff list_ex_iff split: option.splits if_splits)

lemma apply_default_facts:
  "apply_default schema c t ptr = Inr c' \<Longrightarrow>
     c' = c \<or> (\<exists>v. c' = dset ''default'' v c \<and> matches_type v t)"
  by (auto simp: apply_default_def split: option.splits if_splits)

lemma enum_and_default_facts:
  assumes "apply_enum_and_default schema c t ptr = Inr c'" and "dget c ''enum'' = None" and "dget c ''default'' = None"
  shows "frame [''enum'', ''default''] c c' \<and>
    (\<forall>v\<in>set (arr_of (jget c' ''enum'')). v = JNull \<or> matches_type v t) \<and>
    (\<forall>v. dget c' ''default'' = Some v \<longrightarrow> matches_type v t)"
proof -
  from assms(1) obtain m where m: "apply_enum schema c t ptr = Inr m" and d: "apply_default schema m t ptr = Inr c'"
    by (auto simp: apply_enum_and_default_def res_simps)
  show ?thesis
    using apply_enum_facts [OF m] apply_default_facts [OF d] assms(2,3)
    by (auto simp: frame_def jget_def)
qed

lemma required_list_facts:
  assumes "required_list schema ps ptr = Inr xs"
  shows "\<exists>rs. xs = map JStr rs \<and> distinct rs \<and> set rs \<subseteq> set (dkeys ps)"
proof -
  from assms obtain es where "rfold (add_required ps ptr) es [] = Inr xs"
    by (auto simp: required_list_def split: json.splits)
  then show ?thesis
  proof (rule rfold_invariant)
    show "\<exists>rs. [] = map JStr rs \<and> distinct rs \<and> set rs \<subseteq> set (dkeys ps)" by simp
    fix x s s'
    assume "\<exists>rs. s = map JStr rs \<and> distinct rs \<and> set rs \<subseteq> set (dkeys ps)" and "add_required ps ptr x s = Inr s'"
    then obtain rs n where rs: "s = map JStr rs" "distinct rs" "set rs \<subseteq> set (dkeys ps)"
      and n: "x = JStr n" "dhas n ps" and s': "s' = (if x \<in> set s then s else s @ [x])"
      by (auto simp: add_required_def split: json.splits if_splits)
    show "\<exists>rs. s' = map JStr rs \<and> distinct rs \<and> set rs \<subseteq> set (dkeys ps)"
    proof (cases "n \<in> set rs")
      case True
      with rs n s' show ?thesis by auto
    next
      case False
      with rs n s' have "s' = map JStr (rs @ [n])" "distinct (rs @ [n])" "set (rs @ [n]) \<subseteq> set (dkeys ps)"
        by (auto simp: dhas_def dkeys_def)
      then show ?thesis by blast
    qed
  qed
qed

lemma convert_object_facts:
  assumes "convert_object conv schema ptr c = Inr c'"
  shows "\<exists>ps rs. frame [''properties'', ''required'', ''additionalProperties''] c c' \<and>
    dget c' ''properties'' = Some (JObj ps) \<and> ps \<noteq> [] \<and>
    (\<forall>k v. (k, v) \<in> set ps \<longrightarrow> k \<noteq> [] \<and> (\<exists>u w s. conv u w = Inr s \<and> v = JObj s)) \<and>
    dget c' ''required'' = Some (JArr (map JStr rs)) \<and> distinct rs \<and> set rs \<subseteq> set (dkeys ps) \<and>
    dget c' ''additionalProperties'' = Some (JBool False)"
proof -
  from assms obtain ps xs where raw: "obj_of (jget schema ''properties'') \<noteq> []"
    and ps: "rmap (convert_property conv ptr) (obj_of (jget schema ''properties'')) = Inr ps"
    and xs: "required_list schema ps ptr = Inr xs"
    and c': "c' = dset ''additionalProperties'' (JBool False)
                (dset ''required'' (JArr xs) (dset ''properties'' (JObj ps) c))"
    by (auto simp: convert_object_def Let_def res_simps split: if_splits)
  obtain rs where rs: "xs = map JStr rs" "distinct rs" "set rs \<subseteq> set (dkeys ps)"
    using required_list_facts [OF xs] by blast
  have "ps \<noteq> []" using rmap_Inr_length [OF ps] raw by auto
  moreover have "k \<noteq> [] \<and> (\<exists>u w s. conv u w = Inr s \<and> v = JObj s)" if "(k, v) \<in> set ps" for k v
    using rmap_Inr_elem [OF ps that] by (auto simp: convert_property_def res_simps split: if_splits)
  moreover have "frame [''properties'', ''required'', ''additionalProperties''] c c'"
    unfolding c' by (simp add: frame_def)
  ultimately show ?thesis using rs unfolding c' by auto
qed

lemma schema_head_facts:
  "check_schema_head schema ptr depth = Inr t \<Longrightarrow> depth \<le> MAX_SCHEMA_DEPTH \<and> t \<in> set ALL_TYPES"
  by (auto simp: check_schema_head_def schema_type_def Let_def split: if_splits json.splits)

text \<open>The state of a conversion before the keywords that depend on the type.\<close>

definition typed_start :: "string \<Rightarrow> json dict \<Rightarrow> bool" where
  "typed_start t c \<longleftrightarrow>
     frame [''type'', ''description'', ''title'', ''enum'', ''default''] [] c \<and>
     jget c ''type'' \<in> {JStr t, JArr [JStr t, JStr ''null'']} \<and>
     (\<forall>v\<in>set (arr_of (jget c ''enum'')). v = JNull \<or> matches_type v t) \<and>
     (\<forall>v. dget c ''default'' = Some v \<longrightarrow> matches_type v t)"

lemma convert_schema_start:
  assumes "convert_schema ptr depth node = Inr c"
  shows "\<exists>schema t c3. node = JObj schema \<and> check_schema_head schema ptr depth = Inr t \<and> typed_start t c3 \<and>
    type_keywords (\<lambda>u v. convert_schema u (Suc depth) v) schema ptr t c3 = Inr c"
proof -
  obtain schema where node: "node = JObj schema"
    using assms by (cases node) (simp_all add: convert_schema.simps)
  from assms obtain t c1 c2 c3 where t: "check_schema_head schema ptr depth = Inr t"
    and c1: "apply_nullable schema [(''type'', JStr t)] ptr = Inr c1"
    and c2: "apply_annotations schema c1 ptr = Inr c2"
    and c3: "apply_enum_and_default schema c2 t ptr = Inr c3"
    and c: "type_keywords (\<lambda>u v. convert_schema u (Suc depth) v) schema ptr t c3 = Inr c"
    unfolding node by (subst (asm) convert_schema.simps) (auto simp: res_simps)
  have f1: "frame [''type''] [] c1" and ty: "dget c1 ''type'' \<in> {Some (JStr t), Some (JArr [JStr t, JStr ''null''])}"
    using apply_nullable_frame [OF c1] by auto
  have f2: "frame ANNOTATION_KEYWORDS c1 c2" by (rule apply_annotations_frame [OF c2])
  have none: "dget c2 ''enum'' = None" "dget c2 ''default'' = None"
    using f1 f2 by (simp_all add: frame_def ANNOTATION_KEYWORDS_def)
  note f3 = enum_and_default_facts [OF c3 none]
  note f4 = f3 [THEN conjunct1]
  have "frame [''type'', ''description'', ''title'', ''enum'', ''default''] [] c3"
    using f1 f2 f4 by (simp add: frame_def ANNOTATION_KEYWORDS_def)
  moreover have "dget c3 ''type'' = dget c1 ''type''"
    using f2 f4 by (simp add: frame_def ANNOTATION_KEYWORDS_def)
  then have "jget c3 ''type'' \<in> {JStr t, JArr [JStr t, JStr ''null'']}"
    using ty by (auto simp: jget_def)
  ultimately have "typed_start t c3" using f3 unfolding typed_start_def by blast
  with node t c show ?thesis by blast
qed

lemma declaresI:
  assumes "t \<in> set ALL_TYPES" and "typed_start t c3" and "frame K c3 c"
    and "set K \<inter> {''type'', ''enum'', ''default''} = {}" and "set K \<subseteq> set (output_keywords t)"
  shows "declares t c"
proof -
  let ?D = "[''type'', ''description'', ''title'', ''enum'', ''default'']"
  have same: "dget c ''type'' = dget c3 ''type''" "dget c ''enum'' = dget c3 ''enum''" "dget c ''default'' = dget c3 ''default''"
    using assms(3,4) by (auto simp: frame_def)
  have start: "set (dkeys c3) \<subseteq> set ?D"
    using frame_keys [of ?D "[]" c3] assms(2) by (simp add: typed_start_def dkeys_def)
  have "set (dkeys c) \<subseteq> set ?D \<union> set K"
    using frame_keys [OF assms(3)] start by blast
  also have "\<dots> \<subseteq> set (output_keywords t)"
    using assms(5) by (auto simp: output_keywords_def ANNOTATION_KEYWORDS_def)
  finally show ?thesis
    using assms(1,2) same by (simp add: declares_def typed_start_def jget_def)
qed

text \<open>The keywords of a type keep what was declared, given that nested conversions are closed.\<close>

lemma type_keywords_closed:
  assumes k: "type_keywords conv schema ptr t c3 = Inr c" and t: "t \<in> set ALL_TYPES" and c3: "typed_start t c3"
    and conv: "\<And>u v s. conv u v = Inr s \<Longrightarrow> 0 < n \<and> closed_schema (n - 1) s"
  shows "closed_schema n c"
proof -
  note decl = declaresI [OF t c3]
  consider "t = ''array''" | "t = ''object''" | "t = ''integer'' \<or> t = ''number''" | "t = ''string''"
    | "t \<notin> {''array'', ''object'', ''integer'', ''number'', ''string''}" by auto
  then show ?thesis
  proof cases
    case 1
    with k obtain m i where m: "copy_supported schema c3 ARRAY_KEYWORDS ptr = Inr m"
      and i: "conv (ptr @ ''/items'') (jget schema ''items'') = Inr i" and c': "c = dset ''items'' (JObj i) m"
      by (auto simp: type_keywords_def res_simps split: if_splits)
    have "frame (ARRAY_KEYWORDS @ [''items'']) c3 c"
      using copy_supported_frame [OF m] unfolding c' by (simp add: frame_def)
    then have "declares t c"
      by (rule decl) (simp_all add: ARRAY_KEYWORDS_def output_keywords_def 1)
    moreover obtain n' where "n = Suc n'" "closed_schema n' i" using conv [OF i] by (cases n) auto
    ultimately show ?thesis using 1 closed_array [of c i n'] by (simp add: c')
  next
    case 2
    with k have o: "convert_object conv schema ptr c3 = Inr c" by (simp add: type_keywords_def)
    from convert_object_facts [OF o] obtain ps rs where
      f: "frame [''properties'', ''required'', ''additionalProperties''] c3 c" and
      ps: "dget c ''properties'' = Some (JObj ps)" "ps \<noteq> []"
        "\<forall>k v. (k, v) \<in> set ps \<longrightarrow> k \<noteq> [] \<and> (\<exists>u w s. conv u w = Inr s \<and> v = JObj s)" and
      rs: "dget c ''required'' = Some (JArr (map JStr rs))" "distinct rs" "set rs \<subseteq> set (dkeys ps)" and
      ap: "dget c ''additionalProperties'' = Some (JBool False)"
      by blast
    have d: "declares ''object'' c" using decl [OF f] 2 by (simp add: output_keywords_def)
    obtain k v where kv: "(k, v) \<in> set ps" using ps(2) by (cases ps) auto
    obtain u w s where "conv u w = Inr s" using ps(3) kv by blast
    then obtain n' where n: "n = Suc n'" using conv gr0_conv_Suc by blast
    have "k \<noteq> [] \<and> (\<exists>s. v = JObj s \<and> closed_schema n' s)" if kv: "(k, v) \<in> set ps" for k v
    proof -
      from ps(3) kv obtain u w s where "k \<noteq> []" and s: "conv u w = Inr s" "v = JObj s" by blast
      moreover have "closed_schema n' s" using conv [OF s(1)] n by simp
      ultimately show ?thesis by blast
    qed
    then show ?thesis unfolding n by (rule closed_object [OF d ps(1,2) _ rs ap])
  next
    case 3
    with k obtain m where m: "copy_supported schema c3 NUMBER_KEYWORDS ptr = Inr m"
      and e: "apply_exclusive_bounds schema m ptr = Inr c"
      by (auto simp: type_keywords_def res_simps split: if_splits)
    have "frame (NUMBER_KEYWORDS @ [''exclusiveMinimum'', ''exclusiveMaximum'']) c3 c"
      using copy_supported_frame [OF m] apply_exclusive_frame [OF e] by (simp add: frame_def)
    then have "declares t c"
      by (rule decl) (use 3 in \<open>auto simp: NUMBER_KEYWORDS_def output_keywords_def\<close>)
    then show ?thesis using 3 by (intro closed_scalar) auto
  next
    case 4
    with k have "copy_supported schema c3 STRING_KEYWORDS ptr = Inr c" by (simp add: type_keywords_def)
    from decl [OF copy_supported_frame [OF this]] have "declares t c"
      by (simp add: 4 STRING_KEYWORDS_def output_keywords_def)
    then show ?thesis using 4 by (intro closed_scalar) auto
  next
    case 5
    with k have "c = c3" by (simp add: type_keywords_def)
    with decl [of "[]" c] have "declares t c" by simp
    then show ?thesis using 5 by (intro closed_scalar) auto
  qed
qed

lemma convert_schema_closed:
  "convert_schema ptr depth node = Inr c \<Longrightarrow>
     depth \<le> MAX_SCHEMA_DEPTH \<and> closed_schema (MAX_SCHEMA_DEPTH - depth) c"
proof (induction "Suc MAX_SCHEMA_DEPTH - depth" arbitrary: ptr depth node c rule: less_induct)
  case less
  obtain schema t c3 where t: "check_schema_head schema ptr depth = Inr t" and c3: "typed_start t c3"
    and k: "type_keywords (\<lambda>u v. convert_schema u (Suc depth) v) schema ptr t c3 = Inr c"
    using convert_schema_start [OF less.prems] by blast
  have d: "depth \<le> MAX_SCHEMA_DEPTH" "t \<in> set ALL_TYPES" using schema_head_facts [OF t] by auto
  have "0 < MAX_SCHEMA_DEPTH - depth \<and> closed_schema (MAX_SCHEMA_DEPTH - depth - 1) s"
    if "convert_schema u (Suc depth) v = Inr s" for u v s
  proof -
    have "Suc MAX_SCHEMA_DEPTH - Suc depth < Suc MAX_SCHEMA_DEPTH - depth" using d(1) by simp
    from less.hyps [OF this that] show ?thesis by (simp add: diff_diff_add)
  qed
  with k d c3 show ?case by (intro conjI type_keywords_closed [OF k]) auto
qed

section \<open>Properties\<close>

text \<open>
  C18: Whatever the source schema, a converted schema is closed: at every level it declares one supported
  type, possibly nullable, and only keywords allowed for that type; every object lists its properties,
  requires only declared ones and forbids additional ones; every array declares its items; enumerated
  and default values have the declared type; and there are at most nine levels.
\<close>

theorem converted_schema_is_closed:
  assumes "convert_schema ptr 0 node = Inr c"
  shows "closed_schema 8 c"
  using convert_schema_closed [OF assms] by (simp add: MAX_SCHEMA_DEPTH_def)

lemma converted_schema_is_closed_witness:
  "\<exists>c. convert_schema [] 0 (JObj [(''type'', JStr ''object''), (''properties'',
       JObj [(''n'', JObj [(''type'', JStr ''integer''), (''minimum'', JInt 1), (''exclusiveMinimum'', JBool True)])]),
       (''required'', JArr [JStr ''n''])]) = Inr c \<and>
     jget (obj_of (jget (obj_of (jget c ''properties'')) ''n'')) ''exclusiveMinimum'' = JInt 1 \<and> closed_schema 8 c"
proof -
  define node where "node = JObj [(''type'', JStr ''object''), (''properties'',
       JObj [(''n'', JObj [(''type'', JStr ''integer''), (''minimum'', JInt 1), (''exclusiveMinimum'', JBool True)])]),
       (''required'', JArr [JStr ''n''])]"
  have "case convert_schema [] 0 node of Inl e \<Rightarrow> False
    | Inr c \<Rightarrow> jget (obj_of (jget (obj_of (jget c ''properties'')) ''n'')) ''exclusiveMinimum'' = JInt 1"
    unfolding node_def by code_simp
  then obtain c where c: "convert_schema [] 0 node = Inr c"
    and v: "jget (obj_of (jget (obj_of (jget c ''properties'')) ''n'')) ''exclusiveMinimum'' = JInt 1"
    by (auto split: sum.splits)
  from converted_schema_is_closed [OF c] c v show ?thesis unfolding node_def by blast
qed

end
