(* ===== verification/Converter.thy ===== *)
theory Converter
  imports Arguments SchemaConversion
begin

text \<open>
  One OpenAPI operation into one tool definition:
  \<^verbatim>\<open>packages/openapi-converter/toollayer_openapi/converter.py\<close>. The lemmas at the end state what the
  module's header promises of a converted tool: every argument is bound exactly once, every binding
  reads a declared argument, and every placeholder of the path is filled by a required argument.
\<close>

section \<open>Tables\<close>

definition SUPPORTED_METHODS :: "string list" where
  "SUPPORTED_METHODS = [''get'', ''post'', ''put'', ''patch'', ''delete'']"

definition BODY_ARGUMENT :: string where
  "BODY_ARGUMENT = ''body''"

definition JSON_MEDIA_TYPE :: string where
  "JSON_MEDIA_TYPE = ''application/json''"

definition METHOD_POLICY :: "(string \<times> effect_class \<times> bool) list" where
  "METHOD_POLICY =
     [(''get'', ReadEffect, False), (''post'', WriteEffect, False), (''put'', WriteEffect, False),
      (''patch'', WriteEffect, False), (''delete'', DestructiveEffect, True)]"

definition operation_key :: "string \<Rightarrow> string \<Rightarrow> string" where
  "operation_key path method = str_lower method @ '' '' @ path"

section \<open>Parameters\<close>

record parameter =
  param_name :: string
  param_location :: binding_target
  param_required :: bool
  param_schema :: "json dict"
  param_description :: "string option"

definition reject_unsupported_operation_features :: "json dict \<Rightarrow> json dict \<Rightarrow> unit res" where
  "reject_unsupported_operation_features path_item op =
     (if dhas ''servers'' path_item \<or> dhas ''servers'' op
      then Inl (unsupported_feature
                  (''per-path and per-operation server overrides are not supported; the connector ''
                   @ ''declares one reviewed base URL'') [])
      else if dhas ''callbacks'' op
      then Inl (unsupported_feature ''callbacks are not supported'' [])
      else if \<not> py_in (jget op ''security'') [JNull, JArr []]
      then Inl (unsupported_feature
                  (''per-operation security requirements are not interpreted; authentication is a ''
                   @ ''runtime concern resolved from the connector's auth profile'') [])
      else Inr ())"

definition reject_flag :: "json dict \<Rightarrow> string \<Rightarrow> string \<Rightarrow> unit \<Rightarrow> unit res" where
  "reject_flag entry name flag u =
     (case get_or entry flag (JBool False) of
        JBool b \<Rightarrow>
          if b then Inl (unsupported_feature (''the parameter '' @ repr_str name @ '' sets ''
                           @ repr_str flag @ '', which the executor does not implement'') [])
          else Inr ()
      | _ \<Rightarrow> Inl (invalid_document
               (''the parameter '' @ repr_str name @ '' has a non-boolean '' @ repr_str flag) []))"

definition reject_unsupported_serialization ::
  "platform \<Rightarrow> json dict \<Rightarrow> string \<Rightarrow> binding_target \<Rightarrow> unit res" where
  "reject_unsupported_serialization P entry name location =
     (let default_style = (if location = PathTarget then ''simple'' else ''form'');
          style = get_or entry ''style'' (JStr default_style);
          default_explode = (location = QueryTarget)
      in
      if style \<noteq> JStr default_style
      then Inl (unsupported_feature (''the parameter '' @ repr_str name
                  @ '' uses the serialization style '' @ py_repr P style
                  @ '', which the executor does not implement'') [])
      else case get_or entry ''explode'' (JBool default_explode) of
        JBool explode \<Rightarrow>
          if explode \<noteq> default_explode
          then Inl (unsupported_feature (''the parameter '' @ repr_str name @ '' overrides ''
                      @ repr_str ''explode'' @ '', which the executor does not implement'') [])
          else rfold (reject_flag entry name) [''allowReserved'', ''allowEmptyValue''] ()
      | _ \<Rightarrow> Inl (invalid_document
               (''the parameter '' @ repr_str name @ '' has a non-boolean '' @ repr_str ''explode'') []))"

definition parameter_location :: "string \<Rightarrow> json \<Rightarrow> binding_target res" where
  "parameter_location name v =
     (case v of
        JStr location \<Rightarrow>
          if location = [] then Inl (invalid_document (''the parameter '' @ repr_str name
                                       @ '' must declare an '' @ repr_str ''in'' @ '' location'') [])
          else if location = ''header'' \<or> location = ''cookie''
          then Inl (unsupported_feature (''the parameter '' @ repr_str name @ '' is a '' @ location
                      @ '' parameter; header and cookie inputs are not exposed as model-supplied arguments'')
                      [])
          else if location = ''path'' then Inr PathTarget
          else if location = ''query'' then Inr QueryTarget
          else Inl (invalid_document
                      (''the parameter '' @ repr_str name @ '' declares an unknown location'') [])
      | _ \<Rightarrow> Inl (invalid_document (''the parameter '' @ repr_str name
               @ '' must declare an '' @ repr_str ''in'' @ '' location'') []))"

definition parameter_required :: "json dict \<Rightarrow> string \<Rightarrow> binding_target \<Rightarrow> bool res" where
  "parameter_required entry name location =
     (case get_or entry ''required'' (JBool False) of
        JBool required \<Rightarrow>
          if location = PathTarget \<and> \<not> required
          then Inl (invalid_document (''the path parameter '' @ repr_str name @ '' must declare ''
                      @ repr_str ''required: true'') [])
          else Inr required
      | _ \<Rightarrow> Inl (invalid_document (''the parameter '' @ repr_str name @ '' has a non-boolean ''
               @ repr_str ''required'') []))"

definition parameter_schema :: "json dict \<Rightarrow> string \<Rightarrow> json dict res" where
  "parameter_schema entry name =
     (if dhas ''content'' entry
      then Inl (unsupported_feature (''the parameter '' @ repr_str name
                  @ '' uses a media-type-encoded value, which is not supported'') [])
      else case jget entry ''schema'' of
        JObj schema \<Rightarrow> Inr schema
      | _ \<Rightarrow> Inl (invalid_document
               (''the parameter '' @ repr_str name @ '' must declare a schema object'') []))"

definition parameter_description :: "json dict \<Rightarrow> string \<Rightarrow> string option res" where
  "parameter_description entry name =
     (case jget entry ''description'' of
        JNull \<Rightarrow> Inr None
      | JStr s \<Rightarrow> Inr (Some (str_strip s))
      | _ \<Rightarrow> Inl (invalid_document
               (''the parameter '' @ repr_str name @ '' has a non-string description'') []))"

definition parse_parameter :: "platform \<Rightarrow> json \<Rightarrow> string \<Rightarrow> parameter res" where
  "parse_parameter P v origin =
     (case v of
        JObj entry \<Rightarrow>
          if dhas ''$ref'' entry
          then Inl (invalid_document ''a parameter still contains a reference after resolution'' [])
          else if \<not> is_str (jget entry ''name'') \<or> str_of (jget entry ''name'') = []
          then Inl (invalid_document ''a parameter must declare a non-empty name'' [])
          else
            (let name = str_of (jget entry ''name'') in
             rbind (parameter_location name (jget entry ''in'')) (\<lambda>location.
             rbind (parameter_required entry name location) (\<lambda>required.
             rbind (reject_unsupported_serialization P entry name location) (\<lambda>_.
             rbind (parameter_schema entry name) (\<lambda>schema.
             rbind (parameter_description entry name) (\<lambda>desc.
               Inr \<lparr>param_name = name, param_location = location, param_required = required,
                    param_schema = schema, param_description = desc\<rparr>))))))
      | _ \<Rightarrow> Inl (invalid_document (origin @ '' parameter entries must be objects'') []))"

text \<open>The dictionary of parameters is keyed by name and location, in insertion order.\<close>

type_synonym parameter_key = "string \<times> binding_target"

definition parameter_key :: "parameter \<Rightarrow> parameter_key" where
  "parameter_key p = (param_name p, param_location p)"

definition collect_entry ::
  "platform \<Rightarrow> string \<Rightarrow> json \<Rightarrow> parameter_key list \<times> (parameter_key \<times> parameter) list
    \<Rightarrow> (parameter_key list \<times> (parameter_key \<times> parameter) list) res" where
  "collect_entry P origin entry st =
     rbind (parse_parameter P entry origin) (\<lambda>p.
       if parameter_key p \<in> set (fst st)
       then Inl (invalid_document (''the '' @ origin @ '' declares the parameter ''
                   @ repr_str (param_name p) @ '' twice'') [])
       else Inr (parameter_key p # fst st, AList.update (parameter_key p) p (snd st)))"

definition collect_source ::
  "platform \<Rightarrow> string \<times> json \<Rightarrow> (parameter_key \<times> parameter) list
    \<Rightarrow> (parameter_key \<times> parameter) list res" where
  "collect_source P origin merged =
     (case snd origin of
        JNull \<Rightarrow> Inr merged
      | JArr entries \<Rightarrow>
          rbind (rfold (collect_entry P (fst origin)) entries ([], merged)) (\<lambda>st. Inr (snd st))
      | _ \<Rightarrow> Inl (invalid_document
               (fst origin @ '' '' @ repr_str ''parameters'' @ '' must be an array'') []))"

definition collect_parameters :: "platform \<Rightarrow> json dict \<Rightarrow> json dict \<Rightarrow> parameter list res" where
  "collect_parameters P path_item op =
     rbind (rfold (collect_source P)
              [(''path item'', jget path_item ''parameters''), (''operation'', jget op ''parameters'')] [])
       (\<lambda>merged. Inr (map snd merged))"

section \<open>Placeholders\<close>

text \<open>The loop over the characters: the names found so far and, inside braces, the current name.\<close>

fun scan_placeholders :: "string \<Rightarrow> string option \<Rightarrow> string list \<Rightarrow> string list res" where
  "scan_placeholders [] None found = Inr found"
| "scan_placeholders [] (Some cur) found =
     Inl (invalid_document ''the path contains an unterminated placeholder'' [])"
| "scan_placeholders (c # s) cur found =
     (if c = CHR ''{'' then
        (if cur \<noteq> None then Inl (invalid_document ''the path contains a nested placeholder'' [])
         else scan_placeholders s (Some []) found)
      else if c = CHR ''}'' then
        (case cur of
           None \<Rightarrow> Inl (invalid_document ''the path contains an unbalanced placeholder'' [])
         | Some name \<Rightarrow> scan_placeholders s None (found @ [name]))
      else scan_placeholders s (map_option (\<lambda>name. name @ [c]) cur) found)"

definition check_path_placeholders :: "string \<Rightarrow> parameter list \<Rightarrow> unit res" where
  "check_path_placeholders path parameters =
     rbind (scan_placeholders path None []) (\<lambda>placeholders.
       if \<not> distinct placeholders
       then Inl (invalid_document ''the path repeats a placeholder name'' [])
       else
         (let declared = map param_name (filter (\<lambda>p. param_location p = PathTarget) parameters);
              missing = sort (filter (\<lambda>n. n \<notin> set declared) placeholders);
              extra = sort (filter (\<lambda>n. n \<notin> set placeholders) declared)
          in if missing \<noteq> []
             then Inl (invalid_document (''the path placeholder '' @ repr_str (hd missing)
                         @ '' has no matching path parameter'') [])
             else if extra \<noteq> []
             then Inl (invalid_document (''the path parameter '' @ repr_str (hd extra)
                         @ '' has no matching path placeholder'') [])
             else Inr ()))"

section \<open>Arguments\<close>

text \<open>The three collections the conversion fills: properties, required names and bindings.\<close>

record arguments_state =
  arg_properties :: "json dict"
  arg_required :: "string list"
  arg_bindings :: "argument_binding list"

definition no_arguments :: arguments_state where
  "no_arguments = \<lparr>arg_properties = [], arg_required = [], arg_bindings = []\<rparr>"

definition mk_binding :: "string \<Rightarrow> binding_target \<Rightarrow> string \<Rightarrow> argument_binding res" where
  "mk_binding ptr target name =
     checked binding_ok \<lparr>argument_pointer = ptr, binding_target = target, target_name = name\<rparr>"

definition add_parameter :: "parameter \<Rightarrow> arguments_state \<Rightarrow> arguments_state res" where
  "add_parameter p st =
     (if dhas (param_name p) (arg_properties st)
      then Inl (unsupported_feature (''the parameter name '' @ repr_str (param_name p)
                  @ '' is used in more than one location; the flat argument object cannot represent both'')
                  [])
      else
        rbind (convert_schema (''/parameters/'' @ param_name p) 0 (JObj (param_schema p))) (\<lambda>schema.
        rbind (mk_binding (''/'' @ encode_pointer_token (param_name p)) (param_location p) (param_name p))
          (\<lambda>b.
          let described =
            (case param_description p of
               Some t \<Rightarrow> if t \<noteq> [] \<and> \<not> dhas ''description'' schema
                         then dset ''description'' (JStr t) schema else schema
             | None \<Rightarrow> schema)
          in Inr \<lparr>arg_properties = dset (param_name p) (JObj described) (arg_properties st),
                  arg_required = (if param_required p then arg_required st @ [param_name p]
                                  else arg_required st),
                  arg_bindings = arg_bindings st @ [b]\<rparr>)))"

definition body_binding :: "string \<Rightarrow> argument_binding res" where
  "body_binding field_name =
     mk_binding (''/'' @ BODY_ARGUMENT @ ''/'' @ encode_pointer_token field_name) BodyTarget
       (''/'' @ encode_pointer_token field_name)"

definition body_media :: "json dict \<Rightarrow> json dict res" where
  "body_media raw =
     (case jget raw ''content'' of
        JObj content \<Rightarrow>
          if content = []
          then Inl (invalid_document (quoted ''requestBody'' @ '' must declare a content object'') [])
          else (case dget content JSON_MEDIA_TYPE of
                  None \<Rightarrow> Inl (unsupported_feature (''the request body offers ''
                            @ repr_str (hd (sort (dkeys content))) @ ''; only ''
                            @ repr_str JSON_MEDIA_TYPE @ '' is supported'') [])
                | Some (JObj media) \<Rightarrow>
                    (case jget media ''schema'' of
                       JObj schema \<Rightarrow> Inr schema
                     | _ \<Rightarrow> Inl (invalid_document
                              ''the request body must declare a schema object'' []))
                | Some _ \<Rightarrow> Inl (invalid_document
                              ''the request body media type entry must be an object'' []))
      | _ \<Rightarrow> Inl (invalid_document (quoted ''requestBody'' @ '' must declare a content object'') []))"

definition body_required :: "json dict \<Rightarrow> bool res" where
  "body_required raw =
     (case get_or raw ''required'' (JBool False) of
        JBool b \<Rightarrow> Inr b
      | _ \<Rightarrow> Inl (invalid_document (repr_str ''requestBody.required'' @ '' must be a boolean'') []))"

definition convert_request_body ::
  "json dict \<Rightarrow> arguments_state \<Rightarrow> (string option \<times> arguments_state) res" where
  "convert_request_body op st =
     (case jget op ''requestBody'' of
        JNull \<Rightarrow> Inr (None, st)
      | JObj raw \<Rightarrow>
          rbind (body_media raw) (\<lambda>schema.
            if dhas BODY_ARGUMENT (arg_properties st)
            then Inl (unsupported_feature (''the operation declares a parameter named ''
                        @ repr_str BODY_ARGUMENT
                        @ '', which collides with the request body argument'') [])
            else
              rbind (convert_schema ''/requestBody'' 0 (JObj schema)) (\<lambda>body_schema.
                if jget body_schema ''type'' \<noteq> JStr ''object''
                then Inl (unsupported_feature
                       (''only object request bodies are supported; a scalar or array body cannot be ''
                        @ ''described as a named tool argument'') [])
                else
                  rbind (body_required raw) (\<lambda>required.
                  rbind (rmap body_binding (dkeys (obj_of (jget body_schema ''properties'')))) (\<lambda>bs.
                    Inr (Some JSON_MEDIA_TYPE,
                         \<lparr>arg_properties = dset BODY_ARGUMENT (JObj body_schema) (arg_properties st),
                          arg_required = (if required then arg_required st @ [BODY_ARGUMENT]
                                          else arg_required st),
                          arg_bindings = arg_bindings st @ bs\<rparr>)))))
      | _ \<Rightarrow> Inl (invalid_document (quoted ''requestBody'' @ '' must be an object'') []))"

section \<open>Naming and prose\<close>

definition operation_id_of :: "json dict \<Rightarrow> string option res" where
  "operation_id_of op =
     (case dget op ''operationId'' of
        None \<Rightarrow> Inr None
      | Some v \<Rightarrow>
          if \<not> is_str v \<or> str_strip (str_of v) = []
          then Inl (invalid_document
                      (quoted ''operationId'' @ '' must be a non-empty string when present'') [])
          else if 256 < length (str_of v)
          then Inl (invalid_document (quoted ''operationId'' @ '' is too long'') [])
          else Inr (Some (str_of v)))"

definition prose_of :: "json dict \<Rightarrow> string \<Rightarrow> string" where
  "prose_of op f = (case jget op f of JStr s \<Rightarrow> str_strip s | _ \<Rightarrow> [])"

definition has_prose :: "json dict \<Rightarrow> bool" where
  "has_prose op \<longleftrightarrow> list_ex (\<lambda>f. prose_of op f \<noteq> []) [''description'', ''summary'']"

definition description_of :: "json dict \<Rightarrow> string \<Rightarrow> string \<Rightarrow> string" where
  "description_of op method path =
     (case first_match (\<lambda>f. prose_of op f \<noteq> []) [''description'', ''summary''] of
        Some f \<Rightarrow> take 1024 (prose_of op f)
      | None \<Rightarrow> take 1024 (''Call '' @ str_upper method @ '' '' @ path @ '' on the connected API.''))"

definition display_name_of :: "json dict \<Rightarrow> string \<Rightarrow> string" where
  "display_name_of op name =
     (if prose_of op ''summary'' \<noteq> [] then take 128 (prose_of op ''summary'')
      else take 128 (to_display_name name))"

definition add_tag :: "json \<Rightarrow> string list \<Rightarrow> string list res" where
  "add_tag tag ts =
     (if \<not> is_str tag \<or> str_strip (str_of tag) = []
      then Inl (invalid_document (quoted ''tags'' @ '' entries must be non-empty strings'') [])
      else let s = take 64 (str_strip (str_of tag)) in Inr (if s \<in> set ts then ts else ts @ [s]))"

definition tags_of :: "json dict \<Rightarrow> string list res" where
  "tags_of op =
     (case get_or op ''tags'' (JArr []) of
        JArr raw \<Rightarrow> rbind (rfold add_tag raw []) (\<lambda>ts. Inr (take 32 ts))
      | _ \<Rightarrow> Inl (invalid_document (quoted ''tags'' @ '' must be an array'') []))"

definition deprecated_of :: "json dict \<Rightarrow> bool res" where
  "deprecated_of op =
     (case get_or op ''deprecated'' (JBool False) of
        JBool b \<Rightarrow> Inr b
      | _ \<Rightarrow> Inl (invalid_document (quoted ''deprecated'' @ '' must be a boolean'') []))"

section \<open>The operation\<close>

definition tool_input_schema :: "arguments_state \<Rightarrow> json dict" where
  "tool_input_schema st =
     [(''$schema'', JStr DRAFT_2020_12), (''type'', JStr ''object''),
      (''properties'', JObj (arg_properties st)), (''required'', JArr (map JStr (arg_required st))),
      (''additionalProperties'', JBool False)]"

text \<open>The constructors of the contract models check what they build, inner models first.\<close>

definition build_tool ::
  "json dict \<Rightarrow> string \<Rightarrow> string \<Rightarrow> string option \<Rightarrow> string \<Rightarrow> string option \<Rightarrow> arguments_state
    \<Rightarrow> tool_definition res" where
  "build_tool op path method operation_id name media st =
     (case map_of METHOD_POLICY method of
        None \<Rightarrow> Inl KeyError
      | Some (effect, confirm) \<Rightarrow>
          rbind (checked operation_ok
                   \<lparr>op_method = str_upper method, path_template = path, op_bindings = arg_bindings st,
                    request_body_media_type = media\<rparr>) (\<lambda>request.
          rbind (tags_of op) (\<lambda>ts.
          rbind (deprecated_of op) (\<lambda>dep.
          rbind (checked provenance_ok
                   \<lparr>source_operation_id = operation_id, source_path = path, source_method = method,
                    tags = ts, deprecated = dep,
                    description_origin = (if has_prose op then ''source'' else ''generated'')\<rparr>) (\<lambda>prov.
            checked tool_ok
              \<lparr>tool_name = name, display_name = display_name_of op name,
               description = description_of op method path, input_schema = tool_input_schema st,
               operation = request,
               policy = \<lparr>effect_class = effect, requires_confirmation = confirm, access = public_access\<rparr>,
               provenance = prov\<rparr>)))))"

definition convert_operation ::
  "platform \<Rightarrow> string \<Rightarrow> string \<Rightarrow> json dict \<Rightarrow> json dict \<Rightarrow> tool_definition res" where
  "convert_operation P path raw_method path_item op =
     (let method = str_lower raw_method in
      if method \<notin> set SUPPORTED_METHODS
      then Inl (unsupported_feature
                  (''the HTTP method '' @ repr_str raw_method @ '' is not supported'') [])
      else
        rbind (reject_unsupported_operation_features path_item op) (\<lambda>_.
        rbind (collect_parameters P path_item op) (\<lambda>parameters.
        rbind (check_path_placeholders path parameters) (\<lambda>_.
        rbind (rfold add_parameter parameters no_arguments) (\<lambda>st.
        rbind (convert_request_body op st) (\<lambda>body.
        rbind (operation_id_of op) (\<lambda>operation_id.
        rbind (case operation_id of
                 Some i \<Rightarrow> normalize_tool_name P i
               | None \<Rightarrow> derive_tool_name P method path) (\<lambda>name.
          build_tool op path method operation_id name (fst body) (snd body)))))))))"


section \<open>Lemmas on the parameters\<close>

definition param_binding :: "parameter \<Rightarrow> argument_binding" where
  "param_binding p =
     \<lparr>argument_pointer = ''/'' @ encode_pointer_token (param_name p),
      binding_target = param_location p, target_name = param_name p\<rparr>"

definition field_binding :: "string \<Rightarrow> argument_binding" where
  "field_binding f =
     \<lparr>argument_pointer = ''/body/'' @ encode_pointer_token f, binding_target = BodyTarget,
      target_name = ''/'' @ encode_pointer_token f\<rparr>"

definition param_ok :: "parameter \<Rightarrow> bool" where
  "param_ok p \<longleftrightarrow>
     param_location p \<in> {PathTarget, QueryTarget} \<and> (param_location p = PathTarget \<longrightarrow> param_required p)"

lemma parse_parameter_ok: "parse_parameter P v origin = Inr p \<Longrightarrow> param_ok p"
proof -
  assume p: "parse_parameter P v origin = Inr p"
  then obtain entry where "v = JObj entry" by (cases v) (simp_all add: parse_parameter_def)
  with p obtain name where
    l: "parameter_location name (jget entry ''in'') = Inr (param_location p)" and
    r: "parameter_required entry name (param_location p) = Inr (param_required p)"
    by (auto simp: parse_parameter_def Let_def res_simps split: if_splits)
  from l have "param_location p \<in> {PathTarget, QueryTarget}"
    by (auto simp: parameter_location_def split: json.splits if_splits)
  moreover from r have "param_location p = PathTarget \<longrightarrow> param_required p"
    by (auto simp: parameter_required_def split: json.splits if_splits)
  ultimately show ?thesis by (simp add: param_ok_def)
qed

lemma alist_update_elem: "q \<in> set (AList.update k v d) \<Longrightarrow> q = (k, v) \<or> q \<in> set d"
  by (induction d) (auto split: if_splits)

lemma collect_parameters_ok: "collect_parameters P item op = Inr ps \<Longrightarrow> p \<in> set ps \<Longrightarrow> param_ok p"
proof -
  let ?good = "\<lambda>merged. \<forall>q\<in>set merged. param_ok (snd q)"
  assume "collect_parameters P item op = Inr ps" and p: "p \<in> set ps"
  then obtain merged where ps: "ps = map snd merged"
    and m: "rfold (collect_source P) [(''path item'', jget item ''parameters''),
        (''operation'', jget op ''parameters'')] [] = Inr merged"
    by (auto simp: collect_parameters_def res_simps)
  from m have "?good merged"
  proof (rule rfold_invariant)
    fix src s s'
    assume good: "?good s" and step: "collect_source P src s = Inr s'"
    show "?good s'"
    proof (cases "snd src")
      case JNull
      with step good show ?thesis by (simp add: collect_source_def)
    next
      case (JArr es)
      with step obtain st where st: "rfold (collect_entry P (fst src)) es ([], s) = Inr st" and s': "s' = snd st"
        by (auto simp: collect_source_def res_simps)
      from st have "?good (snd st)"
      proof (rule rfold_invariant)
        fix e u u'
        assume "?good (snd u)" and "collect_entry P (fst src) e u = Inr u'"
        then show "?good (snd u')"
          using alist_update_elem parse_parameter_ok
          by (fastforce simp: collect_entry_def res_simps split: if_splits)
      qed (use good in simp)
      then show ?thesis by (simp add: s')
    qed (use step in \<open>simp_all add: collect_source_def\<close>)
  qed simp
  with p ps show ?thesis by auto
qed

definition arguments_of :: "parameter list \<Rightarrow> arguments_state \<Rightarrow> bool" where
  "arguments_of ps st \<longleftrightarrow>
     arg_bindings st = map param_binding ps \<and> dkeys (arg_properties st) = map param_name ps \<and>
     distinct (map param_name ps) \<and> arg_required st = map param_name (filter param_required ps)"

lemma add_parameters:
  "rfold add_parameter ps no_arguments = Inr st \<Longrightarrow> arguments_of ps st"
proof (induction ps arbitrary: st rule: rev_induct)
  case Nil
  then show ?case by (auto simp: arguments_of_def no_arguments_def dkeys_def)
next
  case (snoc p ps)
  then obtain mid where mid: "arguments_of ps mid" and step: "add_parameter p mid = Inr st"
    by (auto simp: rfold_append res_simps)
  from step obtain schema where new: "\<not> dhas (param_name p) (arg_properties mid)"
    and st: "arg_bindings st = arg_bindings mid @ [param_binding p]"
      "arg_required st = (if param_required p then arg_required mid @ [param_name p] else arg_required mid)"
      "arg_properties st = dset (param_name p) schema (arg_properties mid)"
    by (auto simp: add_parameter_def Let_def res_simps mk_binding_def param_binding_def split: if_splits)
  from new have fresh: "param_name p \<notin> set (dkeys (arg_properties mid))"
    by (simp add: dhas_def dkeys_def)
  with mid st show ?case
    by (auto simp: arguments_of_def dkeys_dset_new)
qed

definition with_body :: "parameter list \<Rightarrow> string list option \<Rightarrow> arguments_state \<Rightarrow> bool" where
  "with_body ps body st \<longleftrightarrow>
     distinct (map param_name ps) \<and>
     (case body of
        None \<Rightarrow> arg_bindings st = map param_binding ps \<and> dkeys (arg_properties st) = map param_name ps
      | Some fs \<Rightarrow>
          arg_bindings st = map param_binding ps @ map field_binding fs \<and>
          dkeys (arg_properties st) = map param_name ps @ [''body''] \<and>
          ''body'' \<notin> set (map param_name ps) \<and> fs \<noteq> [] \<and>
          (\<exists>b. dget (arg_properties st) ''body'' = Some (JObj b) \<and> closed_schema 8 b \<and>
             fs = dkeys (obj_of (jget b ''properties'')))) \<and>
     (\<forall>p\<in>set ps. param_required p \<longrightarrow> param_name p \<in> set (arg_required st))"

lemma body_bindings: "rmap body_binding fs = Inr bs \<Longrightarrow> bs = map field_binding fs"
  by (induction fs arbitrary: bs) (auto simp: res_simps body_binding_def mk_binding_def field_binding_def BODY_ARGUMENT_def)


lemma closed_object_properties:
  assumes "closed_schema n b" and "jget b ''type'' = JStr ''object''"
  shows "dkeys (obj_of (jget b ''properties'')) \<noteq> []"
  using assms
proof (cases rule: closed_schema.cases)
  case (closed_object ps rs m)
  then show ?thesis by (simp add: jget_def dkeys_def)
qed (auto simp: declares_def)

lemma request_body_facts:
  assumes "convert_request_body op st = Inr (media, st')" and "arguments_of ps st"
  shows "\<exists>body. with_body ps body st' \<and> (media = None \<longleftrightarrow> body = None)"
proof (cases "jget op ''requestBody''")
  case JNull
  with assms have "with_body ps None st'" and "media = None"
    by (auto simp: convert_request_body_def with_body_def arguments_of_def)
  then show ?thesis by blast
next
  case (JObj raw)
  with assms(1) obtain schema b req bs where
    fresh: "\<not> dhas BODY_ARGUMENT (arg_properties st)"
    and b: "convert_schema ''/requestBody'' 0 (JObj schema) = Inr b"
    and obj: "jget b ''type'' = JStr ''object''"
    and bs: "rmap body_binding (dkeys (obj_of (jget b ''properties''))) = Inr bs"
    and media: "media = Some JSON_MEDIA_TYPE"
    and st': "st' = \<lparr>arg_properties = dset BODY_ARGUMENT (JObj b) (arg_properties st),
       arg_required = (if req then arg_required st @ [BODY_ARGUMENT] else arg_required st),
       arg_bindings = arg_bindings st @ bs\<rparr>"
    by (auto simp: convert_request_body_def res_simps split: if_splits)
  have fresh': "''body'' \<notin> set (dkeys (arg_properties st))"
    using fresh by (simp add: dhas_def dkeys_def BODY_ARGUMENT_def)
  have "with_body ps (Some (dkeys (obj_of (jget b ''properties'')))) st'"
    using assms(2) fresh' body_bindings [OF bs] convert_schema_closed [OF b] closed_object_properties [OF _ obj]
    by (auto simp: with_body_def arguments_of_def st' BODY_ARGUMENT_def dkeys_dset_new MAX_SCHEMA_DEPTH_def)
  with media show ?thesis by blast
qed (use assms(1) in \<open>simp_all add: convert_request_body_def\<close>)

text \<open>Everything the later lemmas need of a successful conversion.\<close>

definition converted_from :: "string \<Rightarrow> parameter list \<Rightarrow> string list option \<Rightarrow> tool_definition \<Rightarrow> bool" where
  "converted_from path ps body t \<longleftrightarrow>
     tool_ok t \<and> path_template (operation t) = path \<and> check_path_placeholders path ps = Inr () \<and>
     (\<forall>p\<in>set ps. param_ok p) \<and>
     (\<exists>st. input_schema t = tool_input_schema st \<and> op_bindings (operation t) = arg_bindings st \<and> with_body ps body st)"

lemma convert_operation_from:
  assumes "convert_operation P path m item op = Inr t"
  shows "(\<exists>ps body. converted_from path ps body t) \<and>
    (\<exists>verb. verb \<in> set SUPPORTED_METHODS \<and> op_method (operation t) = str_upper verb \<and>
       map_of METHOD_POLICY verb = Some (effect_class (policy t), requires_confirmation (policy t)) \<and>
       access (policy t) = public_access)"
proof -
  define verb where "verb = str_lower m"
  from assms obtain ps st media st' oid nm where
    sup: "verb \<in> set SUPPORTED_METHODS" and
    ps: "collect_parameters P item op = Inr ps" and
    ph: "check_path_placeholders path ps = Inr ()" and
    st: "rfold add_parameter ps no_arguments = Inr st" and
    st': "convert_request_body op st = Inr (media, st')" and
    t: "build_tool op path verb oid nm media st' = Inr t"
    by (auto simp: convert_operation_def Let_def verb_def res_simps split: if_splits)
  obtain body where body: "with_body ps body st'"
    using request_body_facts [OF st' add_parameters [OF st]] by blast
  from t obtain e c where pol: "map_of METHOD_POLICY verb = Some (e, c)"
    by (auto simp: build_tool_def split: option.splits)
  from t pol have f: "tool_ok t" "path_template (operation t) = path" "op_method (operation t) = str_upper verb"
      "input_schema t = tool_input_schema st'" "op_bindings (operation t) = arg_bindings st'"
      "policy t = \<lparr>effect_class = e, requires_confirmation = c, access = public_access\<rparr>"
    by (auto simp: build_tool_def res_simps)
  have "converted_from path ps body t"
    unfolding converted_from_def using f ph body collect_parameters_ok [OF ps] by blast
  with sup pol f show ?thesis by auto
qed

section \<open>Lemmas on placeholders\<close>

text \<open>A path as literal pieces and named holes.\<close>

datatype piece = Lit string | Hole string

fun render :: "piece list \<Rightarrow> string" where
  "render [] = []"
| "render (Lit s # ps) = s @ render ps"
| "render (Hole n # ps) = placeholder n @ render ps"

definition plain :: "string \<Rightarrow> bool" where
  "plain s \<longleftrightarrow> CHR ''{'' \<notin> set s \<and> CHR ''}'' \<notin> set s"

fun plain_piece :: "piece \<Rightarrow> bool" where
  "plain_piece (Lit s) = plain s"
| "plain_piece (Hole n) = plain n"

fun holes :: "piece list \<Rightarrow> string list" where
  "holes [] = []"
| "holes (Lit s # ps) = holes ps"
| "holes (Hole n # ps) = n # holes ps"

definition fill :: "string \<Rightarrow> string \<Rightarrow> piece list \<Rightarrow> piece list" where
  "fill n v = map (\<lambda>p. if p = Hole n then Lit v else p)"

lemma scan_pieces:
  assumes "scan_placeholders s cur found = Inr names"
  shows "case cur of
      None \<Rightarrow> \<exists>ps. s = render ps \<and> list_all plain_piece ps \<and> names = found @ holes ps
    | Some c \<Rightarrow> plain c \<longrightarrow> (\<exists>u ps. s = u @ ''}'' @ render ps \<and> plain u \<and> list_all plain_piece ps \<and>
        names = found @ (c @ u) # holes ps)"
  using assms
proof (induction s cur found rule: scan_placeholders.induct)
  case (1 found)
  then show ?case by (auto intro: exI [of _ "[]"])
next
  case (3 c s cur found)
  consider "c = CHR ''{''" | "c = CHR ''}''" | "c \<noteq> CHR ''{''" "c \<noteq> CHR ''}''" by blast
  then show ?case
  proof cases
    case 1
    with 3 have cur: "cur = None" and "scan_placeholders s (Some []) found = Inr names"
      by (auto split: if_splits)
    with 1 3(1) obtain u ps where "s = u @ ''}'' @ render ps" "plain u" "list_all plain_piece ps"
        "names = found @ u # holes ps"
      by (auto simp: plain_def)
    then show ?thesis unfolding cur 1 by (auto intro!: exI [of _ "Hole u # ps"] simp: placeholder_def)
  next
    case 2
    with 3(4) obtain n where cur: "cur = Some n" and r: "scan_placeholders s None (found @ [n]) = Inr names"
      by (auto split: option.splits if_splits)
    from 3(2) [OF _ 2 cur r] 2 obtain ps where "s = render ps" "list_all plain_piece ps" "names = (found @ [n]) @ holes ps"
      by auto
    then show ?thesis unfolding cur 2 by (auto intro!: exI [of _ "[]"] exI [of _ ps] simp: plain_def)
  next
    case 3
    note c = 3
    from "3.prems" c have r: "scan_placeholders s (map_option (\<lambda>name. name @ [c]) cur) found = Inr names" by simp
    note ih = "3.IH"(3) [OF c r]
    show ?thesis
    proof (cases cur)
      case None
      with ih obtain ps where "s = render ps" "list_all plain_piece ps" "names = found @ holes ps" by auto
      with None c show ?thesis by (auto intro!: exI [of _ "Lit [c] # ps"] simp: plain_def)
    next
      case (Some n)
      show ?thesis unfolding Some
      proof (simp, intro impI)
        assume n: "plain n"
        with c have "plain (n @ [c])" by (simp add: plain_def)
        with ih Some obtain u ps where "s = u @ ''}'' @ render ps" "plain u" "list_all plain_piece ps"
            "names = found @ ((n @ [c]) @ u) # holes ps"
          by auto
        with c show "\<exists>u ps. c # s = u @ CHR ''}'' # render ps \<and> plain u \<and> list_all plain_piece ps \<and>
            names = found @ (n @ u) # holes ps"
          by (intro exI [of _ "c # u"] exI [of _ ps]) (simp add: plain_def)
      qed
    qed
  qed
qed auto

lemma replace_skip:
  "CHR ''{'' \<notin> set u \<Longrightarrow> str_replace (placeholder n) v (u @ r) = u @ str_replace (placeholder n) v r"
  by (induction u) (auto simp: placeholder_def)

lemma placeholder_prefix:
  assumes "plain n" and "plain m" and "starts_with (placeholder n) (placeholder m @ r)"
  shows "n = m"
proof -
  from assms(3) obtain t where "n @ ''}'' @ t = m @ ''}'' @ r"
    by (auto simp: placeholder_def starts_with_iff)
  moreover have "takeWhile (\<lambda>c. c \<noteq> CHR ''}'') (x @ ''}'' @ y) = x" if "plain x" for x y
    using that by (simp add: plain_def takeWhile_append)
  ultimately show ?thesis using assms(1,2) by metis
qed

lemma replace_hole: "str_replace (placeholder n) v (placeholder n @ r) = v @ str_replace (placeholder n) v r"
proof -
  have "str_replace (placeholder n) v (CHR ''{'' # (n @ ''}'') @ r)
      = v @ str_replace (placeholder n) v (drop (length (placeholder n)) (CHR ''{'' # (n @ ''}'') @ r))"
    by (subst str_replace.simps) (simp add: placeholder_def starts_with_iff)
  then show ?thesis by (simp add: placeholder_def)
qed

lemma replace_render:
  assumes "plain n" and "list_all plain_piece ps"
  shows "str_replace (placeholder n) v (render ps) = render (fill n v ps)"
  using assms(2)
proof (induction ps)
  case (Cons p ps)
  show ?case
  proof (cases p)
    case (Lit s)
    with Cons show ?thesis by (simp add: replace_skip plain_def fill_def)
  next
    case (Hole m)
    show ?thesis
    proof (cases "m = n")
      case True
      with Hole Cons show ?thesis by (simp add: replace_hole fill_def)
    next
      case False
      have m: "plain m" using Cons.prems Hole by simp
      then have "\<not> starts_with (placeholder n) (CHR ''{'' # (m @ ''}'') @ render ps)"
        using placeholder_prefix [OF assms(1) m, of "render ps"] False by (auto simp: placeholder_def)
      then have "str_replace (placeholder n) v (CHR ''{'' # (m @ ''}'') @ render ps)
          = CHR ''{'' # str_replace (placeholder n) v ((m @ ''}'') @ render ps)"
        by (subst str_replace.simps) simp
      also have "\<dots> = CHR ''{'' # (m @ ''}'') @ str_replace (placeholder n) v (render ps)"
        using m by (subst replace_skip) (auto simp: plain_def)
      finally show ?thesis using Cons Hole False by (simp add: placeholder_def fill_def)
    qed
  qed
qed (simp add: fill_def)

lemma contains_hole: "Hole n \<in> set ps \<Longrightarrow> str_contains (placeholder n) (render ps)"
proof (induction ps)
  case (Cons p ps)
  have later: "str_contains q s \<Longrightarrow> str_contains q (u @ s)" for q s u :: string
    by (induction u) auto
  have now: "str_contains q (q @ s)" for q s :: string
    using starts_with_append [of q s] by (cases "q @ s") (simp_all del: starts_with_append)
  from Cons show ?case using later now by (cases p) auto
qed simp

lemma holes_iff: "n \<in> set (holes ps) \<longleftrightarrow> Hole n \<in> set ps"
  by (induction ps rule: holes.induct) auto

lemma render_no_holes: "list_all plain_piece ps \<Longrightarrow> holes ps = [] \<Longrightarrow> plain (render ps)"
  by (induction ps rule: holes.induct) (auto simp: plain_def)

lemma fill_plain: "list_all plain_piece ps \<Longrightarrow> plain v \<Longrightarrow> list_all plain_piece (fill n v ps)"
  by (induction ps) (auto simp: fill_def)

lemma holes_fill: "holes (fill n v ps) = filter (\<lambda>m. m \<noteq> n) (holes ps)"
  unfolding fill_def by (induction ps rule: holes.induct) auto


section \<open>Lemmas on requests\<close>

definition is_scalar :: "json \<Rightarrow> bool" where
  "is_scalar v \<longleftrightarrow> is_str v \<or> is_bool v \<or> is_number v"

lemma is_scalar_iff: "is_scalar v \<longleftrightarrow> (\<exists>s. scalar P v p = Inr s)"
  by (cases v) (auto simp: is_scalar_def scalar_def)

lemma is_scalar_null: "is_scalar v \<Longrightarrow> v \<noteq> JNull"
  by (auto simp: is_scalar_def)

lemma read_argument: "read_pointer args (''/'' @ encode_pointer_token n) = dget args n"
  using encode_no_slash [of n]
  by (simp add: read_pointer_def pointer_tokens_def split_on_id decode_encode_token split: option.splits)

lemma url_quote_plain: "plain (url_quote s)"
  using url_quote_no_delimiter [of "CHR ''{''" s] url_quote_no_delimiter [of "CHR ''}''" s]
  by (auto simp: plain_def url_delimiter_def)

text \<open>The path under construction always consists of plain pieces and of the holes still to fill.\<close>

definition path_of_holes :: "string list \<Rightarrow> string \<Rightarrow> bool" where
  "path_of_holes ns s \<longleftrightarrow> (\<exists>ps. s = render ps \<and> list_all plain_piece ps \<and> set (holes ps) = set ns)"

lemma path_of_holes_step:
  assumes "path_of_holes (n # ns) s" and "n \<notin> set ns" and "plain n"
  shows "str_contains (placeholder n) s \<and> path_of_holes ns (str_replace (placeholder n) (url_quote v) s)"
proof -
  obtain ps where ps: "s = render ps" "list_all plain_piece ps" "set (holes ps) = set (n # ns)"
    using assms(1) by (auto simp: path_of_holes_def)
  have "Hole n \<in> set ps" using ps(3) by (simp add: holes_iff [symmetric])
  moreover have "str_replace (placeholder n) (url_quote v) s = render (fill n (url_quote v) ps)"
    unfolding ps(1) using assms(3) ps(2) by (rule replace_render)
  moreover have "list_all plain_piece (fill n (url_quote v) ps)"
    using ps(2) url_quote_plain by (rule fill_plain)
  moreover have "set (holes (fill n (url_quote v) ps)) = set ns"
    using ps(3) assms(2) by (auto simp: holes_fill)
  ultimately show ?thesis using contains_hole ps(1) unfolding path_of_holes_def by metis
qed

definition path_names :: "argument_binding list \<Rightarrow> string list" where
  "path_names bs = map target_name (filter (\<lambda>b. binding_target b = PathTarget) bs)"

definition callable_binding :: "json dict \<Rightarrow> argument_binding \<Rightarrow> bool" where
  "callable_binding args b \<longleftrightarrow>
     (case binding_target b of
        PathTarget \<Rightarrow> (\<exists>v. read_pointer args (argument_pointer b) = Some v \<and> is_scalar v)
      | QueryTarget \<Rightarrow> (\<forall>v. read_pointer args (argument_pointer b) = Some v \<longrightarrow> v = JNull \<or> is_scalar v)
      | HeaderTarget \<Rightarrow> False
      | BodyTarget \<Rightarrow> pointer_tokens (target_name b) \<noteq> [])"

lemma apply_callable:
  assumes "callable_binding args b" and "path_of_holes (path_names (b # bs)) (bld_path st)"
    and "distinct (path_names (b # bs))" and "\<forall>n\<in>set (path_names (b # bs)). plain n"
  shows "\<exists>st'. apply_binding P args b st = Inr st' \<and> path_of_holes (path_names bs) (bld_path st')"
proof (cases "binding_target b")
  case PathTarget
  with assms(1) obtain v where v: "read_pointer args (argument_pointer b) = Some v" "is_scalar v"
    by (auto simp: callable_binding_def)
  then obtain s where s: "scalar P v (argument_pointer b) = Inr s"
    using is_scalar_iff [of v P "argument_pointer b"] by blast
  have "path_of_holes (target_name b # path_names bs) (bld_path st)" "target_name b \<notin> set (path_names bs)"
      "plain (target_name b)"
    using assms(2-4) PathTarget by (simp_all add: path_names_def)
  from path_of_holes_step [OF this, of s] show ?thesis
    using v is_scalar_null [OF v(2)] s PathTarget
    by (auto simp: apply_binding_def place_value_def split: json.splits)
next
  case QueryTarget
  with assms have p: "path_of_holes (path_names bs) (bld_path st)" by (simp add: path_names_def)
  show ?thesis
  proof (cases "read_pointer args (argument_pointer b)")
    case None
    with p show ?thesis by (simp add: apply_binding_def)
  next
    case (Some v)
    with assms(1) QueryTarget have "v = JNull \<or> is_scalar v" by (auto simp: callable_binding_def)
    then show ?thesis
    proof
      assume "is_scalar v"
      then obtain s where "scalar P v (argument_pointer b) = Inr s"
        using is_scalar_iff [of v P "argument_pointer b"] by blast
      with Some p QueryTarget is_scalar_null [OF \<open>is_scalar v\<close>] show ?thesis
        by (auto simp: apply_binding_def place_value_def split: json.splits)
    qed (use Some p in \<open>simp add: apply_binding_def\<close>)
  qed
next
  case HeaderTarget
  with assms(1) show ?thesis by (simp add: callable_binding_def)
next
  case BodyTarget
  with assms have p: "path_of_holes (path_names bs) (bld_path st)" by (simp add: path_names_def)
  from BodyTarget assms(1) p show ?thesis
    by (auto simp: apply_binding_def place_value_def write_pointer_def callable_binding_def
        split: json.splits option.splits)
qed

lemma apply_all_callable:
  assumes "\<forall>b\<in>set bs. callable_binding args b" and "path_of_holes (path_names bs) (bld_path st)"
    and "distinct (path_names bs)" and "\<forall>n\<in>set (path_names bs). plain n"
  shows "\<exists>st'. rfold (apply_binding P args) bs st = Inr st' \<and> path_of_holes [] (bld_path st')"
  using assms
proof (induction bs arbitrary: st)
  case (Cons b bs)
  obtain st1 where st1: "apply_binding P args b st = Inr st1" "path_of_holes (path_names bs) (bld_path st1)"
    using apply_callable [OF _ Cons.prems(2-4)] Cons.prems(1) by (meson list.set_intros(1))
  have "\<exists>st'. rfold (apply_binding P args) bs st1 = Inr st' \<and> path_of_holes [] (bld_path st')"
    using Cons.prems st1(2) by (intro Cons.IH) (auto simp: path_names_def split: if_splits)
  with st1(1) show ?case by simp
qed (simp add: path_names_def)

lemma sort_Nil_iff: "sort xs = [] \<longleftrightarrow> xs = []"
  by (metis set_empty set_sort)

lemma converted_placeholders:
  assumes "converted_from path ps body t"
  shows "path_of_holes (path_names (op_bindings (operation t))) path \<and>
    distinct (path_names (op_bindings (operation t))) \<and>
    (\<forall>n\<in>set (path_names (op_bindings (operation t))). plain n)"
proof -
  from assms obtain st where ph: "check_path_placeholders path ps = Inr ()" and
    bs: "op_bindings (operation t) = arg_bindings st" and w: "with_body ps body st"
    by (auto simp: converted_from_def)
  let ?declared = "map param_name (filter (\<lambda>p. param_location p = PathTarget) ps)"
  have names: "path_names (op_bindings (operation t)) = ?declared"
    using w unfolding bs with_body_def path_names_def
    by (auto simp: filter_map comp_def param_binding_def field_binding_def filter_False split: option.splits)
  from ph obtain found where scan: "scan_placeholders path None [] = Inr found"
    and same: "set found = set ?declared"
    by (auto simp: check_path_placeholders_def Let_def res_simps sort_Nil_iff filter_empty_conv split: if_splits)
  from scan_pieces [OF scan] obtain pieces where
    p: "path = render pieces" "list_all plain_piece pieces" "found = holes pieces" by auto
  have plain_holes: "plain n" if "n \<in> set (holes pieces)" for n
    using p(2) that by (auto simp: holes_iff list_all_iff)
  have "distinct ?declared" using w by (simp add: with_body_def distinct_map_filter)
  then show ?thesis
    unfolding names path_of_holes_def using p same plain_holes by (intro conjI ballI exI [of _ pieces]) auto
qed

lemma converted_binding_cases:
  assumes "converted_from path ps body t" and "b \<in> set (op_bindings (operation t))"
  shows "(\<exists>p\<in>set ps. b = param_binding p) \<or> (\<exists>f. b = field_binding f)"
  using assms by (auto simp: converted_from_def with_body_def split: option.splits)

section \<open>Properties\<close>

text \<open>The places of the argument object that a tool declares, in order: one per parameter, and one per
  field of the request body.\<close>

definition argument_slots :: "tool_definition \<Rightarrow> string list" where
  "argument_slots t =
     concat (map (\<lambda>(n, s).
         if n = BODY_ARGUMENT \<and> request_body_media_type (operation t) \<noteq> None
         then map (\<lambda>f. ''/body/'' @ encode_pointer_token f) (dkeys (obj_of (jget (obj_of s) ''properties'')))
         else [''/'' @ encode_pointer_token n])
       (obj_of (jget (input_schema t) ''properties'')))"


lemma read_argument' [simp]: "read_pointer args (CHR ''/'' # encode_pointer_token n) = dget args n"
  using read_argument by simp

lemma slots_of_parameters:
  assumes "dkeys d = map param_name ps" and "\<forall>p\<in>set ps. param_name p \<noteq> ''body'' \<or> media = None"
  shows "concat (map (\<lambda>(n, s). if n = BODY_ARGUMENT \<and> media \<noteq> None
       then map (\<lambda>f. ''/body/'' @ encode_pointer_token f) (dkeys (obj_of (jget (obj_of s) ''properties'')))
       else [''/'' @ encode_pointer_token n]) d) = map (\<lambda>p. ''/'' @ encode_pointer_token (param_name p)) ps"
  using assms
proof (induction d arbitrary: ps)
  case (Cons e d)
  then obtain q qs where "ps = q # qs" "fst e = param_name q" "dkeys d = map param_name qs"
    by (cases ps) (auto simp: dkeys_def)
  with Cons show ?case by (cases e) (auto simp: BODY_ARGUMENT_def)
qed (auto simp: dkeys_def)

lemma encode_inject: "encode_pointer_token m = encode_pointer_token n \<longleftrightarrow> m = n"
  by (metis decode_encode_token)

abbreviation param_pointer :: "parameter \<Rightarrow> string" where
  "param_pointer p \<equiv> ''/'' @ encode_pointer_token (param_name p)"

abbreviation field_pointer :: "string \<Rightarrow> string" where
  "field_pointer f \<equiv> ''/body/'' @ encode_pointer_token f"

lemma slot_pointers_distinct:
  assumes "distinct (map param_name ps)" and "distinct fs"
  shows "distinct (map param_pointer ps @ map field_pointer fs)"
proof -
  have "''/'' @ encode_pointer_token n \<noteq> field_pointer f" for n f
  proof
    assume "''/'' @ encode_pointer_token n = field_pointer f"
    then have "CHR ''/'' \<in> set (encode_pointer_token n)" by simp
    with encode_no_slash show False by blast
  qed
  then show ?thesis using assms by (auto simp: distinct_map inj_on_def encode_inject)
qed

lemma body_is_last:
  assumes "with_body ps (Some fs) st"
  obtains d b where "arg_properties st = d @ [(''body'', JObj b)]" and "dkeys d = map param_name ps"
    and "fs = dkeys (obj_of (jget b ''properties''))"
proof -
  from assms obtain b where keys: "dkeys (arg_properties st) = map param_name ps @ [''body'']"
    and fresh: "''body'' \<notin> set (map param_name ps)"
    and b: "dget (arg_properties st) ''body'' = Some (JObj b)" "fs = dkeys (obj_of (jget b ''properties''))"
    by (auto simp: with_body_def)
  obtain d e where d: "arg_properties st = d @ [e]" "dkeys d = map param_name ps" "fst e = ''body''"
    using keys by (cases "arg_properties st" rule: rev_cases) (auto simp: dkeys_def)
  have "dget d ''body'' = None" using d(2) fresh by (simp add: dget_None_iff)
  then have "snd e = JObj b" using b(1) d(1,3) by (cases e) (auto simp: dget_def map_add_def)
  with d(3) have "e = (''body'', JObj b)" by (cases e) simp
  with that d(1,2) b(2) show ?thesis by simp
qed

lemma converted_slots:
  assumes "converted_from path ps body t"
  shows "argument_slots t = map param_pointer ps @ map field_pointer (case body of None \<Rightarrow> [] | Some fs \<Rightarrow> fs)"
proof -
  from assms obtain st where st: "input_schema t = tool_input_schema st" "op_bindings (operation t) = arg_bindings st"
    and w: "with_body ps body st" and ok: "operation_ok (operation t)"
    by (auto simp: converted_from_def tool_ok_def)
  have props: "obj_of (jget (input_schema t) ''properties'') = arg_properties st"
    by (simp add: st tool_input_schema_def jget_def)
  have media: "request_body_media_type (operation t) \<noteq> None \<longleftrightarrow> has_body_binding (operation t)"
    using ok by (auto simp: operation_ok_def)
  have targets: "\<forall>p\<in>set ps. param_location p \<noteq> BodyTarget"
    using assms by (auto simp: converted_from_def param_ok_def)
  show ?thesis
  proof (cases body)
    case None
    with w st targets media have "request_body_media_type (operation t) = None"
      by (auto simp: has_body_binding_def with_body_def param_binding_def list_ex_iff)
    then show ?thesis
      unfolding argument_slots_def props None option.case map_append list.map append_Nil2
      using w None by (intro slots_of_parameters) (simp_all add: with_body_def)
  next
    case (Some fs)
    obtain d b where d: "arg_properties st = d @ [(''body'', JObj b)]" "dkeys d = map param_name ps"
      and fs: "fs = dkeys (obj_of (jget b ''properties''))"
      using body_is_last w Some by blast
    have "fs \<noteq> []" and fresh: "''body'' \<notin> set (map param_name ps)" using w Some by (auto simp: with_body_def)
    with w st Some have "has_body_binding (operation t)"
      by (cases fs) (auto simp: has_body_binding_def list_ex_iff with_body_def field_binding_def)
    with media have m: "request_body_media_type (operation t) \<noteq> None" by simp
    have "\<forall>p\<in>set ps. param_name p \<noteq> ''body'' \<or> request_body_media_type (operation t) = None"
      using fresh by (metis in_set_conv_nth length_map nth_map nth_mem)
    from slots_of_parameters [OF d(2) this] show ?thesis
      unfolding argument_slots_def props d(1) map_append concat_append
      by (simp only: fs Some option.case) (simp add: BODY_ARGUMENT_def m)
  qed
qed

lemma bound_names_distinct:
  assumes "converted_from path ps body t"
  shows "distinct (map param_name ps)" and "distinct (case body of None \<Rightarrow> [] | Some fs \<Rightarrow> fs)"
proof -
  from assms obtain st where st: "op_bindings (operation t) = arg_bindings st" and w: "with_body ps body st"
    and ok: "operation_ok (operation t)"
    by (auto simp: converted_from_def tool_ok_def)
  from w show "distinct (map param_name ps)" by (simp add: with_body_def)
  show "distinct (case body of None \<Rightarrow> [] | Some fs \<Rightarrow> fs)"
  proof (cases body)
    case (Some fs)
    with ok st w have "distinct (map (\<lambda>b. (binding_target b, target_name b)) (map field_binding fs))"
      by (simp add: operation_ok_def with_body_def)
    then have "distinct (map (\<lambda>f. (BodyTarget, ''/'' @ encode_pointer_token f)) fs)"
      by (simp add: comp_def field_binding_def)
    with Some show ?thesis by (auto simp: distinct_map inj_on_def)
  qed simp
qed

text \<open>
  C15: A converted tool binds every argument it declares exactly once: the pointers of its bindings are,
  in order and without repetition, the parameters of its input schema and the fields of its body, and
  every binding writes to the place that carries the argument's own name.
\<close>

theorem every_argument_is_bound_once:
  assumes "convert_operation P path m item op = Inr t"
  shows "map argument_pointer (op_bindings (operation t)) = argument_slots t \<and> distinct (argument_slots t) \<and>
    (\<forall>b\<in>set (op_bindings (operation t)). argument_pointer b =
       (if binding_target b = BodyTarget then ''/body'' @ target_name b
        else ''/'' @ encode_pointer_token (target_name b)))"
proof -
  obtain ps body where conv: "converted_from path ps body t"
    using convert_operation_from [OF assms] by blast
  then have "map argument_pointer (op_bindings (operation t)) = argument_slots t"
    unfolding converted_slots [OF conv]
    by (auto simp: converted_from_def with_body_def param_binding_def field_binding_def comp_def split: option.splits)
  moreover have "distinct (argument_slots t)"
    unfolding converted_slots [OF conv] by (intro slot_pointers_distinct bound_names_distinct [OF conv])
  moreover have "\<forall>p\<in>set ps. param_location p \<noteq> BodyTarget"
    using conv by (auto simp: converted_from_def param_ok_def)
  then have "argument_pointer b = (if binding_target b = BodyTarget then ''/body'' @ target_name b
        else ''/'' @ encode_pointer_token (target_name b))" if "b \<in> set (op_bindings (operation t))" for b
    using converted_binding_cases [OF conv that]
    by (auto simp: param_binding_def field_binding_def)
  ultimately show ?thesis by blast
qed

text \<open>
  C16: A converted tool can be called: whenever every path argument is given as a string, number or
  boolean, and no query argument as an array or object, the request of the tool can be built.
\<close>

theorem converted_tool_is_callable:
  assumes "convert_operation P path m item op = Inr t"
    and "\<forall>b\<in>set (op_bindings (operation t)). binding_target b = PathTarget \<longrightarrow>
       (\<exists>v. dget args (target_name b) = Some v \<and> is_scalar v)"
    and "\<forall>b\<in>set (op_bindings (operation t)). binding_target b = QueryTarget \<longrightarrow>
       (\<forall>v. dget args (target_name b) = Some v \<longrightarrow> v = JNull \<or> is_scalar v)"
  shows "\<exists>r. prepare_request P t args base = Inr r"
proof -
  obtain ps body where conv: "converted_from path ps body t"
    using convert_operation_from [OF assms(1)] by blast
  have "callable_binding args b" if b: "b \<in> set (op_bindings (operation t))" for b
    using converted_binding_cases [OF conv b]
  proof (elim disjE bexE exE)
    fix p assume "p \<in> set ps" and bp: "b = param_binding p"
    then have "param_location p \<in> {PathTarget, QueryTarget}"
      using conv by (auto simp: converted_from_def param_ok_def)
    then show ?thesis
      using assms(2,3) b unfolding bp
      by (auto simp: callable_binding_def param_binding_def read_argument)
  next
    fix f assume "b = field_binding f"
    then show ?thesis
      using encode_no_slash [of f] by (simp add: callable_binding_def field_binding_def pointer_tokens_def split_on_id)
  qed
  moreover have "path_template (operation t) = path" using conv by (simp add: converted_from_def)
  ultimately obtain st where st: "rfold (apply_binding P args) (op_bindings (operation t))
      \<lparr>bld_path = path_template (operation t), bld_query = [], bld_headers = [], bld_body = [], bld_has_body = False\<rparr>
      = Inr st" and p: "path_of_holes [] (bld_path st)"
    using apply_all_callable [of "op_bindings (operation t)" args
        "\<lparr>bld_path = path, bld_query = [], bld_headers = [], bld_body = [], bld_has_body = False\<rparr>" P]
      converted_placeholders [OF conv] by auto
  have "plain (bld_path st)" using p render_no_holes by (auto simp: path_of_holes_def)
  then show ?thesis using st by (simp add: prepare_request_def finish_request_def plain_def Let_def)
qed

text \<open>
  The policy of a converted tool depends on the method alone: exactly the tools with method GET are
  reads, exactly those with DELETE are destructive and need confirmation, and every caller may use it
  until a reviewer restricts it.
\<close>

theorem converted_policy_follows_method:
  assumes "convert_operation P path m item op = Inr t"
  shows "access (policy t) = public_access \<and>
    (effect_class (policy t) = ReadEffect \<longleftrightarrow> op_method (operation t) = ''GET'') \<and>
    (effect_class (policy t) = DestructiveEffect \<longleftrightarrow> op_method (operation t) = ''DELETE'') \<and>
    (requires_confirmation (policy t) \<longleftrightarrow> op_method (operation t) = ''DELETE'')"
proof -
  have up: "map str_upper SUPPORTED_METHODS = [''GET'', ''POST'', ''PUT'', ''PATCH'', ''DELETE'']" by code_simp
  from convert_operation_from [OF assms] obtain verb where
    "verb \<in> set SUPPORTED_METHODS" "op_method (operation t) = str_upper verb"
    "map_of METHOD_POLICY verb = Some (effect_class (policy t), requires_confirmation (policy t))"
    "access (policy t) = public_access"
    by blast
  with up show ?thesis by (auto simp: SUPPORTED_METHODS_def METHOD_POLICY_def split: if_splits)
qed

definition example_item :: "json dict" where
  "example_item = [(''get'', JNull)]"

definition example_source :: "json dict" where
  "example_source =
     [(''operationId'', JStr ''getTicket''), (''summary'', JStr ''Read one ticket''),
      (''parameters'', JArr
        [JObj [(''name'', JStr ''id''), (''in'', JStr ''path''), (''required'', JBool True),
               (''schema'', JObj [(''type'', JStr ''integer'')])],
         JObj [(''name'', JStr ''verbose''), (''in'', JStr ''query''),
               (''schema'', JObj [(''type'', JStr ''boolean'')])]])]"

definition example_converted :: tool_definition where
  "example_converted =
     (case convert_operation sample_platform ''/tickets/{id}'' ''get'' example_item example_source of
        Inl e \<Rightarrow> example_tool | Inr t \<Rightarrow> t)"

lemma example_conversion:
  "convert_operation sample_platform ''/tickets/{id}'' ''get'' example_item example_source = Inr example_converted"
proof -
  have "is_ok (convert_operation sample_platform ''/tickets/{id}'' ''get'' example_item example_source)"
    by code_simp
  then show ?thesis by (auto simp: example_converted_def is_ok_iff)
qed

lemma example_bindings:
  "op_bindings (operation example_converted) =
     [\<lparr>argument_pointer = ''/id'', binding_target = PathTarget, target_name = ''id''\<rparr>,
      \<lparr>argument_pointer = ''/verbose'', binding_target = QueryTarget, target_name = ''verbose''\<rparr>]"
  by code_simp

lemma every_argument_is_bound_once_witness:
  "map argument_pointer (op_bindings (operation example_converted)) = [''/id'', ''/verbose''] \<and>
   argument_slots example_converted = [''/id'', ''/verbose'']"
  using every_argument_is_bound_once [OF example_conversion] by (simp add: example_bindings)

lemma converted_tool_is_callable_witness:
  "\<exists>r. prepare_request sample_platform example_converted [(''id'', JInt 7)] ''https://api.example.org'' = Inr r"
  by (rule converted_tool_is_callable [OF example_conversion]) (simp_all add: example_bindings is_scalar_def)

lemma converted_policy_follows_method_witness:
  "effect_class (policy example_converted) = ReadEffect \<and> access (policy example_converted) = public_access"
proof -
  have "op_method (operation example_converted) = ''GET''" by code_simp
  with converted_policy_follows_method [OF example_conversion] show ?thesis by simp
qed

text \<open>
  A query parameter of an array type is converted, but the tool can never be called with it: every
  array given for it is refused while the request is built.
\<close>

theorem array_argument_is_never_sent:
  assumes "convert_operation P path m item op = Inr t"
    and "b \<in> set (op_bindings (operation t))" and "binding_target b \<noteq> BodyTarget"
    and "dget args (target_name b) = Some (JArr xs)"
  shows "\<exists>e. prepare_request P t args base = Inl e"
proof -
  obtain ps body where conv: "converted_from path ps body t"
    using convert_operation_from [OF assms(1)] by blast
  obtain p where p: "p \<in> set ps" "b = param_binding p"
    using converted_binding_cases [OF conv assms(2)] assms(3) by (auto simp: field_binding_def)
  then have loc: "binding_target b \<in> {PathTarget, QueryTarget}"
    using conv by (auto simp: converted_from_def param_ok_def param_binding_def)
  have r: "read_pointer args (argument_pointer b) = Some (JArr xs)"
    using p(2) assms(4) by (simp add: param_binding_def read_argument)
  have fails: "\<exists>e. apply_binding P args b st = Inl e" for st
    using loc r by (auto simp: apply_binding_def place_value_def scalar_def)
  obtain us vs where bs: "op_bindings (operation t) = us @ b # vs" using assms(2) by (meson split_list)
  have "\<exists>e. rfold (apply_binding P args) (us @ b # vs) st = Inl e" for st
  proof (cases "rfold (apply_binding P args) us st")
    case (Inr st')
    with fails [of st'] show ?thesis by (auto simp: rfold_append)
  qed (simp add: rfold_append)
  then show ?thesis unfolding prepare_request_def bs by (metis rbind.simps(1))
qed

definition array_source :: "json dict" where
  "array_source =
     [(''operationId'', JStr ''listTickets''),
      (''parameters'', JArr
        [JObj [(''name'', JStr ''tag''), (''in'', JStr ''query''),
               (''schema'', JObj [(''type'', JStr ''array''), (''items'', JObj [(''type'', JStr ''string'')])])]])]"

lemma array_argument_is_never_sent_witness:
  "\<exists>t e. convert_operation sample_platform ''/tickets'' ''get'' [] array_source = Inr t \<and>
     prepare_request sample_platform t [(''tag'', JArr [JStr ''x''])] ''https://api.example.org'' = Inl e"
proof -
  let ?c = "convert_operation sample_platform ''/tickets'' ''get'' [] array_source"
  have "case ?c of Inl e \<Rightarrow> False | Inr t \<Rightarrow>
      map (\<lambda>b. (binding_target b, target_name b)) (op_bindings (operation t)) = [(QueryTarget, ''tag'')]"
    by code_simp
  then obtain t where t: "?c = Inr t"
    and bs: "map (\<lambda>b. (binding_target b, target_name b)) (op_bindings (operation t)) = [(QueryTarget, ''tag'')]"
    by (auto split: sum.splits)
  from bs obtain b where b: "b \<in> set (op_bindings (operation t))" "binding_target b = QueryTarget" "target_name b = ''tag''"
    by auto
  have "\<exists>e. prepare_request sample_platform t [(''tag'', JArr [JStr ''x''])] ''https://api.example.org'' = Inl e"
    using b by (intro array_argument_is_never_sent [OF t b(1)]) simp_all
  with t show ?thesis by blast
qed

end
