(* ===== verification/Analyzer.thy ===== *)
theory Analyzer
  imports Loader References Converter
begin

text \<open>
  Analysis of a whole document: \<^verbatim>\<open>packages/openapi-converter/toollayer_openapi/analyzer.py\<close>. The loops
  over paths and methods thread one state: the operations and diagnostics so far, the tool names
  claimed, and the number of operations counted against the limit.
\<close>

section \<open>Results\<close>

definition ANALYZER_VERSION :: string where
  "ANALYZER_VERSION = ''toollayer-openapi-analyzer/1''"

definition HTTP_VERBS :: "string list" where
  "HTTP_VERBS = [''get'', ''put'', ''post'', ''delete'', ''options'', ''head'', ''patch'', ''trace'']"

record analyzed_operation =
  an_key :: string
  an_path :: string
  an_method :: string
  an_pointer :: string
  an_source :: "json dict"
  an_tool :: "tool_definition option"
  an_diagnostics :: "diagnostic list"

definition convertible :: "analyzed_operation \<Rightarrow> bool" where
  "convertible a \<longleftrightarrow> an_tool a \<noteq> None"

record analysis_result =
  res_analyzer_version :: string
  res_spec_version :: string
  res_api_title :: string
  res_api_summary :: string
  res_base_url :: "string option"
  res_operations :: "analyzed_operation list"
  res_diagnostics :: "diagnostic list"

definition result_tools :: "analysis_result \<Rightarrow> tool_definition list" where
  "result_tools r = List.map_filter an_tool (res_operations r)"

definition convertible_operations :: "analysis_result \<Rightarrow> analyzed_operation list" where
  "convertible_operations r = filter convertible (res_operations r)"

definition all_diagnostics :: "analysis_result \<Rightarrow> diagnostic list" where
  "all_diagnostics r = res_diagnostics r @ concat (map an_diagnostics (res_operations r))"

section \<open>Base URLs\<close>

definition usable_base_url :: "string \<Rightarrow> bool res" where
  "usable_base_url v =
     (case urlsplit v of
        None \<Rightarrow> Inl ValueError
      | Some parsed \<Rightarrow>
          Inr (url_scheme parsed \<in> {''http'', ''https''} \<and> url_netloc parsed \<noteq> [] \<and>
               CHR ''@'' \<notin> set (url_netloc parsed) \<and> url_query parsed = [] \<and> url_fragment parsed = []))"

definition without_slash :: "string \<Rightarrow> string" where
  "without_slash u =
     (let s = rstrip_by (\<lambda>c. c = CHR ''/'') u in if s = [] then u else s)"

definition diagnostic_at :: "string \<Rightarrow> string \<Rightarrow> string \<Rightarrow> string \<Rightarrow> string option \<Rightarrow> diagnostic" where
  "diagnostic_at c msg ptr severity key =
     \<lparr>diag_code = c, diag_message = msg, diag_pointer = ptr, diag_severity = severity,
      diag_operation = key\<rparr>"

definition server_base_url :: "json dict \<Rightarrow> (string option \<times> diagnostic list) res" where
  "server_base_url first =
     (if dhas ''variables'' first
      then Inr (None, [diagnostic_at ''server_variables_unsupported''
             ''the declared server uses template variables; supply an explicit base URL''
             ''/servers/0'' ''warning'' None])
      else
        rbind (case jget first ''url'' of JStr u \<Rightarrow> usable_base_url u | _ \<Rightarrow> Inr False) (\<lambda>usable.
          if usable then Inr (Some (without_slash (str_of (jget first ''url''))), [])
          else Inr (None, [diagnostic_at ''base_url_missing''
             (''the declared server is not an absolute http or https URL; supply a base ''
              @ ''URL before publishing'') ''/servers/0/url'' ''warning'' None])))"

definition resolve_base_url ::
  "json dict \<Rightarrow> string option \<Rightarrow> (string option \<times> diagnostic list) res" where
  "resolve_base_url document override =
     (let given = (case override of None \<Rightarrow> [] | Some u \<Rightarrow> u) in
      if given \<noteq> [] then
        rbind (usable_base_url given) (\<lambda>usable.
          if usable then Inr (Some (without_slash given), [])
          else Inr (None, [diagnostic_at ''invalid_base_url''
                 ''the supplied base URL is not a plain http or https origin'' ''/servers'' ''error'' None]))
      else
        (case jget document ''servers'' of
           JArr (server # rest) \<Rightarrow>
             (case server of
                JObj first \<Rightarrow> server_base_url first
              | _ \<Rightarrow> Inl (invalid_document (quoted ''servers'' @ '' entries must be objects'') ''/servers/0''))
         | _ \<Rightarrow> Inr (None, [diagnostic_at ''base_url_missing''
             ''the document declares no server; supply a base URL before publishing'' ''/servers''
             ''warning'' None])))"

section \<open>Operations\<close>

definition failed_operation ::
  "string \<Rightarrow> string \<Rightarrow> string \<Rightarrow> json dict \<Rightarrow> string \<Rightarrow> string \<Rightarrow> string \<Rightarrow> analyzed_operation" where
  "failed_operation path method ptr src c msg place =
     \<lparr>an_key = operation_key path method, an_path = path, an_method = method, an_pointer = ptr,
      an_source = src, an_tool = None,
      an_diagnostics = [diagnostic_at c msg place ''error'' (Some (operation_key path method))]\<rparr>"

definition tool_warnings :: "tool_definition \<Rightarrow> string \<Rightarrow> string \<Rightarrow> diagnostic list" where
  "tool_warnings t ptr key =
     (if description_origin (provenance t) = ''generated''
      then [diagnostic_at ''description_generated''
              (''the source operation has no summary or description, so a placeholder was ''
               @ ''generated; write a real description before publishing'') ptr ''warning'' (Some key)]
      else []) @
     (if deprecated (provenance t)
      then [diagnostic_at ''operation_deprecated''
              ''the source operation is marked deprecated'' ptr ''warning'' (Some key)]
      else [])"

text \<open>Only the converter's own errors are reported; any other exception ends the analysis.\<close>

definition analyze_operation ::
  "platform \<Rightarrow> string \<Rightarrow> string \<Rightarrow> json dict \<Rightarrow> json \<Rightarrow> string \<Rightarrow> string dict
    \<Rightarrow> (analyzed_operation \<times> string dict) res" where
  "analyze_operation P path method path_item op ptr seen =
     (case op of
        JObj d \<Rightarrow>
          (case convert_operation P path method path_item d of
             Inl e \<Rightarrow>
               (case e of
                  ConversionError c place msg \<Rightarrow>
                    Inr (failed_operation path method ptr d (code_text c) msg
                           (if place = [] then ptr else place), seen)
                | _ \<Rightarrow> Inl e)
           | Inr t \<Rightarrow>
               (case dget seen (tool_name t) of
                  Some previous \<Rightarrow>
                    Inr (failed_operation path method ptr d ''tool_name_collision''
                           (''this operation normalizes to the same tool name as '' @ repr_str previous
                            @ ''; give one of them a distinct operationId'') ptr, seen)
                | None \<Rightarrow>
                    Inr (\<lparr>an_key = operation_key path method, an_path = path, an_method = method,
                          an_pointer = ptr, an_source = d, an_tool = Some t,
                          an_diagnostics = tool_warnings t ptr (operation_key path method)\<rparr>,
                         dset (tool_name t) (operation_key path method) seen)))
      | _ \<Rightarrow> Inr (failed_operation path method ptr [] ''invalid_operation''
                    ''an operation must be an object'' ptr, seen))"

record analysis_state =
  st_operations :: "analyzed_operation list"
  st_diagnostics :: "diagnostic list"
  st_seen :: "string dict"
  st_count :: nat

definition add_diagnostic :: "diagnostic \<Rightarrow> analysis_state \<Rightarrow> analysis_state" where
  "add_diagnostic d st = st\<lparr>st_diagnostics := st_diagnostics st @ [d]\<rparr>"

text \<open>The loop over the methods of one path item; the limit breaks out of it.\<close>

fun analyze_methods ::
  "platform \<Rightarrow> source_limits \<Rightarrow> string \<Rightarrow> string \<Rightarrow> json dict \<Rightarrow> string list \<Rightarrow> analysis_state
    \<Rightarrow> analysis_state res" where
  "analyze_methods P L path ptr path_item [] st = Inr st"
| "analyze_methods P L path ptr path_item (method # ms) st =
     (if jget path_item method = JNull then analyze_methods P L path ptr path_item ms st
      else if max_operations L \<le> st_count st
      then Inr (add_diagnostic (diagnostic_at ''operation_limit_exceeded''
                  (''only the first '' @ string_of_nat (max_operations L) @ '' operations are analyzed'')
                  ptr ''error'' None) st)
      else
        rbind (analyze_operation P path method path_item (jget path_item method)
                 (ptr @ ''/'' @ method) (st_seen st)) (\<lambda>r.
          analyze_methods P L path ptr path_item ms
            (st\<lparr>st_operations := st_operations st @ [fst r], st_seen := snd r,
                st_count := Suc (st_count st)\<rparr>)))"

definition unsupported_methods :: "json dict \<Rightarrow> string list" where
  "unsupported_methods path_item =
     sort (filter (\<lambda>m. m \<notin> set SUPPORTED_METHODS \<and> dhas m path_item) HTTP_VERBS)"

definition unsupported_diagnostic :: "string \<Rightarrow> string \<Rightarrow> string \<Rightarrow> diagnostic" where
  "unsupported_diagnostic path ptr method =
     diagnostic_at ''unsupported_method''
       (''the '' @ str_upper method @ '' method is not converted into a tool'')
       (ptr @ ''/'' @ method) ''warning'' (Some (operation_key path method))"

definition analyze_path ::
  "platform \<Rightarrow> source_limits \<Rightarrow> json dict \<Rightarrow> string \<times> json \<Rightarrow> analysis_state \<Rightarrow> analysis_state res" where
  "analyze_path P L document p st =
     (let path = fst p; ptr = ''/paths/'' @ encode_pointer_token path in
      if \<not> starts_with ''/'' path
      then Inr (add_diagnostic (diagnostic_at ''invalid_path''
                  (''a path key must be a string beginning with '' @ repr_str ''/'') ptr ''error'' None) st)
      else if \<not> is_obj (snd p)
      then Inr (add_diagnostic (diagnostic_at ''invalid_path_item''
                  ''a path item must be an object'' ptr ''error'' None) st)
      else
        (case resolve_references document ptr (snd p) of
           Inl e \<Rightarrow>
             (case e of
                ConversionError c place msg \<Rightarrow> Inr (add_diagnostic (as_diagnostic c place msg) st)
              | _ \<Rightarrow> Inl e)
         | Inr resolved \<Rightarrow>
             (case resolved of
                JObj path_item \<Rightarrow>
                  rbind (analyze_methods P L path ptr path_item SUPPORTED_METHODS st) (\<lambda>st'.
                    Inr (fold (\<lambda>m. add_diagnostic (unsupported_diagnostic path ptr m))
                           (unsupported_methods path_item) st'))
              | _ \<Rightarrow> Inl AttributeError)))"

definition api_title :: "json dict \<Rightarrow> string" where
  "api_title document =
     (case jget document ''info'' of
        JObj info \<Rightarrow> (let t = prose_of info ''title'' in if t \<noteq> [] then take 128 t else ''Untitled API'')
      | _ \<Rightarrow> ''Untitled API'')"

definition api_summary :: "json dict \<Rightarrow> string" where
  "api_summary document =
     (let fallback = ''An API registered with the Tool Control Plane.'' in
      case jget document ''info'' of
        JObj info \<Rightarrow>
          (case first_match (\<lambda>f. prose_of info f \<noteq> []) [''summary'', ''description''] of
             Some f \<Rightarrow> take 1024 (prose_of info f)
           | None \<Rightarrow> fallback)
      | _ \<Rightarrow> fallback)"

definition analyze_document ::
  "platform \<Rightarrow> source_limits \<Rightarrow> loaded_document \<Rightarrow> string option \<Rightarrow> analysis_result res" where
  "analyze_document P L loaded override =
     (let document = doc_content loaded in
      rbind (resolve_base_url document override) (\<lambda>base.
        case jget document ''paths'' of
          JObj paths \<Rightarrow>
            rbind (rfold (analyze_path P L document) (sort_key fst paths)
                     \<lparr>st_operations = [], st_diagnostics = snd base, st_seen = [], st_count = 0\<rparr>) (\<lambda>st.
              Inr \<lparr>res_analyzer_version = ANALYZER_VERSION, res_spec_version = doc_spec_version loaded,
                   res_api_title = api_title document, res_api_summary = api_summary document,
                   res_base_url = fst base, res_operations = st_operations st,
                   res_diagnostics = st_diagnostics st @
                     (if st_operations st = []
                      then [diagnostic_at ''no_convertible_operations''
                              ''the document contains no operation this converter can turn into a tool''
                              ''/paths'' ''error'' None]
                      else [])\<rparr>)
        | _ \<Rightarrow> Inl TypeError))"

section \<open>Lemmas on the loops\<close>

text \<open>
  What one analysed operation is: a checked tool, or at least one diagnostic of severity error that
  names the operation.
\<close>

definition outcome_ok :: "analyzed_operation \<Rightarrow> bool" where
  "outcome_ok a \<longleftrightarrow>
     an_key a = operation_key (an_path a) (an_method a) \<and>
     (case an_tool a of
        Some t \<Rightarrow> tool_ok t \<and> path_template (operation t) = an_path a
      | None \<Rightarrow> list_ex (\<lambda>d. diag_severity d = ''error'' \<and> diag_operation d = Some (an_key a)) (an_diagnostics a))"

lemma failed_outcome [simp]:
  "outcome_ok (failed_operation path m ptr src c msg place)"
  "an_tool (failed_operation path m ptr src c msg place) = None"
  "an_path (failed_operation path m ptr src c msg place) = path"
  "an_method (failed_operation path m ptr src c msg place) = m"
  by (simp_all add: outcome_ok_def failed_operation_def diagnostic_at_def)

definition tool_names :: "analyzed_operation list \<Rightarrow> string list" where
  "tool_names as = map tool_name (List.map_filter an_tool as)"

lemma tool_names_snoc [simp]:
  "tool_names (as @ [a]) = tool_names as @ (case an_tool a of None \<Rightarrow> [] | Some t \<Rightarrow> [tool_name t])"
  by (simp add: tool_names_def map_filter_def split: option.splits)

lemma analyze_operation_facts:
  assumes "analyze_operation P path m item op ptr seen = Inr (a, seen')"
  shows "outcome_ok a \<and> an_path a = path \<and> an_method a = m \<and>
    (case an_tool a of None \<Rightarrow> seen' = seen
     | Some t \<Rightarrow> tool_name t \<notin> set (dkeys seen) \<and> seen' = dset (tool_name t) (an_key a) seen)"
proof (cases op)
  case (JObj d)
  show ?thesis
  proof (cases "convert_operation P path m item d")
    case (Inl e)
    with assms JObj show ?thesis by (cases e) (auto simp: analyze_operation_def)
  next
    case (Inr t)
    have "tool_ok t \<and> path_template (operation t) = path"
      using convert_operation_from [OF Inr] by (auto simp: converted_from_def)
    with assms JObj Inr show ?thesis
    proof (cases "dget seen (tool_name t)")
      case None
      then have "tool_name t \<notin> set (dkeys seen)" by (simp add: dget_None_iff)
      with \<open>tool_ok t \<and> path_template (operation t) = path\<close> show ?thesis
        using assms JObj Inr None by (auto simp: analyze_operation_def outcome_ok_def)
    qed (auto simp: analyze_operation_def)
  qed
qed (use assms in \<open>auto simp: analyze_operation_def\<close>)

definition state_ok :: "source_limits \<Rightarrow> analysis_state \<Rightarrow> bool" where
  "state_ok L st \<longleftrightarrow>
     list_all outcome_ok (st_operations st) \<and> st_count st = length (st_operations st) \<and>
     st_count st \<le> max_operations L \<and> dkeys (st_seen st) = tool_names (st_operations st) \<and>
     distinct (tool_names (st_operations st))"

lemma add_diagnostic_simps [simp]:
  "st_operations (add_diagnostic d st) = st_operations st"
  "st_diagnostics (add_diagnostic d st) = st_diagnostics st @ [d]"
  "state_ok L (add_diagnostic d st) = state_ok L st"
  by (simp_all add: add_diagnostic_def state_ok_def)

definition after_operation :: "analyzed_operation \<Rightarrow> string dict \<Rightarrow> analysis_state \<Rightarrow> analysis_state" where
  "after_operation a seen st =
     st\<lparr>st_operations := st_operations st @ [a], st_seen := seen, st_count := Suc (st_count st)\<rparr>"

lemma after_operation_ok:
  assumes "analyze_operation P path m item op ptr (st_seen st) = Inr (a, seen)"
    and "state_ok L st" and "st_count st < max_operations L"
  shows "state_ok L (after_operation a seen st)"
  using analyze_operation_facts [OF assms(1)] assms(2,3)
  by (auto simp: state_ok_def after_operation_def dkeys_dset_new split: option.splits)

definition limit_diagnostic :: "source_limits \<Rightarrow> string \<Rightarrow> diagnostic" where
  "limit_diagnostic L ptr =
     diagnostic_at ''operation_limit_exceeded''
       (''only the first '' @ string_of_nat (max_operations L) @ '' operations are analyzed'')
       ptr ''error'' None"

text \<open>The loop over methods, told as one step and the rest.\<close>

lemma analyze_methods_cases [consumes 1, case_names Skip Limit Step]:
  assumes "analyze_methods P L path ptr item (m # ms) st = Inr st'"
  obtains "jget item m = JNull" "analyze_methods P L path ptr item ms st = Inr st'"
  | "jget item m \<noteq> JNull" "max_operations L \<le> st_count st"
    "st' = add_diagnostic (limit_diagnostic L ptr) st"
  | a seen where "jget item m \<noteq> JNull" "st_count st < max_operations L"
    "analyze_operation P path m item (jget item m) (ptr @ ''/'' @ m) (st_seen st) = Inr (a, seen)"
    "analyze_methods P L path ptr item ms (after_operation a seen st) = Inr st'"
  using assms
  by (fastforce simp: res_simps limit_diagnostic_def after_operation_def not_le split: if_splits)

text \<open>What the loop over the methods of a path adds to the state.\<close>

definition methods_done :: "source_limits \<Rightarrow> string \<Rightarrow> string \<Rightarrow> json dict \<Rightarrow> string list \<Rightarrow> analysis_state \<Rightarrow> bool" where
  "methods_done L path ptr item ms st \<longleftrightarrow>
     (\<forall>m\<in>set ms. jget item m \<noteq> JNull \<longrightarrow>
        (\<exists>a\<in>set (st_operations st). an_path a = path \<and> an_method a = m) \<or>
        limit_diagnostic L ptr \<in> set (st_diagnostics st))"

lemma analyze_methods_adds:
  assumes "analyze_methods P L path ptr item ms st = Inr st'" and "state_ok L st" and "distinct ms"
  shows "state_ok L st' \<and> methods_done L path ptr item ms st' \<and>
    (\<exists>new ds. st_operations st' = st_operations st @ new \<and> st_diagnostics st' = st_diagnostics st @ ds \<and>
       (\<forall>a\<in>set new. an_path a = path \<and> an_method a \<in> set ms) \<and> distinct (map an_method new))"
  using assms
proof (induction ms arbitrary: st)
  case (Cons m ms)
  from Cons.prems(1) show ?case
  proof (cases rule: analyze_methods_cases)
    case Skip
    with Cons show ?thesis by (fastforce simp: methods_done_def)
  next
    case Limit
    with Cons.prems(2) show ?thesis by (auto simp: methods_done_def)
  next
    case (Step a seen)
    note f = analyze_operation_facts [OF Step(3)]
    have IH: "state_ok L st' \<and> methods_done L path ptr item ms st' \<and>
      (\<exists>new ds. st_operations st' = st_operations (after_operation a seen st) @ new \<and>
         st_diagnostics st' = st_diagnostics (after_operation a seen st) @ ds \<and>
         (\<forall>a\<in>set new. an_path a = path \<and> an_method a \<in> set ms) \<and> distinct (map an_method new))"
      using Cons.prems(3) by (intro Cons.IH [OF Step(4) after_operation_ok [OF Step(3) Cons.prems(2) Step(2)]]) simp
    then obtain new ds where n: "st_operations st' = st_operations st @ a # new"
        "st_diagnostics st' = st_diagnostics st @ ds"
        "\<forall>a\<in>set new. an_path a = path \<and> an_method a \<in> set ms" "distinct (map an_method new)"
      by (auto simp: after_operation_def)
    from Cons.prems(3) have "m \<notin> set ms" by simp
    with n f have "\<forall>a'\<in>set (a # new). an_path a' = path \<and> an_method a' \<in> set (m # ms)"
      "distinct (map an_method (a # new))" by auto
    moreover have "methods_done L path ptr item (m # ms) st'"
      using IH f n(1) by (auto simp: methods_done_def)
    ultimately show ?thesis using IH n(1,2) by blast
  qed
qed (simp add: methods_done_def)

text \<open>
  The loop over paths: every path whose item resolves to an object is accounted for, method by method.
\<close>

definition path_pointer :: "string \<Rightarrow> string" where
  "path_pointer path = ''/paths/'' @ encode_pointer_token path"

definition path_done :: "source_limits \<Rightarrow> json dict \<Rightarrow> string \<times> json \<Rightarrow> analysis_state \<Rightarrow> bool" where
  "path_done L document p st \<longleftrightarrow>
     (\<forall>item. starts_with ''/'' (fst p) \<and> is_obj (snd p) \<and>
        resolve_references document (path_pointer (fst p)) (snd p) = Inr (JObj item) \<longrightarrow>
        methods_done L (fst p) (path_pointer (fst p)) item SUPPORTED_METHODS st)"

definition grows :: "analysis_state \<Rightarrow> analysis_state \<Rightarrow> bool" where
  "grows st st' \<longleftrightarrow>
     set (st_operations st) \<subseteq> set (st_operations st') \<and> set (st_diagnostics st) \<subseteq> set (st_diagnostics st')"

lemma path_done_grows: "path_done L document p st \<Longrightarrow> grows st st' \<Longrightarrow> path_done L document p st'"
  by (fastforce simp: path_done_def methods_done_def grows_def)

lemma fold_add_diagnostic [simp]:
  "st_operations (fold (\<lambda>m. add_diagnostic (f m)) ms st) = st_operations st"
  "st_diagnostics (fold (\<lambda>m. add_diagnostic (f m)) ms st) = st_diagnostics st @ map f ms"
  "state_ok L (fold (\<lambda>m. add_diagnostic (f m)) ms st) = state_ok L st"
  by (induction ms arbitrary: st) simp_all

lemma supported_distinct: "distinct SUPPORTED_METHODS"
  by (simp add: SUPPORTED_METHODS_def)

definition operation_place :: "analyzed_operation \<Rightarrow> string \<times> string" where
  "operation_place a = (an_path a, an_method a)"

lemma analyze_path_adds:
  assumes "analyze_path P L document p st = Inr st'" and "state_ok L st"
  shows "state_ok L st' \<and> path_done L document p st' \<and> grows st st' \<and>
    (\<exists>new. st_operations st' = st_operations st @ new \<and> distinct (map operation_place new) \<and>
       (\<forall>a\<in>set new. an_path a = fst p \<and> an_method a \<in> set SUPPORTED_METHODS))"
proof (cases "starts_with ''/'' (fst p) \<and> is_obj (snd p)")
  case False
  with assms show ?thesis
    by (auto simp: analyze_path_def Let_def path_done_def grows_def split: if_splits)
next
  case True
  let ?ptr = "path_pointer (fst p)"
  show ?thesis
  proof (cases "resolve_references document ?ptr (snd p)")
    case (Inl e)
    with assms True show ?thesis
      by (cases e) (auto simp: analyze_path_def Let_def path_pointer_def path_done_def grows_def)
  next
    case (Inr resolved)
    with assms True obtain item st1 where item: "resolved = JObj item"
      and st1: "analyze_methods P L (fst p) ?ptr item SUPPORTED_METHODS st = Inr st1"
      and st': "st' = fold (\<lambda>m. add_diagnostic (unsupported_diagnostic (fst p) ?ptr m))
            (unsupported_methods item) st1"
      by (auto simp: analyze_path_def Let_def path_pointer_def res_simps split: json.splits)
    note a = analyze_methods_adds [OF st1 assms(2) supported_distinct]
    then obtain new ds where n: "st_operations st1 = st_operations st @ new"
        "st_diagnostics st1 = st_diagnostics st @ ds"
        "\<forall>a\<in>set new. an_path a = fst p \<and> an_method a \<in> set SUPPORTED_METHODS"
        "distinct (map an_method new)" by blast
    have "distinct (map operation_place new)"
      using n(4) by (auto simp: distinct_map inj_on_def operation_place_def)
    moreover have "methods_done L (fst p) ?ptr item SUPPORTED_METHODS st'"
      using a by (auto simp: methods_done_def st')
    ultimately show ?thesis
      using a n Inr item by (auto simp: st' path_done_def grows_def)
  qed
qed

lemma analyze_paths_add:
  assumes "rfold (analyze_path P L document) ps st = Inr st'" and "state_ok L st"
    and "distinct (map fst ps)" and "distinct (map operation_place (st_operations st))"
    and "\<forall>a\<in>set (st_operations st). an_path a \<notin> set (map fst ps)"
  shows "state_ok L st' \<and> (\<forall>p\<in>set ps. path_done L document p st') \<and> grows st st' \<and>
    distinct (map operation_place (st_operations st')) \<and>
    (\<forall>a\<in>set (st_operations st'). a \<in> set (st_operations st) \<or>
       an_path a \<in> set (map fst ps) \<and> an_method a \<in> set SUPPORTED_METHODS)"
  using assms
proof (induction ps arbitrary: st)
  case Nil
  then show ?case by (simp add: grows_def)
next
  case (Cons p ps)
  then obtain mid where mid: "analyze_path P L document p st = Inr mid"
    and rest: "rfold (analyze_path P L document) ps mid = Inr st'" by (auto simp: res_simps)
  note step = analyze_path_adds [OF mid Cons.prems(2)]
  then obtain new where new: "st_operations mid = st_operations st @ new" "distinct (map operation_place new)"
      "\<forall>a\<in>set new. an_path a = fst p \<and> an_method a \<in> set SUPPORTED_METHODS" by blast
  have d: "distinct (map operation_place (st_operations mid))"
  proof -
    have "operation_place a \<noteq> operation_place b" if "a \<in> set (st_operations st)" "b \<in> set new" for a b
      using that new(3) Cons.prems(5) by (auto simp: operation_place_def)
    then have "set (map operation_place (st_operations st)) \<inter> set (map operation_place new) = {}"
      unfolding set_map by blast
    with new(1,2) Cons.prems(4) show ?thesis by simp
  qed
  have out: "\<forall>a\<in>set (st_operations mid). an_path a \<notin> set (map fst ps)"
  proof
    fix a assume "a \<in> set (st_operations mid)"
    then consider "a \<in> set (st_operations st)" | "an_path a = fst p" using new(1,3) by auto
    then show "an_path a \<notin> set (map fst ps)" using Cons.prems(3,5) by cases simp_all
  qed
  have IH: "state_ok L st' \<and> (\<forall>p\<in>set ps. path_done L document p st') \<and> grows mid st' \<and>
    distinct (map operation_place (st_operations st')) \<and>
    (\<forall>a\<in>set (st_operations st'). a \<in> set (st_operations mid) \<or>
       an_path a \<in> set (map fst ps) \<and> an_method a \<in> set SUPPORTED_METHODS)"
    using step Cons.prems(3) by (intro Cons.IH [OF rest _ _ d out]) auto
  moreover have "path_done L document p st'" using step IH path_done_grows by blast
  moreover have "grows st st'" using step IH by (auto simp: grows_def)
  ultimately show ?case using new(1,3) by auto
qed

text \<open>Python's \<open>sorted(paths)\<close> on the keys is a permutation of the entries.\<close>

lemma sorted_paths: "dict_ok d \<Longrightarrow> distinct (map fst (sort_key fst d)) \<and> set (sort_key fst d) = set d"
  by (simp add: dict_ok_def dkeys_def distinct_map)

lemma analysis_facts:
  assumes "analyze_document P L loaded override = Inr r"
    and "jget (doc_content loaded) ''paths'' = JObj paths" and "dict_ok paths"
  obtains st where "res_operations r = st_operations st" "state_ok L st"
    "set (st_diagnostics st) \<subseteq> set (res_diagnostics r)"
    "distinct (map operation_place (st_operations st))"
    "\<forall>a\<in>set (st_operations st). an_method a \<in> set SUPPORTED_METHODS"
    "\<forall>p\<in>set paths. path_done L (doc_content loaded) p st"
proof -
  from assms(1,2) obtain base st where
    run: "rfold (analyze_path P L (doc_content loaded)) (sort_key fst paths)
        \<lparr>st_operations = [], st_diagnostics = snd base, st_seen = [], st_count = 0\<rparr> = Inr st"
    and r: "res_operations r = st_operations st" "set (st_diagnostics st) \<subseteq> set (res_diagnostics r)"
    by (auto simp: analyze_document_def Let_def res_simps)
  note s = sorted_paths [OF assms(3)]
  have "state_ok L \<lparr>st_operations = [], st_diagnostics = snd base, st_seen = [], st_count = 0\<rparr>"
    by (simp add: state_ok_def tool_names_def map_filter_def dkeys_def)
  from analyze_paths_add [OF run this] s that r show ?thesis by auto
qed

section \<open>Properties\<close>

text \<open>
  C14: A successful analysis is a consistent proposal: within the limit on operations, each place of the
  document at most once, every tool checked and bound to the path it was read from, no two tools of
  the same name, and every operation without a tool explained by an error that names it.
\<close>

theorem analysis_is_consistent:
  assumes "analyze_document P L loaded override = Inr r"
    and "jget (doc_content loaded) ''paths'' = JObj paths" and "dict_ok paths"
  shows "length (res_operations r) \<le> max_operations L \<and>
    distinct (map (\<lambda>a. (an_path a, an_method a)) (res_operations r)) \<and>
    distinct (map tool_name (result_tools r)) \<and>
    list_all outcome_ok (res_operations r)"
proof -
  obtain st where "res_operations r = st_operations st" "state_ok L st"
    "distinct (map operation_place (st_operations st))"
    by (rule analysis_facts [OF assms])
  then show ?thesis
    by (simp add: state_ok_def tool_names_def result_tools_def operation_place_def [abs_def])
qed

text \<open>
  No operation is lost: every supported operation of every path whose item is an object is in the
  result, with a tool or an explanation, unless the result says that the limit on operations was hit.
\<close>

theorem every_operation_is_accounted_for:
  assumes "analyze_document P L loaded override = Inr r"
    and "jget (doc_content loaded) ''paths'' = JObj paths" and "dict_ok paths"
    and "(path, JObj raw) \<in> set paths" and "starts_with ''/'' path"
    and "resolve_references (doc_content loaded) (''/paths/'' @ encode_pointer_token path) (JObj raw) = Inr (JObj item)"
    and "m \<in> set SUPPORTED_METHODS" and "jget item m \<noteq> JNull"
  shows "(\<exists>a\<in>set (res_operations r). an_path a = path \<and> an_method a = m) \<or>
    (\<exists>d\<in>set (res_diagnostics r). diag_code d = ''operation_limit_exceeded'')"
proof -
  obtain st where st: "res_operations r = st_operations st" "set (st_diagnostics st) \<subseteq> set (res_diagnostics r)"
    and all_done: "\<forall>p\<in>set paths. path_done L (doc_content loaded) p st"
    by (rule analysis_facts [OF assms(1-3)])
  from all_done assms(4-6) have "methods_done L path (path_pointer path) item SUPPORTED_METHODS st"
    by (fastforce simp: path_done_def path_pointer_def)
  with assms(7,8) st show ?thesis
    by (fastforce simp: methods_done_def limit_diagnostic_def diagnostic_at_def)
qed

definition example_document :: loaded_document where
  "example_document =
     sample_loaded\<lparr>doc_content :=
       [(''openapi'', JStr ''3.1.0''),
        (''paths'', JObj [(''/tickets'', JObj [(''get'', JObj [(''operationId'', JStr ''listTickets'')]),
                                           (''post'', JObj [(''operationId'', JStr ''list_tickets'')])])])]\<rparr>"

definition example_analysis :: analysis_result where
  "example_analysis =
     (case analyze_document sample_platform default_source_limits example_document None of
        Inr r \<Rightarrow> r
      | Inl e \<Rightarrow> \<lparr>res_analyzer_version = [], res_spec_version = [], res_api_title = [], res_api_summary = [],
                  res_base_url = None, res_operations = [], res_diagnostics = []\<rparr>)"

lemma example_analyzed:
  "analyze_document sample_platform default_source_limits example_document None = Inr example_analysis"
proof -
  have "is_ok (analyze_document sample_platform default_source_limits example_document None)" by code_simp
  then show ?thesis by (auto simp: example_analysis_def is_ok_iff)
qed

lemma analysis_is_consistent_witness:
  "map tool_name (result_tools example_analysis) = [''list_tickets''] \<and>
   distinct (map tool_name (result_tools example_analysis)) \<and> length (res_operations example_analysis) \<le> 256"
proof -
  have "map tool_name (result_tools example_analysis) = [''list_tickets'']" by code_simp
  moreover have "jget (doc_content example_document) ''paths'' =
      JObj (obj_of (jget (doc_content example_document) ''paths''))" by code_simp
  ultimately show ?thesis
    using analysis_is_consistent [OF example_analyzed, of "obj_of (jget (doc_content example_document) ''paths'')"]
    by (simp add: example_document_def jget_def dict_ok_def dkeys_def default_source_limits_def)
qed

lemma every_operation_is_accounted_for_witness:
  "(\<exists>a\<in>set (res_operations example_analysis). an_path a = ''/tickets'' \<and> an_method a = ''post'') \<or>
   (\<exists>d\<in>set (res_diagnostics example_analysis). diag_code d = ''operation_limit_exceeded'')"
proof -
  let ?item = "obj_of (snd (hd (obj_of (jget (doc_content example_document) ''paths''))))"
  have "resolve_references (doc_content example_document) (''/paths/'' @ encode_pointer_token ''/tickets'')
      (JObj ?item) = Inr (JObj ?item)" by code_simp
  then show ?thesis
    by (intro every_operation_is_accounted_for [OF example_analyzed _ _ _ _ , where item = ?item and raw = ?item
          and paths = "obj_of (jget (doc_content example_document) ''paths'')"])
       (simp_all add: example_document_def jget_def dict_ok_def dkeys_def SUPPORTED_METHODS_def)
qed

lemma scan_plain: "plain s \<Longrightarrow> scan_placeholders s None found = Inr found"
  by (induction s arbitrary: found) (auto simp: plain_def)

text \<open>
  One operation can end the analysis of the whole document: an operation id without a letter or a
  digit of ASCII makes the converter raise \<^verbatim>\<open>ValueError\<close>, which is not one of the errors the analysis
  turns into a diagnostic.
\<close>

theorem unnameable_operation_aborts:
  assumes "jget (doc_content loaded) ''paths'' =
      JObj [(path, JObj [(''get'', JObj [(''operationId'', JStr i)])])]"
    and "starts_with ''/'' path" and "plain path"
    and "str_strip i \<noteq> []" and "list_all (\<lambda>c. \<not> is_alnum c) i" and "length i \<le> 256"
    and "resolve_base_url (doc_content loaded) override = Inr base" and "0 < max_operations L"
  shows "analyze_document P L loaded override = Inl ValueError"
proof -
  let ?op = "[(''operationId'', JStr i)]" and ?doc = "doc_content loaded"
  let ?item = "[(''get'', JObj ?op)]"
  have get: "str_lower ''get'' = ''get''" by code_simp
  have conv: "convert_operation P path ''get'' ?item ?op = Inl ValueError"
    using assms(3-6) snake_case_plain [OF assms(5)] get
    by (simp add: convert_operation_def Let_def SUPPORTED_METHODS_def
        reject_unsupported_operation_features_def jget_def dhas_def py_in_def py_eq.simps
        collect_parameters_def collect_source_def check_path_placeholders_def scan_plain
        convert_request_body_def operation_id_of_def normalize_tool_name_def no_arguments_def)
  have "ref_free (JObj ?item)"
    by (simp add: ref_free_obj jget_def rf_leaf)
  moreover have "fits 0 (JObj ?item)"
    by (simp add: fits_def MAX_RESOLUTION_DEPTH_def)
  ultimately have "resolve_references ?doc (''/paths/'' @ encode_pointer_token path) (JObj ?item) = Inr (JObj ?item)"
    unfolding resolve_references_def by (rule resolve_at_ref_free_id)
  then have "analyze_path P L ?doc (path, JObj ?item) st = Inl ValueError" if "st_count st = 0" for st
    using assms(2,8) that conv by (simp add: analyze_path_def Let_def SUPPORTED_METHODS_def jget_def analyze_operation_def)
  then show ?thesis using assms(1,7) by (simp add: analyze_document_def Let_def)
qed

lemma unnameable_operation_aborts_witness:
  "analyze_document sample_platform default_source_limits
     (sample_loaded\<lparr>doc_content :=
        [(''paths'', JObj [(''/a'', JObj [(''get'', JObj [(''operationId'', JStr ''-'')])])])]\<rparr>) None = Inl ValueError"
proof -
  have "str_strip ''-'' \<noteq> []" "list_all (\<lambda>c. \<not> is_alnum c) ''-''" by code_simp+
  then show ?thesis
    by (intro unnameable_operation_aborts [where path = "''/a''" and i = "''-''"])
       (simp_all add: jget_def plain_def resolve_base_url_def default_source_limits_def)
qed

end
