(* ===== verification/Publication.thy ===== *)
theory Publication
  imports Review Analyzer
begin

text \<open>
  The stored analysis and the document a reviewed draft publishes:
  \<^verbatim>\<open>control_plane/serialization.py\<close> and \<^verbatim>\<open>control_plane/publication.py\<close>, with the timestamps of
  \<^verbatim>\<open>control_plane/models.py\<close>.
\<close>

section \<open>Timestamps\<close>

text \<open>
  A \<^verbatim>\<open>datetime\<close> in whole seconds, as \<open>utc_now\<close> truncates it: in UTC when aware, without an offset when
  a backend gave it back naive.
\<close>

record datetime =
  dt_year :: nat
  dt_month :: nat
  dt_day :: nat
  dt_hour :: nat
  dt_minute :: nat
  dt_second :: nat
  dt_aware :: bool

definition padded :: "nat \<Rightarrow> nat \<Rightarrow> string" where
  "padded w n = (let s = string_of_nat n in replicate (w - length s) CHR ''0'' @ s)"

definition isoformat :: "datetime \<Rightarrow> string" where
  "isoformat d =
     padded 4 (dt_year d) @ ''-'' @ padded 2 (dt_month d) @ ''-'' @ padded 2 (dt_day d) @ ''T'' @
     padded 2 (dt_hour d) @ '':'' @ padded 2 (dt_minute d) @ '':'' @ padded 2 (dt_second d) @
     (if dt_aware d then ''+00:00'' else [])"

definition rfc3339 :: "datetime \<Rightarrow> string" where
  "rfc3339 d = str_replace ''+00:00'' ''Z'' (isoformat (d\<lparr>dt_aware := True\<rparr>))"

section \<open>The stored analysis\<close>

definition serialize_operation :: "analyzed_operation \<Rightarrow> json" where
  "serialize_operation a = JObj
     [(''key'', JStr (an_key a)), (''path'', JStr (an_path a)), (''method'', JStr (an_method a)),
      (''pointer'', JStr (an_pointer a)), (''source_operation'', JObj (an_source a)),
      (''tool'', case an_tool a of None \<Rightarrow> JNull | Some t \<Rightarrow> dump_tool t),
      (''diagnostics'', JArr (map diagnostic_to_dict (an_diagnostics a)))]"

definition serialize_analysis :: "analysis_result \<Rightarrow> json dict" where
  "serialize_analysis r =
     [(''analyzer_version'', JStr (res_analyzer_version r)), (''spec_version'', JStr (res_spec_version r)),
      (''api_title'', JStr (res_api_title r)), (''api_summary'', JStr (res_api_summary r)),
      (''base_url'', opt_str (res_base_url r)),
      (''diagnostics'', JArr (map diagnostic_to_dict (res_diagnostics r))),
      (''operations'', JArr (map serialize_operation (res_operations r)))]"

section \<open>Building the document\<close>

record built_connector =
  built_document :: "json dict"
  built_digest :: string
  built_tool_count :: nat

text \<open>\<open>d[k] = v\<close> on a value.\<close>

fun py_set :: "string \<Rightarrow> json \<Rightarrow> json \<Rightarrow> json res" where
  "py_set k v (JObj d) = Inr (JObj (dset k v d))"
| "py_set k v _ = Inl TypeError"

definition build_tool_entry :: "json dict \<Rightarrow> operation_review \<Rightarrow> json res" where
  "build_tool_entry analyzed r =
     (case dget analyzed (or_key r) of
        None \<Rightarrow> Inl (NotReadyForPublication [''publication.review_out_of_sync''])
      | Some oper \<Rightarrow>
          rbind (item oper ''tool'') (\<lambda>tool.
          rbind (py_set ''description'' (JStr (or_description r)) tool) (\<lambda>tool.
          rbind (access_policy_of r) (\<lambda>access.
          rbind (py_set ''policy'' (JObj
                   [(''effect_class'', or_effect r), (''requires_confirmation'', JBool (or_confirm r)),
                    (''access'', dump_access access)]) tool) (\<lambda>tool.
          rbind (item tool ''provenance'') (\<lambda>prov.
          rbind (py_set ''description_origin'' (or_origin r) prov) (\<lambda>prov.
            py_set ''provenance'' prov tool)))))))"

definition build_tools :: "json dict \<Rightarrow> review_state \<Rightarrow> json list res" where
  "build_tools analyzed st =
     rbind (rmap (build_tool_entry analyzed) (included st)) (\<lambda>tools.
       if tools = [] then Inl (NotReadyForPublication [''publication.no_operation_selected''])
       else
         rbind (rmap (\<lambda>t. item t ''tool_name'') tools) (\<lambda>names.
           if \<not> distinct names
           then Inl (NotReadyForPublication [''publication.tool_name_collision''])
           else Inr tools))"

text \<open>The facts of a draft that reach the document.\<close>

record publication_facts =
  pf_connector_key :: string
  pf_display_name :: string
  pf_summary :: string
  pf_version :: string
  pf_base_url :: "string option"
  pf_auth_profile_ref :: "string option"
  pf_source_filename :: string
  pf_source_digest :: string
  pf_source_byte_length :: int
  pf_spec_version :: string
  pf_created_at :: datetime
  pf_published_at :: datetime
  pf_labels :: "string list"

definition connector_document :: "publication_facts \<Rightarrow> json list \<Rightarrow> json dict" where
  "connector_document f ts =
     [(''contract_version'', JStr CONTRACT_VERSION), (''connector_key'', JStr (pf_connector_key f)),
      (''display_name'', JStr (pf_display_name f)), (''summary'', JStr (pf_summary f)),
      (''version'', JStr (pf_version f)), (''lifecycle_state'', JStr ''published''),
      (''runtime'', JObj [(''protocol'', JStr ''http''), (''base_url'', opt_str (pf_base_url f)),
                        (''auth_profile_ref'', opt_str (pf_auth_profile_ref f))]),
      (''source'', JObj [(''format'', JStr ''openapi''), (''spec_version'', JStr (pf_spec_version f)),
                       (''document_filename'', JStr (pf_source_filename f)),
                       (''document_digest'', JStr (pf_source_digest f)),
                       (''byte_length'', JInt (pf_source_byte_length f))]),
      (''tools'', JArr ts), (''labels'', JArr (map JStr (pf_labels f))),
      (''audit'', JObj [(''created_at'', JStr (rfc3339 (pf_created_at f))),
                      (''updated_at'', JStr (rfc3339 (pf_published_at f))),
                      (''published_at'', JStr (rfc3339 (pf_published_at f)))])]"

definition build_connector_document ::
  "platform \<Rightarrow> json dict \<Rightarrow> review_state \<Rightarrow> publication_facts \<Rightarrow> built_connector res" where
  "build_connector_document P analysis st f =
     rbind (review_readiness P analysis st (pf_base_url f)) (\<lambda>issues.
       if issues \<noteq> [] then Inl (NotReadyForPublication issues)
       else
         rbind (analyzed_operations P analysis) (\<lambda>analyzed.
         rbind (build_tools analyzed st) (\<lambda>tools.
           let document = connector_document f tools in
           rbind (validate_connector_definition P (JObj document)) (\<lambda>_.
           rbind (content_digest P (JObj document) []) (\<lambda>digest.
             Inr \<lparr>built_document = document, built_digest = digest, built_tool_count = length tools\<rparr>)))))"

section \<open>What a reviewed tool is\<close>

text \<open>The tool of the analysis with the three decisions of the reviewer, and nothing else changed.\<close>

definition reviewed_tool :: "operation_review \<Rightarrow> tool_definition \<Rightarrow> tool_definition" where
  "reviewed_tool r t =
     t\<lparr>description := or_description r,
       policy := \<lparr>effect_class = the (map_of effect_names (str_of (or_effect r))),
                  requires_confirmation = or_confirm r,
                  access = \<lparr>policy_mode = str_of (or_mode r), policy_roles = map str_of (or_roles r)\<rparr>\<rparr>,
       provenance := (provenance t)\<lparr>description_origin := str_of (or_origin r)\<rparr>\<rparr>"

text \<open>An analysis with checked tools and unambiguous keys.\<close>

definition analysis_ok :: "analysis_result \<Rightarrow> bool" where
  "analysis_ok r \<longleftrightarrow>
     list_all outcome_ok (res_operations r) \<and> distinct (map an_key (res_operations r)) \<and>
     distinct (map tool_name (result_tools r))"

lemma operation_key_inject:
  assumes "m \<in> set SUPPORTED_METHODS" and "m' \<in> set SUPPORTED_METHODS"
    and "operation_key p m = operation_key p' m'"
  shows "p = p' \<and> m = m'"
proof -
  have "\<forall>m\<in>set SUPPORTED_METHODS. str_lower m = m \<and> takeWhile (\<lambda>c. c \<noteq> CHR '' '') (m @ '' '') = m"
    by code_simp
  then have low: "str_lower m = m" "str_lower m' = m'"
    and "takeWhile (\<lambda>c. c \<noteq> CHR '' '') (m @ '' '' @ p) = m" "takeWhile (\<lambda>c. c \<noteq> CHR '' '') (m' @ '' '' @ p') = m'"
    using assms(1,2) by (auto simp: takeWhile_tail SUPPORTED_METHODS_def)
  moreover from assms(3) low have "m @ '' '' @ p = m' @ '' '' @ p'" by (simp add: operation_key_def)
  ultimately have "m = m'" by metis
  with \<open>m @ '' '' @ p = m' @ '' '' @ p'\<close> show ?thesis by simp
qed

lemma analyzed_document_ok:
  assumes "analyze_document P L loaded override = Inr r"
    and "jget (doc_content loaded) ''paths'' = JObj paths" and "dict_ok paths"
  shows "analysis_ok r"
proof -
  obtain st where st: "res_operations r = st_operations st" "state_ok L st"
    "distinct (map operation_place (st_operations st))"
    "\<forall>a\<in>set (st_operations st). an_method a \<in> set SUPPORTED_METHODS"
    by (rule analysis_facts [OF assms])
  have key: "an_key a = operation_key (an_path a) (an_method a)" if "a \<in> set (st_operations st)" for a
    using st(2) that by (auto simp: state_ok_def list_all_iff outcome_ok_def)
  have "distinct (map an_key (st_operations st))"
    using st(3) unfolding distinct_map inj_on_def
    by (auto simp: operation_place_def key dest!: operation_key_inject [rotated 2] intro: st(4) [rule_format])
  with st(1,2) show ?thesis
    by (simp add: analysis_ok_def state_ok_def tool_names_def result_tools_def)
qed

section \<open>From an analysis to its review\<close>

definition initial_review_of :: "analyzed_operation \<Rightarrow> tool_definition \<Rightarrow> operation_review" where
  "initial_review_of a t =
     \<lparr>or_key = an_key a, or_selection = JStr ''included'', or_description = description t,
      or_origin = JStr (description_origin (provenance t)),
      or_effect = JStr (effect_text (effect_class (policy t))),
      or_confirm = requires_confirmation (policy t), or_mode = JStr (policy_mode (access (policy t))),
      or_roles = map JStr (policy_roles (access (policy t)))\<rparr>"

definition with_tools :: "analysis_result \<Rightarrow> (analyzed_operation \<times> tool_definition) list" where
  "with_tools r = List.map_filter (\<lambda>a. map_option (Pair a) (an_tool a)) (res_operations r)"

lemma concat_map_option: "concat (map (\<lambda>a. case f a of None \<Rightarrow> [] | Some y \<Rightarrow> [g a y]) xs) =
    map (\<lambda>(a, y). g a y) (List.map_filter (\<lambda>a. map_option (Pair a) (f a)) xs)"
  by (induction xs) (auto simp: map_filter_def split: option.splits)

lemma rmap_map: "rmap f (map g xs) = rmap (\<lambda>x. f (g x)) xs"
  by (induction xs) simp_all

lemma initial_review_serialized:
  "build_initial_review P (serialize_analysis r) = Inr (map (\<lambda>(a, t). initial_review_of a t) (with_tools r))"
proof -
  have "initial_entry P (serialize_operation a) =
      Inr (case an_tool a of None \<Rightarrow> [] | Some t \<Rightarrow> [initial_review_of a t])" for a
    by (simp add: initial_entry_def serialize_operation_def get_or_def dump_tool_def dump_policy_def dump_access_def
        dump_provenance_def initial_review_of_def split: option.split)
  then have "rmap (initial_entry P) (map serialize_operation (res_operations r)) =
      Inr (map (\<lambda>a. case an_tool a of None \<Rightarrow> [] | Some t \<Rightarrow> [initial_review_of a t]) (res_operations r))"
    unfolding rmap_map by (intro rmap_all_ok)
  then show ?thesis
    by (simp add: build_initial_review_def serialize_analysis_def get_or_def with_tools_def
        concat_map_option [where g = initial_review_of])
qed

lemma fold_dset_new:
  "distinct (map fst kvs @ dkeys d) \<Longrightarrow> fold (\<lambda>kv d. dset (fst kv) (snd kv) d) kvs d = d @ kvs"
  by (induction kvs arbitrary: d) (auto simp: dset_new dkeys_def)

lemma with_tools_keys: "distinct (map an_key (res_operations r)) \<Longrightarrow> distinct (map (\<lambda>e. an_key (fst e)) (with_tools r))"
proof -
  have "distinct (map an_key as) \<Longrightarrow>
      distinct (map (\<lambda>e. an_key (fst e)) (List.map_filter (\<lambda>a. map_option (Pair a) (an_tool a)) as)) \<and>
      set (map (\<lambda>e. an_key (fst e)) (List.map_filter (\<lambda>a. map_option (Pair a) (an_tool a)) as)) \<subseteq> set (map an_key as)" for as
    by (induction as) (auto simp: map_filter_def split: option.splits)
  then show "distinct (map an_key (res_operations r)) \<Longrightarrow> ?thesis" unfolding with_tools_def by blast
qed

lemma analyzed_serialized:
  assumes "distinct (map an_key (res_operations r))"
  shows "analyzed_operations P (serialize_analysis r) =
    Inr (map (\<lambda>e. (an_key (fst e), serialize_operation (fst e))) (with_tools r))"
proof -
  have "analyzed_entry P (serialize_operation a) =
      Inr (case an_tool a of None \<Rightarrow> [] | Some t \<Rightarrow> [(an_key a, serialize_operation a)])" for a
    by (simp add: analyzed_entry_def serialize_operation_def get_or_def dump_tool_def split: option.split)
  then have "rmap (analyzed_entry P) (map serialize_operation (res_operations r)) =
      Inr (map (\<lambda>a. case an_tool a of None \<Rightarrow> [] | Some t \<Rightarrow> [(an_key a, serialize_operation a)]) (res_operations r))"
    unfolding rmap_map by (intro rmap_all_ok)
  moreover have "concat (map (\<lambda>a. case an_tool a of None \<Rightarrow> [] | Some t \<Rightarrow> [(an_key a, serialize_operation a)])
      (res_operations r)) = map (\<lambda>e. (an_key (fst e), serialize_operation (fst e))) (with_tools r)"
    using concat_map_option [of "\<lambda>a t. (an_key a, serialize_operation a)" an_tool]
    by (simp add: with_tools_def case_prod_unfold)
  moreover have "distinct (map fst (map (\<lambda>e. (an_key (fst e), serialize_operation (fst e))) (with_tools r)))"
    using with_tools_keys [OF assms] by (simp add: comp_def)
  ultimately show ?thesis
    by (simp add: analyzed_operations_def serialize_analysis_def get_or_def fold_dset_new dkeys_def)
qed

lemma with_tools_elem: "(a, t) \<in> set (with_tools r) \<longleftrightarrow> a \<in> set (res_operations r) \<and> an_tool a = Some t"
  by (force simp: with_tools_def map_filter_def)

lemma initial_review_ok:
  assumes "tool_ok t"
  shows "review_ok (initial_review_of a t)"
proof -
  have "access_ok (access (policy t))" "provenance_ok (provenance t)" "len_between 1 1024 (description t)"
    using assms by (simp_all add: tool_ok_def)
  moreover have "effect_text e \<in> set EFFECT_CLASSES" for e by (cases e) (simp_all add: EFFECT_CLASSES_def)
  ultimately show ?thesis
    by (auto simp: review_ok_def initial_review_of_def origin_ok_def effect_ok_def DESCRIPTION_ORIGINS_def
        provenance_ok_def)
qed

section \<open>From a review to a document\<close>

lemma effect_read: "effect_ok v \<Longrightarrow> JStr (effect_text (the (map_of effect_names (str_of v)))) = v"
  by (cases v) (auto simp: effect_ok_def EFFECT_CLASSES_def effect_names_def)

lemma str_of_str: "is_str v \<Longrightarrow> JStr (str_of v) = v"
  by (cases v) simp_all

lemma review_ok_parts:
  assumes "review_ok r"
  shows "JStr (str_of (or_origin r)) = or_origin r" "str_of (or_origin r) \<in> set DESCRIPTION_ORIGINS"
    "JStr (effect_text (the (map_of effect_names (str_of (or_effect r))))) = or_effect r"
    "JStr (str_of (or_mode r)) = or_mode r" "map JStr (map str_of (or_roles r)) = or_roles r"
    "access_ok \<lparr>policy_mode = str_of (or_mode r), policy_roles = map str_of (or_roles r)\<rparr>"
    "list_all is_str (or_roles r)"
proof -
  from assms obtain a where a: "access_ok a" "or_mode r = JStr (policy_mode a)" "or_roles r = map JStr (policy_roles a)"
    by (auto simp: review_ok_def)
  have "a = \<lparr>policy_mode = str_of (or_mode r), policy_roles = map str_of (or_roles r)\<rparr>"
    using a(2,3) by (cases a) (simp add: comp_def)
  with a(1) show "access_ok \<lparr>policy_mode = str_of (or_mode r), policy_roles = map str_of (or_roles r)\<rparr>" by simp
  show "JStr (str_of (or_mode r)) = or_mode r" "map JStr (map str_of (or_roles r)) = or_roles r"
    "list_all is_str (or_roles r)"
    using a(2,3) by (simp_all add: comp_def list_all_iff)
  have "origin_ok (or_origin r)" "effect_ok (or_effect r)" using assms by (simp_all add: review_ok_def)
  then show "JStr (str_of (or_origin r)) = or_origin r" "str_of (or_origin r) \<in> set DESCRIPTION_ORIGINS"
    "JStr (effect_text (the (map_of effect_names (str_of (or_effect r))))) = or_effect r"
    by (simp_all add: origin_ok_def str_of_str effect_read)
qed

lemma access_policy_of_ok:
  assumes "review_ok r"
  shows "access_policy_of r = Inr \<lparr>policy_mode = str_of (or_mode r), policy_roles = map str_of (or_roles r)\<rparr>"
proof -
  note p = review_ok_parts [OF assms]
  have sorted: "sort (map str_of (or_roles r)) = map str_of (or_roles r)"
    using p(6) by (simp add: access_ok_def sorted_sort_id)
  have "build_access (or_mode r) (map JStr (map str_of (or_roles r))) =
      Inr \<lparr>policy_mode = str_of (or_mode r), policy_roles = map str_of (or_roles r)\<rparr>"
    unfolding build_access_Inr
    by (intro conjI exI [where x = "map str_of (or_roles r)"]) (simp_all only: p sorted access_policy.simps)
  then show ?thesis using p(7) sorted by (simp add: access_policy_of_def)
qed

lemma build_tool_entry_reviewed:
  assumes "dget analyzed (or_key r) = Some (serialize_operation a)" and "an_tool a = Some t" and "review_ok r"
  shows "build_tool_entry analyzed r = Inr (dump_tool (reviewed_tool r t))"
proof -
  note p = review_ok_parts(1,3) [OF assms(3)]
  have tool: "item (serialize_operation a) ''tool'' = Inr (dump_tool t)"
    using assms(2) by (simp add: serialize_operation_def)
  show ?thesis
    using assms(1) tool access_policy_of_ok [OF assms(3)] p
    by (simp add: build_tool_entry_def dump_tool_def reviewed_tool_def dump_provenance_def dump_policy_def)
qed

lemma reviewed_name [simp]: "tool_name (reviewed_tool r t) = tool_name t"
  by (simp add: reviewed_tool_def)

lemma reviewed_tool_ok:
  assumes "review_ok r" and "tool_ok t"
  shows "tool_ok (reviewed_tool r t)"
proof -
  note p = review_ok_parts(2,6) [OF assms(1)]
  have "len_between 1 1024 (or_description r)" using assms(1) by (simp add: review_ok_def)
  moreover have "provenance_ok ((provenance t)\<lparr>description_origin := str_of (or_origin r)\<rparr>)"
    using assms(2) p(1) by (auto simp: tool_ok_def provenance_ok_def DESCRIPTION_ORIGINS_def)
  ultimately show ?thesis using assms(2) p(2) by (simp add: tool_ok_def reviewed_tool_def)
qed

text \<open>The tool an entry of the review is about.\<close>

definition tool_for :: "analysis_result \<Rightarrow> operation_review \<Rightarrow> tool_definition" where
  "tool_for ar r = snd (the (first_match (\<lambda>e. an_key (fst e) = or_key r) (with_tools ar)))"

lemma tool_for_key:
  assumes "or_key r \<in> set (map (\<lambda>e. an_key (fst e)) (with_tools ar))"
  obtains a where "a \<in> set (res_operations ar)" "an_key a = or_key r" "an_tool a = Some (tool_for ar r)"
    "(a, tool_for ar r) \<in> set (with_tools ar)"
proof -
  from assms obtain e where "first_match (\<lambda>e. an_key (fst e) = or_key r) (with_tools ar) = Some e"
    by (cases "first_match (\<lambda>e. an_key (fst e) = or_key r) (with_tools ar)") (auto simp: first_match_None)
  then show ?thesis
    using that [of "fst e"] first_match_Some [of "\<lambda>e. an_key (fst e) = or_key r" "with_tools ar" e]
    by (cases e) (auto simp: tool_for_def with_tools_elem)
qed

lemma dget_map_key:
  assumes "distinct (map f xs)" and "x \<in> set xs"
  shows "dget (map (\<lambda>y. (f y, g y)) xs) (f x) = Some (g x)"
  using assms by (intro dict_ok_dget) (auto simp: dict_ok_def dkeys_def comp_def)

lemma review_tools_build:
  assumes "analysis_ok ar" and "list_all review_ok st"
    and "set (map or_key st) \<subseteq> set (map (\<lambda>e. an_key (fst e)) (with_tools ar))"
  shows "rmap (build_tool_entry (map (\<lambda>e. (an_key (fst e), serialize_operation (fst e))) (with_tools ar))) (included st) =
    Inr (map (\<lambda>r. dump_tool (reviewed_tool r (tool_for ar r))) (included st))"
proof (rule rmap_all_ok)
  fix r assume "r \<in> set (included st)"
  then have r: "review_ok r" "or_key r \<in> set (map (\<lambda>e. an_key (fst e)) (with_tools ar))"
    using assms(2,3) by (auto simp: included_def list_all_iff)
  from tool_for_key [OF r(2)] obtain a where a: "an_key a = or_key r" "an_tool a = Some (tool_for ar r)"
    "(a, tool_for ar r) \<in> set (with_tools ar)" by metis
  have "distinct (map (\<lambda>e. an_key (fst e)) (with_tools ar))"
    using assms(1) with_tools_keys by (auto simp: analysis_ok_def)
  from dget_map_key [OF this a(3), of "\<lambda>e. serialize_operation (fst e)"] a(1,2) r(1)
  show "build_tool_entry (map (\<lambda>e. (an_key (fst e), serialize_operation (fst e))) (with_tools ar)) r =
      Inr (dump_tool (reviewed_tool r (tool_for ar r)))"
    by (intro build_tool_entry_reviewed) simp_all
qed

lemma names_of_tools: "rmap (\<lambda>t. item t ''tool_name'') (map dump_tool ts) = Inr (map (\<lambda>t. JStr (tool_name t)) ts)"
  by (induction ts) (simp_all add: dump_tool_def)

text \<open>What a successful build returns, and what it read.\<close>

lemma build_Inr:
  assumes "analysis_ok ar" and "list_all review_ok st"
    and "build_connector_document P (serialize_analysis ar) st f = Inr b"
  shows "set (map or_key st) = set (map (\<lambda>e. an_key (fst e)) (with_tools ar)) \<and> included st \<noteq> [] \<and>
    (\<forall>r\<in>set (included st). or_origin r \<noteq> JStr ''generated'') \<and> pf_base_url f \<notin> {None, Some []} \<and>
    built_document b = connector_document f (map (\<lambda>r. dump_tool (reviewed_tool r (tool_for ar r))) (included st)) \<and>
    distinct (map (\<lambda>r. tool_name (tool_for ar r)) (included st)) \<and>
    validate_connector_definition P (JObj (built_document b)) = Inr () \<and>
    content_digest P (JObj (built_document b)) [] = Inr (built_digest b) \<and>
    built_tool_count b = length (included st)"
proof -
  let ?an = "map (\<lambda>e. (an_key (fst e), serialize_operation (fst e))) (with_tools ar)"
  have an: "analyzed_operations P (serialize_analysis ar) = Inr ?an"
    using assms(1) by (intro analyzed_serialized) (simp add: analysis_ok_def)
  have keys: "dkeys ?an = map (\<lambda>e. an_key (fst e)) (with_tools ar)" by (simp add: dkeys_def comp_def)
  from assms(3) an obtain tools where ready: "review_readiness P (serialize_analysis ar) st (pf_base_url f) = Inr []"
    and tools: "build_tools ?an st = Inr tools" and b: "built_document b = connector_document f tools"
    "validate_connector_definition P (JObj (built_document b)) = Inr ()"
    "content_digest P (JObj (built_document b)) [] = Inr (built_digest b)" "built_tool_count b = length tools"
    by (auto simp: build_connector_document_def Let_def res_simps split: if_splits)
  from ready an keys have r: "set (map or_key st) = set (map (\<lambda>e. an_key (fst e)) (with_tools ar))"
    "included st \<noteq> []" "pf_base_url f \<notin> {None, Some []}" "\<forall>r\<in>set (included st). entry_issues P r = []"
    by (auto simp: review_readiness_def split: if_splits)
  have t: "tools = map (\<lambda>r. dump_tool (reviewed_tool r (tool_for ar r))) (included st)"
    "distinct (map (\<lambda>r. tool_name (tool_for ar r)) (included st))"
    using tools review_tools_build [OF assms(1,2)] r(1) names_of_tools [of "map (\<lambda>r. reviewed_tool r (tool_for ar r)) (included st)"]
    by (auto simp: build_tools_def res_simps comp_def reviewed_tool_def distinct_map inj_on_def split: if_splits)
  have "\<forall>r\<in>set (included st). or_origin r \<noteq> JStr ''generated''"
    using r(4) by (auto simp: entry_issues_def split: if_splits)
  with r b t show ?thesis by simp
qed

lemma tool_for_ok:
  assumes "analysis_ok ar" and "or_key r \<in> set (map (\<lambda>e. an_key (fst e)) (with_tools ar))"
  shows "tool_ok (tool_for ar r)"
proof -
  from tool_for_key [OF assms(2)] obtain a where "a \<in> set (res_operations ar)" "an_tool a = Some (tool_for ar r)"
    by metis
  with assms(1) show ?thesis by (auto simp: analysis_ok_def list_all_iff outcome_ok_def)
qed

lemma result_tools_with: "result_tools ar = map snd (with_tools ar)"
  unfolding result_tools_def with_tools_def by (induction "res_operations ar") (auto simp: map_filter_def)

lemma analysis_tool_ok: "analysis_ok ar \<Longrightarrow> (a, t) \<in> set (with_tools ar) \<Longrightarrow> tool_ok t"
  by (fastforce simp: with_tools_elem analysis_ok_def list_all_iff outcome_ok_def)

lemma tool_for_names:
  assumes "analysis_ok ar" and "distinct (map or_key rs)"
    and "set (map or_key rs) \<subseteq> set (map (\<lambda>e. an_key (fst e)) (with_tools ar))"
  shows "distinct (map (\<lambda>r. tool_name (tool_for ar r)) rs)"
  unfolding distinct_map
proof (intro conjI inj_onI)
  show "distinct rs" using assms(2) by (simp add: distinct_map)
  fix r r' assume r: "r \<in> set rs" "r' \<in> set rs" and same: "tool_name (tool_for ar r) = tool_name (tool_for ar r')"
  have keys: "or_key r \<in> set (map (\<lambda>e. an_key (fst e)) (with_tools ar))"
    "or_key r' \<in> set (map (\<lambda>e. an_key (fst e)) (with_tools ar))"
    using r assms(3) by auto
  obtain a where a: "(a, tool_for ar r) \<in> set (with_tools ar)" "an_key a = or_key r"
    by (rule tool_for_key [OF keys(1)])
  obtain a' where a': "(a', tool_for ar r') \<in> set (with_tools ar)" "an_key a' = or_key r'"
    by (rule tool_for_key [OF keys(2)])
  have "distinct (map (\<lambda>e. tool_name (snd e)) (with_tools ar))"
    using assms(1) by (simp add: analysis_ok_def result_tools_with comp_def)
  with a(1) a'(1) same have "(a, tool_for ar r) = (a', tool_for ar r')"
    using inj_onD [of "\<lambda>e. tool_name (snd e)" "set (with_tools ar)" "(a, tool_for ar r)" "(a', tool_for ar r')"]
    by (simp add: distinct_map)
  with a a' have "or_key r = or_key r'" by simp
  with r assms(2) show "r = r'" by (auto simp: distinct_map dest: inj_onD)
qed

lemma initial_state_ok:
  assumes "analysis_ok ar" and "build_initial_review P (serialize_analysis ar) = Inr st0"
  shows "list_all review_ok st0 \<and> map or_key st0 = map (\<lambda>e. an_key (fst e)) (with_tools ar)"
proof -
  have st0: "st0 = map (\<lambda>(a, t). initial_review_of a t) (with_tools ar)"
    using assms(2) by (simp add: initial_review_serialized)
  then show ?thesis
    using analysis_tool_ok [OF assms(1)] initial_review_ok
    by (fastforce simp: list_all_iff case_prod_unfold initial_review_of_def)
qed

section \<open>Properties\<close>

text \<open>
  Every review that follows from an analysis by updates of the request schema is well typed: its
  selections, origins, effects and access policies are values of the contract, it has exactly one entry
  per operation with a tool, and storing it as JSON and reading it back changes nothing.
\<close>

theorem stored_reviews_are_typed:
  assumes "analysis_ok ar" and "build_initial_review P (serialize_analysis ar) = Inr st0"
    and "rfold apply_update us st0 = Inr st" and "list_all update_typed us"
  shows "list_all review_ok st \<and> map or_key st = map (\<lambda>e. an_key (fst e)) (with_tools ar) \<and>
    distinct (map or_key st) \<and> state_from_dict P (state_to_dict st) = Inr st"
proof -
  have "list_all review_ok s \<Longrightarrow> rfold apply_update vs s = Inr s' \<Longrightarrow> list_all update_typed vs \<Longrightarrow>
      list_all review_ok s' \<and> map or_key s' = map or_key s" for vs s s'
  proof (induction vs arbitrary: s)
    case (Cons v vs)
    then obtain mid where "apply_update v s = Inr mid" "rfold apply_update vs mid = Inr s'" by (auto simp: res_simps)
    with Cons.prems apply_update_ok [of v s mid] Cons.IH [of mid] show ?case by simp
  qed simp
  with initial_state_ok [OF assms(1,2)] assms(3,4)
  have "list_all review_ok st \<and> map or_key st = map (\<lambda>e. an_key (fst e)) (with_tools ar)" by metis
  then show ?thesis
    using assms(1) with_tools_keys [of ar] by (simp add: state_roundtrip analysis_ok_def)
qed

lemma published_document_facts:
  assumes "analysis_ok ar" and "list_all review_ok st" and "pydantic_exact P"
    and "build_connector_document P (serialize_analysis ar) st f = Inr b"
  shows "\<exists>ts. built_document b = connector_document f (map dump_tool ts) \<and>
    list_all2 (\<lambda>r t'. \<exists>a t. a \<in> set (res_operations ar) \<and> an_key a = or_key r \<and> an_tool a = Some t \<and>
        t' = reviewed_tool r t \<and> or_origin r \<noteq> JStr ''generated'') (included st) ts \<and>
    list_all tool_ok ts \<and> distinct (map tool_name ts) \<and> rmap (decode_tool P) (map dump_tool ts) = Inr ts \<and>
    content_digest P (JObj (built_document b)) [] = Inr (built_digest b)"
proof -
  let ?ts = "map (\<lambda>r. reviewed_tool r (tool_for ar r)) (included st)"
  note b = build_Inr [OF assms(1,2,4)]
  have key: "or_key r \<in> set (map (\<lambda>e. an_key (fst e)) (with_tools ar))" if "r \<in> set (included st)" for r
    using b that by (auto simp: included_def)
  have ok: "list_all tool_ok ?ts"
    using assms(2) tool_for_ok [OF assms(1) key] reviewed_tool_ok by (auto simp: list_all_iff included_def)
  have "list_all2 (\<lambda>r t'. \<exists>a t. a \<in> set (res_operations ar) \<and> an_key a = or_key r \<and> an_tool a = Some t \<and>
        t' = reviewed_tool r t \<and> or_origin r \<noteq> JStr ''generated'') (included st) ?ts"
    unfolding list_all2_map2 list_all2_same
  proof
    fix r assume r: "r \<in> set (included st)"
    obtain a where "a \<in> set (res_operations ar)" "an_key a = or_key r" "an_tool a = Some (tool_for ar r)"
      by (rule tool_for_key [OF key [OF r]])
    moreover have "or_origin r \<noteq> JStr ''generated''" using b r by blast
    ultimately show "\<exists>a t. a \<in> set (res_operations ar) \<and> an_key a = or_key r \<and> an_tool a = Some t \<and>
        reviewed_tool r (tool_for ar r) = reviewed_tool r t \<and> or_origin r \<noteq> JStr ''generated''" by blast
  qed
  moreover have "rmap (decode_tool P) (map dump_tool ?ts) = Inr ?ts"
    using ok by (intro rmap_dump decode_dump_tool assms(3)) (auto simp: list_all_iff)
  ultimately show ?thesis
    using b [THEN conjunct2] ok by (intro exI [of _ ?ts] conjI) (auto simp: comp_def)
qed

text \<open>
  A published document describes exactly what was reviewed: its tools are, in the order of the
  review, the analysed tools of the included operations, with nothing changed but the description, its
  origin and the policy, which are the reviewer's; no placeholder description is among them, every tool
  satisfies the contract model and reads back unchanged, and the digest is that of the document.
\<close>

theorem published_document_is_reviewed:
  assumes "analysis_ok ar" and "list_all review_ok st" and "pydantic_exact P"
    and "build_connector_document P (serialize_analysis ar) st f = Inr b"
  shows "\<exists>ts. built_document b = connector_document f (map dump_tool ts) \<and>
    list_all2 (\<lambda>r t'. \<exists>a t. a \<in> set (res_operations ar) \<and> an_key a = or_key r \<and> an_tool a = Some t \<and>
        t' = reviewed_tool r t \<and> or_origin r \<noteq> JStr ''generated'') (included st) ts \<and>
    list_all tool_ok ts \<and> distinct (map tool_name ts) \<and> rmap (decode_tool P) (map dump_tool ts) = Inr ts \<and>
    content_digest P (JObj (built_document b)) [] = Inr (built_digest b)"
  using published_document_facts [OF assms] .

text \<open>
  A draft without readiness issues is refused only by the contract itself: when its review has one
  entry per operation, building the document comes down to validating and digesting it, so neither a
  missing operation nor a collision of tool names can appear at that point.
\<close>

theorem ready_draft_meets_contract_only:
  assumes "analysis_ok ar" and "list_all review_ok st" and "distinct (map or_key st)"
    and "review_readiness P (serialize_analysis ar) st (pf_base_url f) = Inr []"
  shows "\<exists>ts. build_connector_document P (serialize_analysis ar) st f =
    rbind (validate_connector_definition P (JObj (connector_document f (map dump_tool ts)))) (\<lambda>_.
    rbind (content_digest P (JObj (connector_document f (map dump_tool ts))) []) (\<lambda>digest.
      Inr \<lparr>built_document = connector_document f (map dump_tool ts), built_digest = digest,
           built_tool_count = length ts\<rparr>))"
proof -
  let ?ts = "map (\<lambda>r. reviewed_tool r (tool_for ar r)) (included st)"
  let ?an = "map (\<lambda>e. (an_key (fst e), serialize_operation (fst e))) (with_tools ar)"
  have an: "analyzed_operations P (serialize_analysis ar) = Inr ?an"
    using assms(1) by (intro analyzed_serialized) (simp add: analysis_ok_def)
  have keys: "dkeys ?an = map (\<lambda>e. an_key (fst e)) (with_tools ar)" by (simp add: dkeys_def comp_def)
  from assms(4) an keys have r: "set (map or_key st) = set (map (\<lambda>e. an_key (fst e)) (with_tools ar))"
    "included st \<noteq> []"
    by (auto simp: review_readiness_def split: if_splits)
  have "distinct (map (\<lambda>r. tool_name (tool_for ar r)) (included st))"
    using assms(3) r(1) by (intro tool_for_names [OF assms(1)]) (auto simp: included_def distinct_map_filter)
  then have "build_tools ?an st = Inr (map dump_tool ?ts)"
    using review_tools_build [OF assms(1,2)] r names_of_tools [of ?ts]
    by (simp add: build_tools_def comp_def reviewed_tool_def distinct_map inj_on_def)
  then show ?thesis
    using assms(4) an by (intro exI [of _ ?ts]) (simp add: build_connector_document_def Let_def)
qed

section \<open>Examples\<close>

lemma example_analysis_ok: "analysis_ok example_analysis"
proof (rule analyzed_document_ok [OF example_analyzed])
  show "jget (doc_content example_document) ''paths'' = JObj (obj_of (jget (doc_content example_document) ''paths''))"
    by code_simp
  show "dict_ok (obj_of (jget (doc_content example_document) ''paths''))"
    by (simp add: example_document_def jget_def dict_ok_def dkeys_def)
qed

text \<open>The reviewer writes the description the converter had to make up.\<close>

definition example_update :: review_update where
  "example_update =
     \<lparr>up_key = ''get /tickets'', up_selection = None, up_description = Some ''List the open tickets.'',
      up_origin = None, up_effect = None, up_confirm = None, up_mode = Some ''restricted'',
      up_roles = Some [''support'']\<rparr>"

definition initial_example :: review_state where
  "initial_example =
     (case build_initial_review sample_platform (serialize_analysis example_analysis) of
        Inl e \<Rightarrow> [] | Inr st \<Rightarrow> st)"

definition reviewed_example :: review_state where
  "reviewed_example = (case apply_update example_update initial_example of Inl e \<Rightarrow> [] | Inr st \<Rightarrow> st)"

lemma initial_example_built:
  "build_initial_review sample_platform (serialize_analysis example_analysis) = Inr initial_example"
  by (simp add: initial_example_def initial_review_serialized)

lemma reviewed_example_built: "rfold apply_update [example_update] initial_example = Inr reviewed_example"
proof -
  have "is_ok (apply_update example_update initial_example)" by code_simp
  then show ?thesis by (auto simp: reviewed_example_def is_ok_iff)
qed

lemma stored_reviews_are_typed_witness:
  "list_all review_ok reviewed_example \<and> map or_description reviewed_example = [''List the open tickets.'']"
proof -
  have "update_typed example_update" by (simp add: update_typed_def example_update_def)
  then have "list_all review_ok reviewed_example"
    using stored_reviews_are_typed [OF example_analysis_ok initial_example_built reviewed_example_built] by simp
  moreover have "map or_description reviewed_example = [''List the open tickets.'']" by code_simp
  ultimately show ?thesis by simp
qed

lemma reviewed_example_ok: "list_all review_ok reviewed_example \<and> distinct (map or_key reviewed_example)"
proof -
  have u: "update_typed example_update" by (simp add: update_typed_def example_update_def)
  have "list_all review_ok initial_example"
    using initial_state_ok [OF example_analysis_ok initial_example_built] by blast
  moreover have "distinct (map or_key reviewed_example)" by code_simp
  moreover have "apply_update example_update initial_example = Inr reviewed_example"
    using reviewed_example_built by (simp add: res_simps)
  ultimately show ?thesis using apply_update_ok u by blast
qed

definition example_time :: datetime where
  "example_time = \<lparr>dt_year = 2026, dt_month = 8, dt_day = 6, dt_hour = 1, dt_minute = 53, dt_second = 37,
     dt_aware = False\<rparr>"

definition example_facts :: publication_facts where
  "example_facts =
     \<lparr>pf_connector_key = ''tickets'', pf_display_name = ''Tickets'', pf_summary = ''Ticket API'',
      pf_version = ''0.1.0'', pf_base_url = Some ''https://api.example.org'', pf_auth_profile_ref = None,
      pf_source_filename = ''a.json'', pf_source_digest = digest_of sample_platform ''{}'',
      pf_source_byte_length = 2, pf_spec_version = ''3.1.0'', pf_created_at = example_time,
      pf_published_at = example_time, pf_labels = []\<rparr>"

definition example_built :: built_connector where
  "example_built =
     (case build_connector_document sample_platform (serialize_analysis example_analysis) reviewed_example example_facts of
        Inl e \<Rightarrow> \<lparr>built_document = [], built_digest = [], built_tool_count = 0\<rparr> | Inr b \<Rightarrow> b)"

lemma example_build:
  "build_connector_document sample_platform (serialize_analysis example_analysis) reviewed_example example_facts =
    Inr example_built"
proof -
  have "is_ok (build_connector_document sample_platform (serialize_analysis example_analysis) reviewed_example
      example_facts)" by code_simp
  then show ?thesis by (auto simp: example_built_def is_ok_iff)
qed

lemma published_document_is_reviewed_witness:
  "\<exists>ts. built_document example_built = connector_document example_facts (map dump_tool ts) \<and>
     list_all tool_ok ts \<and> rmap (decode_tool sample_platform) (map dump_tool ts) = Inr ts"
  using published_document_is_reviewed [OF example_analysis_ok _ sample_pydantic example_build] reviewed_example_ok
  by blast

lemma ready_draft_meets_contract_only_witness:
  "\<exists>ts b. build_connector_document sample_platform (serialize_analysis example_analysis) reviewed_example example_facts = Inr b \<and>
     built_document b = connector_document example_facts (map dump_tool ts)"
proof -
  have "review_readiness sample_platform (serialize_analysis example_analysis) reviewed_example (pf_base_url example_facts) = Inr []"
    by code_simp
  from ready_draft_meets_contract_only [OF example_analysis_ok _ _ this] reviewed_example_ok
  obtain ts where "build_connector_document sample_platform (serialize_analysis example_analysis) reviewed_example
      example_facts =
    rbind (validate_connector_definition sample_platform (JObj (connector_document example_facts (map dump_tool ts))))
      (\<lambda>_. rbind (content_digest sample_platform (JObj (connector_document example_facts (map dump_tool ts))) [])
        (\<lambda>digest. Inr \<lparr>built_document = connector_document example_facts (map dump_tool ts), built_digest = digest,
           built_tool_count = length ts\<rparr>))" by blast
  with example_build have "built_document example_built = connector_document example_facts (map dump_tool ts)"
    by (auto simp only: rbind_eq_Inr sum.inject) (metis built_connector.select_convs(1))
  with example_build show ?thesis by blast
qed

end
