(* ===== verification/Database.thy ===== *)
theory Database
  imports Publication Snapshot "HOL-Library.Sublist"
begin

text \<open>
  The persistent state of the Control Plane, \<^verbatim>\<open>control_plane/models.py\<close>: one record per table, the
  database as the lists of its rows in insertion order, and the writes a flush sends with the
  constraints the tables declare. Rows refer to each other by the unique key of the referenced row, where
  the tables use its integer id; a draft keeps its id, since drafts are deleted and created again.
\<close>

section \<open>Rows\<close>

record connector_row =
  cr_key :: string
  cr_display_name :: string
  cr_summary :: string
  cr_created :: datetime
  cr_updated :: datetime

record draft_row =
  dr_id :: nat
  dr_connector :: string
  dr_revision :: int
  dr_proposed_version :: string
  dr_base_url :: "string option"
  dr_auth_profile_ref :: "string option"
  dr_source_bytes :: string
  dr_source_filename :: string
  dr_source_digest :: string
  dr_source_byte_length :: int
  dr_source_format :: string
  dr_spec_version :: string
  dr_analyzer_version :: string
  dr_analysis :: "json dict"
  dr_review :: "json dict"
  dr_created :: datetime
  dr_updated :: datetime

record version_row =
  vr_connector :: string
  vr_version :: string
  vr_document :: "json dict"
  vr_digest :: string
  vr_source_digest :: string
  vr_analyzer_version :: string
  vr_tool_count :: nat
  vr_published :: datetime
  vr_published_by :: string
  vr_disabled_at :: "datetime option"
  vr_disabled_reason :: "string option"

definition vr_disabled :: "version_row \<Rightarrow> bool" where
  "vr_disabled r \<longleftrightarrow> vr_disabled_at r \<noteq> None"

record deployment_row =
  dp_key :: string
  dp_display_name :: string
  dp_description :: string
  dp_created :: datetime

record snapshot_row =
  sr_deployment :: string
  sr_revision :: nat
  sr_snapshot_id :: string
  sr_document :: "json dict"
  sr_digest :: string
  sr_connector_count :: nat
  sr_active :: bool
  sr_created :: datetime
  sr_created_by :: string

record database =
  db_connectors :: "connector_row list"
  db_drafts :: "draft_row list"
  db_versions :: "version_row list"
  db_deployments :: "deployment_row list"
  db_snapshots :: "snapshot_row list"

definition empty_database :: database where
  "empty_database = \<lparr>db_connectors = [], db_drafts = [], db_versions = [], db_deployments = [], db_snapshots = []\<rparr>"

section \<open>Columns\<close>

text \<open>
  A \<^verbatim>\<open>DateTime\<close> column without a time zone gives the value back naive. A \<^verbatim>\<open>JSON\<close> column refuses what
  \<^verbatim>\<open>json.dumps\<close> refuses, such as the dates of a YAML document.
\<close>

definition stored_time :: "datetime \<Rightarrow> datetime" where
  "stored_time t = t\<lparr>dt_aware := False\<rparr>"

fun json_storable :: "json \<Rightarrow> bool" where
  "json_storable (JArr xs) = list_all json_storable xs"
| "json_storable (JObj kvs) = list_all (\<lambda>p. json_storable (snd p)) kvs"
| "json_storable (JOther t) = False"
| "json_storable v = True"

definition json_column :: "json dict \<Rightarrow> json dict res" where
  "json_column d = (if json_storable (JObj d) then Inr d else Inl StatementError)"

text \<open>A row id of SQLite, the default backend: one more than the greatest id in use.\<close>

definition fresh_id :: "nat list \<Rightarrow> nat" where
  "fresh_id ids = (if ids = [] then 1 else 1 + Max (set ids))"

section \<open>Writes\<close>

text \<open>
  \<open>UpdateConnector\<close> and \<open>UpdateDraft\<close> carry the row as it was read and as it is to be: only a column in
  which they differ is written.
\<close>

datatype change =
    InsertConnector connector_row
  | UpdateConnector connector_row connector_row
  | InsertDraft draft_row
  | UpdateDraft draft_row draft_row
  | DeleteDraft nat
  | InsertVersion version_row
  | DisableVersion string string datetime string
  | InsertDeployment deployment_row
  | InsertSnapshot snapshot_row
  | DeactivateSnapshot string nat

definition changed :: "'a \<Rightarrow> 'a \<Rightarrow> 'a \<Rightarrow> 'a" where
  "changed old new cur = (if new = old then cur else new)"

definition update_connector_row :: "connector_row \<Rightarrow> connector_row \<Rightarrow> connector_row \<Rightarrow> connector_row" where
  "update_connector_row old new cur =
     cur\<lparr>cr_display_name := changed (cr_display_name old) (cr_display_name new) (cr_display_name cur),
         cr_summary := changed (cr_summary old) (cr_summary new) (cr_summary cur),
         cr_updated := stored_time (cr_updated new)\<rparr>"

text \<open>The columns that \<^verbatim>\<open>update_review\<close> assigns; JSON values are compared with \<open>==\<close>.\<close>

definition update_draft_row :: "draft_row \<Rightarrow> draft_row \<Rightarrow> draft_row \<Rightarrow> draft_row" where
  "update_draft_row old new cur =
     cur\<lparr>dr_revision := changed (dr_revision old) (dr_revision new) (dr_revision cur),
         dr_proposed_version := changed (dr_proposed_version old) (dr_proposed_version new) (dr_proposed_version cur),
         dr_base_url := changed (dr_base_url old) (dr_base_url new) (dr_base_url cur),
         dr_auth_profile_ref := changed (dr_auth_profile_ref old) (dr_auth_profile_ref new) (dr_auth_profile_ref cur),
         dr_review := (if py_eq (JObj (dr_review new)) (JObj (dr_review old)) then dr_review cur else dr_review new),
         dr_updated := stored_time (dr_updated new)\<rparr>"

definition update_where :: "('r \<Rightarrow> bool) \<Rightarrow> ('r \<Rightarrow> 'r) \<Rightarrow> 'r list \<Rightarrow> 'r list res" where
  "update_where p f rows =
     (if list_ex p rows then Inr (map (\<lambda>r. if p r then f r else r) rows) else Inl StaleDataError)"

definition insert_unique :: "('r \<Rightarrow> 'r \<Rightarrow> bool) \<Rightarrow> 'r \<Rightarrow> 'r list \<Rightarrow> 'r list res" where
  "insert_unique clash r rows = (if list_ex (clash r) rows then Inl IntegrityError else Inr (rows @ [r]))"

definition stored_connector :: "connector_row \<Rightarrow> connector_row" where
  "stored_connector r = r\<lparr>cr_created := stored_time (cr_created r), cr_updated := stored_time (cr_updated r)\<rparr>"

definition stored_draft :: "nat \<Rightarrow> draft_row \<Rightarrow> draft_row" where
  "stored_draft i r = r\<lparr>dr_id := i, dr_created := stored_time (dr_created r), dr_updated := stored_time (dr_updated r)\<rparr>"

definition stored_version :: "version_row \<Rightarrow> version_row" where
  "stored_version r = r\<lparr>vr_published := stored_time (vr_published r)\<rparr>"

definition stored_deployment :: "deployment_row \<Rightarrow> deployment_row" where
  "stored_deployment r = r\<lparr>dp_created := stored_time (dp_created r)\<rparr>"

definition stored_snapshot :: "snapshot_row \<Rightarrow> snapshot_row" where
  "stored_snapshot r = r\<lparr>sr_created := stored_time (sr_created r)\<rparr>"

definition same_version :: "version_row \<Rightarrow> version_row \<Rightarrow> bool" where
  "same_version a b \<longleftrightarrow> vr_connector a = vr_connector b \<and> vr_version a = vr_version b"

definition same_snapshot :: "snapshot_row \<Rightarrow> snapshot_row \<Rightarrow> bool" where
  "same_snapshot a b \<longleftrightarrow>
     sr_deployment a = sr_deployment b \<and> sr_revision a = sr_revision b \<or> sr_snapshot_id a = sr_snapshot_id b"

fun apply_change :: "change \<Rightarrow> database \<Rightarrow> database res" where
  "apply_change (InsertConnector r) db =
     rbind (insert_unique (\<lambda>a b. cr_key a = cr_key b) (stored_connector r) (db_connectors db))
       (\<lambda>rows. Inr (db\<lparr>db_connectors := rows\<rparr>))"
| "apply_change (UpdateConnector old new) db =
     rbind (update_where (\<lambda>r. cr_key r = cr_key old) (update_connector_row old new) (db_connectors db))
       (\<lambda>rows. Inr (db\<lparr>db_connectors := rows\<rparr>))"
| "apply_change (InsertDraft r) db =
     rbind (json_column (dr_analysis r)) (\<lambda>_.
     rbind (json_column (dr_review r)) (\<lambda>_.
     rbind (insert_unique (\<lambda>a b. dr_connector a = dr_connector b)
              (stored_draft (fresh_id (map dr_id (db_drafts db))) r) (db_drafts db))
       (\<lambda>rows. Inr (db\<lparr>db_drafts := rows\<rparr>))))"
| "apply_change (UpdateDraft old new) db =
     rbind (json_column (dr_review new)) (\<lambda>_.
     rbind (update_where (\<lambda>r. dr_id r = dr_id old) (update_draft_row old new) (db_drafts db))
       (\<lambda>rows. Inr (db\<lparr>db_drafts := rows\<rparr>)))"
| "apply_change (DeleteDraft i) db = Inr (db\<lparr>db_drafts := filter (\<lambda>r. dr_id r \<noteq> i) (db_drafts db)\<rparr>)"
| "apply_change (InsertVersion r) db =
     rbind (json_column (vr_document r)) (\<lambda>_.
     rbind (insert_unique same_version (stored_version r) (db_versions db))
       (\<lambda>rows. Inr (db\<lparr>db_versions := rows\<rparr>)))"
| "apply_change (DisableVersion k v t reason) db =
     rbind (update_where (\<lambda>r. vr_connector r = k \<and> vr_version r = v)
              (\<lambda>r. r\<lparr>vr_disabled_at := Some (stored_time t), vr_disabled_reason := Some reason\<rparr>) (db_versions db))
       (\<lambda>rows. Inr (db\<lparr>db_versions := rows\<rparr>))"
| "apply_change (InsertDeployment r) db =
     rbind (insert_unique (\<lambda>a b. dp_key a = dp_key b) (stored_deployment r) (db_deployments db))
       (\<lambda>rows. Inr (db\<lparr>db_deployments := rows\<rparr>))"
| "apply_change (InsertSnapshot r) db =
     rbind (json_column (sr_document r)) (\<lambda>_.
     rbind (insert_unique same_snapshot (stored_snapshot r) (db_snapshots db))
       (\<lambda>rows. Inr (db\<lparr>db_snapshots := rows\<rparr>)))"
| "apply_change (DeactivateSnapshot k n) db =
     rbind (update_where (\<lambda>r. sr_deployment r = k \<and> sr_revision r = n) (\<lambda>r. r\<lparr>sr_active := False\<rparr>)
              (db_snapshots db)) (\<lambda>rows. Inr (db\<lparr>db_snapshots := rows\<rparr>))"

text \<open>A transaction: all of its writes, or none.\<close>

definition commit :: "change list \<Rightarrow> database \<Rightarrow> database res" where
  "commit cs db = rfold apply_change cs db"

end
