(* ===== verification/Authoring.thy ===== *)
theory Authoring
  imports Database
begin

text \<open>
  Connectors, drafts and published versions: the first half of \<^verbatim>\<open>control_plane/service.py\<close>. An operation
  reads the database and returns the writes of its transaction with the row it answers with; it fails
  where the code raises, which rolls back. All the reads of an operation come before its writes, and it
  reads the clock once.
\<close>

section \<open>Configuration\<close>

record service_env =
  env_parsers :: parsers
  env_max_source_bytes :: nat
  env_signing_key :: "signing_key option"

definition not_found :: exn where
  "not_found = ToolLayerError NOT_FOUND None []"

definition revision_conflict :: exn where
  "revision_conflict = raise_at REVISION_CONFLICT ''/expected_revision''"

definition immutable_version :: exn where
  "immutable_version = raise_at IMMUTABLE_VERSION ''/version''"

section \<open>Reading\<close>

definition find_connector :: "database \<Rightarrow> string \<Rightarrow> connector_row option" where
  "find_connector db k = first_match (\<lambda>r. cr_key r = k) (db_connectors db)"

definition list_connectors :: "database \<Rightarrow> connector_row list" where
  "list_connectors db = sort_key cr_key (db_connectors db)"

definition get_connector :: "database \<Rightarrow> string \<Rightarrow> connector_row res" where
  "get_connector db k = (case find_connector db k of None \<Rightarrow> Inl not_found | Some c \<Rightarrow> Inr c)"

definition find_draft :: "database \<Rightarrow> string \<Rightarrow> draft_row option" where
  "find_draft db k = first_match (\<lambda>r. dr_connector r = k) (db_drafts db)"

definition get_draft :: "database \<Rightarrow> string \<Rightarrow> draft_row res" where
  "get_draft db k =
     rbind (get_connector db k) (\<lambda>c.
       case find_draft db (cr_key c) of None \<Rightarrow> Inl not_found | Some d \<Rightarrow> Inr d)"

definition versions_of :: "database \<Rightarrow> string \<Rightarrow> version_row list" where
  "versions_of db k = filter (\<lambda>r. vr_connector r = k) (db_versions db)"

text \<open>
  The versions of a connector in the order of their rows (the relationship \<^verbatim>\<open>Connector.versions\<close>), and
  as \<^verbatim>\<open>_published_versions\<close> selects them: without an \<^verbatim>\<open>ORDER BY\<close>, so in the order in which the database
  reads the unique index that covers the query, by the text of the version.
\<close>

definition published_versions :: "database \<Rightarrow> string \<Rightarrow> string list" where
  "published_versions db k = map vr_version (versions_of db k)"

definition queried_versions :: "database \<Rightarrow> string \<Rightarrow> string list" where
  "queried_versions db k = sort (published_versions db k)"

lemma queried_versions_set [simp]:
  "set (queried_versions db k) = set (published_versions db k)"
  "queried_versions db k = [] \<longleftrightarrow> published_versions db k = []"
  by (simp add: queried_versions_def) (metis queried_versions_def set_empty set_sort)

definition time_key :: "datetime \<Rightarrow> nat list" where
  "time_key t = [dt_year t, dt_month t, dt_day t, dt_hour t, dt_minute t, dt_second t]"

definition list_versions :: "database \<Rightarrow> string \<Rightarrow> version_row list res" where
  "list_versions db k =
     rbind (get_connector db k) (\<lambda>c. Inr (sort_key (\<lambda>r. time_key (vr_published r)) (versions_of db (cr_key c))))"

definition find_version :: "database \<Rightarrow> string \<Rightarrow> string \<Rightarrow> version_row option" where
  "find_version db k v = first_match (\<lambda>r. vr_connector r = k \<and> vr_version r = v) (db_versions db)"

definition get_version :: "database \<Rightarrow> string \<Rightarrow> string \<Rightarrow> version_row res" where
  "get_version db k v =
     rbind (get_connector db k) (\<lambda>c.
       case find_version db (cr_key c) v of None \<Rightarrow> Inl not_found | Some r \<Rightarrow> Inr r)"

section \<open>Version numbers\<close>

text \<open>\<^verbatim>\<open>max(published, key=parse_version)\<close>, with the key of the greatest version so far.\<close>

definition later_version ::
  "string \<Rightarrow> contract_version \<times> string \<Rightarrow> (contract_version \<times> string) res" where
  "later_version v best =
     rbind (parse_version (JStr v)) (\<lambda>p.
     rbind (tuple_less (fst best) p) (\<lambda>greater. Inr (if greater then (p, v) else best)))"

fun highest_version :: "string list \<Rightarrow> string res" where
  "highest_version [] = Inl ValueError"
| "highest_version (v # vs) =
     rbind (parse_version (JStr v)) (\<lambda>p.
     rbind (rfold later_version vs (p, v)) (\<lambda>best. Inr (snd best)))"

definition next_version :: "database \<Rightarrow> string \<Rightarrow> string res" where
  "next_version db k =
     (if queried_versions db k = [] then Inr ''0.1.0''
      else
        rbind (highest_version (queried_versions db k)) (\<lambda>highest.
        rbind (parse_version (JStr highest)) (\<lambda>parsed.
          Inr (string_of_nat (major parsed) @ ''.'' @ string_of_nat (minor parsed + 1) @ ''.0''))))"

definition refuse_at_most :: "contract_version \<Rightarrow> string \<Rightarrow> unit \<Rightarrow> unit res" where
  "refuse_at_most candidate existing u =
     rbind (parse_version (JStr existing)) (\<lambda>p.
       if compare_precedence candidate p \<le> 0 then Inl (validation_error ''/version'') else Inr u)"

definition reject_version_regression :: "database \<Rightarrow> string \<Rightarrow> string \<Rightarrow> unit res" where
  "reject_version_regression db k v =
     rbind (parse_version (JStr v)) (\<lambda>candidate.
       rfold (refuse_at_most candidate) (queried_versions db k) ())"

text \<open>The parsing and the check that precede every explicit version.\<close>

definition check_version :: "database \<Rightarrow> string \<Rightarrow> string \<Rightarrow> unit res" where
  "check_version db k v =
     rbind (parse_version (JStr v)) (\<lambda>_. reject_version_regression db k v)"

section \<open>Registering\<close>

record registration =
  rg_connector_key :: string
  rg_display_name :: "string option"
  rg_summary :: "string option"
  rg_source_bytes :: string
  rg_source_filename :: string
  rg_proposed_version :: "string option"
  rg_base_url :: "string option"
  rg_auth_profile_ref :: "string option"

text \<open>\<^verbatim>\<open>value or default\<close> on an optional string.\<close>

definition or_else :: "string option \<Rightarrow> string \<Rightarrow> string" where
  "or_else v d = (case v of None \<Rightarrow> d | Some s \<Rightarrow> if s = [] then d else s)"

definition connector_change :: "database \<Rightarrow> datetime \<Rightarrow> registration \<Rightarrow> analysis_result \<Rightarrow> change" where
  "connector_change db now g ar =
     (case find_connector db (rg_connector_key g) of
        None \<Rightarrow>
          InsertConnector
            \<lparr>cr_key = rg_connector_key g, cr_display_name = or_else (rg_display_name g) (res_api_title ar),
             cr_summary = or_else (rg_summary g) (res_api_summary ar), cr_created = now, cr_updated = now\<rparr>
      | Some c \<Rightarrow>
          UpdateConnector c
            (c\<lparr>cr_display_name := or_else (rg_display_name g) (cr_display_name c),
               cr_summary := or_else (rg_summary g) (cr_summary c), cr_updated := now\<rparr>))"

definition chosen_version :: "database \<Rightarrow> registration \<Rightarrow> string res" where
  "chosen_version db g =
     (case rg_proposed_version g of
        None \<Rightarrow> next_version db (rg_connector_key g)
      | Some v \<Rightarrow> rbind (check_version db (rg_connector_key g) v) (\<lambda>_. Inr v))"

definition new_draft ::
  "datetime \<Rightarrow> registration \<Rightarrow> loaded_document \<Rightarrow> analysis_result \<Rightarrow> review_state \<Rightarrow> string \<Rightarrow> draft_row" where
  "new_draft now g loaded ar st v =
     \<lparr>dr_id = 0, dr_connector = rg_connector_key g, dr_revision = 1, dr_proposed_version = v,
      dr_base_url = res_base_url ar, dr_auth_profile_ref = rg_auth_profile_ref g,
      dr_source_bytes = rg_source_bytes g, dr_source_filename = doc_filename loaded,
      dr_source_digest = doc_digest loaded, dr_source_byte_length = int (doc_byte_length loaded),
      dr_source_format = doc_format loaded, dr_spec_version = doc_spec_version loaded,
      dr_analyzer_version = res_analyzer_version ar, dr_analysis = serialize_analysis ar,
      dr_review = state_to_dict st, dr_created = now, dr_updated = now\<rparr>"

definition register_limits :: "service_env \<Rightarrow> source_limits" where
  "register_limits E = default_source_limits\<lparr>max_bytes := env_max_source_bytes E\<rparr>"

definition register_connector ::
  "platform \<Rightarrow> service_env \<Rightarrow> datetime \<Rightarrow> registration \<Rightarrow> database \<Rightarrow> (change list \<times> draft_row) res" where
  "register_connector P E now g db =
     rbind (load_document P (env_parsers E) (register_limits E) (rg_source_bytes g) (rg_source_filename g)) (\<lambda>loaded.
     rbind (analyze_document P default_source_limits loaded (rg_base_url g)) (\<lambda>ar.
     rbind (chosen_version db g) (\<lambda>v.
     rbind (build_initial_review P (serialize_analysis ar)) (\<lambda>st.
       let old = (case find_draft db (rg_connector_key g) of None \<Rightarrow> [] | Some d \<Rightarrow> [DeleteDraft (dr_id d)]);
           draft = new_draft now g loaded ar st v
       in Inr (connector_change db now g ar # old @ [InsertDraft draft], draft)))))"

section \<open>Reviewing\<close>

record draft_update =
  du_connector_key :: string
  du_expected_revision :: int
  du_updates :: "review_update list"
  du_proposed_version :: "string option"
  du_base_url :: "string option"
  du_auth_profile_ref :: "string option"

definition proposed_or_kept :: "database \<Rightarrow> draft_row \<Rightarrow> string option \<Rightarrow> string res" where
  "proposed_or_kept db d v =
     (case v of
        None \<Rightarrow> Inr (dr_proposed_version d)
      | Some v \<Rightarrow> rbind (check_version db (dr_connector d) v) (\<lambda>_. Inr v))"

definition update_review ::
  "platform \<Rightarrow> datetime \<Rightarrow> draft_update \<Rightarrow> database \<Rightarrow> (change list \<times> draft_row) res" where
  "update_review P now u db =
     rbind (get_draft db (du_connector_key u)) (\<lambda>draft.
       if du_expected_revision u \<noteq> dr_revision draft then Inl revision_conflict
       else
         rbind (state_from_dict P (dr_review draft)) (\<lambda>st0.
         rbind (rfold apply_update (du_updates u) st0) (\<lambda>st.
         rbind (proposed_or_kept db draft (du_proposed_version u)) (\<lambda>v.
           let new = draft\<lparr>
               dr_review := state_to_dict st, dr_proposed_version := v,
               dr_base_url := (case du_base_url u of None \<Rightarrow> dr_base_url draft | Some b \<Rightarrow> Some b),
               dr_auth_profile_ref :=
                 (case du_auth_profile_ref u of
                    None \<Rightarrow> dr_auth_profile_ref draft
                  | Some a \<Rightarrow> if a = [] then None else Some a),
               dr_revision := dr_revision draft + 1, dr_updated := now\<rparr>
           in Inr ([UpdateDraft draft new], new)))))"

section \<open>Publishing\<close>

record publish_request =
  pq_connector_key :: string
  pq_expected_revision :: int
  pq_published_by :: string
  pq_version :: "string option"

definition draft_facts :: "connector_row \<Rightarrow> draft_row \<Rightarrow> string \<Rightarrow> datetime \<Rightarrow> publication_facts" where
  "draft_facts c d v now =
     \<lparr>pf_connector_key = cr_key c, pf_display_name = cr_display_name c, pf_summary = cr_summary c,
      pf_version = v, pf_base_url = dr_base_url d, pf_auth_profile_ref = dr_auth_profile_ref d,
      pf_source_filename = dr_source_filename d, pf_source_digest = dr_source_digest d,
      pf_source_byte_length = dr_source_byte_length d, pf_spec_version = dr_spec_version d,
      pf_created_at = dr_created d, pf_published_at = now, pf_labels = []\<rparr>"

definition new_version :: "draft_row \<Rightarrow> string \<Rightarrow> built_connector \<Rightarrow> datetime \<Rightarrow> string \<Rightarrow> version_row" where
  "new_version d v b now by =
     \<lparr>vr_connector = dr_connector d, vr_version = v, vr_document = built_document b, vr_digest = built_digest b,
      vr_source_digest = dr_source_digest d, vr_analyzer_version = dr_analyzer_version d,
      vr_tool_count = built_tool_count b, vr_published = now, vr_published_by = by,
      vr_disabled_at = None, vr_disabled_reason = None\<rparr>"

definition publish_draft ::
  "platform \<Rightarrow> datetime \<Rightarrow> publish_request \<Rightarrow> database \<Rightarrow> (change list \<times> version_row) res" where
  "publish_draft P now q db =
     rbind (get_connector db (pq_connector_key q)) (\<lambda>c.
     rbind (get_draft db (pq_connector_key q)) (\<lambda>draft.
       if pq_expected_revision q \<noteq> dr_revision draft then Inl revision_conflict
       else
         let target = or_else (pq_version q) (dr_proposed_version draft) in
         rbind (check_version db (dr_connector draft) target) (\<lambda>_.
           if find_version db (dr_connector draft) target \<noteq> None then Inl immutable_version
           else
             rbind (state_from_dict P (dr_review draft)) (\<lambda>st.
             rbind (build_connector_document P (dr_analysis draft) st (draft_facts c draft target now)) (\<lambda>built.
               let row = new_version draft target built now (pq_published_by q)
               in Inr ([InsertVersion row, DeleteDraft (dr_id draft)], row))))))"

section \<open>Disabling\<close>

definition disable_version ::
  "datetime \<Rightarrow> string \<Rightarrow> string \<Rightarrow> string \<Rightarrow> database \<Rightarrow> (change list \<times> version_row) res" where
  "disable_version now k v reason db =
     rbind (get_version db k v) (\<lambda>row.
       if vr_disabled row then Inr ([], row)
       else
         Inr ([DisableVersion (vr_connector row) (vr_version row) now (take 512 reason)],
              row\<lparr>vr_disabled_at := Some now, vr_disabled_reason := Some (take 512 reason)\<rparr>))"

end
