(* ===== verification/Deployments.thy ===== *)
theory Deployments
  imports Authoring
begin

text \<open>
  Deployments and their snapshots: the second half of \<^verbatim>\<open>control_plane/service.py\<close>. A snapshot embeds the
  selected published versions, is identified by a digest of its content and signed when the service holds
  a key.
\<close>

section \<open>Deployments\<close>

definition find_deployment :: "database \<Rightarrow> string \<Rightarrow> deployment_row option" where
  "find_deployment db k = first_match (\<lambda>r. dp_key r = k) (db_deployments db)"

definition get_deployment :: "database \<Rightarrow> string \<Rightarrow> deployment_row res" where
  "get_deployment db k = (case find_deployment db k of None \<Rightarrow> Inl not_found | Some d \<Rightarrow> Inr d)"

definition list_deployments :: "database \<Rightarrow> deployment_row list" where
  "list_deployments db = sort_key dp_key (db_deployments db)"

definition create_deployment ::
  "datetime \<Rightarrow> string \<Rightarrow> string \<Rightarrow> string \<Rightarrow> database \<Rightarrow> (change list \<times> deployment_row) res" where
  "create_deployment now k name desc db =
     (if find_deployment db k \<noteq> None then Inl (raise_at ALREADY_EXISTS ''/deployment_key'')
      else
        let row = \<lparr>dp_key = k, dp_display_name = name, dp_description = desc, dp_created = now\<rparr>
        in Inr ([InsertDeployment row], row))"

section \<open>Reading snapshots\<close>

definition snapshots_of :: "database \<Rightarrow> string \<Rightarrow> snapshot_row list" where
  "snapshots_of db k = filter (\<lambda>r. sr_deployment r = k) (db_snapshots db)"

definition snapshot_rows :: "database \<Rightarrow> string \<Rightarrow> snapshot_row list" where
  "snapshot_rows db k = sort_key sr_revision (snapshots_of db k)"

definition list_snapshots :: "database \<Rightarrow> string \<Rightarrow> snapshot_row list res" where
  "list_snapshots db k = rbind (get_deployment db k) (\<lambda>d. Inr (snapshot_rows db (dp_key d)))"

definition active_snapshot :: "database \<Rightarrow> string \<Rightarrow> snapshot_row option" where
  "active_snapshot db k = first_match sr_active (rev (snapshot_rows db k))"

definition get_active_snapshot :: "database \<Rightarrow> string \<Rightarrow> snapshot_row res" where
  "get_active_snapshot db k =
     rbind (get_deployment db k) (\<lambda>d.
       case active_snapshot db (dp_key d) of
         None \<Rightarrow> Inl (ToolLayerError SNAPSHOT_UNAVAILABLE None [])
       | Some s \<Rightarrow> Inr s)"

section \<open>Creating a snapshot\<close>

record snapshot_request =
  sq_deployment_key :: string
  sq_selections :: "(string \<times> string) list"
  sq_created_by :: string

text \<open>One round of the loop over the selections: the documents so far and the keys seen.\<close>

definition select_version ::
  "platform \<Rightarrow> database \<Rightarrow> string \<times> string \<Rightarrow> string list \<times> json dict list \<Rightarrow> (string list \<times> json dict list) res" where
  "select_version P db selection acc =
     (if fst selection \<in> set (fst acc) then Inl (validation_error ''/selections'')
      else
        rbind (get_version db (fst selection) (snd selection)) (\<lambda>row.
          if vr_disabled row then Inl (validation_error ''/selections'')
          else
            rbind (decode_connector P (JObj (vr_document row))) (\<lambda>_.
              Inr (fst acc @ [fst selection], snd acc @ [vr_document row]))))"

text \<open>\<^verbatim>\<open>str(document["connector_key"])\<close>; the key of a validated document is a string.\<close>

definition document_key :: "json dict \<Rightarrow> string" where
  "document_key d = str_of (jget d ''connector_key'')"

definition next_revision :: "database \<Rightarrow> string \<Rightarrow> nat" where
  "next_revision db k = 1 + (case rev (snapshot_rows db k) of [] \<Rightarrow> 0 | r # _ \<Rightarrow> sr_revision r)"

definition snapshot_payload :: "string \<Rightarrow> nat \<Rightarrow> datetime \<Rightarrow> json dict list \<Rightarrow> json dict" where
  "snapshot_payload k n now docs =
     [(''contract_version'', JStr CONTRACT_VERSION), (''deployment_key'', JStr k), (''revision'', JInt (int n)),
      (''created_at'', JStr (str_replace ''+00:00'' ''Z'' (isoformat now))), (''connectors'', JArr (map JObj docs))]"

definition content_id :: "platform \<Rightarrow> json dict \<Rightarrow> string res" where
  "content_id P payload =
     rbind (canonical_bytes P (JObj payload)) (\<lambda>b. Inr (''snap_'' @ take 32 (sha256_hex P b)))"

definition snapshot_document ::
  "platform \<Rightarrow> signing_key option \<Rightarrow> json dict \<Rightarrow> (json dict \<times> string \<times> string) res" where
  "snapshot_document P key payload =
     rbind (content_digest P (JObj payload) []) (\<lambda>digest.
     rbind (content_id P payload) (\<lambda>sid.
       let document = payload @ [(''snapshot_id'', JStr sid), (''snapshot_digest'', JStr digest)] in
       case key of
         None \<Rightarrow> Inr (document, sid, digest)
       | Some k \<Rightarrow>
           rbind (sign_document P document k) (\<lambda>block. Inr (dset ''signature'' block document, sid, digest))))"

definition create_snapshot ::
  "platform \<Rightarrow> service_env \<Rightarrow> datetime \<Rightarrow> snapshot_request \<Rightarrow> database \<Rightarrow> (change list \<times> snapshot_row) res" where
  "create_snapshot P E now q db =
     rbind (get_deployment db (sq_deployment_key q)) (\<lambda>d.
     rbind (rfold (select_version P db) (sq_selections q) ([], [])) (\<lambda>chosen.
       let docs = sort_key document_key (snd chosen);
           n = next_revision db (dp_key d)
       in
         rbind (snapshot_document P (env_signing_key E) (snapshot_payload (dp_key d) n now docs))
           (\<lambda>(document, sid, digest).
         rbind (validate_deployment_snapshot P (JObj document)) (\<lambda>_.
           let row = \<lparr>sr_deployment = dp_key d, sr_revision = n, sr_snapshot_id = sid, sr_document = document,
                       sr_digest = digest, sr_connector_count = length docs, sr_active = True, sr_created = now,
                       sr_created_by = sq_created_by q\<rparr>;
               previous = filter sr_active (snapshot_rows db (dp_key d))
           in Inr (InsertSnapshot row # map (\<lambda>r. DeactivateSnapshot (dp_key d) (sr_revision r)) previous, row)))))"

section \<open>Requests\<close>

text \<open>The operations that write, as one type: what a route passes to the service.\<close>

datatype request =
    Register registration
  | Review draft_update
  | Publish publish_request
  | Disable string string string
  | Deploy string string string
  | Snap snapshot_request

datatype reply =
    DraftReply draft_row
  | VersionReply version_row
  | DeploymentReply deployment_row
  | SnapshotReply snapshot_row

definition with_reply :: "('r \<Rightarrow> reply) \<Rightarrow> (change list \<times> 'r) res \<Rightarrow> (change list \<times> reply) res" where
  "with_reply f m = rbind m (\<lambda>p. Inr (fst p, f (snd p)))"

fun plan ::
  "platform \<Rightarrow> service_env \<Rightarrow> datetime \<Rightarrow> request \<Rightarrow> database \<Rightarrow> (change list \<times> reply) res" where
  "plan P E now (Register g) db = with_reply DraftReply (register_connector P E now g db)"
| "plan P E now (Review u) db = with_reply DraftReply (update_review P now u db)"
| "plan P E now (Publish q) db = with_reply VersionReply (publish_draft P now q db)"
| "plan P E now (Disable k v reason) db = with_reply VersionReply (disable_version now k v reason db)"
| "plan P E now (Deploy k name desc) db = with_reply DeploymentReply (create_deployment now k name desc db)"
| "plan P E now (Snap q) db = with_reply SnapshotReply (create_snapshot P E now q db)"

text \<open>What a flush refused by a constraint raises: two operations translate it.\<close>

fun refused_write :: "request \<Rightarrow> exn \<Rightarrow> exn" where
  "refused_write (Publish q) e = (if e = IntegrityError then immutable_version else e)"
| "refused_write (Snap q) e = (if e = IntegrityError then ToolLayerError ALREADY_EXISTS None [] else e)"
| "refused_write _ e = e"

definition flush :: "request \<Rightarrow> change list \<Rightarrow> database \<Rightarrow> database res" where
  "flush rq cs db = catching (\<lambda>_. True) (\<lambda>e. Inl (refused_write rq e)) (commit cs db)"

text \<open>A request that runs alone.\<close>

definition perform :: "platform \<Rightarrow> service_env \<Rightarrow> datetime \<Rightarrow> request \<Rightarrow> database \<Rightarrow> (database \<times> reply) res" where
  "perform P E now rq db =
     rbind (plan P E now rq db) (\<lambda>p. rbind (flush rq (fst p) db) (\<lambda>db'. Inr (db', snd p)))"

end
