(* ===== verification/ControlPlane.thy ===== *)
theory ControlPlane
  imports Deployments
begin

text \<open>
  The Control Plane as a system: transactions that read, then write, interleaved in any order over one
  database. The properties say what every interleaving keeps, and what only holds when requests do not
  overlap.
\<close>

section \<open>The system\<close>

record system =
  sys_db :: database
  sys_open :: "(request \<times> change list) list"

definition start_system :: system where
  "start_system = \<lparr>sys_db = empty_database, sys_open = []\<rparr>"

inductive sys_step :: "platform \<Rightarrow> service_env \<Rightarrow> system \<Rightarrow> system \<Rightarrow> bool" for P E where
  step_read: "plan P E now rq (sys_db s) = Inr (cs, r) \<Longrightarrow>
     sys_step P E s (s\<lparr>sys_open := (rq, cs) # sys_open s\<rparr>)"
| step_commit: "(rq, cs) \<in> set (sys_open s) \<Longrightarrow> flush rq cs (sys_db s) = Inr db' \<Longrightarrow>
     sys_step P E s \<lparr>sys_db = db', sys_open = remove1 (rq, cs) (sys_open s)\<rparr>"
| step_abort: "(rq, cs) \<in> set (sys_open s) \<Longrightarrow>
     sys_step P E s (s\<lparr>sys_open := remove1 (rq, cs) (sys_open s)\<rparr>)"

inductive_cases sys_stepE: "sys_step P E s s'"

abbreviation sys_run :: "platform \<Rightarrow> service_env \<Rightarrow> system \<Rightarrow> system \<Rightarrow> bool" where
  "sys_run P E \<equiv> (sys_step P E)\<^sup>*\<^sup>*"

text \<open>Requests served one after the other, the failing ones without a trace.\<close>

definition perform_all :: "platform \<Rightarrow> service_env \<Rightarrow> (datetime \<times> request) list \<Rightarrow> database \<Rightarrow> database" where
  "perform_all P E rqs db =
     fold (\<lambda>(now, rq) db. case perform P E now rq db of Inl e \<Rightarrow> db | Inr (db', r) \<Rightarrow> db') rqs db"

section \<open>The interface of an append-only store\<close>

text \<open>
  What a reader of artifacts relies on: whatever a step does, the entries it could see stay where they
  are. Every run then keeps every entry.
\<close>

locale ledger =
  fixes step :: "'s \<Rightarrow> 's \<Rightarrow> bool"
    and entries :: "'s \<Rightarrow> 'e list"
  assumes step_extends: "step s s' \<Longrightarrow> prefix (entries s) (entries s')"
begin

lemma run_extends: "step\<^sup>*\<^sup>* s s' \<Longrightarrow> prefix (entries s) (entries s')"
  by (induction rule: rtranclp_induct) (auto dest: step_extends intro: prefix_order.trans)

lemma entry_stays:
  assumes "step\<^sup>*\<^sup>* s s'" and "i < length (entries s)"
  shows "entries s' ! i = entries s ! i"
  using run_extends [OF assms(1)] assms(2) by (auto simp: prefix_def nth_append)

lemma entry_kept: "step\<^sup>*\<^sup>* s s' \<Longrightarrow> e \<in> set (entries s) \<Longrightarrow> e \<in> set (entries s')"
  using run_extends [of s s'] by (auto simp: prefix_def)

end

section \<open>Writes\<close>

lemma insert_unique_Inr [res_simps]:
  "insert_unique clash r rows = Inr out \<longleftrightarrow> (\<forall>x\<in>set rows. \<not> clash r x) \<and> out = rows @ [r]"
  by (auto simp: insert_unique_def list_ex_iff)

lemma update_where_Inr [res_simps]:
  "update_where p f rows = Inr out \<longleftrightarrow> (\<exists>r\<in>set rows. p r) \<and> out = map (\<lambda>r. if p r then f r else r) rows"
  by (auto simp: update_where_def list_ex_iff)

lemma flush_Inr [res_simps]: "flush rq cs db = Inr db' \<longleftrightarrow> commit cs db = Inr db'"
  by (auto simp: flush_def catching_Inr)

lemma commit_Nil [simp]: "commit [] db = Inr db"
  by (simp add: commit_def)

lemma commit_Cons: "commit (c # cs) db = rbind (apply_change c db) (commit cs)"
  by (cases "apply_change c db") (simp_all add: commit_def)

text \<open>The content of an artifact: what availability does not touch.\<close>

definition version_content :: "version_row \<Rightarrow> version_row" where
  "version_content r = r\<lparr>vr_disabled_at := None, vr_disabled_reason := None\<rparr>"

definition snapshot_content :: "snapshot_row \<Rightarrow> snapshot_row" where
  "snapshot_content r = r\<lparr>sr_active := True\<rparr>"

definition published_content :: "database \<Rightarrow> version_row list" where
  "published_content db = map version_content (db_versions db)"

definition snapshot_contents :: "database \<Rightarrow> snapshot_row list" where
  "snapshot_contents db = map snapshot_content (db_snapshots db)"

lemma map_if_same: "(\<And>r. p r \<Longrightarrow> g (f r) = g r) \<Longrightarrow> map g (map (\<lambda>r. if p r then f r else r) rows) = map g rows"
  by auto

lemma apply_change_versions:
  assumes "apply_change c db = Inr db'"
  shows "published_content db' =
    published_content db @ (case c of InsertVersion r \<Rightarrow> [version_content (stored_version r)] | _ \<Rightarrow> [])"
  using assms
  by (cases c) (auto simp: res_simps published_content_def version_content_def)

lemma apply_change_snapshots:
  assumes "apply_change c db = Inr db'"
  shows "snapshot_contents db' =
    snapshot_contents db @ (case c of InsertSnapshot r \<Rightarrow> [snapshot_content (stored_snapshot r)] | _ \<Rightarrow> [])"
  using assms
  by (cases c) (auto simp: res_simps snapshot_contents_def snapshot_content_def)

lemma commit_extends:
  assumes "commit cs db = Inr db'"
  shows "prefix (published_content db) (published_content db') \<and> prefix (snapshot_contents db) (snapshot_contents db')"
  using assms
proof (induction cs arbitrary: db)
  case (Cons c cs)
  then obtain mid where "apply_change c db = Inr mid" "commit cs mid = Inr db'"
    by (auto simp: commit_Cons res_simps)
  with Cons.IH [of mid] show ?case
    by (auto simp: apply_change_versions apply_change_snapshots dest: append_prefixD)
qed simp

interpretation versions: ledger "sys_step P E" "\<lambda>s. published_content (sys_db s)" for P E
  by unfold_locales (auto elim!: sys_stepE simp: res_simps dest: commit_extends)

interpretation snapshots: ledger "sys_step P E" "\<lambda>s. snapshot_contents (sys_db s)" for P E
  by unfold_locales (auto elim!: sys_stepE simp: res_simps dest: commit_extends)

section \<open>What the operations plan\<close>

lemma with_reply_Inr [res_simps]: "with_reply f m = Inr (cs, r) \<longleftrightarrow> (\<exists>x. m = Inr (cs, x) \<and> r = f x)"
  by (auto simp: with_reply_def res_simps)

lemma get_connector_Inr: "get_connector db k = Inr c \<Longrightarrow> c \<in> set (db_connectors db) \<and> cr_key c = k"
  by (auto simp: get_connector_def find_connector_def dest: first_match_Some split: option.splits)

lemma get_draft_Inr: "get_draft db k = Inr d \<Longrightarrow> d \<in> set (db_drafts db) \<and> dr_connector d = k"
  by (auto simp: get_draft_def find_draft_def res_simps dest: first_match_Some get_connector_Inr split: option.splits)

lemma get_version_Inr:
  "get_version db k v = Inr r \<Longrightarrow> r \<in> set (db_versions db) \<and> vr_connector r = k \<and> vr_version r = v"
  by (auto simp: get_version_def find_version_def res_simps dest: first_match_Some get_connector_Inr split: option.splits)

lemma get_deployment_Inr: "get_deployment db k = Inr d \<Longrightarrow> d \<in> set (db_deployments db) \<and> dp_key d = k"
  by (auto simp: get_deployment_def find_deployment_def dest: first_match_Some split: option.splits)

text \<open>What a published row states about its document.\<close>

definition genuine_version :: "platform \<Rightarrow> version_row \<Rightarrow> bool" where
  "genuine_version P r \<longleftrightarrow>
     validate_connector_definition P (JObj (vr_document r)) = Inr () \<and>
     content_digest P (JObj (vr_document r)) [] = Inr (vr_digest r) \<and>
     dget (vr_document r) ''connector_key'' = Some (JStr (vr_connector r)) \<and>
     dget (vr_document r) ''version'' = Some (JStr (vr_version r)) \<and>
     (\<exists>ts. dget (vr_document r) ''tools'' = Some (JArr ts) \<and> length ts = vr_tool_count r)"

lemma built_genuine:
  assumes "build_connector_document P an st f = Inr b"
  shows "\<exists>ts. built_document b = connector_document f ts \<and> built_tool_count b = length ts \<and>
    validate_connector_definition P (JObj (built_document b)) = Inr () \<and>
    content_digest P (JObj (built_document b)) [] = Inr (built_digest b)"
  using assms by (auto simp: build_connector_document_def Let_def res_simps split: if_splits)

lemma connector_document_dget:
  "dget (connector_document f ts) ''connector_key'' = Some (JStr (pf_connector_key f))"
  "dget (connector_document f ts) ''version'' = Some (JStr (pf_version f))"
  "dget (connector_document f ts) ''tools'' = Some (JArr ts)"
  by (simp_all add: connector_document_def)

lemma publish_Inr:
  assumes "publish_draft P now q db = Inr (cs, row)"
  shows "\<exists>d. d \<in> set (db_drafts db) \<and> cs = [InsertVersion row, DeleteDraft (dr_id d)] \<and> dr_connector d = pq_connector_key q \<and>
    dr_revision d = pq_expected_revision q \<and> vr_connector row = pq_connector_key q \<and>
    check_version db (vr_connector row) (vr_version row) = Inr () \<and> genuine_version P row \<and>
    vr_disabled_at row = None \<and> vr_disabled_reason row = None"
proof -
  from assms obtain c d st b where c: "get_connector db (pq_connector_key q) = Inr c"
    and d: "get_draft db (pq_connector_key q) = Inr d" "pq_expected_revision q = dr_revision d"
    and v: "check_version db (dr_connector d) (or_else (pq_version q) (dr_proposed_version d)) = Inr ()"
    and b: "build_connector_document P (dr_analysis d) st
      (draft_facts c d (or_else (pq_version q) (dr_proposed_version d)) now) = Inr b"
    and row: "row = new_version d (or_else (pq_version q) (dr_proposed_version d)) b now (pq_published_by q)"
    and cs: "cs = [InsertVersion row, DeleteDraft (dr_id d)]"
    by (auto simp: publish_draft_def Let_def res_simps split: if_splits)
  from built_genuine [OF b] get_draft_Inr [OF d(1)] get_connector_Inr [OF c]
  have "genuine_version P row"
    by (auto simp: genuine_version_def row new_version_def connector_document_dget draft_facts_def)
  with row cs d v get_draft_Inr [OF d(1)] show ?thesis
    by (intro exI [of _ d]) (simp add: new_version_def)
qed

text \<open>The selections: each names a different connector and a published version that is not disabled.\<close>

definition selected_row :: "platform \<Rightarrow> database \<Rightarrow> string \<times> string \<Rightarrow> json dict \<Rightarrow> bool" where
  "selected_row P db sel d \<longleftrightarrow>
     (\<exists>r\<in>set (db_versions db). vr_connector r = fst sel \<and> vr_version r = snd sel \<and> vr_document r = d \<and>
        \<not> vr_disabled r \<and> is_ok (decode_connector P (JObj d)))"

lemma select_fold:
  assumes "rfold (select_version P db) sels acc = Inr out" and "distinct (fst acc)"
  shows "\<exists>docs. out = (fst acc @ map fst sels, snd acc @ docs) \<and> distinct (fst acc @ map fst sels) \<and>
    list_all2 (selected_row P db) sels docs"
  using assms
proof (induction sels arbitrary: acc)
  case (Cons sel sels)
  then obtain mid where step: "select_version P db sel acc = Inr mid"
    and rest: "rfold (select_version P db) sels mid = Inr out" by (auto simp: res_simps)
  from step obtain row where row: "get_version db (fst sel) (snd sel) = Inr row" "\<not> vr_disabled row"
    "is_ok (decode_connector P (JObj (vr_document row)))"
    and mid: "mid = (fst acc @ [fst sel], snd acc @ [vr_document row])" "fst sel \<notin> set (fst acc)"
    by (auto simp: select_version_def res_simps is_ok_iff split: if_splits)
  have "selected_row P db sel (vr_document row)"
    using row get_version_Inr [OF row(1)] by (auto simp: selected_row_def)
  moreover have "distinct (fst mid)" using mid Cons.prems(2) by simp
  then obtain docs where "out = (fst mid @ map fst sels, snd mid @ docs)" "distinct (fst mid @ map fst sels)"
    "list_all2 (selected_row P db) sels docs"
    using Cons.IH [OF rest] by blast
  ultimately show ?case using mid by (intro exI [of _ "vr_document row # docs"]) simp
qed simp

text \<open>What a snapshot row states about its document and the versions it embeds.\<close>

definition embeds :: "platform \<Rightarrow> json dict list \<Rightarrow> snapshot_row \<Rightarrow> bool" where
  "embeds P docs r \<longleftrightarrow>
     validate_deployment_snapshot P (JObj (sr_document r)) = Inr () \<and> sr_connector_count r = length docs \<and>
     dget (sr_document r) ''snapshot_digest'' = Some (JStr (sr_digest r)) \<and>
     dget (sr_document r) ''snapshot_id'' = Some (JStr (sr_snapshot_id r)) \<and>
     (\<exists>time payload. payload = snapshot_payload (sr_deployment r) (sr_revision r) time docs \<and>
        ddel SNAPSHOT_DIGEST_EXCLUDED (sr_document r) = payload \<and>
        content_digest P (JObj payload) [] = Inr (sr_digest r) \<and> content_id P payload = Inr (sr_snapshot_id r))"

definition genuine_snapshot :: "platform \<Rightarrow> version_row list \<Rightarrow> snapshot_row \<Rightarrow> bool" where
  "genuine_snapshot P vs r \<longleftrightarrow> (\<exists>docs. embeds P docs r \<and> set docs \<subseteq> vr_document ` set vs)"

lemma snapshot_document_Inr:
  assumes "snapshot_document P key (snapshot_payload k n now docs) = Inr (document, sid, digest)"
  shows "ddel SNAPSHOT_DIGEST_EXCLUDED document = snapshot_payload k n now docs \<and>
    content_digest P (JObj (snapshot_payload k n now docs)) [] = Inr digest \<and>
    content_id P (snapshot_payload k n now docs) = Inr sid \<and>
    dget document ''snapshot_digest'' = Some (JStr digest) \<and> dget document ''snapshot_id'' = Some (JStr sid)"
  using assms
  by (auto simp: snapshot_document_def Let_def res_simps snapshot_payload_def SNAPSHOT_DIGEST_EXCLUDED_def ddel_def
      split: option.splits)

lemma create_snapshot_Inr:
  assumes "create_snapshot P E now q db = Inr (cs, row)"
  shows "cs = InsertSnapshot row #
      map (\<lambda>r. DeactivateSnapshot (sr_deployment row) (sr_revision r)) (filter sr_active (snapshot_rows db (sr_deployment row))) \<and>
    sr_deployment row = sq_deployment_key q \<and> sr_revision row = next_revision db (sr_deployment row) \<and> sr_active row \<and>
    genuine_snapshot P (db_versions db) row"
proof -
  from assms obtain d keys docs document sid digest where
    d: "get_deployment db (sq_deployment_key q) = Inr d"
    and sel: "rfold (select_version P db) (sq_selections q) ([], []) = Inr (keys, docs)"
    and doc: "snapshot_document P (env_signing_key E) (snapshot_payload (dp_key d) (next_revision db (dp_key d)) now
        (sort_key document_key docs)) = Inr (document, sid, digest)"
    and val: "validate_deployment_snapshot P (JObj document) = Inr ()"
    and row: "row = \<lparr>sr_deployment = dp_key d, sr_revision = next_revision db (dp_key d), sr_snapshot_id = sid,
        sr_document = document, sr_digest = digest, sr_connector_count = length (sort_key document_key docs),
        sr_active = True, sr_created = now, sr_created_by = sq_created_by q\<rparr>"
    and cs: "cs = InsertSnapshot row # map (\<lambda>r. DeactivateSnapshot (dp_key d) (sr_revision r))
        (filter sr_active (snapshot_rows db (dp_key d)))"
    by (auto simp: create_snapshot_def Let_def res_simps)
  have docs: "list_all2 (selected_row P db) (sq_selections q) docs" using select_fold [OF sel] by simp
  have "e \<in> vr_document ` set (db_versions db)" if "e \<in> set docs" for e
    using docs that
    by (auto simp: list_all2_conv_all_nth in_set_conv_nth selected_row_def) (metis image_eqI)
  moreover have "embeds P (sort_key document_key docs) row"
    using snapshot_document_Inr [OF doc] val by (auto simp: embeds_def row)
  ultimately have "genuine_snapshot P (db_versions db) row"
    unfolding genuine_snapshot_def by (intro exI [of _ "sort_key document_key docs"]) auto
  with get_deployment_Inr [OF d] show ?thesis by (simp add: cs row)
qed

section \<open>Every artifact is genuine\<close>

text \<open>A write that is waiting to be committed is as good as the row it would store.\<close>

fun genuine_change :: "platform \<Rightarrow> version_row list \<Rightarrow> change \<Rightarrow> bool" where
  "genuine_change P vs (InsertVersion r) = genuine_version P r"
| "genuine_change P vs (InsertSnapshot r) = genuine_snapshot P vs r"
| "genuine_change P vs _ = True"

definition artifacts_genuine :: "platform \<Rightarrow> database \<Rightarrow> bool" where
  "artifacts_genuine P db \<longleftrightarrow>
     list_all (genuine_version P) (db_versions db) \<and>
     distinct (map (\<lambda>r. (vr_connector r, vr_version r)) (db_versions db)) \<and>
     list_all (genuine_snapshot P (db_versions db)) (db_snapshots db) \<and>
     distinct (map sr_snapshot_id (db_snapshots db))"

lemma genuine_snapshot_mono:
  "genuine_snapshot P vs r \<Longrightarrow> vr_document ` set vs \<subseteq> vr_document ` set vs' \<Longrightarrow> genuine_snapshot P vs' r"
  unfolding genuine_snapshot_def by (meson subset_trans)

lemma genuine_change_mono:
  "genuine_change P vs c \<Longrightarrow> vr_document ` set vs \<subseteq> vr_document ` set vs' \<Longrightarrow> genuine_change P vs' c"
  by (cases c) (auto intro: genuine_snapshot_mono)

lemma published_documents: "vr_document ` set (db_versions db) = vr_document ` set (published_content db)"
  by (auto simp: published_content_def version_content_def image_image)

lemma apply_change_documents:
  "apply_change c db = Inr db' \<Longrightarrow> vr_document ` set (db_versions db) \<subseteq> vr_document ` set (db_versions db')"
  by (auto simp: published_documents apply_change_versions)

lemma commit_documents:
  "commit cs db = Inr db' \<Longrightarrow> vr_document ` set (db_versions db) \<subseteq> vr_document ` set (db_versions db')"
  using commit_extends [of cs db db'] by (auto simp: published_documents prefix_def)

lemma genuine_stored:
  "genuine_version P (stored_version r) = genuine_version P r"
  "genuine_snapshot P vs (stored_snapshot t) = genuine_snapshot P vs t"
  "genuine_version P (r\<lparr>vr_disabled_at := x, vr_disabled_reason := y\<rparr>) = genuine_version P r"
  "genuine_snapshot P vs (t\<lparr>sr_active := b\<rparr>) = genuine_snapshot P vs t"
  by (simp_all add: genuine_version_def genuine_snapshot_def embeds_def stored_version_def stored_snapshot_def)

lemma map_update_same:
  "(\<And>x. g (f x) = g x) \<Longrightarrow> map g (map (\<lambda>x. if p x then f x else x) xs) = map g xs"
  by simp

lemma apply_change_genuine:
  assumes "artifacts_genuine P db" and "genuine_change P (db_versions db) c" and "apply_change c db = Inr db'"
  shows "artifacts_genuine P db'"
proof -
  note docs = apply_change_documents [OF assms(3)]
  have snaps: "list_all (genuine_snapshot P (db_versions db')) (db_snapshots db)"
    using assms(1) genuine_snapshot_mono [OF _ docs] by (simp add: artifacts_genuine_def list_all_iff)
  show ?thesis
  proof (cases c)
    case (InsertVersion r)
    with assms snaps show ?thesis
      by (auto simp: artifacts_genuine_def res_simps genuine_stored [unfolded stored_version_def] same_version_def stored_version_def)
  next
    case (DisableVersion k v t reason)
    let ?rows = "map (\<lambda>r. if vr_connector r = k \<and> vr_version r = v then
        r\<lparr>vr_disabled_at := Some (stored_time t), vr_disabled_reason := Some reason\<rparr> else r) (db_versions db)"
    from assms(3) DisableVersion have db': "db' = db\<lparr>db_versions := ?rows\<rparr>" by (auto simp: res_simps)
    have keys: "map (\<lambda>r. (vr_connector r, vr_version r)) ?rows = map (\<lambda>r. (vr_connector r, vr_version r)) (db_versions db)"
      by simp
    have "distinct (map (\<lambda>r. (vr_connector r, vr_version r)) ?rows)"
      unfolding keys using assms(1) by (simp add: artifacts_genuine_def)
    moreover have "list_all (genuine_version P) ?rows"
      using assms(1) by (auto simp: artifacts_genuine_def list_all_iff genuine_stored)
    ultimately show ?thesis using assms(1) snaps unfolding db' by (simp only: artifacts_genuine_def) simp
  next
    case (InsertSnapshot r)
    with assms snaps show ?thesis
      by (auto simp: artifacts_genuine_def res_simps genuine_stored [unfolded stored_snapshot_def] same_snapshot_def stored_snapshot_def)
  next
    case (DeactivateSnapshot k n)
    let ?rows = "map (\<lambda>r. if sr_deployment r = k \<and> sr_revision r = n then r\<lparr>sr_active := False\<rparr> else r) (db_snapshots db)"
    from assms(3) DeactivateSnapshot have db': "db' = db\<lparr>db_snapshots := ?rows\<rparr>" by (auto simp: res_simps)
    have keys: "map sr_snapshot_id ?rows = map sr_snapshot_id (db_snapshots db)" by simp
    have "distinct (map sr_snapshot_id ?rows)"
      unfolding keys using assms(1) by (simp add: artifacts_genuine_def)
    moreover have "list_all (genuine_snapshot P (db_versions db)) ?rows"
      using assms(1) by (auto simp: artifacts_genuine_def list_all_iff genuine_stored)
    ultimately show ?thesis using assms(1) unfolding db' by (simp only: artifacts_genuine_def) simp
  qed (use assms in \<open>auto simp: artifacts_genuine_def res_simps\<close>)
qed

lemma commit_genuine:
  assumes "artifacts_genuine P db" and "list_all (genuine_change P (db_versions db)) cs" and "commit cs db = Inr db'"
  shows "artifacts_genuine P db'"
  using assms
proof (induction cs arbitrary: db)
  case (Cons c cs)
  then obtain mid where "apply_change c db = Inr mid" "commit cs mid = Inr db'"
    by (auto simp: commit_Cons res_simps)
  with Cons.prems Cons.IH [of mid] show ?case
    by (auto simp: list_all_iff dest: apply_change_genuine intro: genuine_change_mono [OF _ apply_change_documents])
qed simp

lemma plan_genuine:
  assumes "plan P E now rq db = Inr (cs, r)"
  shows "list_all (genuine_change P (db_versions db)) cs"
proof (cases rq)
  case (Publish q)
  with assms show ?thesis by (auto simp: res_simps dest: publish_Inr)
next
  case (Snap q)
  with assms show ?thesis by (auto simp: res_simps list_all_iff dest!: create_snapshot_Inr)
qed (use assms in \<open>auto simp: res_simps register_connector_def connector_change_def update_review_def
      disable_version_def create_deployment_def Let_def split: if_splits option.splits\<close>)

definition system_genuine :: "platform \<Rightarrow> system \<Rightarrow> bool" where
  "system_genuine P s \<longleftrightarrow>
     artifacts_genuine P (sys_db s) \<and>
     (\<forall>(rq, cs)\<in>set (sys_open s). list_all (genuine_change P (db_versions (sys_db s))) cs)"

lemma system_genuine_start: "system_genuine P start_system"
  by (simp add: system_genuine_def start_system_def empty_database_def artifacts_genuine_def)

lemma system_genuine_step:
  assumes "system_genuine P s" and "sys_step P E s s'"
  shows "system_genuine P s'"
  using assms(2)
proof (cases rule: sys_step.cases)
  case (step_read now rq cs r)
  with assms(1) show ?thesis by (auto simp: system_genuine_def dest: plan_genuine)
next
  case (step_commit rq cs db')
  then have c: "commit cs (sys_db s) = Inr db'" by (simp add: res_simps)
  have "list_all (genuine_change P (db_versions db')) cs'" if "(rq', cs') \<in> set (sys_open s)" for rq' cs'
    using assms(1) that genuine_change_mono [OF _ commit_documents [OF c]]
    by (fastforce simp: system_genuine_def list_all_iff)
  moreover have "artifacts_genuine P db'"
    using assms(1) step_commit c by (auto simp: system_genuine_def intro: commit_genuine)
  ultimately show ?thesis
    unfolding step_commit(1) system_genuine_def by (auto dest: notin_set_remove1 set_remove1_subset [THEN subsetD])
next
  case (step_abort rq cs)
  with assms(1) show ?thesis by (auto simp: system_genuine_def dest: set_remove1_subset [THEN subsetD])
qed

lemma system_genuine_run: "sys_run P E start_system s \<Longrightarrow> system_genuine P s"
  by (induction rule: rtranclp_induct) (auto intro: system_genuine_start system_genuine_step)

end
