(* ===== verification/History.thy ===== *)
theory History
  imports ControlPlane
begin

text \<open>
  How the history of a Control Plane grows: the revisions of a deployment's snapshots under every
  interleaving, the versions of a connector when requests do not overlap, and what overlapping requests
  can do that serial ones cannot.
\<close>

section \<open>Snapshot revisions\<close>

text \<open>The revisions are 1 to n in order of creation, and exactly the last is active.\<close>

definition gapless :: "snapshot_row list \<Rightarrow> bool" where
  "gapless rows \<longleftrightarrow>
     (\<forall>i<length rows. sr_revision (rows ! i) = Suc i \<and> (sr_active (rows ! i) \<longleftrightarrow> Suc i = length rows))"

fun touches_snapshots :: "change \<Rightarrow> bool" where
  "touches_snapshots (InsertSnapshot r) = True"
| "touches_snapshots (DeactivateSnapshot k n) = True"
| "touches_snapshots _ = False"

text \<open>What a transaction that creates a snapshot will write: its row, and the end of the previous one.\<close>

definition replacement :: "snapshot_row \<Rightarrow> change list" where
  "replacement r =
     InsertSnapshot r #
       (if sr_revision r = 1 then [] else [DeactivateSnapshot (sr_deployment r) (sr_revision r - 1)])"

definition planned_replacement :: "database \<Rightarrow> snapshot_row \<Rightarrow> bool" where
  "planned_replacement db r \<longleftrightarrow>
     sr_active r \<and> 1 \<le> sr_revision r \<and> sr_revision r \<le> Suc (length (snapshots_of db (sr_deployment r)))"

definition orderly :: "database \<Rightarrow> change list \<Rightarrow> bool" where
  "orderly db cs \<longleftrightarrow>
     (\<forall>c\<in>set cs. \<not> touches_snapshots c) \<or> (\<exists>r. cs = replacement r \<and> planned_replacement db r)"

lemma gapless_revisions: "gapless rows \<Longrightarrow> map sr_revision rows = [1..<Suc (length rows)]"
  by (intro nth_equalityI) (auto simp: gapless_def simp del: upt_Suc)

lemma gapless_sorted: "gapless rows \<Longrightarrow> sort_key sr_revision rows = rows"
  by (intro sort_key_id_if_sorted) (simp add: gapless_revisions del: upt_Suc)

lemma gapless_active:
  assumes "gapless rows"
  shows "filter sr_active rows = (if rows = [] then [] else [last rows])"
proof (cases rows rule: rev_cases)
  case (snoc init r)
  have "\<not> sr_active x" if "x \<in> set init" for x
  proof -
    from that obtain i where "i < length init" "x = init ! i" by (auto simp: in_set_conv_nth)
    with assms snoc show ?thesis by (auto simp: gapless_def nth_append dest!: spec [of _ i])
  qed
  moreover have "sr_active r" using assms snoc by (auto simp: gapless_def dest!: spec [of _ "length init"])
  ultimately show ?thesis by (simp add: snoc)
qed simp

lemma gapless_last: "gapless rows \<Longrightarrow> rows \<noteq> [] \<Longrightarrow> sr_revision (last rows) = length rows"
  by (auto simp: gapless_def last_conv_nth)

lemma gapless_extend:
  assumes "gapless rows" and "sr_revision r = Suc (length rows)" and "sr_active r"
  shows "gapless (map (\<lambda>x. if sr_revision x = length rows then x\<lparr>sr_active := False\<rparr> else x) rows @ [r])"
  using assms by (auto simp: gapless_def nth_append less_Suc_eq)

lemma snapshots_of_append:
  "snapshots_of (db\<lparr>db_snapshots := db_snapshots db @ [r]\<rparr>) k =
     snapshots_of db k @ (if sr_deployment r = k then [r] else [])"
  by (simp add: snapshots_of_def)

lemma snapshots_of_untouched: "\<not> touches_snapshots c \<Longrightarrow> apply_change c db = Inr db' \<Longrightarrow> db_snapshots db' = db_snapshots db"
  by (cases c) (auto simp: res_simps)

lemma commit_untouched:
  assumes "\<forall>c\<in>set cs. \<not> touches_snapshots c" and "commit cs db = Inr db'"
  shows "db_snapshots db' = db_snapshots db"
  using assms
proof (induction cs arbitrary: db)
  case (Cons c cs)
  then obtain mid where "apply_change c db = Inr mid" "commit cs mid = Inr db'" by (auto simp: commit_Cons res_simps)
  with Cons show ?case using snapshots_of_untouched [of c db mid] by simp
qed simp

lemma filter_map_same: "(\<And>x. q (f x) = q x) \<Longrightarrow> filter q (map f xs) = map f (filter q xs)"
  by (induction xs) auto

text \<open>A replacement commits only when no other snapshot was created since it was planned.\<close>

lemma commit_replacement:
  assumes "commit (replacement r) db = Inr db'" and "gapless (snapshots_of db (sr_deployment r))" and "planned_replacement db r"
  shows "sr_revision r = Suc (length (snapshots_of db (sr_deployment r))) \<and>
    snapshots_of db' k =
      (if k = sr_deployment r
       then map (\<lambda>x. if sr_revision x = length (snapshots_of db k) then x\<lparr>sr_active := False\<rparr> else x)
              (snapshots_of db k) @ [stored_snapshot r]
       else snapshots_of db k)"
proof -
  let ?rows = "snapshots_of db (sr_deployment r)"
  have no: "sr_revision x \<noteq> sr_revision r" if "x \<in> set ?rows" for x
    using assms(1) that
    by (auto simp: replacement_def commit_Cons res_simps same_snapshot_def stored_snapshot_def snapshots_of_def)
  have rev: "sr_revision r = Suc (length ?rows)"
  proof (rule ccontr)
    assume "sr_revision r \<noteq> Suc (length ?rows)"
    with assms(3) have "sr_revision r - 1 < length ?rows" "1 \<le> sr_revision r" by (auto simp: planned_replacement_def)
    with assms(2) have "sr_revision (?rows ! (sr_revision r - 1)) = sr_revision r" by (auto simp: gapless_def)
    with no \<open>sr_revision r - 1 < length ?rows\<close> show False by (meson nth_mem)
  qed
  have le: "sr_revision x \<le> length ?rows" if "x \<in> set ?rows" for x
    using assms(2) that by (auto simp: gapless_def in_set_conv_nth)
  show ?thesis
  proof (cases "?rows = []")
    case True
    with rev assms(1) show ?thesis
      by (auto simp: replacement_def commit_Cons res_simps snapshots_of_append stored_snapshot_def)
  next
    case False
    with rev have two: "sr_revision r \<noteq> 1" by simp
    from assms(1) two have db': "db' = db\<lparr>db_snapshots := map (\<lambda>x. if sr_deployment x = sr_deployment r \<and>
        sr_revision x = sr_revision r - 1 then x\<lparr>sr_active := False\<rparr> else x) (db_snapshots db @ [stored_snapshot r])\<rparr>"
      by (auto simp: replacement_def commit_Cons res_simps)
    have "snapshots_of db' k = map (\<lambda>x. if sr_deployment x = sr_deployment r \<and>
        sr_revision x = sr_revision r - 1 then x\<lparr>sr_active := False\<rparr> else x)
        (snapshots_of db k @ (if k = sr_deployment r then [stored_snapshot r] else []))"
      unfolding db' snapshots_of_def
      by (simp add: filter_map_same [of "\<lambda>x. sr_deployment x = k"] stored_snapshot_def del: map_append filter_append)
        (simp add: stored_snapshot_def)
    with rev show ?thesis by (auto simp: snapshots_of_def stored_snapshot_def intro!: map_idI)
  qed
qed

lemma commit_orderly:
  assumes "orderly db cs" and "\<forall>k. gapless (snapshots_of db k)" and "commit cs db = Inr db'"
  shows "(\<forall>k. gapless (snapshots_of db' k)) \<and> (\<forall>k. length (snapshots_of db k) \<le> length (snapshots_of db' k))"
  using assms(1) unfolding orderly_def
proof
  assume "\<forall>c\<in>set cs. \<not> touches_snapshots c"
  with assms(2,3) commit_untouched show ?thesis by (simp add: snapshots_of_def)
next
  assume "\<exists>r. cs = replacement r \<and> planned_replacement db r"
  then obtain r where r: "cs = replacement r" "planned_replacement db r" by blast
  have "gapless (snapshots_of db' k) \<and> length (snapshots_of db k) \<le> length (snapshots_of db' k)" for k
    using commit_replacement [of r db db' k] r assms(2,3) gapless_extend [of "snapshots_of db k" "stored_snapshot r"]
    by (auto simp: planned_replacement_def stored_snapshot_def)
  then show ?thesis by blast
qed

lemma plan_orderly:
  assumes "plan P E now rq db = Inr (cs, r)" and "\<forall>k. gapless (snapshots_of db k)"
  shows "orderly db cs"
proof (cases rq)
  case (Snap q)
  with assms(1) obtain row where row: "create_snapshot P E now q db = Inr (cs, row)" by (auto simp: res_simps)
  let ?rows = "snapshots_of db (sr_deployment row)"
  have g: "gapless ?rows" using assms(2) by blast
  then have rows: "snapshot_rows db (sr_deployment row) = ?rows" by (simp add: snapshot_rows_def gapless_sorted)
  have n: "next_revision db (sr_deployment row) = Suc (length ?rows)"
    using gapless_last [OF g] by (cases ?rows rule: rev_cases) (auto simp: next_revision_def rows)
  show ?thesis
    using create_snapshot_Inr [OF row] gapless_active [OF g] gapless_last [OF g] n
    by (auto simp: orderly_def replacement_def planned_replacement_def rows intro!: exI [of _ row])
next
  case (Register g)
  with assms(1) show ?thesis
    by (auto simp: orderly_def res_simps register_connector_def connector_change_def Let_def split: option.splits)
next
  case (Publish q)
  with assms(1) obtain row where "publish_draft P now q db = Inr (cs, row)" by (auto simp: res_simps)
  from publish_Inr [OF this] show ?thesis by (auto simp: orderly_def)
qed (use assms(1) in \<open>auto simp: orderly_def res_simps update_review_def disable_version_def create_deployment_def
      Let_def split: if_splits\<close>)

definition system_orderly :: "system \<Rightarrow> bool" where
  "system_orderly s \<longleftrightarrow>
     (\<forall>k. gapless (snapshots_of (sys_db s) k)) \<and> (\<forall>(rq, cs)\<in>set (sys_open s). orderly (sys_db s) cs)"

lemma orderly_mono:
  "orderly db cs \<Longrightarrow> (\<And>k. length (snapshots_of db k) \<le> length (snapshots_of db' k)) \<Longrightarrow> orderly db' cs"
  unfolding orderly_def planned_replacement_def
  by (elim disjE exE) (simp, metis Suc_le_mono order_trans)

lemma system_orderly_step:
  assumes "system_orderly s" and "sys_step P E s s'"
  shows "system_orderly s'"
  using assms(2)
proof (cases rule: sys_step.cases)
  case (step_read now rq cs r)
  with assms(1) show ?thesis by (auto simp: system_orderly_def dest: plan_orderly)
next
  case (step_commit rq cs db')
  then have c: "commit cs (sys_db s) = Inr db'" by (simp add: res_simps)
  have o: "orderly (sys_db s) cs" "\<forall>k. gapless (snapshots_of (sys_db s) k)"
    using assms(1) step_commit by (auto simp: system_orderly_def)
  note new = commit_orderly [OF o c]
  then have "orderly db' cs'" if "(rq', cs') \<in> set (sys_open s)" for rq' cs'
    using assms(1) that orderly_mono [of "sys_db s" cs' db'] by (auto simp: system_orderly_def)
  with new show ?thesis
    unfolding step_commit(1) system_orderly_def by (auto dest: set_remove1_subset [THEN subsetD])
next
  case (step_abort rq cs)
  with assms(1) show ?thesis by (auto simp: system_orderly_def dest: set_remove1_subset [THEN subsetD])
qed

lemma system_orderly_run: "sys_run P E start_system s \<Longrightarrow> system_orderly s"
proof (induction rule: rtranclp_induct)
  case base
  show ?case by (simp add: system_orderly_def start_system_def empty_database_def snapshots_of_def gapless_def)
qed (rule system_orderly_step)

section \<open>Versions of one connector\<close>

definition parsed :: "string \<Rightarrow> contract_version res" where
  "parsed v = parse_version (JStr v)"

definition ascending :: "database \<Rightarrow> string \<Rightarrow> bool" where
  "ascending db k \<longleftrightarrow>
     (\<exists>ps. rmap parsed (published_versions db k) = Inr ps \<and> sorted_wrt (\<lambda>a b. compare_precedence a b < 0) ps)"

lemma rmap_snoc: "rmap f (xs @ [x]) = rbind (rmap f xs) (\<lambda>ys. rbind (f x) (\<lambda>y. Inr (ys @ [y])))"
  by (induction xs) (simp_all add: rbind_assoc)

text \<open>An accepted version is greater than every version published so far.\<close>

lemma check_version_Inr:
  "check_version db k v = Inr () \<longleftrightarrow>
     (\<exists>c. parsed v = Inr c \<and>
        (\<forall>e\<in>set (published_versions db k). \<exists>p. parsed e = Inr p \<and> \<not> compare_precedence c p \<le> 0))"
proof -
  have "rfold (refuse_at_most c) vs () = Inr () \<longleftrightarrow>
      (\<forall>e\<in>set vs. \<exists>p. parsed e = Inr p \<and> \<not> compare_precedence c p \<le> 0)" for c vs
    by (induction vs) (auto simp: refuse_at_most_def parsed_def res_simps)
  then show ?thesis by (auto simp: check_version_def reject_version_regression_def parsed_def res_simps)
qed

lemma published_content_versions:
  "published_versions db k = map vr_version (filter (\<lambda>r. vr_connector r = k) (published_content db))"
  by (simp add: published_versions_def versions_of_def published_content_def filter_map comp_def version_content_def)

lemma commit_versions:
  assumes "commit cs db = Inr db'"
  shows "published_versions db' k = published_versions db k @
    concat (map (\<lambda>c. case c of InsertVersion r \<Rightarrow> if vr_connector r = k then [vr_version r] else [] | _ \<Rightarrow> []) cs)"
  using assms
proof (induction cs arbitrary: db)
  case (Cons c cs)
  then obtain mid where mid: "apply_change c db = Inr mid" "commit cs mid = Inr db'"
    by (auto simp: commit_Cons res_simps)
  have "published_versions mid k = published_versions db k @
      (case c of InsertVersion r \<Rightarrow> if vr_connector r = k then [vr_version r] else [] | _ \<Rightarrow> [])"
    using apply_change_versions [OF mid(1)]
    by (cases c) (auto simp: published_content_versions version_content_def stored_version_def)
  with Cons.IH [OF mid(2)] show ?case by simp
qed simp

text \<open>Only publishing adds a version.\<close>

lemma plan_versions:
  assumes "plan P E now rq db = Inr (cs, r)" and "InsertVersion row \<in> set cs"
  shows "\<exists>q d. rq = Publish q \<and> cs = [InsertVersion row, DeleteDraft d] \<and>
    check_version db (vr_connector row) (vr_version row) = Inr ()"
proof (cases rq)
  case (Publish q)
  with assms(1) obtain row' where "publish_draft P now q db = Inr (cs, row')" by (auto simp: res_simps)
  from publish_Inr [OF this] assms(2) Publish show ?thesis by auto
next
  case (Snap q)
  with assms(1) obtain row' where "create_snapshot P E now q db = Inr (cs, row')" by (auto simp: res_simps)
  from create_snapshot_Inr [OF this] assms(2) show ?thesis by auto
next
  case (Register g)
  with assms show ?thesis
    by (auto simp: res_simps register_connector_def connector_change_def Let_def split: option.splits)
qed (use assms in \<open>auto simp: res_simps update_review_def disable_version_def create_deployment_def
      Let_def split: if_splits\<close>)

lemma ascending_extend:
  assumes "ascending db k" and "check_version db k v = Inr ()" and "published_versions db' k = published_versions db k @ [v]"
  shows "ascending db' k"
proof -
  obtain ps where ps: "rmap parsed (published_versions db k) = Inr ps" "sorted_wrt (\<lambda>a b. compare_precedence a b < 0) ps"
    using assms(1) by (auto simp: ascending_def)
  obtain c where c: "parsed v = Inr c"
    and above: "\<forall>e\<in>set (published_versions db k). \<exists>p. parsed e = Inr p \<and> \<not> compare_precedence c p \<le> 0"
    using assms(2) by (auto simp: check_version_Inr)
  have "\<not> compare_precedence c p \<le> 0" if "p \<in> set ps" for p
    using rmap_Inr_elem [OF ps(1) that] above by auto
  then have "sorted_wrt (\<lambda>a b. compare_precedence a b < 0) (ps @ [c])"
    by (rule precedence.exceeds_extends [OF ps(2)])
  with ps c assms(3) show ?thesis by (auto simp: ascending_def rmap_snoc)
qed

lemma perform_ascending:
  assumes "\<forall>k. ascending db k" and "perform P E now rq db = Inr (db', r)"
  shows "\<forall>k. ascending db' k"
proof
  fix k
  from assms(2) obtain cs where p: "plan P E now rq db = Inr (cs, r)" and c: "commit cs db = Inr db'"
    by (auto simp: perform_def res_simps)
  show "ascending db' k"
  proof (cases "\<exists>row. InsertVersion row \<in> set cs")
    case True
    then obtain row where "InsertVersion row \<in> set cs" by blast
    from plan_versions [OF p this] obtain q d where row: "cs = [InsertVersion row, DeleteDraft d]"
      "check_version db (vr_connector row) (vr_version row) = Inr ()" by (elim exE conjE) (rule that)
    then have new: "published_versions db' k = published_versions db k @ (if vr_connector row = k then [vr_version row] else [])"
      using commit_versions [OF c, of k] by (simp only: row(1)) simp
    show ?thesis
    proof (cases "vr_connector row = k")
      case True
      with assms(1) row(2) new show ?thesis using ascending_extend [of db k "vr_version row" db'] by simp
    next
      case False
      with assms(1) new show ?thesis by (simp add: ascending_def)
    qed
  next
    case False
    then have "concat (map (\<lambda>c. case c of InsertVersion r \<Rightarrow> if vr_connector r = k then [vr_version r] else [] | _ \<Rightarrow> []) cs) = []"
      by (auto split: change.splits)
    with commit_versions [OF c, of k] assms(1) show ?thesis by (simp add: ascending_def)
  qed
qed

lemma perform_all_induct:
  assumes "I db" and "\<And>now rq db db' r. I db \<Longrightarrow> perform P E now rq db = Inr (db', r) \<Longrightarrow> I db'"
  shows "I (perform_all P E rqs db)"
  using assms(1)
proof (induction rqs arbitrary: db)
  case (Cons q rqs)
  then show ?case by (cases q) (auto simp: perform_all_def split: sum.splits intro: assms(2))
qed (simp add: perform_all_def)

lemma perform_all_ascending: "ascending (perform_all P E rqs empty_database) k"
proof -
  have "\<forall>k. ascending (perform_all P E rqs empty_database) k"
    by (rule perform_all_induct [where I = "\<lambda>db. \<forall>k. ascending db k"])
      (use perform_ascending in \<open>auto simp: ascending_def published_versions_def versions_of_def empty_database_def\<close>)
  then show ?thesis by blast
qed

section \<open>The suggested version\<close>

text \<open>The numbers of a version, compared from the left.\<close>

definition core_le :: "contract_version \<Rightarrow> contract_version \<Rightarrow> bool" where
  "core_le a b \<longleftrightarrow>
     major a < major b \<or> major a = major b \<and> (minor a < minor b \<or> minor a = minor b \<and> patch a \<le> patch b)"

lemma core_le_refl: "core_le a a"
  by (simp add: core_le_def)

lemma core_le_trans: "core_le a b \<Longrightarrow> core_le b c \<Longrightarrow> core_le a c"
  by (auto simp: core_le_def)

lemma tuple_less_core:
  "tuple_less a b = Inr True \<Longrightarrow> core_le a b" "tuple_less a b = Inr False \<Longrightarrow> core_le b a"
  by (auto simp: tuple_less_def core_le_def split: if_splits option.splits)

lemma later_Inr [res_simps]:
  "later_version v best = Inr out \<longleftrightarrow>
     (\<exists>p greater. parsed v = Inr p \<and> tuple_less (fst best) p = Inr greater \<and> out = (if greater then (p, v) else best))"
  by (auto simp: later_version_def parsed_def res_simps simp del: parse_version.simps)

lemma later_fold:
  assumes "rfold later_version vs best = Inr out" and "parsed (snd best) = Inr (fst best)"
  shows "parsed (snd out) = Inr (fst out) \<and> core_le (fst best) (fst out) \<and>
    (\<forall>v\<in>set vs. \<exists>p. parsed v = Inr p \<and> core_le p (fst out))"
  using assms
proof (induction vs arbitrary: best)
  case (Cons v vs)
  then obtain p greater where p: "parsed v = Inr p" and g: "tuple_less (fst best) p = Inr greater"
    and rest: "rfold later_version vs (if greater then (p, v) else best) = Inr out"
    by (auto simp: res_simps simp del: split_paired_Ex)
  from Cons.IH [OF rest] Cons.prems(2) p g show ?case
    by (cases greater) (auto dest: tuple_less_core intro: core_le_trans core_le_refl)
qed (simp add: core_le_refl)

lemma highest_version_Inr:
  assumes "highest_version vs = Inr h"
  shows "\<exists>p. parsed h = Inr p \<and> (\<forall>v\<in>set vs. \<exists>q. parsed v = Inr q \<and> core_le q p)"
proof -
  obtain v ws where vs: "vs = v # ws" using assms by (cases vs) auto
  with assms obtain p best where "parsed v = Inr p" "rfold later_version ws (p, v) = Inr best" "h = snd best"
    by (auto simp: parsed_def res_simps)
  with later_fold [of ws "(p, v)" best] show ?thesis by (auto simp: vs)
qed

lemma next_minor_parsed:
  "parsed (string_of_nat a @ ''.'' @ string_of_nat b @ ''.0'') = Inr (ContractVersion a b 0 None)"
proof -
  have "string_of_nat 0 = ''0''" by (subst string_of_nat.simps) code_simp
  then have "version_str (ContractVersion a b 0 None) = string_of_nat a @ ''.'' @ string_of_nat b @ ''.0''"
    by (simp add: version_str_def Let_def)
  then show ?thesis using parse_version_str [of "ContractVersion a b 0 None"] by (simp add: version_ok_def parsed_def)
qed

lemma next_version_exceeds:
  assumes "next_version db k = Inr v"
  shows "check_version db k v = Inr ()"
proof (cases "published_versions db k = []")
  case True
  have "is_ok (parsed ''0.1.0'')" by code_simp
  with True assms show ?thesis by (auto simp: next_version_def check_version_Inr is_ok_iff)
next
  case False
  with assms obtain h p where h: "highest_version (queried_versions db k) = Inr h" "parsed h = Inr p"
    and v: "v = string_of_nat (major p) @ ''.'' @ string_of_nat (minor p + 1) @ ''.0''"
    by (auto simp: next_version_def parsed_def res_simps)
  have "\<not> compare_precedence (ContractVersion (major p) (minor p + 1) 0 None) q \<le> 0" if "core_le q p" for q
    using that by (auto simp: compare_precedence_def core_le_def)
  with highest_version_Inr [OF h(1)] h(2) show ?thesis
    unfolding check_version_Inr v next_minor_parsed by fastforce
qed

text \<open>
  A release and a prerelease of the same numbers cannot be compared as tuples: when both occur and no
  version has higher numbers, the maximum is never reached, in whatever order the versions come.
\<close>

definition at_top :: "contract_version \<Rightarrow> bool \<Rightarrow> contract_version \<Rightarrow> bool" where
  "at_top t released p \<longleftrightarrow> core_le t p \<and> core_le p t \<and> (prerelease p = None \<longleftrightarrow> released)"

lemma at_top_alt:
  "at_top t released p \<longleftrightarrow>
     major p = major t \<and> minor p = minor t \<and> patch p = patch t \<and> (prerelease p = None \<longleftrightarrow> released)"
  by (auto simp: at_top_def core_le_def)

lemma at_top_incomparable:
  assumes "at_top t r p" and "at_top t (\<not> r) q"
  shows "tuple_less p q = Inl TypeError"
  using assms by (cases r) (auto simp: at_top_alt tuple_less_def split: option.splits)

lemma later_version_at_top:
  assumes "tuple_less p q = Inr later" and "core_le p t" and "core_le q t" and "at_top t r p \<or> at_top t r q"
  shows "at_top t r (if later then q else p)"
proof (cases later)
  case True
  with tuple_less_core(1) assms(1) have "core_le p q" by simp
  with True assms at_top_incomparable [of t r p q] show ?thesis
    by (cases "at_top t r q") (auto simp: at_top_def dest: core_le_trans)
next
  case False
  with tuple_less_core(2) assms(1) have "core_le q p" by simp
  with False assms at_top_incomparable [of t "\<not> r" p q] show ?thesis
    by (cases "at_top t r p") (auto simp: at_top_def dest: core_le_trans)
qed

lemma tuple_less_Inl: "tuple_less p q = Inl e \<Longrightarrow> e = TypeError"
  by (auto simp: tuple_less_def split: if_splits option.splits)

lemma later_fold_mixed:
  assumes "\<forall>v\<in>set vs. \<exists>p. parsed v = Inr p \<and> core_le p t" and "core_le (fst best) t"
    and "\<And>r. at_top t r (fst best) \<or> (\<exists>v\<in>set vs. \<exists>p. parsed v = Inr p \<and> at_top t r p)"
  shows "rfold later_version vs best = Inl TypeError"
  using assms
proof (induction vs arbitrary: best)
  case Nil
  from Nil(3) [of True] Nil(3) [of False] show ?case by (simp add: at_top_def)
next
  case (Cons v vs)
  then obtain p where p: "parsed v = Inr p" "core_le p t" by auto
  show ?case
  proof (cases "tuple_less (fst best) p")
    case (Inl e)
    with p(1) tuple_less_Inl [OF Inl] show ?thesis by (simp add: later_version_def parsed_def del: parse_version.simps)
  next
    case (Inr later)
    let ?next = "if later then (p, v) else best"
    have top: "at_top t r (fst ?next) \<or> (\<exists>v\<in>set vs. \<exists>p. parsed v = Inr p \<and> at_top t r p)" for r
      using Cons.prems(3) [of r] p later_version_at_top [OF Inr Cons.prems(2) p(2), of r] by (auto split: if_splits)
    have "later_version v best = Inr ?next"
      using p(1) Inr by (auto simp: later_version_def parsed_def simp del: parse_version.simps)
    moreover have "rfold later_version vs ?next = Inl TypeError"
      by (rule Cons.IH [OF _ _ top]) (use Cons.prems(1,2) p(2) in auto)
    ultimately show ?thesis by simp
  qed
qed

lemma highest_version_mixed:
  assumes "\<forall>v\<in>set vs. \<exists>p. parsed v = Inr p \<and> core_le p t"
    and "\<And>r. \<exists>v\<in>set vs. \<exists>p. parsed v = Inr p \<and> at_top t r p"
  shows "highest_version vs = Inl TypeError"
proof (cases vs)
  case (Cons v ws)
  with assms(1) obtain p where p: "parsed v = Inr p" "core_le p t" by auto
  have "at_top t r p \<or> (\<exists>v\<in>set ws. \<exists>p. parsed v = Inr p \<and> at_top t r p)" for r
    using assms(2) [of r] Cons p(1) by auto
  then have "rfold later_version ws (p, v) = Inl TypeError"
    by (intro later_fold_mixed [where t = t]) (use assms(1) Cons p(2) in simp_all)
  with Cons p(1) show ?thesis by (simp add: parsed_def del: parse_version.simps)
qed (use assms(2) in simp)

section \<open>Drafts\<close>

text \<open>One draft per connector, and no two drafts with one id: whatever is written, at any time.\<close>

definition drafts_ok :: "database \<Rightarrow> bool" where
  "drafts_ok db \<longleftrightarrow> distinct (map dr_id (db_drafts db)) \<and> distinct (map dr_connector (db_drafts db))"

lemma fresh_id_new: "fresh_id ids \<notin> set ids"
proof
  assume new: "fresh_id ids \<in> set ids"
  then have "fresh_id ids \<le> Max (set ids)" by simp
  moreover from new have "ids \<noteq> []" by auto
  then have "fresh_id ids = Suc (Max (set ids))" by (simp add: fresh_id_def)
  ultimately show False by linarith
qed

lemma distinct_map_filter_keys: "distinct (map f xs) \<Longrightarrow> distinct (map f (filter p xs))"
  by (simp add: distinct_map_filter)

lemma apply_change_drafts:
  assumes "drafts_ok db" and "apply_change c db = Inr db'"
  shows "drafts_ok db'"
proof (cases c)
  case (InsertDraft r)
  with assms fresh_id_new [of "map dr_id (db_drafts db)"] show ?thesis
    by (auto simp: drafts_ok_def res_simps stored_draft_def)
next
  case (UpdateDraft old new)
  with assms(2) have db': "db' = db\<lparr>db_drafts :=
      map (\<lambda>r. if dr_id r = dr_id old then update_draft_row old new r else r) (db_drafts db)\<rparr>"
    by (auto simp: res_simps)
  have "map dr_id (db_drafts db') = map dr_id (db_drafts db)" "map dr_connector (db_drafts db') = map dr_connector (db_drafts db)"
    by (simp_all add: db' update_draft_row_def)
  with assms(1) show ?thesis by (simp only: drafts_ok_def)
next
  case (DeleteDraft i)
  with assms show ?thesis by (auto simp: drafts_ok_def intro: distinct_map_filter_keys)
qed (use assms in \<open>auto simp: drafts_ok_def res_simps\<close>)

lemma commit_drafts: "drafts_ok db \<Longrightarrow> commit cs db = Inr db' \<Longrightarrow> drafts_ok db'"
  by (induction cs arbitrary: db) (auto simp: commit_Cons res_simps intro: apply_change_drafts)

lemma first_match_unique:
  "distinct (map f xs) \<Longrightarrow> x \<in> set xs \<Longrightarrow> first_match (\<lambda>y. f y = f x) xs = Some x"
  by (induction xs) (auto simp: image_iff)

lemma get_draft_iff:
  assumes "drafts_ok db"
  shows "get_draft db k = Inr d \<longleftrightarrow> is_ok (get_connector db k) \<and> d \<in> set (db_drafts db) \<and> dr_connector d = k"
proof
  assume "get_draft db k = Inr d"
  with get_draft_Inr [OF this] show "is_ok (get_connector db k) \<and> d \<in> set (db_drafts db) \<and> dr_connector d = k"
    by (auto simp: get_draft_def res_simps is_ok_iff)
next
  assume d: "is_ok (get_connector db k) \<and> d \<in> set (db_drafts db) \<and> dr_connector d = k"
  then obtain c where c: "get_connector db k = Inr c" "cr_key c = k" by (auto simp: is_ok_iff dest: get_connector_Inr)
  with assms d first_match_unique [of dr_connector "db_drafts db" d] show "get_draft db k = Inr d"
    by (simp add: get_draft_def find_draft_def drafts_ok_def)
qed

text \<open>An accepted review writes the draft it read, one revision later.\<close>

lemma update_review_Inr:
  assumes "update_review P now u db = Inr (cs, new)"
  shows "\<exists>d. get_draft db (du_connector_key u) = Inr d \<and> cs = [UpdateDraft d new] \<and> dr_revision d = du_expected_revision u \<and>
    dr_id new = dr_id d \<and> dr_connector new = dr_connector d \<and> dr_revision new = du_expected_revision u + 1"
  using assms by (auto simp: update_review_def Let_def res_simps split: if_splits)

lemma commit_review:
  assumes "drafts_ok db" and "d \<in> set (db_drafts db)" and "commit [UpdateDraft old new] db = Inr db'" and "dr_id old = dr_id d"
  shows "update_draft_row old new d \<in> set (db_drafts db') \<and> db_connectors db' = db_connectors db"
  using assms by (auto simp: commit_Cons res_simps)

lemma update_draft_row_connector [simp]:
  "dr_connector (update_draft_row old new d) = dr_connector d" "dr_id (update_draft_row old new d) = dr_id d"
  by (simp_all add: update_draft_row_def)

lemma reviewed_draft:
  assumes "drafts_ok db" and "plan P E now (Review u) db = Inr (cs, r)" and "commit cs db = Inr db'"
  shows "\<exists>d new. r = DraftReply new \<and> get_draft db (du_connector_key u) = Inr d \<and> cs = [UpdateDraft d new] \<and>
    dr_revision d = du_expected_revision u \<and> dr_revision new = du_expected_revision u + 1 \<and> dr_id new = dr_id d \<and>
    get_draft db' (du_connector_key u) = Inr (update_draft_row d new d)"
proof -
  from assms(2) obtain new where u: "update_review P now u db = Inr (cs, new)" "r = DraftReply new"
    by (auto simp: res_simps)
  from update_review_Inr [OF u(1)] obtain d where d: "get_draft db (du_connector_key u) = Inr d" "cs = [UpdateDraft d new]"
    "dr_revision d = du_expected_revision u" "dr_revision new = du_expected_revision u + 1" "dr_id new = dr_id d" by blast
  have "get_draft db' (du_connector_key u) = Inr (update_draft_row d new d)"
    using commit_review [OF assms(1) _ assms(3) [unfolded d(2)]] d(1)
      get_draft_iff [OF commit_drafts [OF assms(1,3)]] get_draft_iff [OF assms(1)]
    by (auto simp: is_ok_iff get_connector_def find_connector_def)
  with u d show ?thesis by blast
qed

lemma snapshot_revisions_are_gapless_of:
  assumes "sys_run P E start_system s"
  shows "map sr_revision (snapshots_of (sys_db s) k) = [1..<Suc (length (snapshots_of (sys_db s) k))] \<and>
    filter sr_active (snapshots_of (sys_db s) k) =
      (if snapshots_of (sys_db s) k = [] then [] else [last (snapshots_of (sys_db s) k)]) \<and>
    active_snapshot (sys_db s) k =
      (if snapshots_of (sys_db s) k = [] then None else Some (last (snapshots_of (sys_db s) k)))"
proof -
  let ?rows = "snapshots_of (sys_db s) k"
  have g: "gapless ?rows" using system_orderly_run [OF assms] by (simp add: system_orderly_def)
  have "active_snapshot (sys_db s) k = (if ?rows = [] then None else Some (last ?rows))"
  proof (cases ?rows rule: rev_cases)
    case (snoc init r)
    with g have "sr_active r" by (auto simp: gapless_def dest!: spec [of _ "length init"])
    with snoc show ?thesis by (simp add: active_snapshot_def snapshot_rows_def gapless_sorted [OF g [unfolded snoc]])
  qed (simp add: active_snapshot_def snapshot_rows_def)
  with gapless_revisions [OF g] gapless_active [OF g] show ?thesis by simp
qed

text \<open>What a registration leaves behind.\<close>

lemma update_connector_keys:
  "cr_key ` set (map (\<lambda>r. if p r then update_connector_row old new r else r) rows) = cr_key ` set rows"
  by (induction rows) (simp_all add: update_connector_row_def)

lemma apply_change_connectors:
  "apply_change c db = Inr db' \<Longrightarrow> cr_key ` set (db_connectors db) \<subseteq> cr_key ` set (db_connectors db')"
  by (cases c) (auto simp: res_simps update_connector_keys simp del: set_map)

lemma commit_connectors:
  "commit cs db = Inr db' \<Longrightarrow> cr_key ` set (db_connectors db) \<subseteq> cr_key ` set (db_connectors db')"
proof (induction cs arbitrary: db)
  case (Cons c cs)
  then obtain mid where "apply_change c db = Inr mid" "commit cs mid = Inr db'" by (auto simp: commit_Cons res_simps)
  with Cons.IH [of mid] apply_change_connectors [of c db mid] show ?case by blast
qed simp

lemma get_connector_ok: "is_ok (get_connector db k) \<longleftrightarrow> k \<in> cr_key ` set (db_connectors db)"
  by (auto simp: get_connector_def find_connector_def is_ok_iff first_match_None dest: first_match_Some split: option.splits)

lemma connector_change_key:
  "apply_change (connector_change db now g ar) db = Inr db' \<Longrightarrow> rg_connector_key g \<in> cr_key ` set (db_connectors db')"
  by (auto simp: connector_change_def find_connector_def res_simps stored_connector_def update_connector_keys
      simp del: set_map dest!: first_match_Some split: option.splits) (metis image_eqI)

lemma registered_draft:
  assumes "drafts_ok db" and "perform P E now (Register g) db = Inr (db', r)"
  obtains d st where "get_draft db' (rg_connector_key g) = Inr d" and "dr_revision d = 1"
    and "dr_review d = state_to_dict st" and "json_storable (JObj (dr_review d))"
proof -
  from assms(2) obtain loaded ar st v old where
    c: "commit (connector_change db now g ar # old @ [InsertDraft (new_draft now g loaded ar st v)]) db = Inr db'"
    by (auto simp: perform_def res_simps register_connector_def Let_def)
  let ?d = "\<lambda>mid. stored_draft (fresh_id (map dr_id (db_drafts mid))) (new_draft now g loaded ar st v)"
  from c obtain m1 m2 where m: "apply_change (connector_change db now g ar) db = Inr m1" "commit old m1 = Inr m2"
    "apply_change (InsertDraft (new_draft now g loaded ar st v)) m2 = Inr db'"
    by (auto simp: commit_def rfold_append res_simps)
  then have db': "db' = m2\<lparr>db_drafts := db_drafts m2 @ [?d m2]\<rparr>" "json_storable (JObj (state_to_dict st))"
    by (auto simp: res_simps json_column_def new_draft_def split: if_splits)
  have "is_ok (get_connector db' (rg_connector_key g))"
    unfolding get_connector_ok using connector_change_key [OF m(1)] commit_connectors [OF m(2)] by (auto simp: db')
  then have "get_draft db' (rg_connector_key g) = Inr (?d m2)"
    using get_draft_iff [OF commit_drafts [OF assms(1) c]] by (simp add: db' stored_draft_def new_draft_def)
  then show thesis by (rule that) (use db'(2) in \<open>simp_all add: stored_draft_def new_draft_def\<close>)
qed

section \<open>Properties\<close>

text \<open>
  C10: Published artifacts are append-only under every interleaving of transactions: a version or
  snapshot that was stored once keeps its place, and everything but the availability of a version and the
  activity of a snapshot, in every later state.
\<close>

theorem artifacts_are_append_only:
  assumes "sys_run P E s s'"
  shows "prefix (published_content (sys_db s)) (published_content (sys_db s')) \<and>
    prefix (snapshot_contents (sys_db s)) (snapshot_contents (sys_db s'))"
  using versions.run_extends [OF assms] snapshots.run_extends [OF assms] by blast

text \<open>
  C9: Every artifact of a reachable state is genuine: no two rows share a connector and version or a snapshot
  id; the document of a published version satisfies the contract, names its connector and version and
  has the stored digest; the document of a snapshot is valid, its id and digest are those of its content, and
  the connectors it embeds are documents of published versions.
\<close>

theorem reachable_artifacts_are_genuine:
  assumes "sys_run P E start_system s"
  shows "distinct (map (\<lambda>r. (vr_connector r, vr_version r)) (db_versions (sys_db s))) \<and>
    distinct (map sr_snapshot_id (db_snapshots (sys_db s))) \<and>
    (\<forall>r\<in>set (db_versions (sys_db s)). genuine_version P r) \<and>
    (\<forall>r\<in>set (db_snapshots (sys_db s)). genuine_snapshot P (db_versions (sys_db s)) r)"
  using system_genuine_run [OF assms] by (simp add: system_genuine_def artifacts_genuine_def list_all_iff)

text \<open>
  C11: Under every interleaving the snapshots of a deployment have the revisions 1 to n, without a gap or a
  repetition, and exactly the last one is active: it is the one the internal API serves.
\<close>

theorem snapshot_revisions_are_gapless:
  assumes "sys_run P E start_system s"
  shows "map sr_revision (snapshots_of (sys_db s) k) = [1..<Suc (length (snapshots_of (sys_db s) k))] \<and>
    filter sr_active (snapshots_of (sys_db s) k) =
      (if snapshots_of (sys_db s) k = [] then [] else [last (snapshots_of (sys_db s) k)]) \<and>
    active_snapshot (sys_db s) k =
      (if snapshots_of (sys_db s) k = [] then None else Some (last (snapshots_of (sys_db s) k)))"
  using snapshot_revisions_are_gapless_of [OF assms] .

text \<open>
  When requests are served one after the other, the versions of a connector are published in strictly
  increasing order, so no version is published twice and the last is the greatest.
\<close>

theorem serial_versions_increase:
  "\<exists>ps. rmap (\<lambda>v. parse_version (JStr v)) (published_versions (perform_all P E rqs empty_database) k) = Inr ps \<and>
     sorted_wrt (\<lambda>a b. compare_precedence a b < 0) ps \<and> distinct ps"
  using perform_all_ascending [of P E rqs k] precedence.history_distinct by (auto simp: ascending_def parsed_def [abs_def])

text \<open>
  C12: A review that was accepted uses up the revision it read: whoever repeats that revision is refused with
  a conflict, for a review as well as for a publication, and the stored draft is one revision later.
\<close>

theorem used_revision_is_refused:
  assumes "drafts_ok db" and "perform P E now (Review u) db = Inr (db', r)"
    and "du_connector_key u' = du_connector_key u" and "du_expected_revision u' = du_expected_revision u"
    and "pq_connector_key q = du_connector_key u" and "pq_expected_revision q = du_expected_revision u"
  shows "perform P E now' (Review u') db' = Inl revision_conflict \<and> perform P E now' (Publish q) db' = Inl revision_conflict \<and>
    (\<exists>d. get_draft db' (du_connector_key u) = Inr d \<and> dr_revision d = du_expected_revision u + 1)"
proof -
  from assms(2) obtain cs where "plan P E now (Review u) db = Inr (cs, r)" "commit cs db = Inr db'"
    by (auto simp: perform_def res_simps simp del: plan.simps)
  from reviewed_draft [OF assms(1) this] obtain d new where
    d: "get_draft db' (du_connector_key u) = Inr (update_draft_row d new d)" "dr_revision d = du_expected_revision u"
      "dr_revision new = du_expected_revision u + 1" by blast
  then have r: "dr_revision (update_draft_row d new d) = du_expected_revision u + 1"
    by (simp add: update_draft_row_def changed_def)
  have "is_ok (get_connector db' (du_connector_key u))"
    using d(1) by (auto simp: get_draft_def res_simps is_ok_iff)
  then show ?thesis
    using d(1) r assms(3-6)
    by (auto simp: perform_def with_reply_def update_review_def publish_draft_def is_ok_iff)
qed

text \<open>
  C22: The version the service suggests is one it accepts: whenever a registration that names no version
  gets a suggestion, the suggestion parses and exceeds everything published.
\<close>

theorem suggested_version_is_accepted:
  assumes "next_version db k = Inr v"
  shows "check_version db k v = Inr ()"
  using assms by (rule next_version_exceeds)

text \<open>
  C21: The suggestion fails while the highest published numbers are those of a prerelease and of a release: then
  the maximum of the parsed versions raises, in whatever order the database returns them, and a registration
  that names no version cannot succeed. The numbers have to be the highest: a version with higher numbers
  may be met first, and then no comparison of the two takes place.
\<close>

theorem prerelease_breaks_suggestion:
  assumes "\<forall>u\<in>set (published_versions db (rg_connector_key g)).
      \<exists>p. parse_version (JStr u) = Inr p \<and> core_le p (ContractVersion a b c None)"
    and "v \<in> set (published_versions db (rg_connector_key g))"
    and "parse_version (JStr v) = Inr (ContractVersion a b c (Some pre))"
    and "w \<in> set (published_versions db (rg_connector_key g))"
    and "parse_version (JStr w) = Inr (ContractVersion a b c None)"
    and "rg_proposed_version g = None"
    and "load_document P (env_parsers E) (register_limits E) (rg_source_bytes g) (rg_source_filename g) = Inr loaded"
    and "analyze_document P default_source_limits loaded (rg_base_url g) = Inr ar"
  shows "(\<forall>vs. set vs = set (published_versions db (rg_connector_key g)) \<longrightarrow> highest_version vs = Inl TypeError) \<and>
    perform P E now (Register g) db = Inl TypeError"
proof -
  let ?t = "ContractVersion a b c None"
  have both: "\<exists>u\<in>set (published_versions db (rg_connector_key g)). \<exists>p. parsed u = Inr p \<and> at_top ?t r p" for r
    by (cases r) (use assms(2-5) in \<open>auto simp: parsed_def at_top_alt simp del: parse_version.simps intro!: bexI\<close>)
  have high: "highest_version vs = Inl TypeError" if "set vs = set (published_versions db (rg_connector_key g))" for vs
    by (rule highest_version_mixed [where t = ?t]) (use both assms(1) that in \<open>simp_all add: parsed_def del: parse_version.simps\<close>)
  have "published_versions db (rg_connector_key g) \<noteq> []" using assms(2) by auto
  with high [of "queried_versions db (rg_connector_key g)"]
  have "next_version db (rg_connector_key g) = Inl TypeError" by (simp add: next_version_def)
  with assms(6-8) have "perform P E now (Register g) db = Inl TypeError"
    by (simp add: perform_def with_reply_def register_connector_def chosen_version_def)
  with high show ?thesis by blast
qed

text \<open>
  C20: The check of the expected revision does not serialize: two reviews of the same draft that both read it
  before either writes are both accepted, the draft advances by one revision only, and what the second
  writes replaces what the first wrote.
\<close>

theorem overlapping_reviews_overwrite:
  assumes "drafts_ok db"
    and "plan P E now (Review u) db = Inr (cs, DraftReply r)" and "plan P E now' (Review u') db = Inr (cs', DraftReply r')"
    and "du_connector_key u' = du_connector_key u" and "commit cs db = Inr mid"
    and "json_storable (JObj (dr_review r'))"
    and "get_draft db (du_connector_key u) = Inr d" and "\<not> py_eq (JObj (dr_review r')) (JObj (dr_review d))"
  shows "\<exists>db' d'. commit cs' mid = Inr db' \<and> get_draft db' (du_connector_key u) = Inr d' \<and>
    dr_revision d' = dr_revision d + 1 \<and> dr_review d' = dr_review r'"
proof -
  from reviewed_draft [OF assms(1,2,5)] assms(7) obtain new where one: "cs = [UpdateDraft d new]"
    "get_draft mid (du_connector_key u) = Inr (update_draft_row d new d)" "dr_revision d = du_expected_revision u"
    "dr_revision new = du_expected_revision u + 1" by auto
  from assms(3) obtain new' where "update_review P now' u' db = Inr (cs', new')" "r' = new'" by (auto simp: res_simps)
  with update_review_Inr [of P now' u' db cs' new'] assms(4,7)
  have two: "cs' = [UpdateDraft d r']" "dr_revision r' = dr_revision d + 1" "dr_id r' = dr_id d" by auto
  note ok = commit_drafts [OF assms(1,5)]
  have mem: "update_draft_row d new d \<in> set (db_drafts mid)" "dr_connector d = du_connector_key u"
    "is_ok (get_connector mid (du_connector_key u))"
    using one(2) get_draft_iff [OF ok] by auto
  have "\<exists>x\<in>set (db_drafts mid). dr_id x = dr_id d" by (rule bexI [OF _ mem(1)]) simp
  with assms(6) obtain db' where db': "commit cs' mid = Inr db'" by (auto simp: two commit_Cons res_simps json_column_def)
  have "get_draft db' (du_connector_key u) = Inr (update_draft_row d r' (update_draft_row d new d))"
    using commit_review [OF ok mem(1) db' [unfolded two]] mem(2,3) get_draft_iff [OF commit_drafts [OF ok db']]
    by (auto simp: is_ok_iff get_connector_def find_connector_def)
  with db' assms(8) two show ?thesis by (auto simp: update_draft_row_def changed_def)
qed

text \<open>
  Registering a connector again starts its draft at revision 1, whatever revision it had: a client that
  read revision 1 of the replaced draft is not refused, and its change is applied to the new draft.
\<close>

theorem registering_again_resets_revision:
  assumes "drafts_ok db" and "perform P E now (Register g) db = Inr (db', r)"
    and "du_connector_key u = rg_connector_key g" and "du_expected_revision u = 1" and "du_updates u = []"
    and "du_proposed_version u = None"
  shows "\<exists>d db'' d'. get_draft db' (rg_connector_key g) = Inr d \<and> dr_revision d = 1 \<and>
    perform P E now' (Review u) db' = Inr (db'', DraftReply d') \<and> dr_revision d' = 2"
proof -
  obtain d st where d: "get_draft db' (rg_connector_key g) = Inr d" "dr_revision d = 1" "dr_review d = state_to_dict st"
    "json_storable (JObj (dr_review d))"
    by (rule registered_draft [OF assms(1,2)])
  let ?new = "d\<lparr>dr_review := state_to_dict st, dr_proposed_version := dr_proposed_version d,
      dr_base_url := (case du_base_url u of None \<Rightarrow> dr_base_url d | Some b \<Rightarrow> Some b),
      dr_auth_profile_ref := (case du_auth_profile_ref u of None \<Rightarrow> dr_auth_profile_ref d
        | Some a \<Rightarrow> if a = [] then None else Some a), dr_revision := 2, dr_updated := now'\<rparr>"
  have new: "update_review P now' u db' = Inr ([UpdateDraft d ?new], ?new)"
    using d assms(3-6) by (simp add: update_review_def state_roundtrip proposed_or_kept_def Let_def)
  have "d \<in> set (db_drafts db')" using get_draft_Inr [OF d(1)] by blast
  then have "is_ok (commit [UpdateDraft d ?new] db')"
    using d(3,4) by (auto simp: commit_Cons json_column_def update_where_def list_ex_iff)
  then obtain db'' where "flush (Review u) [UpdateDraft d ?new] db' = Inr db''" by (auto simp: is_ok_iff res_simps)
  then have "perform P E now' (Review u) db' = Inr (db'', DraftReply ?new)"
    by (simp add: perform_def with_reply_def new)
  with d show ?thesis by (intro exI [of _ d] exI [of _ db''] exI [of _ ?new]) simp
qed

section \<open>Examples\<close>

text \<open>The service on the example document: registered, reviewed, published, disabled, deployed.\<close>

definition example_env :: service_env where
  "example_env =
     \<lparr>env_parsers = sample_parsers\<lparr>json_tree := (\<lambda>t. Some (JObj (doc_content Analyzer.example_document)))\<rparr>,
      env_max_source_bytes = 100, env_signing_key = Some example_key\<rparr>"

definition example_registration :: registration where
  "example_registration =
     \<lparr>rg_connector_key = ''tickets'', rg_display_name = Some ''Tickets'', rg_summary = Some ''Ticket API'',
      rg_source_bytes = ''{}'', rg_source_filename = ''a.json'', rg_proposed_version = None,
      rg_base_url = Some ''https://api.example.org'', rg_auth_profile_ref = None\<rparr>"

definition example_clock :: datetime where
  "example_clock = example_time\<lparr>dt_aware := True\<rparr>"

definition example_decisions :: draft_update where
  "example_decisions =
     \<lparr>du_connector_key = ''tickets'', du_expected_revision = 1, du_updates = [example_update],
      du_proposed_version = None, du_base_url = None, du_auth_profile_ref = None\<rparr>"

definition example_publish :: publish_request where
  "example_publish =
     \<lparr>pq_connector_key = ''tickets'', pq_expected_revision = 2, pq_published_by = ''admin'', pq_version = None\<rparr>"

definition example_selection :: snapshot_request where
  "example_selection = \<lparr>sq_deployment_key = ''demo'', sq_selections = [], sq_created_by = ''admin''\<rparr>"

definition served :: "platform \<Rightarrow> request \<Rightarrow> database \<Rightarrow> database" where
  "served P rq db =
     (case perform P example_env example_clock rq db of Inl e \<Rightarrow> db | Inr (db', r) \<Rightarrow> db')"

lemma served_Inr:
  assumes "is_ok (perform P example_env example_clock rq db)"
  obtains r where "perform P example_env example_clock rq db = Inr (served P rq db, r)"
  using assms by (auto simp: is_ok_iff served_def)

lemma perform_run:
  assumes "perform P E now rq (sys_db s) = Inr (db', r)"
  shows "sys_run P E s (s\<lparr>sys_db := db'\<rparr>)"
proof -
  from assms obtain cs where p: "plan P E now rq (sys_db s) = Inr (cs, r)" and f: "flush rq cs (sys_db s) = Inr db'"
    by (auto simp: perform_def rbind_eq_Inr)
  let ?mid = "s\<lparr>sys_open := (rq, cs) # sys_open s\<rparr>"
  have "sys_step P E s ?mid" by (rule step_read [OF p])
  moreover have "sys_step P E ?mid \<lparr>sys_db = db', sys_open = remove1 (rq, cs) (sys_open ?mid)\<rparr>"
    by (rule step_commit) (simp_all add: f)
  moreover have "\<lparr>sys_db = db', sys_open = remove1 (rq, cs) (sys_open ?mid)\<rparr> = s\<lparr>sys_db := db'\<rparr>" by simp
  ultimately show ?thesis by (metis rtranclp.rtrancl_refl rtranclp.rtrancl_into_rtrancl)
qed

lemma perform_idle_run:
  assumes "perform P E now rq db = Inr (db', r)"
  shows "sys_run P E \<lparr>sys_db = db, sys_open = []\<rparr> \<lparr>sys_db = db', sys_open = []\<rparr>"
  using perform_run [where s = "\<lparr>sys_db = db, sys_open = []\<rparr>"] assms by force

lemma served_run:
  assumes "is_ok (perform P example_env example_clock rq db)"
  shows "sys_run P example_env \<lparr>sys_db = db, sys_open = []\<rparr> \<lparr>sys_db = served P rq db, sys_open = []\<rparr>"
  by (rule served_Inr [OF assms]) (rule perform_idle_run)

definition example_drafted :: database where
  "example_drafted = served sample_platform (Register example_registration) empty_database"

definition example_reviewed :: database where
  "example_reviewed = served sample_platform (Review example_decisions) example_drafted"

definition example_published :: database where
  "example_published = served sample_platform (Publish example_publish) example_reviewed"

text \<open>A second reviewer, who read the same revision.\<close>

definition example_rival :: draft_update where
  "example_rival = example_decisions\<lparr>du_updates := [example_update\<lparr>up_description := Some ''List all tickets.''\<rparr>]\<rparr>"

fun ended :: "(database \<times> reply) res \<Rightarrow> (database \<Rightarrow> bool) \<Rightarrow> bool" where
  "ended (Inl e) ok = False"
| "ended (Inr (db, r)) ok = ok db"

fun planned :: "(change list \<times> reply) res \<Rightarrow> (change list \<Rightarrow> draft_row \<Rightarrow> bool) \<Rightarrow> bool" where
  "planned (Inr (cs, DraftReply r)) ok = ok cs r"
| "planned m ok = False"

lemma ended_iff: "ended m ok \<longleftrightarrow> (\<exists>db r. m = Inr (db, r) \<and> ok db)"
  by (cases "(m, ok)" rule: ended.cases) auto

lemma planned_iff: "planned m ok \<longleftrightarrow> (\<exists>cs r. m = Inr (cs, DraftReply r) \<and> ok cs r)"
  by (cases "(m, ok)" rule: planned.cases) auto

text \<open>The run, evaluated once.\<close>

lemma example_run:
  "ended (perform sample_platform example_env example_clock (Register example_registration) empty_database) (\<lambda>d1.
     drafts_ok d1 \<and> map dr_revision (db_drafts d1) = [1] \<and>
     planned (plan sample_platform example_env example_clock (Review example_rival) d1) (\<lambda>cs' r'.
       json_storable (JObj (dr_review r')) \<and>
       (case get_draft d1 ''tickets'' of Inl e \<Rightarrow> False
        | Inr d \<Rightarrow> \<not> py_eq (JObj (dr_review r')) (JObj (dr_review d)))) \<and>
     planned (plan sample_platform example_env example_clock (Review example_decisions) d1) (\<lambda>cs r.
       is_ok (commit cs d1)) \<and>
     ended (perform sample_platform example_env example_clock (Review example_decisions) d1) (\<lambda>d2.
       drafts_ok d2 \<and> ended (perform sample_platform example_env example_clock (Register example_registration) d2) (\<lambda>d. True) \<and>
       ended (perform sample_platform example_env example_clock (Publish example_publish) d2) (\<lambda>d3.
         map vr_version (db_versions d3) = [''0.1.0''] \<and> map vr_disabled (db_versions d3) = [False] \<and>
         next_version d3 ''tickets'' = Inr ''0.2.0'' \<and>
         ended (perform sample_platform example_env example_clock (Disable ''tickets'' ''0.1.0'' ''obsolete'') d3) (\<lambda>d4.
           map vr_disabled (db_versions d4) = [True]))))"
  by code_simp

lemma ended_served: "ended (perform P example_env example_clock rq db) ok \<Longrightarrow>
    (\<exists>r. perform P example_env example_clock rq db = Inr (served P rq db, r)) \<and> ok (served P rq db)"
  by (auto simp: ended_iff served_def)

lemma example_register_ok:
  "is_ok (perform sample_platform example_env example_clock (Register example_registration) empty_database)"
  using example_run by (auto simp: ended_iff is_ok_iff)

lemma example_drafted_facts:
  "drafts_ok example_drafted" (is ?A)
  "ended (perform sample_platform example_env example_clock (Review example_decisions) example_drafted) (\<lambda>d. True)" (is ?B)
  "planned (plan sample_platform example_env example_clock (Review example_rival) example_drafted) (\<lambda>cs' r'.
       json_storable (JObj (dr_review r')) \<and>
       (case get_draft example_drafted ''tickets'' of Inl e \<Rightarrow> False
        | Inr d \<Rightarrow> \<not> py_eq (JObj (dr_review r')) (JObj (dr_review d))))" (is ?C)
  "planned (plan sample_platform example_env example_clock (Review example_decisions) example_drafted) (\<lambda>cs r.
       is_ok (commit cs example_drafted))" (is ?D)
proof -
  have "?A \<and> ?B \<and> ?C \<and> ?D"
    using ended_served [OF example_run] unfolding example_drafted_def [symmetric] by (simp only: ended_iff) blast
  then show ?A ?B ?C ?D by blast+
qed

lemma example_reviewed_facts:
  "drafts_ok example_reviewed" (is ?A)
  "ended (perform sample_platform example_env example_clock (Register example_registration) example_reviewed) (\<lambda>d. True)" (is ?B)
  "ended (perform sample_platform example_env example_clock (Publish example_publish) example_reviewed) (\<lambda>d3.
     map vr_version (db_versions d3) = [''0.1.0''] \<and> map vr_disabled (db_versions d3) = [False] \<and>
     next_version d3 ''tickets'' = Inr ''0.2.0'' \<and>
     ended (perform sample_platform example_env example_clock (Disable ''tickets'' ''0.1.0'' ''obsolete'') d3) (\<lambda>d4.
       map vr_disabled (db_versions d4) = [True]))" (is ?C)
proof -
  note d1 = ended_served [OF example_run, folded example_drafted_def, THEN conjunct2]
  note d2 = ended_served [OF d1 [THEN conjunct2, THEN conjunct2, THEN conjunct2, THEN conjunct2], folded example_reviewed_def,
      THEN conjunct2]
  then show ?A ?B ?C by blast+
qed

lemma example_published_facts:
  "map vr_version (db_versions example_published) = [''0.1.0'']"
  "next_version example_published ''tickets'' = Inr ''0.2.0''"
  "is_ok (perform sample_platform example_env example_clock (Disable ''tickets'' ''0.1.0'' ''obsolete'') example_published)"
  using ended_served [OF example_reviewed_facts(3), folded example_published_def]
  by (auto simp: ended_iff is_ok_iff)

lemma example_published_run:
  "sys_run sample_platform example_env start_system \<lparr>sys_db = example_published, sys_open = []\<rparr>"
proof -
  have "is_ok (perform sample_platform example_env example_clock (Review example_decisions) example_drafted)"
    "is_ok (perform sample_platform example_env example_clock (Publish example_publish) example_reviewed)"
    using example_drafted_facts(2) example_reviewed_facts(3) by (auto simp: ended_iff is_ok_iff)
  then show ?thesis
    unfolding start_system_def example_published_def
    using served_run [OF example_register_ok]
      served_run [of sample_platform "Review example_decisions" example_drafted]
      served_run [of sample_platform "Publish example_publish" example_reviewed]
    by (simp add: example_drafted_def example_reviewed_def)
qed

lemma artifacts_are_append_only_witness:
  "\<exists>s s'. map vr_version (published_content (sys_db s)) = [''0.1.0''] \<and>
     prefix (published_content (sys_db s)) (published_content (sys_db s'))"
proof -
  have run: "sys_run sample_platform example_env \<lparr>sys_db = example_published, sys_open = []\<rparr>
      \<lparr>sys_db = served sample_platform (Disable ''tickets'' ''0.1.0'' ''obsolete'') example_published, sys_open = []\<rparr>"
    by (rule served_run) (rule example_published_facts(3))
  have "map vr_version (published_content example_published) = map vr_version (db_versions example_published)"
    by (simp add: published_content_def version_content_def)
  with artifacts_are_append_only [OF run] example_published_facts show ?thesis
    by (metis system.select_convs(1))
qed

lemma reachable_artifacts_are_genuine_witness:
  "map vr_version (db_versions example_published) = [''0.1.0''] \<and>
   list_all (genuine_version sample_platform) (db_versions example_published)"
  using reachable_artifacts_are_genuine [OF example_published_run] example_published_facts by (simp add: list_all_iff)

lemma used_revision_is_refused_witness:
  "perform sample_platform example_env example_clock (Review example_rival) example_reviewed = Inl revision_conflict"
proof -
  obtain r where "perform sample_platform example_env example_clock (Review example_decisions) example_drafted =
      Inr (example_reviewed, r)"
    using ended_served [OF example_drafted_facts(2)] by (auto simp: example_reviewed_def)
  from used_revision_is_refused [OF _ this, of example_rival "\<lparr>pq_connector_key = ''tickets'', pq_expected_revision = 1,
      pq_published_by = [], pq_version = None\<rparr>"] example_drafted_facts
  show ?thesis by (simp add: example_rival_def example_decisions_def)
qed

lemma suggested_version_is_accepted_witness:
  "next_version example_published ''tickets'' = Inr ''0.2.0'' \<and> check_version example_published ''tickets'' ''0.2.0'' = Inr ()"
  using suggested_version_is_accepted [of example_published "''tickets''" "''0.2.0''"] example_published_facts by simp

lemma prerelease_breaks_suggestion_witness:
  "\<exists>db. published_versions db ''tickets'' = [''0.9.0'', ''1.0.0-rc.1'', ''1.0.0''] \<and>
     perform sample_platform example_env example_clock (Register example_registration) db = Inl TypeError"
proof -
  let ?row = "\<lambda>v. \<lparr>vr_connector = ''tickets'', vr_version = v, vr_document = [], vr_digest = [], vr_source_digest = [],
      vr_analyzer_version = [], vr_tool_count = 0, vr_published = example_clock, vr_published_by = [],
      vr_disabled_at = None, vr_disabled_reason = None\<rparr>"
  let ?db = "empty_database\<lparr>db_versions := [?row ''0.9.0'', ?row ''1.0.0-rc.1'', ?row ''1.0.0'']\<rparr>"
  have v: "published_versions ?db (rg_connector_key example_registration) = [''0.9.0'', ''1.0.0-rc.1'', ''1.0.0'']"
    by (simp add: published_versions_def versions_of_def example_registration_def)
  have p: "parse_version (JStr ''0.9.0'') = Inr (ContractVersion 0 9 0 None)"
    "parse_version (JStr ''1.0.0-rc.1'') = Inr (ContractVersion 1 0 0 (Some ''rc.1''))"
    "parse_version (JStr ''1.0.0'') = Inr (ContractVersion 1 0 0 None)" by code_simp+
  have all: "\<forall>u\<in>set (published_versions ?db (rg_connector_key example_registration)).
      \<exists>p. parse_version (JStr u) = Inr p \<and> core_le p (ContractVersion 1 0 0 None)"
    unfolding v by (simp add: p core_le_def del: parse_version.simps)
  obtain loaded ar where "load_document sample_platform (env_parsers example_env) (register_limits example_env)
      (rg_source_bytes example_registration) (rg_source_filename example_registration) = Inr loaded"
    "analyze_document sample_platform default_source_limits loaded (rg_base_url example_registration) = Inr ar"
    using example_register_ok by (auto simp: is_ok_iff perform_def res_simps register_connector_def)
  from prerelease_breaks_suggestion [OF all _ p(2) _ p(3) _ this] show ?thesis
    using v by (intro exI [of _ ?db]) (simp add: example_registration_def)
qed

lemma overlapping_reviews_overwrite_witness:
  "\<exists>cs cs' r r' mid db' d'. plan sample_platform example_env example_clock (Review example_decisions) example_drafted =
       Inr (cs, DraftReply r) \<and>
     plan sample_platform example_env example_clock (Review example_rival) example_drafted = Inr (cs', DraftReply r') \<and>
     commit cs example_drafted = Inr mid \<and> commit cs' mid = Inr db' \<and>
     get_draft db' ''tickets'' = Inr d' \<and> dr_review d' = dr_review r'"
proof -
  obtain cs r mid where one: "plan sample_platform example_env example_clock (Review example_decisions) example_drafted =
       Inr (cs, DraftReply r)" "commit cs example_drafted = Inr mid"
    using example_drafted_facts(4) by (auto simp: planned_iff is_ok_iff simp del: plan.simps)
  obtain cs' r' d where two: "plan sample_platform example_env example_clock (Review example_rival) example_drafted =
       Inr (cs', DraftReply r')" "json_storable (JObj (dr_review r'))" "get_draft example_drafted ''tickets'' = Inr d"
       "\<not> py_eq (JObj (dr_review r')) (JObj (dr_review d))"
    using example_drafted_facts(3)
    by (cases "get_draft example_drafted ''tickets''") (auto simp: planned_iff simp del: plan.simps json_storable.simps)
  have same: "du_connector_key example_rival = du_connector_key example_decisions"
    "du_connector_key example_decisions = ''tickets''" by (simp_all add: example_rival_def example_decisions_def)
  obtain db' d' where "commit cs' mid = Inr db'" "get_draft db' ''tickets'' = Inr d'" "dr_review d' = dr_review r'"
    using overlapping_reviews_overwrite [OF example_drafted_facts(1) one(1) two(1) same(1) one(2) two(2) _ two(4)]
    unfolding same using two(3) by blast
  with one two show ?thesis by blast
qed

lemma registering_again_resets_revision_witness:
  "\<exists>db d db'' d'. perform sample_platform example_env example_clock (Register example_registration) example_reviewed = Inr (db, d) \<and>
     perform sample_platform example_env example_clock (Review (example_decisions\<lparr>du_updates := []\<rparr>)) db =
       Inr (db'', DraftReply d') \<and> dr_revision d' = 2"
proof -
  obtain db d where "perform sample_platform example_env example_clock (Register example_registration) example_reviewed = Inr (db, d)"
    using example_reviewed_facts(2) by (auto simp: ended_iff)
  with registering_again_resets_revision [OF _ this, of "example_decisions\<lparr>du_updates := []\<rparr>"] example_reviewed_facts
  show ?thesis by (fastforce simp: example_decisions_def example_registration_def)
qed

text \<open>Two snapshots of one deployment, with digests that differ.\<close>

definition counting_platform :: platform where
  "counting_platform = sample_platform\<lparr>sha256_hex := (\<lambda>s. take 64 (rev s))\<rparr>"

lemma example_rollout:
  "ended (perform counting_platform example_env example_clock (Deploy ''demo'' ''Demo'' []) empty_database) (\<lambda>d1.
   ended (perform counting_platform example_env example_clock (Snap example_selection) d1) (\<lambda>d2.
   ended (perform counting_platform example_env example_clock (Snap example_selection) d2) (\<lambda>d3.
     length (snapshots_of d3 ''demo'') = 2 \<and> map sr_active (snapshots_of d3 ''demo'') = [False, True])))"
  by code_simp

lemma snapshot_revisions_are_gapless_witness:
  "\<exists>db. map sr_revision (snapshots_of db ''demo'') = [1, 2] \<and> map sr_active (snapshots_of db ''demo'') = [False, True] \<and>
     active_snapshot db ''demo'' = Some (last (snapshots_of db ''demo''))"
proof -
  obtain d1 d2 d3 r1 r2 r3 where
    s1: "perform counting_platform example_env example_clock (Deploy ''demo'' ''Demo'' []) empty_database = Inr (d1, r1)"
    and s2: "perform counting_platform example_env example_clock (Snap example_selection) d1 = Inr (d2, r2)"
    and s3: "perform counting_platform example_env example_clock (Snap example_selection) d2 = Inr (d3, r3)"
    and d3: "length (snapshots_of d3 ''demo'') = 2" "map sr_active (snapshots_of d3 ''demo'') = [False, True]"
    using example_rollout by (auto simp: ended_iff)
  have run: "sys_run counting_platform example_env start_system \<lparr>sys_db = d3, sys_open = []\<rparr>"
    unfolding start_system_def
    by (rule rtranclp_trans [OF perform_idle_run [OF s1] rtranclp_trans [OF perform_idle_run [OF s2] perform_idle_run [OF s3]]])
  show ?thesis
    using snapshot_revisions_are_gapless [OF run, of "''demo''"] d3 by (intro exI [of _ d3]) (auto simp: upt_conv_Cons)
qed

end
