(* ===== verification/InternalApi.thy ===== *)
theory InternalApi
  imports History Config
begin

text \<open>
  The surface the runtime consumes: the Control Plane's settings, credentials and read-only API
  (\<^verbatim>\<open>control_plane/config.py\<close>, \<^verbatim>\<open>dependencies.py\<close>, \<^verbatim>\<open>routes_internal.py\<close>), and the exception handlers of
  \<^verbatim>\<open>control_plane/main.py\<close>. The properties compose both services: what the Control Plane creates and serves, the
  runtime's client loads.
\<close>

section \<open>Settings\<close>

definition MIN_TOKEN_LENGTH :: nat where
  "MIN_TOKEN_LENGTH = 16"

definition DEV_ADMIN_TOKEN :: string where
  "DEV_ADMIN_TOKEN = ''dev-admin-token-change-me''"

definition CP_DEV_SERVICE_TOKEN :: string where
  "CP_DEV_SERVICE_TOKEN = ''dev-service-token-change-me''"

definition DEFAULT_DATABASE_URL :: string where
  "DEFAULT_DATABASE_URL = ''sqlite:///./data/control-plane.db''"

definition DEFAULT_CORS_ORIGINS :: "string list" where
  "DEFAULT_CORS_ORIGINS = [''http://localhost:5173'']"

record cp_settings =
  database_url :: string
  admin_token :: string
  cp_service_token :: string
  cp_cors_origins :: "string list"
  max_source_bytes :: int
  snapshot_signing_key :: string
  snapshot_signing_key_id :: string

text \<open>\<open>__post_init__\<close>\<close>

definition check_cp_settings :: "cp_settings \<Rightarrow> cp_settings res" where
  "check_cp_settings s =
     (if length (admin_token s) < MIN_TOKEN_LENGTH then Inl ConfigurationError
      else if length (cp_service_token s) < MIN_TOKEN_LENGTH then Inl ConfigurationError
      else if admin_token s = cp_service_token s then Inl ConfigurationError
      else if database_url s = [] then Inl ConfigurationError
      else if (snapshot_signing_key s \<noteq> []) \<noteq> (snapshot_signing_key_id s \<noteq> []) then Inl ConfigurationError
      else if snapshot_signing_key s \<noteq> [] then
        rbind (catching (\<lambda>e. e = InvalidKeyMaterial) (\<lambda>_. Inl ConfigurationError)
                (signing_key_from_encoded (snapshot_signing_key_id s) (snapshot_signing_key s))) (\<lambda>_. Inr s)
      else Inr s)"

definition uses_development_tokens :: "cp_settings \<Rightarrow> bool" where
  "uses_development_tokens s \<longleftrightarrow> admin_token s = DEV_ADMIN_TOKEN \<or> cp_service_token s = CP_DEV_SERVICE_TOKEN"

definition signs_snapshots :: "cp_settings \<Rightarrow> bool" where
  "signs_snapshots s \<longleftrightarrow> snapshot_signing_key s \<noteq> []"

definition settings_signing_key :: "cp_settings \<Rightarrow> signing_key option res" where
  "settings_signing_key s =
     (if snapshot_signing_key s = [] then Inr None
      else rbind (signing_key_from_encoded (snapshot_signing_key_id s) (snapshot_signing_key s)) (\<lambda>k. Inr (Some k)))"

definition cp_env_tuple :: "environ \<Rightarrow> string \<Rightarrow> string list \<Rightarrow> string list" where
  "cp_env_tuple env name fallback =
     (case env name of
        None \<Rightarrow> fallback
      | Some raw \<Rightarrow> map str_strip (filter (\<lambda>e. str_strip e \<noteq> []) (split_on CHR '','' raw)))"

definition cp_env_int :: "environ \<Rightarrow> string \<Rightarrow> int \<Rightarrow> int res" where
  "cp_env_int env name fallback =
     (case env name of
        None \<Rightarrow> Inr fallback
      | Some raw \<Rightarrow> (case py_int raw of None \<Rightarrow> Inl ConfigurationError | Some i \<Rightarrow> Inr i))"

definition get_cp_settings :: "environ \<Rightarrow> cp_settings res" where
  "get_cp_settings env =
     rbind (cp_env_int env ''TOOLLAYER_MAX_SOURCE_BYTES'' (2 * 1024 * 1024)) (\<lambda>limit.
       check_cp_settings
         \<lparr>database_url = or_else (env ''TOOLLAYER_CONTROL_PLANE_DATABASE_URL'') DEFAULT_DATABASE_URL,
          admin_token = or_else (env ''TOOLLAYER_ADMIN_TOKEN'') DEV_ADMIN_TOKEN,
          cp_service_token = or_else (env ''TOOLLAYER_SERVICE_TOKEN'') CP_DEV_SERVICE_TOKEN,
          cp_cors_origins = cp_env_tuple env ''TOOLLAYER_CONTROL_PLANE_CORS_ORIGINS'' DEFAULT_CORS_ORIGINS,
          max_source_bytes = limit,
          snapshot_signing_key = str_strip (env_or env ''TOOLLAYER_SNAPSHOT_SIGNING_KEY'' []),
          snapshot_signing_key_id = str_strip (env_or env ''TOOLLAYER_SNAPSHOT_SIGNING_KEY_ID'' [])\<rparr>)"

section \<open>Credentials\<close>

text \<open>\<^verbatim>\<open>secrets.compare_digest\<close> raises on text that is not ASCII.\<close>

definition compare_digest :: "string \<Rightarrow> string \<Rightarrow> bool res" where
  "compare_digest a b = (if list_all is_ascii a \<and> list_all is_ascii b then Inr (a = b) else Inl TypeError)"

definition unauthenticated :: exn where
  "unauthenticated = ToolLayerError UNAUTHENTICATED None []"

definition require_admin :: "cp_settings \<Rightarrow> string option \<Rightarrow> string res" where
  "require_admin S token =
     (case token of
        None \<Rightarrow> Inl unauthenticated
      | Some t \<Rightarrow> rbind (compare_digest t (admin_token S)) (\<lambda>same. if same then Inr ''admin'' else Inl unauthenticated))"

definition require_service :: "cp_settings \<Rightarrow> string option \<Rightarrow> string res" where
  "require_service S token =
     (case token of
        None \<Rightarrow> Inl unauthenticated
      | Some t \<Rightarrow> rbind (compare_digest t (cp_service_token S)) (\<lambda>same. if same then Inr ''runtime'' else Inl unauthenticated))"

section \<open>The internal API\<close>

definition etag_matches :: "string \<Rightarrow> string \<Rightarrow> bool" where
  "etag_matches header tag =
     list_ex (\<lambda>c. c = ''*'' \<or> c = tag) (map str_strip (split_on CHR '','' header))"

definition entity_tag :: "snapshot_row \<Rightarrow> string" where
  "entity_tag r = CHR 0x22 # sr_digest r @ [CHR 0x22]"

text \<open>Status, entity tag and body of an answer.\<close>

definition read_snapshot ::
  "cp_settings \<Rightarrow> database \<Rightarrow> string \<Rightarrow> string option \<Rightarrow> string option \<Rightarrow> (nat \<times> string \<times> json option) res" where
  "read_snapshot S db k token if_none_match =
     rbind (require_service S token) (\<lambda>_.
     rbind (get_active_snapshot db k) (\<lambda>r.
       let tag = entity_tag r in
       if (case if_none_match of None \<Rightarrow> False | Some h \<Rightarrow> etag_matches h tag) then Inr (304, tag, None)
       else Inr (200, tag, Some (JObj (sr_document r)))))"

section \<open>Exception handlers\<close>

text \<open>
  The handlers of the application: \<^verbatim>\<open>_domain_error\<close>, \<^verbatim>\<open>_conversion_error\<close> and \<^verbatim>\<open>_unexpected\<close>, chosen by the
  class of the exception. The prose of a message is an argument, except where the class carries it.
\<close>

definition blocked_detail :: "string \<Rightarrow> error_detail" where
  "blocked_detail issue = \<lparr>detail_code = ''publication.blocked'', detail_message = issue, detail_pointer = None,
     detail_severity = ''error''\<rparr>"

definition cp_error_reply :: "string \<Rightarrow> string option \<Rightarrow> exn \<Rightarrow> nat \<times> json" where
  "cp_error_reply prose rid e =
     (case e of
        ToolLayerError c p ds \<Rightarrow> error_response (code_text c) prose p ds rid
      | NotReadyForPublication issues \<Rightarrow>
          error_response (code_text NOT_READY_FOR_PUBLICATION) prose None (map blocked_detail issues) rid
      | ConversionError c p m \<Rightarrow> error_response (code_text c) m (Some p) [] rid
      | _ \<Rightarrow> (500, snd (error_response (code_text INTERNAL_ERROR) ''the request could not be completed'' None [] rid)))"

text \<open>\<^verbatim>\<open>_first_pointer\<close>: the location of the first validation error, without the part \<^verbatim>\<open>body\<close>.\<close>

definition first_pointer :: "string list list \<Rightarrow> string" where
  "first_pointer errors =
     (case errors of
        [] \<Rightarrow> []
      | loc # _ \<Rightarrow> concat (map (\<lambda>part. ''/'' @ encode_pointer_token part) (filter (\<lambda>p. p \<noteq> ''body'') loc)))"

definition request_validation_reply :: "string list list \<Rightarrow> string option \<Rightarrow> nat \<times> json" where
  "request_validation_reply errors rid =
     (422, snd (error_response (code_text INVALID_REQUEST) ''the request body does not match the expected shape''
              (Some (first_pointer errors)) [] rid))"

definition cp_health :: "cp_settings \<Rightarrow> json" where
  "cp_health S =
     JObj [(''status'', JStr ''ok''), (''contract_version'', JStr CONTRACT_VERSION),
           (''snapshot_signing'', JStr (if signs_snapshots S then ''enabled'' else ''disabled'')),
           (''snapshot_signing_key_id'',
             if snapshot_signing_key_id S = [] then JNull else JStr (snapshot_signing_key_id S))]"

definition cp_readiness :: "bool \<Rightarrow> nat \<times> json" where
  "cp_readiness database_answers =
     (if database_answers then (200, JObj [(''status'', JStr ''ready'')])
      else (503, JObj [(''status'', JStr ''unavailable'')]))"

section \<open>The Control Plane as the runtime's client sees it\<close>

text \<open>
  The path parameter of a snapshot URL under the base of the client; other paths are answered with 404 by
  the framework.
\<close>

definition deployment_of :: "string \<Rightarrow> string \<Rightarrow> string option" where
  "deployment_of base url =
     (let prefix = rstrip_by (\<lambda>x. x = CHR ''/'') base @ ''/internal/v1/deployments/'';
          rest = drop (length prefix) url;
          k = take (length rest - length ''/snapshot'') rest
      in if starts_with prefix url \<and> ends_with ''/snapshot'' rest \<and> k \<noteq> [] \<and> CHR ''/'' \<notin> set k then Some k else None)"

definition header_of :: "(string \<times> string) list \<Rightarrow> string \<Rightarrow> string option" where
  "header_of headers name = map_of headers name"

definition internal_service :: "cp_settings \<Rightarrow> database \<Rightarrow> string \<Rightarrow> string \<Rightarrow> control_plane" where
  "internal_service S db base prose url headers =
     (case deployment_of base url of
        None \<Rightarrow> Some \<lparr>reply_status = 404, reply_etag = None, reply_body = Some (JObj [(''detail'', JStr ''Not Found'')])\<rparr>
      | Some k \<Rightarrow>
          (case read_snapshot S db k (header_of headers ''x-toollayer-service-token'') (header_of headers ''if-none-match'') of
             Inl e \<Rightarrow>
               (let (status, body) = cp_error_reply prose None e
                in Some \<lparr>reply_status = status, reply_etag = None, reply_body = Some body\<rparr>)
           | Inr (status, tag, body) \<Rightarrow>
               Some \<lparr>reply_status = status, reply_etag = Some tag, reply_body = body\<rparr>))"

end
