(* ===== verification/Adapters.thy ===== *)
theory Adapters
  imports Converter
begin

text \<open>
  The provider adapters, \<^verbatim>\<open>packages/contracts/toollayer_contracts/adapters/\<close>: what may be projected
  (\<^verbatim>\<open>base.py\<close>), the two projections (\<^verbatim>\<open>openai_adapter.py\<close>, \<^verbatim>\<open>anthropic_adapter.py\<close>) and the way back from
  the arguments of a strict call. The properties say which converted schemas can be projected, and that a
  strict call executes exactly what the canonical schema accepts as long as the optional properties are at
  the top level.
\<close>

section \<open>What can be projected\<close>

definition SUPPORTED_SCHEMA_KEYWORDS :: "string list" where
  "SUPPORTED_SCHEMA_KEYWORDS =
     [''$schema'', ''additionalProperties'', ''description'', ''default'', ''enum'', ''exclusiveMaximum'',
      ''exclusiveMinimum'', ''format'', ''items'', ''maxItems'', ''maxLength'', ''maximum'', ''minItems'',
      ''minLength'', ''minimum'', ''pattern'', ''properties'', ''required'', ''type'']"

definition SUPPORTED_TYPES :: "string list" where
  "SUPPORTED_TYPES = [''array'', ''boolean'', ''integer'', ''null'', ''number'', ''object'', ''string'']"

definition MAX_NESTING_DEPTH :: nat where
  "MAX_NESTING_DEPTH = 8"

definition MAX_TOTAL_PROPERTIES :: nat where
  "MAX_TOTAL_PROPERTIES = 500"

text \<open>
  \<open>AdapterError code message pointer\<close>; \<open>Unhashable\<close> is the \<^verbatim>\<open>TypeError\<close> of building a set from a list that
  holds a list or an object.
\<close>

datatype adapter_exn = AdapterError string string string | Unhashable

type_synonym 'a projected = "adapter_exn + 'a"

text \<open>\<^verbatim>\<open>text.count(part)\<close>: occurrences that do not overlap.\<close>

function str_count :: "string \<Rightarrow> string \<Rightarrow> nat" where
  "str_count p s =
     (if p = [] then Suc (length s)
      else if s = [] then 0
      else if starts_with p s then Suc (str_count p (drop (length p) s))
      else str_count p (tl s))"
  by pat_completeness auto
termination
  by (relation "measure (\<lambda>(p, s). length s)") (auto simp: neq_Nil_conv)

declare str_count.simps [simp del]

lemma jget_size [termination_simp]:
  "jget d k = JObj s \<Longrightarrow> size (JObj s) < size (JObj d)"
  by (auto simp: jget_def split: option.splits dest!: dget_Some_in size_obj_elem)

function walk_schema :: "string \<Rightarrow> json dict \<Rightarrow> (string \<times> json dict) list" where
  "walk_schema ptr schema =
     (ptr, schema) #
     (case jget schema ''properties'' of
        JObj ps \<Rightarrow>
          concat (map (\<lambda>p. case snd p of
                             JObj s \<Rightarrow> walk_schema (ptr @ ''/properties/'' @ encode_pointer_token (fst p)) s
                           | _ \<Rightarrow> []) ps)
      | _ \<Rightarrow> []) @
     (case jget schema ''items'' of JObj s \<Rightarrow> walk_schema (ptr @ ''/items'') s | _ \<Rightarrow> [])"
  by pat_completeness auto
termination
proof (relation "measure (\<lambda>(ptr, schema). size (JObj schema))", goal_cases)
  case (2 ptr schema ps p s)
  then have "size (JObj s) < size (JObj ps)" by (metis size_obj_elem' )
  with jget_size [OF 2(1)] show ?case by simp
qed (auto dest: jget_size simp del: json.size)

declare walk_schema.simps [simp del]

definition unsupported_keywords :: "json dict \<Rightarrow> string list" where
  "unsupported_keywords s = sort (filter (\<lambda>k. k \<notin> set SUPPORTED_SCHEMA_KEYWORDS) (dkeys s))"

definition type_unsupported :: "json \<Rightarrow> bool" where
  "type_unsupported t \<longleftrightarrow> t \<noteq> JNull \<and> (\<not> is_str t \<or> str_of t \<notin> set SUPPORTED_TYPES)"

definition pointer_depth :: "string \<Rightarrow> nat" where
  "pointer_depth ptr = str_count ''/properties/'' ptr + str_count ''/items'' ptr"

text \<open>One round of the loop over the subschemas; the counter holds the properties seen.\<close>

definition check_subschema :: "string \<times> json dict \<Rightarrow> nat \<Rightarrow> nat projected" where
  "check_subschema sub seen =
     (let ptr = fst sub; s = snd sub; unsupported = unsupported_keywords s; t = jget s ''type'' in
      if MAX_NESTING_DEPTH < pointer_depth ptr
      then Inl (AdapterError ''schema_nesting_limit_exceeded''
                  ''the input schema nests deeper than provider projection supports'' ptr)
      else if unsupported \<noteq> []
      then Inl (AdapterError ''unsupported_schema_keyword''
                  (''the input schema uses the unsupported keyword '' @ repr_str (hd unsupported)) ptr)
      else if type_unsupported t
      then Inl (AdapterError ''unsupported_schema_type''
                  ''the input schema uses a type providers cannot be given losslessly'' ptr)
      else if t = JStr ''object'' then
        (if jget s ''additionalProperties'' \<noteq> JBool False
         then Inl (AdapterError ''open_object_unsupported''
                     ''open object schemas cannot be projected without weakening them'' ptr)
         else Inr (case jget s ''properties'' of JObj ps \<Rightarrow> seen + length ps | _ \<Rightarrow> seen))
      else Inr seen)"

definition assert_projectable :: "json dict \<Rightarrow> unit projected" where
  "assert_projectable schema =
     rbind (rfold check_subschema (walk_schema [] schema) 0) (\<lambda>seen.
       if MAX_TOTAL_PROPERTIES < seen
       then Inl (AdapterError ''schema_property_limit_exceeded''
                   ''the input schema declares more properties than provider projection supports'' [])
       else Inr ())"

text \<open>A copy of the schema, which as a value is the schema itself.\<close>

definition prepared_schema :: "tool_definition \<Rightarrow> json dict projected" where
  "prepared_schema t = rbind (assert_projectable (input_schema t)) (\<lambda>_. Inr (input_schema t))"

section \<open>The Anthropic projection\<close>

definition anthropic_project_tool :: "tool_definition \<Rightarrow> json projected" where
  "anthropic_project_tool t =
     rbind (prepared_schema t) (\<lambda>schema.
       Inr (JObj [(''name'', JStr (tool_name t)), (''description'', JStr (description t)),
                  (''input_schema'', JObj schema)]))"

section \<open>The OpenAI projection\<close>

definition shape_error :: "string \<Rightarrow> string \<Rightarrow> adapter_exn" where
  "shape_error message ptr = AdapterError ''unsupported_schema_shape'' message ptr"

definition widen_type :: "json dict \<Rightarrow> string \<Rightarrow> json dict projected" where
  "widen_type schema ptr =
     (case jget schema ''type'' of
        JArr ts \<Rightarrow>
          Inr (if py_in (JStr ''null'') ts then schema else dset ''type'' (JArr (ts @ [JStr ''null''])) schema)
      | JStr t \<Rightarrow>
          Inr (if t = ''null'' then schema else dset ''type'' (JArr [JStr t, JStr ''null'']) schema)
      | _ \<Rightarrow> Inl (shape_error
               ''an optional property without a declared type cannot be projected to strict mode'' ptr))"

definition widen_enum :: "json dict \<Rightarrow> json dict" where
  "widen_enum schema =
     (case jget schema ''enum'' of
        JArr vs \<Rightarrow> if py_in JNull vs then schema else dset ''enum'' (JArr (vs @ [JNull])) schema
      | _ \<Rightarrow> schema)"

definition allow_null :: "json dict \<Rightarrow> string \<Rightarrow> json dict projected" where
  "allow_null schema ptr = rbind (widen_type schema ptr) (\<lambda>s. Inr (widen_enum s))"

definition required_names :: "json dict \<Rightarrow> json list" where
  "required_names schema = (case jget schema ''required'' of JArr xs \<Rightarrow> xs | _ \<Rightarrow> [])"

definition is_optional :: "json dict \<Rightarrow> string \<Rightarrow> bool" where
  "is_optional schema name \<longleftrightarrow> \<not> py_in (JStr name) (required_names schema)"

definition close_strict :: "json dict \<Rightarrow> json dict \<Rightarrow> json dict" where
  "close_strict schema new_properties =
     dset ''additionalProperties'' (JBool False)
       (dset ''required'' (JArr (map JStr (dkeys (obj_of (jget schema ''properties'')))))
         (dset ''properties'' (JObj new_properties) schema))"

text \<open>
  \<open>_strictify\<close>. The items of a property are taken from the property: converting it leaves \<^verbatim>\<open>items\<close> as it is
  (\<open>strictify_items\<close> below).
\<close>

function strictify :: "string \<Rightarrow> json dict \<Rightarrow> json dict projected" where
  "strictify ptr schema =
     (if jget schema ''type'' \<noteq> JStr ''object'' then Inr schema
      else
        case jget schema ''properties'' of
          JObj ps \<Rightarrow>
            rbind (rmap (\<lambda>p.
                let child_ptr = ptr @ ''/properties/'' @ encode_pointer_token (fst p) in
                case snd p of
                  JObj value \<Rightarrow>
                    rbind (strictify child_ptr value) (\<lambda>child.
                    rbind (case jget value ''items'' of
                             JObj i \<Rightarrow>
                               rbind (strictify (child_ptr @ ''/items'') i) (\<lambda>i'. Inr (dset ''items'' (JObj i') child))
                           | _ \<Rightarrow> Inr child) (\<lambda>child.
                    rbind (if is_optional schema (fst p) then allow_null child child_ptr else Inr child) (\<lambda>child.
                      Inr (fst p, JObj child))))
                | _ \<Rightarrow> Inl (shape_error ''a property schema must be an object'' child_ptr)) ps)
              (\<lambda>new_properties. Inr (close_strict schema new_properties))
        | _ \<Rightarrow> Inr schema)"
  by pat_completeness auto
termination
proof (relation "measure (\<lambda>(ptr, schema). size (JObj schema))", goal_cases)
  case (2 ptr schema ps p c val)
  then have "size (JObj val) < size (JObj ps)" by (metis size_obj_elem')
  with jget_size [OF 2(2)] show ?case by simp
next
  case (3 ptr schema ps p c val child i)
  then have "size (JObj val) < size (JObj ps)" by (metis size_obj_elem')
  with jget_size [OF 3(2)] jget_size [of val "''items''" i] 3 show ?case by simp
qed auto

declare strictify.simps [simp del]

definition openai_project_tool :: "tool_definition \<Rightarrow> json projected" where
  "openai_project_tool t =
     rbind (prepared_schema t) (\<lambda>schema.
     rbind (strictify [] (ddel [''$schema''] schema)) (\<lambda>projected.
       Inr (JObj [(''type'', JStr ''function''),
                  (''function'', JObj
                     [(''name'', JStr (tool_name t)), (''description'', JStr (description t)),
                      (''parameters'', JObj projected), (''strict'', JBool True)])])))"

section \<open>Projecting a connector\<close>

record adapter_diagnostic =
  ad_tool :: string
  ad_code :: string
  ad_message :: string
  ad_pointer :: string

record projection =
  pr_provider :: string
  pr_tools :: "json list"
  pr_diagnostics :: "adapter_diagnostic list"

definition projection_complete :: "projection \<Rightarrow> bool" where
  "projection_complete p \<longleftrightarrow> pr_diagnostics p = []"

definition ADAPTERS :: "(string \<times> (tool_definition \<Rightarrow> json projected)) list" where
  "ADAPTERS = [(''openai'', openai_project_tool), (''anthropic'', anthropic_project_tool)]"

definition SUPPORTED_PROVIDERS :: "string list" where
  "SUPPORTED_PROVIDERS = sort (map fst ADAPTERS)"

text \<open>\<open>None\<close> is the \<^verbatim>\<open>KeyError\<close> of an unknown provider.\<close>

definition get_adapter :: "string \<Rightarrow> (tool_definition \<Rightarrow> json projected) option" where
  "get_adapter provider = map_of ADAPTERS provider"

text \<open>One round of \<open>project\<close>: only an \<open>AdapterError\<close> is caught.\<close>

definition project_next ::
  "(tool_definition \<Rightarrow> json projected) \<Rightarrow> tool_definition \<Rightarrow> projection \<Rightarrow> projection projected" where
  "project_next adapter t p =
     (case adapter t of
        Inr payload \<Rightarrow> Inr (p\<lparr>pr_tools := pr_tools p @ [payload]\<rparr>)
      | Inl (AdapterError c m ptr) \<Rightarrow>
          Inr (p\<lparr>pr_diagnostics := pr_diagnostics p @
                 [\<lparr>ad_tool = tool_name t, ad_code = c, ad_message = m, ad_pointer = ptr\<rparr>]\<rparr>)
      | Inl e \<Rightarrow> Inl e)"

definition project ::
  "string \<Rightarrow> (tool_definition \<Rightarrow> json projected) \<Rightarrow> tool_definition list \<Rightarrow> projection projected" where
  "project provider adapter ts =
     rfold (project_next adapter) ts \<lparr>pr_provider = provider, pr_tools = [], pr_diagnostics = []\<rparr>"

section \<open>The arguments of a strict call\<close>

fun hashable :: "json \<Rightarrow> bool" where
  "hashable (JArr xs) = False"
| "hashable (JObj kvs) = False"
| "hashable v = True"

definition declares_null :: "json dict \<Rightarrow> bool" where
  "declares_null declared \<longleftrightarrow>
     (case jget declared ''type'' of JStr t \<Rightarrow> t = ''null'' | JArr ts \<Rightarrow> py_in (JStr ''null'') ts | _ \<Rightarrow> False)"

definition is_placeholder :: "json dict \<Rightarrow> json list \<Rightarrow> string \<times> json \<Rightarrow> bool" where
  "is_placeholder properties needed p \<longleftrightarrow>
     snd p = JNull \<and> \<not> py_in (JStr (fst p)) needed \<and>
     (case jget properties (fst p) of JObj declared \<Rightarrow> \<not> declares_null declared | _ \<Rightarrow> False)"

definition normalize_provider_arguments :: "json dict \<Rightarrow> json \<Rightarrow> json dict projected" where
  "normalize_provider_arguments schema arguments =
     (case arguments of
        JObj given \<Rightarrow>
          (case jget schema ''properties'' of
             JObj properties \<Rightarrow>
               if list_all hashable (required_names schema)
               then Inr (filter (\<lambda>p. \<not> is_placeholder properties (required_names schema) p) given)
               else Inl Unhashable
           | _ \<Rightarrow> Inr given)
      | _ \<Rightarrow> Inl (AdapterError ''invalid_arguments'' ''tool arguments must be a JSON object'' []))"

section \<open>Strict projections of flat schemas\<close>

text \<open>A property whose values hold no object, and an object schema all of whose properties are such.\<close>

definition leaf_property :: "json \<Rightarrow> bool" where
  "leaf_property v \<longleftrightarrow>
     (case v of
        JObj d \<Rightarrow>
          unsupported_keywords d = [] \<and> is_str (jget d ''type'') \<and>
          str_of (jget d ''type'') \<notin> {''object'', ''null''} \<and>
          (case jget d ''items'' of JObj i \<Rightarrow> jget i ''type'' \<noteq> JStr ''object'' | _ \<Rightarrow> True)
      | _ \<Rightarrow> False)"

definition OBJECT_KEYWORDS :: "string list" where
  "OBJECT_KEYWORDS =
     [''$schema'', ''type'', ''description'', ''properties'', ''required'', ''additionalProperties'']"

definition closed_object :: "json dict \<Rightarrow> json dict \<Rightarrow> string list \<Rightarrow> bool" where
  "closed_object s ps rs \<longleftrightarrow>
     jget s ''type'' = JStr ''object'' \<and> jget s ''properties'' = JObj ps \<and>
     jget s ''required'' = JArr (map JStr rs) \<and> jget s ''additionalProperties'' = JBool False \<and>
     set (dkeys s) \<subseteq> set OBJECT_KEYWORDS \<and> dict_ok ps \<and> list_all (\<lambda>p. is_obj (snd p)) ps"

definition flat_object :: "json dict \<Rightarrow> json dict \<Rightarrow> string list \<Rightarrow> bool" where
  "flat_object s ps rs \<longleftrightarrow>
     closed_object s ps rs \<and> list_all (\<lambda>p. leaf_property (snd p)) ps \<and> set rs \<subseteq> set (dkeys ps)"

text \<open>
  What JSON Schema says of the two constructions the projection uses: a closed object, a schema widened by
  \<^verbatim>\<open>null\<close>, and a declared type other than \<^verbatim>\<open>null\<close>.
\<close>

definition documented_validator :: "(json dict \<Rightarrow> json \<Rightarrow> bool) \<Rightarrow> bool" where
  "documented_validator V \<longleftrightarrow>
     (\<forall>s ps rs a. closed_object s ps rs \<longrightarrow>
        (V s (JObj a) \<longleftrightarrow>
           set rs \<subseteq> set (dkeys a) \<and> (\<forall>(n, v)\<in>set a. \<exists>d. dget ps n = Some (JObj d) \<and> V d v))) \<and>
     (\<forall>d d' ptr v. unsupported_keywords d = [] \<and> allow_null d ptr = Inr d' \<longrightarrow> (V d' v \<longleftrightarrow> v = JNull \<or> V d v)) \<and>
     (\<forall>d t. jget d ''type'' = JStr t \<and> t \<noteq> ''null'' \<longrightarrow> \<not> V d JNull)"

lemma py_eq_strings [simp]: "py_eq (JStr m) (JStr n) \<longleftrightarrow> m = n"
  by (simp add: py_eq.simps)

lemma py_in_strings [simp]: "py_in (JStr n) (map JStr rs) \<longleftrightarrow> n \<in> set rs"
  by (induction rs) (auto simp: py_in_def)

lemma jget_dset: "jget (dset k v d) k' = (if k' = k then v else jget d k')"
  by (simp add: jget_def)

lemma dset_same: "dget d k = Some v \<Longrightarrow> dset k v d = d"
  by (induction d) (auto split: if_splits)

lemma dget_map_values:
  "dget (map (\<lambda>p. (fst p, f (fst p) (snd p))) d) n = map_option (f n) (dget d n)"
  by (induction d) auto

text \<open>What a leaf becomes when it is optional.\<close>

definition widened :: "json dict \<Rightarrow> json dict" where
  "widened d = widen_enum (dset ''type'' (JArr [jget d ''type'', JStr ''null'']) d)"

definition strict_value :: "json dict \<Rightarrow> string \<Rightarrow> json \<Rightarrow> json" where
  "strict_value s n v = (if is_optional s n then JObj (widened (obj_of v)) else v)"

lemma leaf_property_obj: "leaf_property v \<Longrightarrow> \<exists>d t. v = JObj d \<and> jget d ''type'' = JStr t \<and> t \<noteq> ''object'' \<and> t \<noteq> ''null''"
  by (cases v) (auto simp: leaf_property_def is_str_iff)

lemma allow_null_leaf: "leaf_property (JObj d) \<Longrightarrow> allow_null d ptr = Inr (widened d)"
  by (auto simp: leaf_property_def allow_null_def widen_type_def widened_def is_str_iff)

lemma strictify_leaf:
  assumes "leaf_property (JObj d)"
  shows "strictify ptr d = Inr d"
    and "jget d ''items'' = JObj i \<Longrightarrow> strictify ptr i = Inr i \<and> dset ''items'' (JObj i) d = d"
  using assms
  by (auto simp: leaf_property_def strictify.simps [of ptr] jget_def is_str_iff intro: dset_same
      split: option.splits json.splits)

text \<open>The conversion of one property.\<close>

definition strict_child :: "json dict \<Rightarrow> string \<Rightarrow> string \<times> json \<Rightarrow> (string \<times> json) projected" where
  "strict_child schema ptr p =
     (let child_ptr = ptr @ ''/properties/'' @ encode_pointer_token (fst p) in
      case snd p of
        JObj val \<Rightarrow>
          rbind (strictify child_ptr val) (\<lambda>child.
          rbind (case jget val ''items'' of
                   JObj i \<Rightarrow>
                     rbind (strictify (child_ptr @ ''/items'') i) (\<lambda>i'. Inr (dset ''items'' (JObj i') child))
                 | _ \<Rightarrow> Inr child) (\<lambda>child.
          rbind (if is_optional schema (fst p) then allow_null child child_ptr else Inr child) (\<lambda>child.
            Inr (fst p, JObj child))))
      | _ \<Rightarrow> Inl (shape_error ''a property schema must be an object'' child_ptr))"

lemma strictify_object:
  "jget s ''type'' = JStr ''object'' \<Longrightarrow> jget s ''properties'' = JObj ps \<Longrightarrow>
     strictify ptr s = rbind (rmap (strict_child s ptr) ps) (\<lambda>new_properties. Inr (close_strict s new_properties))"
  unfolding strictify.simps [of ptr s] strict_child_def [abs_def] by simp

lemma rmap_Inl: "rmap f xs = Inl e \<Longrightarrow> \<exists>x\<in>set xs. f x = Inl e"
  by (induction xs) (auto simp: res_simps)

lemma allow_null_raises: "allow_null d ptr = Inl e \<Longrightarrow> \<exists>c m p. e = AdapterError c m p"
  by (auto simp: allow_null_def widen_type_def shape_error_def res_simps split: json.splits)

lemma strictify_raises: "strictify ptr s = Inl e \<Longrightarrow> \<exists>c m p. e = AdapterError c m p"
proof (induction "size (JObj s)" arbitrary: ptr s rule: less_induct)
  case less
  from less.prems obtain ps where s: "jget s ''type'' = JStr ''object''" "jget s ''properties'' = JObj ps"
    by (subst (asm) strictify.simps) (auto split: if_splits json.splits)
  with less.prems obtain p where p: "p \<in> set ps" "strict_child s ptr p = Inl e"
    by (auto simp: strictify_object res_simps dest: rmap_Inl)
  have small: "size (JObj d) < size (JObj s)" if "snd p = JObj d \<or> (\<exists>v. snd p = JObj v \<and> jget v ''items'' = JObj d)" for d
    using that jget_size [OF s(2)] size_obj_elem' [OF p(1)] jget_size [of _ "''items''" d] by fastforce
  show ?case
  proof (cases "snd p")
    case (JObj v)
    let ?q = "ptr @ ''/properties/'' @ encode_pointer_token (fst p)"
    from p(2) JObj consider "strictify ?q v = Inl e"
      | i where "jget v ''items'' = JObj i" "strictify (?q @ ''/items'') i = Inl e"
      | d where "allow_null d ?q = Inl e"
      by (cases "jget v ''items''") (auto simp: strict_child_def Let_def rbind_eq_Inl split: if_splits)
    then show ?thesis
    proof cases
      case 1
      then show ?thesis using less.hyps [OF small] JObj by blast
    next
      case (2 i)
      then show ?thesis using less.hyps [OF small] JObj by blast
    qed (rule allow_null_raises)
  qed (use p(2) in \<open>auto simp: strict_child_def Let_def shape_error_def\<close>)
qed

lemma strictify_items: "strictify ptr s = Inr r \<Longrightarrow> jget r ''items'' = jget s ''items''"
  unfolding strictify.simps [of ptr s]
  by (auto simp: res_simps close_strict_def jget_dset split: if_splits json.splits)

lemma strict_child_leaf:
  "leaf_property (snd p) \<Longrightarrow> strict_child s ptr p = Inr (fst p, strict_value s (fst p) (snd p))"
  using leaf_property_obj [of "snd p"]
  by (cases p) (auto simp: strict_child_def Let_def strictify_leaf allow_null_leaf strict_value_def split: json.splits)

lemma strictify_flat:
  assumes "flat_object s ps rs"
  shows "strictify ptr s = Inr (close_strict s (map (\<lambda>p. (fst p, strict_value s (fst p) (snd p))) ps))"
proof -
  have "jget s ''type'' = JStr ''object''" "jget s ''properties'' = JObj ps"
    and "rmap (strict_child s ptr) ps = Inr (map (\<lambda>p. (fst p, strict_value s (fst p) (snd p))) ps)"
    using assms by (auto simp: flat_object_def closed_object_def list_all_iff intro!: rmap_all_ok strict_child_leaf)
  then show ?thesis by (simp add: strictify_object)
qed

lemma dkeys_map_values [simp]: "dkeys (map (\<lambda>p. (fst p, f (fst p) (snd p))) d) = dkeys d"
  by (induction d) (simp_all add: dkeys_def)

lemma dict_ok_iff: "dict_ok d \<longleftrightarrow> distinct (dkeys d)"
  by (simp add: dict_ok_def dkeys_def)

lemma jget_ddel: "jget (ddel ks d) k = (if k \<in> set ks then JNull else jget d k)"
  by (simp add: jget_def dget_ddel)

lemma dkeys_ddel: "set (dkeys (ddel ks d)) = set (dkeys d) - set ks"
  by (auto simp: dkeys_def ddel_def)

lemma closed_object_ddel: "closed_object s ps rs \<Longrightarrow> closed_object (ddel [''$schema''] s) ps rs"
  by (auto simp: closed_object_def jget_ddel dkeys_ddel)

lemma flat_object_ddel: "flat_object s ps rs \<Longrightarrow> flat_object (ddel [''$schema''] s) ps rs"
  by (simp add: flat_object_def closed_object_ddel)

definition strict_properties :: "json dict \<Rightarrow> json dict \<Rightarrow> json dict" where
  "strict_properties s ps = map (\<lambda>p. (fst p, strict_value s (fst p) (snd p))) ps"

lemma strict_lookup: "dget (strict_properties s ps) n = map_option (strict_value s n) (dget ps n)"
  by (simp add: strict_properties_def dget_map_values)

lemma close_strict_closed:
  assumes "flat_object s ps rs"
  shows "closed_object (close_strict s (strict_properties s ps)) (strict_properties s ps) (dkeys ps)"
proof -
  have s: "jget s ''properties'' = JObj ps" "jget s ''type'' = JStr ''object''" "distinct (dkeys ps)"
    "set (dkeys s) \<subseteq> set OBJECT_KEYWORDS"
    and obj: "\<forall>p\<in>set ps. is_obj (snd p)"
    using assms by (simp_all add: flat_object_def closed_object_def dict_ok_iff list_all_iff)
  have "list_all (\<lambda>p. is_obj (snd p)) (strict_properties s ps)"
    using obj by (simp add: list_all_iff strict_properties_def strict_value_def)
  moreover have "dkeys (strict_properties s ps) = dkeys ps" by (simp add: strict_properties_def)
  moreover have "set (dkeys (close_strict s (strict_properties s ps))) \<subseteq> set OBJECT_KEYWORDS"
    using s(4) by (simp add: close_strict_def dkeys_dset OBJECT_KEYWORDS_def)
  ultimately show ?thesis
    using s by (simp add: closed_object_def close_strict_def jget_dset dict_ok_iff)
qed

lemma validator_object:
  "documented_validator V \<Longrightarrow> closed_object s ps rs \<Longrightarrow>
     V s (JObj a) \<longleftrightarrow> set rs \<subseteq> set (dkeys a) \<and> (\<forall>(n, v)\<in>set a. \<exists>d. dget ps n = Some (JObj d) \<and> V d v)"
  unfolding documented_validator_def by blast

lemma validator_widened:
  "documented_validator V \<Longrightarrow> leaf_property (JObj d) \<Longrightarrow> V (widened d) v \<longleftrightarrow> v = JNull \<or> V d v"
  using allow_null_leaf [of d "[]"] unfolding documented_validator_def leaf_property_def by simp blast

lemma validator_null:
  "documented_validator V \<Longrightarrow> leaf_property (JObj d) \<Longrightarrow> \<not> V d JNull"
  using leaf_property_obj [of "JObj d"] unfolding documented_validator_def by blast

lemma flat_leaf: "flat_object s ps rs \<Longrightarrow> dget ps n = Some v \<Longrightarrow> leaf_property v"
  by (auto simp: flat_object_def list_all_iff dest!: dget_Some_in)

text \<open>What a strict projection accepts, property by property.\<close>

lemma strict_accepts:
  assumes V: "documented_validator V" and flat: "flat_object s ps rs"
  shows "V (close_strict s (strict_properties s ps)) (JObj a) \<longleftrightarrow>
    set (dkeys ps) \<subseteq> set (dkeys a) \<and>
    (\<forall>(n, v)\<in>set a. \<exists>d. dget ps n = Some (JObj d) \<and> (V d v \<or> is_optional s n \<and> v = JNull))"
proof -
  have "(\<exists>d. dget (strict_properties s ps) n = Some (JObj d) \<and> V d v) \<longleftrightarrow>
      (\<exists>d. dget ps n = Some (JObj d) \<and> (V d v \<or> is_optional s n \<and> v = JNull))" for n v
  proof (cases "dget ps n")
    case (Some w)
    from leaf_property_obj [OF flat_leaf [OF flat this]] obtain d where "w = JObj d" by blast
    with flat_leaf [OF flat Some] show ?thesis
      using validator_widened [OF V, of d v]
      by (auto simp: Some strict_lookup strict_value_def)
  qed (simp add: strict_lookup)
  then show ?thesis
    by (simp add: validator_object [OF V close_strict_closed [OF flat]])
qed

lemma strictify_projects:
  assumes "flat_object s ps rs"
  shows "strictify ptr (ddel [''$schema''] s) =
    Inr (close_strict (ddel [''$schema''] s) (strict_properties (ddel [''$schema''] s) ps))"
  using strictify_flat [OF flat_object_ddel [OF assms]] by (simp add: strict_properties_def)

section \<open>Strict calls and canonical calls\<close>

lemma is_placeholder_flat:
  assumes "flat_object s ps rs"
  shows "is_placeholder ps (required_names s) (n, v) \<longleftrightarrow> v = JNull \<and> n \<in> set (dkeys ps) \<and> n \<notin> set rs"
proof -
  have "required_names s = map JStr rs" using assms by (simp add: flat_object_def closed_object_def required_names_def)
  moreover have "(case jget ps n of JObj d \<Rightarrow> \<not> declares_null d | _ \<Rightarrow> False) \<longleftrightarrow> n \<in> set (dkeys ps)"
  proof (cases "dget ps n")
    case None
    then have "n \<notin> set (dkeys ps)" by (simp add: dget_None_iff)
    with None show ?thesis by (simp add: jget_def)
  next
    case (Some w)
    from leaf_property_obj [OF flat_leaf [OF assms this]] obtain d t
      where "w = JObj d" "jget d ''type'' = JStr t" "t \<noteq> ''null''" by blast
    moreover have "n \<in> set (dkeys ps)" using Some by (metis dget_None_iff option.distinct(1))
    ultimately show ?thesis using Some by (simp add: jget_def [of ps] declares_null_def)
  qed
  ultimately show ?thesis by (auto simp: is_placeholder_def)
qed

lemma normalize_flat:
  assumes "flat_object s ps rs"
  shows "normalize_provider_arguments s (JObj a) = Inr (filter (\<lambda>p. \<not> is_placeholder ps (required_names s) p) a)"
proof -
  have "jget s ''properties'' = JObj ps" "required_names s = map JStr rs"
    using assms by (simp_all add: flat_object_def closed_object_def required_names_def)
  then show ?thesis by (simp add: normalize_provider_arguments_def list_all_iff)
qed

lemma optional_flat: "flat_object s ps rs \<Longrightarrow> is_optional s n \<longleftrightarrow> n \<notin> set rs"
  by (simp add: flat_object_def closed_object_def is_optional_def required_names_def)

text \<open>The arguments of a canonical call with a placeholder for every optional one that is missing.\<close>

definition with_placeholders :: "json dict \<Rightarrow> json dict \<Rightarrow> json dict" where
  "with_placeholders ps a = a @ map (\<lambda>n. (n, JNull)) (filter (\<lambda>n. n \<notin> set (dkeys a)) (dkeys ps))"

lemma strict_call_is_canonical:
  assumes V: "documented_validator V" and flat: "flat_object s ps rs"
    and acc: "V (close_strict s (strict_properties s ps)) (JObj a)"
  shows "V s (JObj (filter (\<lambda>p. \<not> is_placeholder ps (required_names s) p) a))"
proof -
  from acc have keys: "set (dkeys ps) \<subseteq> set (dkeys a)"
    and vals: "\<forall>(n, v)\<in>set a. \<exists>d. dget ps n = Some (JObj d) \<and> (V d v \<or> is_optional s n \<and> v = JNull)"
    by (simp_all add: strict_accepts [OF V flat])
  have "n \<in> set (dkeys (filter (\<lambda>p. \<not> is_placeholder ps (required_names s) p) a))" if "n \<in> set rs" for n
  proof -
    from that flat keys have "n \<in> set (dkeys a)" by (auto simp: flat_object_def)
    then obtain v where "(n, v) \<in> set a" by (auto simp: dkeys_def)
    with that show ?thesis by (force simp: dkeys_def is_placeholder_flat [OF flat])
  qed
  moreover have "\<exists>d. dget ps n = Some (JObj d) \<and> V d v"
    if "(n, v) \<in> set a" "\<not> is_placeholder ps (required_names s) (n, v)" for n v
  proof -
    from vals that(1) obtain d where d: "dget ps n = Some (JObj d)" "V d v \<or> is_optional s n \<and> v = JNull" by blast
    then have "n \<in> set (dkeys ps)" by (metis dget_None_iff option.distinct(1))
    with d that(2) show ?thesis by (auto simp: is_placeholder_flat [OF flat] optional_flat [OF flat])
  qed
  moreover have "closed_object s ps rs" using flat by (simp add: flat_object_def)
  ultimately show ?thesis by (auto simp: validator_object [OF V])
qed

lemma canonical_call_is_strict:
  assumes V: "documented_validator V" and flat: "flat_object s ps rs" and acc: "V s (JObj a)"
  shows "V (close_strict s (strict_properties s ps)) (JObj (with_placeholders ps a))"
    and "filter (\<lambda>p. \<not> is_placeholder ps (required_names s) p) (with_placeholders ps a) = a"
proof -
  have "closed_object s ps rs" using flat by (simp add: flat_object_def)
  then have req: "set rs \<subseteq> set (dkeys a)" and vals: "\<forall>(n, v)\<in>set a. \<exists>d. dget ps n = Some (JObj d) \<and> V d v"
    using acc by (simp_all add: validator_object [OF V])
  have "set (dkeys ps) \<subseteq> set (dkeys (with_placeholders ps a))" by (auto simp: with_placeholders_def dkeys_def)
  moreover have "\<exists>d. dget ps n = Some (JObj d)" if "n \<in> set (dkeys ps)" for n
    using that flat_leaf [OF flat, of n] leaf_property_obj by (metis dget_None_iff option.exhaust)
  ultimately show "V (close_strict s (strict_properties s ps)) (JObj (with_placeholders ps a))"
    using vals req unfolding strict_accepts [OF V flat]
    by (fastforce simp: with_placeholders_def optional_flat [OF flat])
  have "\<not> is_placeholder ps (required_names s) (n, v)" if nv: "(n, v) \<in> set a" for n v
  proof -
    from vals nv obtain d where "dget ps n = Some (JObj d)" "V d v" by blast
    with flat_leaf [OF flat] validator_null [OF V] have "v \<noteq> JNull" by blast
    then show ?thesis by (simp add: is_placeholder_flat [OF flat])
  qed
  then have "filter (\<lambda>p. \<not> is_placeholder ps (required_names s) p) a = a" by (auto intro: filter_True)
  moreover have "filter (\<lambda>p. \<not> is_placeholder ps (required_names s) p)
      (map (\<lambda>n. (n, JNull)) (filter (\<lambda>n. n \<notin> set (dkeys a)) (dkeys ps))) = []"
    using req by (auto simp: filter_empty_conv is_placeholder_flat [OF flat])
  ultimately show "filter (\<lambda>p. \<not> is_placeholder ps (required_names s) p) (with_placeholders ps a) = a"
    by (simp add: with_placeholders_def)
qed

text \<open>
  C36: For a schema whose properties hold no objects the OpenAI projection is reversible: undoing the
  normalization of the strict calls gives exactly the canonical calls. Whatever arguments the strict schema
  accepts, removing the placeholders leaves arguments that the canonical schema accepts, and every canonical
  call is obtained in this way.
\<close>

theorem strict_projection_is_reversible:
  assumes "documented_validator V" and "flat_object s ps rs"
  shows "\<exists>s'. strictify [] (ddel [''$schema''] s) = Inr s' \<and>
    (\<forall>a. V s' (JObj a) \<longrightarrow> (\<exists>a'. normalize_provider_arguments s (JObj a) = Inr a' \<and> V s (JObj a'))) \<and>
    (\<forall>a'. V s (JObj a') \<longrightarrow> (\<exists>a. V s' (JObj a) \<and> normalize_provider_arguments s (JObj a) = Inr a'))"
proof -
  let ?d = "ddel [''$schema''] s"
  have same: "V ?d v = V s v" if "v = JObj a" for v a
    using validator_object [OF assms(1), of s ps rs] validator_object [OF assms(1) closed_object_ddel, of s ps rs]
      assms(2) that by (simp add: flat_object_def)
  have req: "required_names ?d = required_names s" by (simp add: required_names_def jget_ddel)
  note flat = flat_object_ddel [OF assms(2)]
  show ?thesis
    using strict_call_is_canonical [OF assms(1) flat] canonical_call_is_strict [OF assms(1) flat]
      strictify_projects [OF assms(2)] normalize_flat [OF assms(2)]
    by (auto simp: req same)
qed

section \<open>A validator and its limits\<close>

text \<open>A validator for the keywords of closed objects, types and enumerations: an instance of the hypotheses.\<close>

definition type_admits :: "json \<Rightarrow> json \<Rightarrow> bool" where
  "type_admits t v =
     (case t of
        JStr s \<Rightarrow> matches_type v s
      | JArr ts \<Rightarrow> list_ex (\<lambda>u. case u of JStr s \<Rightarrow> matches_type v s | _ \<Rightarrow> False) ts
      | _ \<Rightarrow> True)"

function sample_validator :: "json dict \<Rightarrow> json \<Rightarrow> bool" where
  "sample_validator d v \<longleftrightarrow>
     type_admits (jget d ''type'') v \<and>
     (case jget d ''enum'' of JArr vs \<Rightarrow> py_in v vs | _ \<Rightarrow> True) \<and>
     (case v of
        JObj a \<Rightarrow>
          list_all (\<lambda>p.
            case dget (obj_of (jget d ''properties'')) (fst p) of
              Some (JObj c) \<Rightarrow> sample_validator c (snd p)
            | Some _ \<Rightarrow> True
            | None \<Rightarrow> jget d ''additionalProperties'' \<noteq> JBool False) a \<and>
          list_all (\<lambda>r. str_of r \<in> set (dkeys a)) (arr_of (jget d ''required''))
      | _ \<Rightarrow> True)"
  by pat_completeness auto
termination
  by (relation "measure (\<lambda>(d, v). size v)") (auto dest: size_obj_elem')

declare sample_validator.simps [simp del]

lemma py_eq_null [simp]: "py_eq v JNull \<longleftrightarrow> v = JNull"
  by (cases v) (simp_all add: py_eq.simps [of _ JNull])

lemma matches_null [simp]: "matches_type v ''null'' \<longleftrightarrow> v = JNull"
  by (simp add: matches_type.simps)

lemma not_matches_null: "t \<noteq> ''null'' \<Longrightarrow> \<not> matches_type JNull t"
  by (simp add: matches_type.simps)

lemma py_eq_text: "py_eq (JStr s) v \<longleftrightarrow> v = JStr s"
  by (cases v) (auto simp: py_eq.simps [of "JStr s"])

lemma widen_type_admits:
  assumes "widen_type d ptr = Inr s"
  shows "type_admits (jget s ''type'') v \<longleftrightarrow> v = JNull \<or> type_admits (jget d ''type'') v"
    and "k \<noteq> ''type'' \<Longrightarrow> jget s k = jget d k"
proof -
  consider ts where "jget d ''type'' = JArr ts" "JStr ''null'' \<in> set ts" "s = d"
    | ts where "jget d ''type'' = JArr ts" "s = dset ''type'' (JArr (ts @ [JStr ''null''])) d"
    | "jget d ''type'' = JStr ''null''" "s = d"
    | t where "jget d ''type'' = JStr t" "s = dset ''type'' (JArr [JStr t, JStr ''null'']) d"
    using assms by (auto simp: widen_type_def py_in_def list_ex_iff py_eq_text split: json.splits if_splits)
  then show "type_admits (jget s ''type'') v \<longleftrightarrow> v = JNull \<or> type_admits (jget d ''type'') v"
  proof cases
    case 1
    then have "type_admits (jget d ''type'') JNull" by (force simp: type_admits_def list_ex_iff)
    with 1 show ?thesis by auto
  qed (auto simp: type_admits_def jget_dset)
  show "jget s k = jget d k" if "k \<noteq> ''type''"
    using assms that by (auto simp: widen_type_def jget_dset split: json.splits if_splits)
qed

lemma widen_enum_admits:
  "(case jget (widen_enum d) ''enum'' of JArr vs \<Rightarrow> py_in v vs | _ \<Rightarrow> True) \<longleftrightarrow>
     (v = JNull \<or> (case jget d ''enum'' of JArr vs \<Rightarrow> py_in v vs | _ \<Rightarrow> True))"
  "k \<noteq> ''enum'' \<Longrightarrow> jget (widen_enum d) k = jget d k"
  by (cases "jget d ''enum''"; auto simp: widen_enum_def jget_dset py_in_def list_ex_iff)+

lemma sample_widened:
  assumes "allow_null d ptr = Inr d'"
  shows "sample_validator d' v \<longleftrightarrow> v = JNull \<or> sample_validator d v"
proof -
  from assms obtain s where s: "widen_type d ptr = Inr s" "d' = widen_enum s"
    by (auto simp: allow_null_def res_simps)
  have other: "jget d' ''properties'' = jget d ''properties''" "jget d' ''required'' = jget d ''required''"
    "jget d' ''additionalProperties'' = jget d ''additionalProperties''"
    using widen_type_admits(2) [OF s(1)] by (simp_all add: s(2) widen_enum_admits)
  have ty: "type_admits (jget d' ''type'') v \<longleftrightarrow> v = JNull \<or> type_admits (jget d ''type'') v"
    using widen_type_admits(1) [OF s(1)] by (simp add: s(2) widen_enum_admits)
  have enum: "(case jget d' ''enum'' of JArr vs \<Rightarrow> py_in v vs | _ \<Rightarrow> True) \<longleftrightarrow>
      v = JNull \<or> (case jget d ''enum'' of JArr vs \<Rightarrow> py_in v vs | _ \<Rightarrow> True)"
    using widen_enum_admits(1) [of v s] widen_type_admits(2) [OF s(1), of "''enum''"] by (simp add: s(2))
  show ?thesis
    unfolding sample_validator.simps [of d' v] sample_validator.simps [of d v] ty enum other
    by (cases "v = JNull") auto
qed

lemma sample_documented: "documented_validator sample_validator"
proof -
  have "sample_validator s (JObj a) \<longleftrightarrow>
      set rs \<subseteq> set (dkeys a) \<and> (\<forall>(n, v)\<in>set a. \<exists>d. dget ps n = Some (JObj d) \<and> sample_validator d v)"
    if s: "closed_object s ps rs" for s ps rs a
  proof -
    have "''enum'' \<notin> set (dkeys s)" using s by (auto simp: closed_object_def OBJECT_KEYWORDS_def)
    then have "dget s ''enum'' = None" by (simp add: dget_None_iff)
    then have "jget s ''enum'' = JNull" by (simp add: jget_def)
    moreover have fields: "jget s ''type'' = JStr ''object''" "jget s ''properties'' = JObj ps"
      "jget s ''required'' = JArr (map JStr rs)" "jget s ''additionalProperties'' = JBool False"
      "matches_type (JObj a) ''object''"
      using s by (simp_all add: closed_object_def matches_type.simps)
    moreover have "(case dget ps n of Some (JObj c) \<Rightarrow> sample_validator c v | Some _ \<Rightarrow> True | None \<Rightarrow> False) \<longleftrightarrow>
        (\<exists>d. dget ps n = Some (JObj d) \<and> sample_validator d v)" for n v
      using s by (auto simp: closed_object_def list_all_iff is_obj_iff split: option.splits json.splits
          dest!: dget_Some_in)
    ultimately show ?thesis
      unfolding sample_validator.simps [of s]
      by (auto simp: type_admits_def list_all_iff split_def subset_iff cong: option.case_cong)
  qed
  moreover have "\<not> sample_validator d JNull" if "jget d ''type'' = JStr t" "t \<noteq> ''null''" for d t
    using that by (simp add: sample_validator.simps [of d] type_admits_def not_matches_null)
  ultimately show ?thesis
    unfolding documented_validator_def using sample_widened by blast
qed

definition example_flat :: "json dict" where
  "example_flat =
     [(''$schema'', JStr DRAFT_2020_12), (''type'', JStr ''object''),
      (''properties'', JObj [(''id'', JObj [(''type'', JStr ''string'')]),
         (''page'', JObj [(''type'', JStr ''integer''), (''enum'', JArr [JInt 1, JInt 2])])]),
      (''required'', JArr [JStr ''id'']), (''additionalProperties'', JBool False)]"

lemma strict_projection_is_reversible_witness:
  "\<exists>s' a. strictify [] (ddel [''$schema''] example_flat) = Inr s' \<and> sample_validator s' (JObj a) \<and>
     normalize_provider_arguments example_flat (JObj a) = Inr [(''id'', JStr ''x'')]"
proof -
  have flat: "flat_object example_flat (obj_of (jget example_flat ''properties'')) [''id'']"
    by (simp add: flat_object_def closed_object_def jget_def dkeys_def OBJECT_KEYWORDS_def dict_ok_def
        leaf_property_def unsupported_keywords_def SUPPORTED_SCHEMA_KEYWORDS_def example_flat_def)
  have "sample_validator example_flat (JObj [(''id'', JStr ''x'')])" by code_simp
  then show ?thesis
    using strict_projection_is_reversible [OF sample_documented flat] by blast
qed

section \<open>Strict projections of nested objects\<close>

text \<open>The projection of any closed object: it is a closed object that requires every property.\<close>

definition child_pointer :: "string \<Rightarrow> string \<Rightarrow> string" where
  "child_pointer ptr n = ptr @ ''/properties/'' @ encode_pointer_token n"

lemma strict_child_Inr:
  "strict_child s ptr (n, JObj val) = Inr p \<longleftrightarrow>
     (\<exists>child c' d. strictify (child_pointer ptr n) val = Inr child \<and>
        (case jget val ''items'' of
           JObj i \<Rightarrow> rbind (strictify (child_pointer ptr n @ ''/items'') i) (\<lambda>i'. Inr (dset ''items'' (JObj i') child))
         | _ \<Rightarrow> Inr child) = Inr c' \<and>
        (if is_optional s n then allow_null c' (child_pointer ptr n) else Inr c') = Inr d \<and> p = (n, JObj d))"
  unfolding strict_child_def Let_def fst_conv snd_conv json.case child_pointer_def [symmetric] rbind_eq_Inr sum.inject
  by blast

lemma strict_child_key: "strict_child s ptr p = Inr p' \<Longrightarrow> fst p' = fst p \<and> is_obj (snd p')"
  by (cases p; cases "snd p") (auto simp: strict_child_Inr, auto simp: strict_child_def Let_def)

lemma strict_children:
  "rmap (strict_child s ptr) ps = Inr ps' \<Longrightarrow>
     dkeys ps' = dkeys ps \<and> list_all (\<lambda>p. is_obj (snd p)) ps' \<and>
     (\<forall>n v. dget ps n = Some v \<longrightarrow> (\<exists>v'. strict_child s ptr (n, v) = Inr (n, v') \<and> dget ps' n = Some v'))"
proof (induction ps arbitrary: ps')
  case (Cons p ps)
  then obtain p' qs where p': "strict_child s ptr p = Inr p'" and qs: "rmap (strict_child s ptr) ps = Inr qs"
    and ps': "ps' = p' # qs" by (auto simp: res_simps)
  from strict_child_key [OF p'] Cons.IH [OF qs] p' show ?case
    by (cases p; cases p') (auto simp: ps' dkeys_def)
qed (simp add: dkeys_def)

lemma strictified_object:
  assumes "closed_object s ps rs" and "strictify ptr s = Inr s'"
  obtains ps' where "rmap (strict_child s ptr) ps = Inr ps'" and "closed_object s' ps' (dkeys ps)"
proof -
  from assms(1) have s: "jget s ''type'' = JStr ''object''" "jget s ''properties'' = JObj ps"
    "distinct (dkeys ps)" "set (dkeys s) \<subseteq> set OBJECT_KEYWORDS" by (simp_all add: closed_object_def dict_ok_iff)
  with assms(2) obtain ps' where ps': "rmap (strict_child s ptr) ps = Inr ps'" and s': "s' = close_strict s ps'"
    by (auto simp: strictify_object res_simps)
  have "set (dkeys s') \<subseteq> set OBJECT_KEYWORDS"
    using s(4) by (simp add: s' close_strict_def dkeys_dset OBJECT_KEYWORDS_def)
  with s strict_children [OF ps'] have "closed_object s' ps' (dkeys ps)"
    by (simp add: s' closed_object_def close_strict_def jget_dset dict_ok_iff)
  with ps' show thesis by (rule that)
qed

lemma supported_iff: "unsupported_keywords d = [] \<longleftrightarrow> set (dkeys d) \<subseteq> set SUPPORTED_SCHEMA_KEYWORDS"
  by (auto simp: unsupported_keywords_def sort_Nil_iff filter_empty_conv)

lemma supported_dset:
  "unsupported_keywords d = [] \<Longrightarrow> k \<in> set SUPPORTED_SCHEMA_KEYWORDS \<Longrightarrow> unsupported_keywords (dset k v d) = []"
  by (auto simp: supported_iff dkeys_dset)

lemma closed_object_supported: "closed_object s ps rs \<Longrightarrow> unsupported_keywords s = []"
proof -
  have "set OBJECT_KEYWORDS \<subseteq> set SUPPORTED_SCHEMA_KEYWORDS"
    by (simp add: OBJECT_KEYWORDS_def SUPPORTED_SCHEMA_KEYWORDS_def)
  then show "closed_object s ps rs \<Longrightarrow> unsupported_keywords s = []" by (auto simp: closed_object_def supported_iff)
qed

lemma strictify_supported:
  "strictify ptr d = Inr d' \<Longrightarrow> unsupported_keywords d = [] \<Longrightarrow> unsupported_keywords d' = []"
  unfolding strictify.simps [of ptr d]
  by (auto simp: res_simps close_strict_def supported_dset SUPPORTED_SCHEMA_KEYWORDS_def split: if_splits json.splits)

lemma closed_object_items: "closed_object s ps rs \<Longrightarrow> jget s ''items'' = JNull"
proof -
  assume "closed_object s ps rs"
  then have "''items'' \<notin> set (dkeys s)" by (auto simp: closed_object_def OBJECT_KEYWORDS_def)
  then show ?thesis by (simp add: jget_def dget_None_iff [symmetric])
qed

lemma closed_object_optional: "closed_object s ps rs \<Longrightarrow> is_optional s n \<longleftrightarrow> n \<notin> set rs"
  by (simp add: closed_object_def is_optional_def required_names_def)

lemma validator_nullable:
  "documented_validator V \<Longrightarrow> unsupported_keywords d = [] \<Longrightarrow> allow_null d ptr = Inr d' \<Longrightarrow>
     V d' v \<longleftrightarrow> v = JNull \<or> V d v"
  unfolding documented_validator_def by blast

text \<open>A null is admitted for an optional property, and an object argument is admitted as its own projection says.\<close>

lemma optional_admits_null:
  assumes V: "documented_validator V" and "strict_child s ptr (q, JObj c) = Inr (q, v)" and "is_optional s q"
    and "unsupported_keywords c = []"
  shows "\<exists>d. v = JObj d \<and> V d JNull"
proof -
  let ?p = "child_pointer ptr q"
  from assms(2,3) obtain child c' d where child: "strictify ?p c = Inr child"
    and c': "(case jget c ''items'' of
           JObj i \<Rightarrow> rbind (strictify (?p @ ''/items'') i) (\<lambda>i'. Inr (dset ''items'' (JObj i') child))
         | _ \<Rightarrow> Inr child) = Inr c'"
    and d: "allow_null c' ?p = Inr d" "v = JObj d"
    by (auto simp: strict_child_Inr)
  have "unsupported_keywords child = []" by (rule strictify_supported [OF child assms(4)])
  with c' have "unsupported_keywords c' = []"
    by (auto simp: res_simps supported_dset SUPPORTED_SCHEMA_KEYWORDS_def split: json.splits)
  with validator_nullable [OF V _ d(1)] d(2) show ?thesis by blast
qed

lemma object_argument_admits:
  assumes V: "documented_validator V" and "strict_child s ptr (n, JObj i) = Inr (n, v)" and "closed_object i qs irs"
  obtains d i' where "v = JObj d" and "strictify (child_pointer ptr n) i = Inr i'"
    and "\<And>b. V d (JObj b) \<longleftrightarrow> V i' (JObj b)"
proof -
  let ?p = "child_pointer ptr n"
  from assms(2) closed_object_items [OF assms(3)] obtain i' d where i': "strictify ?p i = Inr i'"
    and d: "(if is_optional s n then allow_null i' ?p else Inr i') = Inr d" "v = JObj d"
    by (auto simp: strict_child_Inr)
  have "unsupported_keywords i' = []" by (rule strictify_supported [OF i' closed_object_supported [OF assms(3)]])
  with d(1) validator_nullable [OF V, of i' ?p d] have "V d (JObj b) \<longleftrightarrow> V i' (JObj b)" for b
    by (auto split: if_splits)
  with d(2) i' show thesis by (rule that)
qed

lemma dset_member: "(k, v) \<in> set (dset k v d)"
  by (induction d) auto

text \<open>What a closed object admits, it admits with one value replaced by another that its property admits.\<close>

lemma validator_dset:
  assumes V: "documented_validator V" and s: "closed_object s ps rs" and "V s (JObj a)"
    and "dget ps n = Some (JObj d)" and "V d v"
  shows "V s (JObj (dset n v a))"
  using assms(3-5) unfolding validator_object [OF V s]
  by (auto simp: dkeys_dset dest!: dset_elem)

text \<open>A tool with an object argument that has an optional property, and a strict call that omits it.\<close>

definition nested_schema :: "json dict" where
  "nested_schema =
     [(''type'', JStr ''object''),
      (''properties'', JObj [(''filter'', JObj
         [(''type'', JStr ''object''), (''properties'', JObj [(''q'', JObj [(''type'', JStr ''string'')])]),
          (''required'', JArr []), (''additionalProperties'', JBool False)])]),
      (''required'', JArr [JStr ''filter'']), (''additionalProperties'', JBool False)]"

definition nested_call :: "json dict" where
  "nested_call = [(''filter'', JObj [(''q'', JNull)])]"

lemma closed_object_nested:
  "closed_object nested_schema (obj_of (jget nested_schema ''properties'')) [''filter'']"
  by (simp add: closed_object_def nested_schema_def jget_def dkeys_def OBJECT_KEYWORDS_def dict_ok_def)

text \<open>
  C37: Below the top level the normalization is not undone. Take any closed schema with an object argument \<open>n\<close>,
  any optional property \<open>q\<close> of that object whose declared type is not \<^verbatim>\<open>null\<close>, and any call that the strict
  schema accepts and that gives \<open>n\<close> as an object. The strict schema forces the call to mention \<open>q\<close>, and
  accepts \<^verbatim>\<open>null\<close> there, the placeholder for an omitted property. But \<open>normalize_provider_arguments\<close> only looks
  at the top level: the placeholder stays in the argument, and the canonical schema rejects the call.
\<close>

theorem nested_placeholder_is_rejected:
  assumes "documented_validator V" and "closed_object s ps rs"
    and "dget ps n = Some (JObj i)" and "closed_object i qs irs"
    and "dget qs q = Some (JObj c)" and "q \<notin> set irs" and "unsupported_keywords c = []"
    and "jget c ''type'' = JStr t" and "t \<noteq> ''null''"
    and "strictify [] (ddel [''$schema''] s) = Inr s'" and "V s' (JObj a)" and "(n, JObj b) \<in> set a"
    and "b0 = dset q JNull b" and "a0 = dset n (JObj b0) a"
  shows "q \<in> set (dkeys b) \<and> V s' (JObj a0) \<and>
    (\<exists>a1. normalize_provider_arguments s (JObj a0) = Inr a1 \<and> (n, JObj b0) \<in> set a1 \<and> \<not> V s (JObj a1))"
proof -
  note V = assms(1)
  obtain ps' where ps': "rmap (strict_child (ddel [''$schema''] s) []) ps = Inr ps'" "closed_object s' ps' (dkeys ps)"
    using strictified_object [OF closed_object_ddel [OF assms(2)] assms(10)] by blast
  then obtain v where v: "strict_child (ddel [''$schema''] s) [] (n, JObj i) = Inr (n, v)" "dget ps' n = Some v"
    using strict_children assms(3) by blast
  from object_argument_admits [OF V v(1) assms(4)] obtain d i' where d: "v = JObj d"
    and i': "strictify (child_pointer [] n) i = Inr i'"
    and same: "\<And>b. V d (JObj b) \<longleftrightarrow> V i' (JObj b)" by blast
  obtain qs' where qs': "rmap (strict_child i (child_pointer [] n)) qs = Inr qs'"
    "closed_object i' qs' (dkeys qs)"
    using strictified_object [OF assms(4) i'] by blast
  then obtain w where w: "strict_child i (child_pointer [] n) (q, JObj c) = Inr (q, w)"
    "dget qs' q = Some w" using strict_children assms(5) by blast
  obtain c' where c': "w = JObj c'" "V c' JNull"
    using optional_admits_null [OF V w(1) _ assms(7)] closed_object_optional [OF assms(4)] assms(6) by blast
  have "V d (JObj b)"
    using assms(11,12) v(2) d unfolding validator_object [OF V ps'(2)] by fastforce
  then have b: "V i' (JObj b)" by (simp add: same)
  have "q \<in> set (dkeys qs)" using assms(5) by (metis dget_None_iff option.distinct(1))
  with b have "q \<in> set (dkeys b)" unfolding validator_object [OF V qs'(2)] by blast
  moreover have "V i' (JObj b0)"
    unfolding assms(13) by (rule validator_dset [OF V qs'(2) b]) (use w(2) c' in simp_all)
  then have "V s' (JObj a0)"
    unfolding assms(14) same [symmetric] using v(2) d by (intro validator_dset [OF V ps'(2) assms(11)]) simp_all
  moreover have "\<not> V i (JObj b0)"
    using dset_member [of q JNull b] assms(1,5,8,9,13)
    unfolding validator_object [OF V assms(4)] documented_validator_def by force
  moreover obtain a1 where "normalize_provider_arguments s (JObj a0) = Inr a1" "(n, JObj b0) \<in> set a1"
    using assms(2) dset_member [of n "JObj b0" a]
    by (simp add: normalize_provider_arguments_def closed_object_def required_names_def list_all_iff is_placeholder_def
        assms(14))
  ultimately show ?thesis using assms(3) unfolding validator_object [OF V assms(2)] by fastforce
qed

lemma nested_placeholder_is_rejected_witness:
  "\<exists>s' a1. strictify [] (ddel [''$schema''] nested_schema) = Inr s' \<and> sample_validator s' (JObj nested_call) \<and>
     normalize_provider_arguments nested_schema (JObj nested_call) = Inr a1 \<and> \<not> sample_validator nested_schema (JObj a1)"
proof -
  let ?ps = "obj_of (jget nested_schema ''properties'')"
  let ?i = "obj_of (jget ?ps ''filter'')"
  let ?qs = "obj_of (jget ?i ''properties'')"
  let ?s' = "projr (strictify [] (ddel [''$schema''] nested_schema))"
  have parts: "dget ?ps ''filter'' = Some (JObj ?i)" "dget ?qs ''q'' = Some (JObj [(''type'', JStr ''string'')])"
    "unsupported_keywords [(''type'', JStr ''string'')] = []" "strictify [] (ddel [''$schema''] nested_schema) = Inr ?s'"
    "sample_validator ?s' (JObj [(''filter'', JObj [(''q'', JStr ''x'')])])" by code_simp+
  have inner: "closed_object ?i ?qs []"
    by (simp add: closed_object_def nested_schema_def jget_def dkeys_def OBJECT_KEYWORDS_def dict_ok_def)
  have "nested_call = dset ''filter'' (JObj (dset ''q'' JNull [(''q'', JStr ''x'')])) [(''filter'', JObj [(''q'', JStr ''x'')])]"
    by (simp add: nested_call_def)
  with nested_placeholder_is_rejected [OF sample_documented closed_object_nested parts(1) inner parts(2) _ parts(3) _ _
      parts(4,5) _ refl refl, of "''string''" "[(''q'', JStr ''x'')]"] parts(4)
  show ?thesis by (auto simp: jget_def)
qed

section \<open>Which converted tools can be projected\<close>

definition property_count :: "json dict \<Rightarrow> nat" where
  "property_count s =
     (if jget s ''type'' = JStr ''object'' then (case jget s ''properties'' of JObj ps \<Rightarrow> length ps | _ \<Rightarrow> 0) else 0)"

definition projectable_at :: "string \<times> json dict \<Rightarrow> bool" where
  "projectable_at sub \<longleftrightarrow>
     pointer_depth (fst sub) \<le> MAX_NESTING_DEPTH \<and> unsupported_keywords (snd sub) = [] \<and>
     \<not> type_unsupported (jget (snd sub) ''type'') \<and>
     (jget (snd sub) ''type'' = JStr ''object'' \<longrightarrow> jget (snd sub) ''additionalProperties'' = JBool False)"

lemma check_subschema_Inr:
  "check_subschema sub n = Inr m \<longleftrightarrow> projectable_at sub \<and> m = n + property_count (snd sub)"
  by (cases "jget (snd sub) ''properties''")
    (auto simp: check_subschema_def Let_def projectable_at_def property_count_def not_less)

lemma check_subschemas_Inr:
  "rfold check_subschema subs n = Inr m \<longleftrightarrow>
     list_all projectable_at subs \<and> m = n + sum_list (map (property_count \<circ> snd) subs)"
proof (induction subs arbitrary: n)
  case (Cons sub subs)
  then show ?case by (simp add: res_simps check_subschema_Inr conj_assoc add.assoc)
qed auto

lemma assert_projectable_Inr:
  "assert_projectable s = Inr u \<longleftrightarrow>
     list_all projectable_at (walk_schema [] s) \<and>
     sum_list (map (property_count \<circ> snd) (walk_schema [] s)) \<le> MAX_TOTAL_PROPERTIES"
  by (auto simp: assert_projectable_def res_simps check_subschemas_Inr not_less)

lemma no_unsupported_keywords: "unsupported_keywords s = [] \<longleftrightarrow> set (dkeys s) \<subseteq> set SUPPORTED_SCHEMA_KEYWORDS"
  by (auto simp: unsupported_keywords_def filter_empty_conv simp flip: set_empty)

lemma output_keywords_supported: "set (output_keywords t) \<subseteq> insert ''title'' (set SUPPORTED_SCHEMA_KEYWORDS)"
  by (cases "t = ''object''")
    (simp_all add: output_keywords_def ANNOTATION_KEYWORDS_def STRING_KEYWORDS_def NUMBER_KEYWORDS_def
      ARRAY_KEYWORDS_def SUPPORTED_SCHEMA_KEYWORDS_def)

lemma declares_keys: "declares t s \<Longrightarrow> set (dkeys s) \<subseteq> insert ''title'' (set SUPPORTED_SCHEMA_KEYWORDS)"
  using output_keywords_supported [of t] by (auto simp: declares_def)

lemma closed_schema_declares: "closed_schema n s \<Longrightarrow> \<exists>t. declares t s \<and>
    (t = ''object'' \<longrightarrow> jget s ''additionalProperties'' = JBool False)"
  by (induction rule: closed_schema.induct) (auto simp: jget_def)

text \<open>What distinguishes the converted schemas that can be projected.\<close>

definition plainly_typed :: "string \<times> json dict \<Rightarrow> bool" where
  "plainly_typed sub \<longleftrightarrow>
     pointer_depth (fst sub) \<le> MAX_NESTING_DEPTH \<and> \<not> dhas ''title'' (snd sub) \<and> is_str (jget (snd sub) ''type'')"

lemma closed_schema_projectable:
  assumes "closed_schema n s"
  shows "projectable_at (ptr, s) \<longleftrightarrow> plainly_typed (ptr, s)"
proof -
  from closed_schema_declares [OF assms] obtain t where t: "declares t s"
    "t = ''object'' \<longrightarrow> jget s ''additionalProperties'' = JBool False" by blast
  have ty: "jget s ''type'' \<in> {JStr t, JArr [JStr t, JStr ''null'']}" "t \<in> set ALL_TYPES"
    using t(1) by (simp_all add: declares_def)
  have "''title'' \<notin> set SUPPORTED_SCHEMA_KEYWORDS" by code_simp
  then have keys: "unsupported_keywords s = [] \<longleftrightarrow> \<not> dhas ''title'' s"
    using declares_keys [OF t(1)] unfolding no_unsupported_keywords dhas_iff dget_None_iff [symmetric]
    by (simp add: dget_None_iff) blast
  have "type_unsupported (jget s ''type'') \<longleftrightarrow> \<not> is_str (jget s ''type'')"
    using ty by (auto simp: type_unsupported_def ALL_TYPES_def SCALAR_TYPES_def SUPPORTED_TYPES_def)
  moreover have "jget s ''type'' = JStr ''object'' \<longrightarrow> jget s ''additionalProperties'' = JBool False"
    using ty t(2) by auto
  ultimately show ?thesis by (auto simp: projectable_at_def plainly_typed_def keys)
qed

lemma closed_schema_children:
  assumes "closed_schema n s"
  shows "jget s ''properties'' = JObj ps \<Longrightarrow> (k, JObj c) \<in> set ps \<Longrightarrow> \<exists>m. closed_schema m c"
    and "jget s ''items'' = JObj c \<Longrightarrow> \<exists>m. closed_schema m c"
proof -
  have absent: "jget s k = JNull" if "declares t s" "k \<notin> set (output_keywords t)" for t k
  proof -
    from that have "k \<notin> set (dkeys s)" by (auto simp: declares_def)
    then show ?thesis by (simp add: jget_def flip: dget_None_iff)
  qed
  show "\<exists>m. closed_schema m c" if "jget s ''properties'' = JObj ps" "(k, JObj c) \<in> set ps"
    using assms that
    by cases (auto simp: jget_def output_keywords_def ANNOTATION_KEYWORDS_def STRING_KEYWORDS_def
        NUMBER_KEYWORDS_def ARRAY_KEYWORDS_def dest!: absent [of _ "''properties''"] split: if_splits)
  show "\<exists>m. closed_schema m c" if "jget s ''items'' = JObj c"
    using assms that
    by cases (auto simp: jget_def output_keywords_def ANNOTATION_KEYWORDS_def STRING_KEYWORDS_def
        NUMBER_KEYWORDS_def ARRAY_KEYWORDS_def dest!: absent [of _ "''items''"] split: if_splits)
qed

lemma walk_cases:
  assumes "sub \<in> set (walk_schema ptr s)" and "sub \<noteq> (ptr, s)"
  obtains ps k c where "jget s ''properties'' = JObj ps" "(k, JObj c) \<in> set ps"
      "sub \<in> set (walk_schema (ptr @ ''/properties/'' @ encode_pointer_token k) c)"
    | c where "jget s ''items'' = JObj c" "sub \<in> set (walk_schema (ptr @ ''/items'') c)"
proof -
  have *: "\<exists>c. snd p = JObj c \<and> sub \<in> set (walk_schema (q p) c)"
    if "sub \<in> set (case snd p of JObj c \<Rightarrow> walk_schema (q p) c | _ \<Rightarrow> [])" for p :: "string \<times> json" and q
    using that by (cases "snd p") auto
  show thesis
    using assms that unfolding walk_schema.simps [of ptr s]
    by (cases "jget s ''properties''"; cases "jget s ''items''") (auto dest!: * simp: prod_eq_iff)
qed

lemma walk_closed:
  assumes "\<And>k c ps. jget s ''properties'' = JObj ps \<Longrightarrow> (k, JObj c) \<in> set ps \<Longrightarrow> \<exists>m. closed_schema m c"
    and "\<And>c. jget s ''items'' = JObj c \<Longrightarrow> \<exists>m. closed_schema m c"
    and "sub \<in> set (walk_schema ptr s)" and "sub \<noteq> (ptr, s)"
  shows "\<exists>m. closed_schema m (snd sub)"
  using assms
proof (induction ptr s rule: walk_schema.induct)
  case (1 ptr s)
  note IH = "1.IH" and props = "1.prems"(1) and items = "1.prems"(2)
  have child: "\<exists>m. closed_schema m (snd sub)" if "closed_schema m c" "sub \<in> set (walk_schema p c)"
    "(\<And>k d ps. jget c ''properties'' = JObj ps \<Longrightarrow> (k, JObj d) \<in> set ps \<Longrightarrow> \<exists>m. closed_schema m d) \<Longrightarrow>
     (\<And>d. jget c ''items'' = JObj d \<Longrightarrow> \<exists>m. closed_schema m d) \<Longrightarrow> sub \<in> set (walk_schema p c) \<Longrightarrow>
     sub \<noteq> (p, c) \<Longrightarrow> \<exists>m. closed_schema m (snd sub)" for m c p
    using that(1,2) that(3) [OF closed_schema_children(1) [OF that(1)] closed_schema_children(2) [OF that(1)] that(2)]
    by (cases "sub = (p, c)") auto
  from "1.prems"(3,4) show ?case
  proof (cases rule: walk_cases)
    case (1 ps k c)
    then obtain m where "closed_schema m c" using props by blast
    then show ?thesis using child [OF _ 1(3)] IH(1) [OF 1(1,2), of c] by simp
  next
    case (2 c)
    then obtain m where "closed_schema m c" using items by blast
    then show ?thesis using child [OF _ 2(2)] IH(2) [OF 2(1)] by simp
  qed
qed

lemma closed_schema_described:
  assumes "closed_schema n c"
  shows "closed_schema n (dset ''description'' (JStr d) c)"
proof -
  have keep: "declares t (dset ''description'' (JStr d) c)" if "declares t c" for t
    using that by (auto simp: declares_def jget_dset dkeys_dset output_keywords_def ANNOTATION_KEYWORDS_def)
  from assms show ?thesis
  proof cases
    case (closed_scalar t)
    then show ?thesis by (blast intro: closed_schema.closed_scalar keep)
  next
    case (closed_array i m)
    then have "closed_schema (Suc m) (dset ''description'' (JStr d) c)"
      by (intro closed_schema.closed_array [OF keep]) auto
    with closed_array show ?thesis by simp
  next
    case (closed_object ps m rs)
    then have "closed_schema (Suc m) (dset ''description'' (JStr d) c)"
      by (intro closed_schema.closed_object [OF keep, where ps = ps and rs = rs]) auto
    with closed_object show ?thesis by simp
  qed
qed

definition closed_properties :: "arguments_state \<Rightarrow> bool" where
  "closed_properties st \<longleftrightarrow> (\<forall>k v. (k, v) \<in> set (arg_properties st) \<longrightarrow> (\<exists>n c. v = JObj c \<and> closed_schema n c))"

lemma closed_properties_dset:
  "closed_properties st \<Longrightarrow> closed_schema n c \<Longrightarrow> arg_properties st' = dset k (JObj c) (arg_properties st) \<Longrightarrow>
     closed_properties st'"
  unfolding closed_properties_def by (metis dset_elem prod.inject)

lemma converted_properties_closed:
  assumes "convert_operation P path m item op = Inr t"
  shows "\<exists>st. input_schema t = tool_input_schema st \<and> closed_properties st"
proof -
  from assms obtain ps st media st' oid nm where
    st: "rfold add_parameter ps no_arguments = Inr st" and
    st': "convert_request_body op st = Inr (media, st')" and
    t: "build_tool op path (str_lower m) oid nm media st' = Inr t"
    by (auto simp: convert_operation_def Let_def res_simps split: if_splits)
  have "closed_properties st"
  proof (rule rfold_invariant [OF st])
    show "closed_properties no_arguments" by (simp add: closed_properties_def no_arguments_def)
    show "closed_properties s'" if "closed_properties s" "add_parameter p s = Inr s'" for p s s'
    proof -
      from that(2) have "\<exists>c d. convert_schema (''/parameters/'' @ param_name p) 0 (JObj (param_schema p)) = Inr c \<and>
          (d = c \<or> (\<exists>u. d = dset ''description'' (JStr u) c)) \<and>
          arg_properties s' = dset (param_name p) (JObj d) (arg_properties s)"
        by (cases "param_description p") (auto simp: add_parameter_def Let_def res_simps split: if_splits, blast+)
      then obtain c d where c: "convert_schema (''/parameters/'' @ param_name p) 0 (JObj (param_schema p)) = Inr c"
        and d: "d = c \<or> (\<exists>u. d = dset ''description'' (JStr u) c)"
          "arg_properties s' = dset (param_name p) (JObj d) (arg_properties s)" by blast
      from convert_schema_closed [OF c] have "closed_schema (MAX_SCHEMA_DEPTH - 0) c" by simp
      with d(1) have "closed_schema (MAX_SCHEMA_DEPTH - 0) d" using closed_schema_described by blast
      with that(1) d(2) show ?thesis by (blast intro: closed_properties_dset)
    qed
  qed
  then have "closed_properties st'"
    using st'
    by (auto simp: convert_request_body_def res_simps dest!: convert_schema_closed intro: closed_properties_dset
        split: json.splits if_splits)
  moreover have "input_schema t = tool_input_schema st'"
    using t by (auto simp: build_tool_def res_simps split: option.splits)
  ultimately show ?thesis by blast
qed

text \<open>
  C38: A converted tool can be projected exactly when no schema in it has a title, is nullable or lies deeper
  than the limit of the adapters, and the object schemas have at most 500 properties together: nothing else a
  conversion can produce is refused. Titles and nullability, which the converter carries over, therefore
  exclude a tool from every provider.
\<close>

theorem converted_tool_is_projectable:
  assumes "convert_operation P path m item op = Inr t"
  shows "prepared_schema t = Inr (input_schema t) \<longleftrightarrow>
    list_all plainly_typed (walk_schema [] (input_schema t)) \<and>
    sum_list (map (property_count \<circ> snd) (walk_schema [] (input_schema t))) \<le> MAX_TOTAL_PROPERTIES"
proof -
  from converted_properties_closed [OF assms] obtain st where
    st: "input_schema t = tool_input_schema st" "closed_properties st" by blast
  have root: "projectable_at ([], input_schema t) \<and> plainly_typed ([], input_schema t)"
    by (simp add: projectable_at_def plainly_typed_def st tool_input_schema_def jget_def dhas_def type_unsupported_def
        pointer_depth_def str_count.simps no_unsupported_keywords dkeys_def SUPPORTED_SCHEMA_KEYWORDS_def SUPPORTED_TYPES_def)
  have "projectable_at sub \<longleftrightarrow> plainly_typed sub" if "sub \<in> set (walk_schema [] (input_schema t))" for sub
  proof (cases "sub = ([], input_schema t)")
    case False
    have "\<exists>m. closed_schema m (snd sub)"
      by (rule walk_closed [OF _ _ that False])
        (use st(2) in \<open>auto simp: st(1) tool_input_schema_def jget_def closed_properties_def\<close>)
    then show ?thesis using closed_schema_projectable by (metis prod.collapse)
  qed (use root in simp)
  then show ?thesis
    by (auto simp: prepared_schema_def res_simps assert_projectable_Inr list_all_iff)
qed

lemma converted_tool_is_projectable_witness:
  "prepared_schema example_converted = Inr (input_schema example_converted)"
proof -
  have "list_all plainly_typed (walk_schema [] (input_schema example_converted)) \<and>
    sum_list (map (property_count \<circ> snd) (walk_schema [] (input_schema example_converted))) \<le> MAX_TOTAL_PROPERTIES"
    by code_simp
  then show ?thesis using converted_tool_is_projectable [OF example_conversion] by blast
qed

text \<open>
  A property whose name begins with \<^verbatim>\<open>items\<close> counts twice in the depth of its pointer, so five nested objects
  are refused as too deep, where eight with other names are accepted.
\<close>

fun nested_property :: "string \<Rightarrow> nat \<Rightarrow> json dict" where
  "nested_property name 0 = [(''type'', JStr ''string'')]"
| "nested_property name (Suc n) =
     [(''type'', JStr ''object''), (''properties'', JObj [(name, JObj (nested_property name n))]),
      (''required'', JArr []), (''additionalProperties'', JBool False)]"

lemma items_property_counts_twice:
  "is_ok (assert_projectable (nested_property ''entry'' 8)) \<and> \<not> is_ok (assert_projectable (nested_property ''items'' 5))"
  by code_simp

end
