(* ===== verification/AdminApi.thy ===== *)
theory AdminApi
  imports InternalApi Adapters
begin

text \<open>
  The administrator API: the request models of \<^verbatim>\<open>control_plane/schemas.py\<close>, the routes and projections of
  \<^verbatim>\<open>control_plane/routes_admin.py\<close> and the transaction around a route (\<^verbatim>\<open>control_plane/db.py\<close>). The properties
  say that everything that reaches the database over HTTP is one of the operations of the service, so that
  what holds of those holds of the API.
\<close>

section \<open>Request models\<close>

definition as_positive :: "platform \<Rightarrow> json \<Rightarrow> int res" where
  "as_positive P v = rbind (as_int P v) (checked (\<lambda>i. 1 \<le> i))"

definition decode_register :: "json \<Rightarrow> registration res" where
  "decode_register v =
     with_obj [''connector_key'', ''display_name'', ''summary'', ''proposed_version'', ''base_url'',
               ''auth_profile_ref'', ''document'', ''document_filename''] v (\<lambda>d.
     rbind (field d ''connector_key'' as_key) (\<lambda>k.
     rbind (optional_field d ''display_name'' None (as_option (as_text 0 128))) (\<lambda>name.
     rbind (optional_field d ''summary'' None (as_option (as_text 0 1024))) (\<lambda>text.
     rbind (optional_field d ''proposed_version'' None (as_option as_version)) (\<lambda>version.
     rbind (optional_field d ''base_url'' None (as_option (as_text 0 2048))) (\<lambda>base.
     rbind (optional_field d ''auth_profile_ref'' None (as_option (as_text 0 256))) (\<lambda>auth.
     rbind (field d ''document'' as_str) (\<lambda>document.
     rbind (optional_field d ''document_filename'' ''openapi.yaml'' (as_text 0 256)) (\<lambda>filename.
       if document = [] then bad
       else Inr \<lparr>rg_connector_key = k, rg_display_name = name, rg_summary = text,
              rg_source_bytes = utf8_encode document, rg_source_filename = filename,
              rg_proposed_version = version, rg_base_url = base, rg_auth_profile_ref = auth\<rparr>)))))))))"

definition decode_review_update :: "platform \<Rightarrow> json \<Rightarrow> review_update res" where
  "decode_review_update P v =
     with_obj [''operation_key'', ''selection'', ''description'', ''description_origin'', ''effect_class'',
               ''requires_confirmation'', ''access_mode'', ''allowed_roles''] v (\<lambda>d.
     rbind (field d ''operation_key'' (as_text 1 2100)) (\<lambda>k.
     rbind (optional_field d ''selection'' None (as_option (as_choice [''included'', ''excluded'']))) (\<lambda>sel.
     rbind (optional_field d ''description'' None (as_option (as_text 0 1024))) (\<lambda>desc.
     rbind (optional_field d ''description_origin'' None
              (as_option (as_choice [''source'', ''generated'', ''assisted'', ''human'']))) (\<lambda>origin.
     rbind (optional_field d ''effect_class'' None (as_option (as_choice [''read'', ''write'', ''destructive'']))) (\<lambda>effect.
     rbind (optional_field d ''requires_confirmation'' None (as_option (as_bool P))) (\<lambda>confirm.
     rbind (optional_field d ''access_mode'' None (as_option (as_choice [''public'', ''restricted'']))) (\<lambda>mode.
     rbind (optional_field d ''allowed_roles'' None (as_option (as_bounded 0 32 as_key))) (\<lambda>roles.
       Inr \<lparr>up_key = k, up_selection = sel, up_description = desc, up_origin = origin, up_effect = effect,
            up_confirm = confirm, up_mode = mode, up_roles = roles\<rparr>)))))))))"

definition decode_update_draft :: "platform \<Rightarrow> string \<Rightarrow> json \<Rightarrow> draft_update res" where
  "decode_update_draft P k v =
     with_obj [''expected_revision'', ''operations'', ''proposed_version'', ''base_url'', ''auth_profile_ref''] v (\<lambda>d.
     rbind (field d ''expected_revision'' (as_positive P)) (\<lambda>revision.
     rbind (optional_field d ''operations'' [] (as_bounded 0 256 (decode_review_update P))) (\<lambda>updates.
     rbind (optional_field d ''proposed_version'' None (as_option as_version)) (\<lambda>version.
     rbind (optional_field d ''base_url'' None (as_option (as_text 0 2048))) (\<lambda>base.
     rbind (optional_field d ''auth_profile_ref'' None (as_option (as_text 0 256))) (\<lambda>auth.
       Inr \<lparr>du_connector_key = k, du_expected_revision = revision, du_updates = updates,
            du_proposed_version = version, du_base_url = base, du_auth_profile_ref = auth\<rparr>))))))"

definition decode_publish :: "platform \<Rightarrow> string \<Rightarrow> json \<Rightarrow> publish_request res" where
  "decode_publish P k v =
     with_obj [''expected_revision'', ''version'', ''published_by''] v (\<lambda>d.
     rbind (field d ''expected_revision'' (as_positive P)) (\<lambda>revision.
     rbind (optional_field d ''version'' None (as_option as_version)) (\<lambda>version.
     rbind (optional_field d ''published_by'' ''admin'' (as_text 0 128)) (\<lambda>by.
       Inr \<lparr>pq_connector_key = k, pq_expected_revision = revision, pq_published_by = by, pq_version = version\<rparr>))))"

definition decode_disable :: "json \<Rightarrow> string res" where
  "decode_disable v = with_obj [''reason''] v (\<lambda>d. field d ''reason'' (as_text 1 512))"

definition decode_deployment :: "json \<Rightarrow> (string \<times> string \<times> string) res" where
  "decode_deployment v =
     with_obj [''deployment_key'', ''display_name'', ''description''] v (\<lambda>d.
     rbind (field d ''deployment_key'' as_key) (\<lambda>k.
     rbind (field d ''display_name'' (as_text 1 128)) (\<lambda>name.
     rbind (optional_field d ''description'' [] (as_text 0 1024)) (\<lambda>text. Inr (k, name, text)))))"

definition decode_selection :: "json \<Rightarrow> (string \<times> string) res" where
  "decode_selection v =
     with_obj [''connector_key'', ''version''] v (\<lambda>d.
     rbind (field d ''connector_key'' as_key) (\<lambda>k.
     rbind (field d ''version'' as_version) (\<lambda>version. Inr (k, version))))"

definition decode_snapshot_request :: "string \<Rightarrow> json \<Rightarrow> snapshot_request res" where
  "decode_snapshot_request k v =
     with_obj [''selections'', ''created_by''] v (\<lambda>d.
     rbind (field d ''selections'' (as_bounded 1 64 decode_selection)) (\<lambda>selections.
     rbind (optional_field d ''created_by'' ''admin'' (as_text 0 128)) (\<lambda>by.
       Inr \<lparr>sq_deployment_key = k, sq_selections = selections, sq_created_by = by\<rparr>)))"

section \<open>Routes\<close>

text \<open>
  A request as the router hands it over: the path parameters as text and, for a route with a body, the
  decoded JSON.
\<close>

datatype admin_route =
    GetConnectors
  | PostConnector json
  | GetConnector string
  | GetDraft string
  | PatchDraft string json
  | PostPublish string json
  | GetVersions string
  | GetVersion string string
  | PostDisable string string json
  | GetAdapter string string string
  | GetDeployments
  | PostDeployment json
  | PostSnapshot string json
  | GetSnapshots string
  | GetSnapshot string string "string option"

datatype admin_call =
    Write request
  | ReadConnectors
  | ReadConnector string
  | ReadDraft string
  | ReadVersions string
  | ReadVersion string string
  | ReadAdapter string string string
  | ReadDeployments
  | ReadSnapshots string
  | ReadSnapshot string int bool

text \<open>The routes that write, up to their call of the service.\<close>

definition route_register_connector :: "json \<Rightarrow> request res" where
  "route_register_connector body = rbind (decode_register body) (\<lambda>g. Inr (Register g))"

definition route_update_draft :: "platform \<Rightarrow> string \<Rightarrow> json \<Rightarrow> request res" where
  "route_update_draft P k body = rbind (decode_update_draft P k body) (\<lambda>u. Inr (Review u))"

definition route_publish :: "platform \<Rightarrow> string \<Rightarrow> json \<Rightarrow> request res" where
  "route_publish P k body = rbind (decode_publish P k body) (\<lambda>q. Inr (Publish q))"

definition route_disable_version :: "string \<Rightarrow> string \<Rightarrow> json \<Rightarrow> request res" where
  "route_disable_version k v body = rbind (decode_disable body) (\<lambda>reason. Inr (Disable k v reason))"

definition route_create_deployment :: "json \<Rightarrow> request res" where
  "route_create_deployment body = rbind (decode_deployment body) (\<lambda>(k, name, text). Inr (Deploy k name text))"

definition route_create_snapshot :: "string \<Rightarrow> json \<Rightarrow> request res" where
  "route_create_snapshot k body = rbind (decode_snapshot_request k body) (\<lambda>q. Inr (Snap q))"

definition writing :: "request res \<Rightarrow> admin_call res" where
  "writing m = rbind m (\<lambda>rq. Inr (Write rq))"

fun decode_route :: "platform \<Rightarrow> admin_route \<Rightarrow> admin_call res" where
  "decode_route P GetConnectors = Inr ReadConnectors"
| "decode_route P (PostConnector body) = writing (route_register_connector body)"
| "decode_route P (GetConnector k) = Inr (ReadConnector k)"
| "decode_route P (GetDraft k) = Inr (ReadDraft k)"
| "decode_route P (PatchDraft k body) = writing (route_update_draft P k body)"
| "decode_route P (PostPublish k body) = writing (route_publish P k body)"
| "decode_route P (GetVersions k) = Inr (ReadVersions k)"
| "decode_route P (GetVersion k v) = Inr (ReadVersion k v)"
| "decode_route P (PostDisable k v body) = writing (route_disable_version k v body)"
| "decode_route P (GetAdapter k v provider) = Inr (ReadAdapter k v provider)"
| "decode_route P GetDeployments = Inr ReadDeployments"
| "decode_route P (PostDeployment body) = writing (route_create_deployment body)"
| "decode_route P (PostSnapshot k body) = writing (route_create_snapshot k body)"
| "decode_route P (GetSnapshots k) = Inr (ReadSnapshots k)"
| "decode_route P (GetSnapshot k n doc) =
     rbind (as_int P (JStr n)) (\<lambda>revision.
     rbind (case doc of None \<Rightarrow> Inr True | Some b \<Rightarrow> as_bool P (JStr b)) (\<lambda>include_document.
       Inr (ReadSnapshot k revision include_document)))"

section \<open>Projections\<close>

definition iso :: "datetime \<Rightarrow> string" where
  "iso t = str_replace ''+00:00'' ''Z'' (isoformat t)"

definition opt_int :: "int option \<Rightarrow> json" where
  "opt_int v = (case v of None \<Rightarrow> JNull | Some i \<Rightarrow> JInt i)"

definition connector_summary :: "database \<Rightarrow> connector_row \<Rightarrow> json" where
  "connector_summary db c =
     (let versions = published_versions db (cr_key c); draft = find_draft db (cr_key c) in
      JObj [(''connector_key'', JStr (cr_key c)), (''display_name'', JStr (cr_display_name c)),
            (''summary'', JStr (cr_summary c)), (''has_draft'', JBool (draft \<noteq> None)),
            (''draft_revision'', opt_int (map_option dr_revision draft)),
            (''published_versions'', JArr (map JStr versions)),
            (''latest_version'', if versions = [] then JNull else JStr (last versions)),
            (''created_at'', JStr (iso (cr_created c))), (''updated_at'', JStr (iso (cr_updated c)))])"

definition draft_response :: "platform \<Rightarrow> database \<Rightarrow> draft_row \<Rightarrow> json res" where
  "draft_response P db d =
     rbind (state_from_dict P (dr_review d)) (\<lambda>st.
     rbind (review_readiness P (dr_analysis d) st (dr_base_url d)) (\<lambda>issues.
     rbind (case find_connector db (dr_connector d) of None \<Rightarrow> Inl AttributeError | Some c \<Rightarrow> Inr c) (\<lambda>c.
       Inr (JObj
         [(''connector_key'', JStr (cr_key c)), (''display_name'', JStr (cr_display_name c)),
          (''summary'', JStr (cr_summary c)), (''revision'', JInt (dr_revision d)),
          (''proposed_version'', JStr (dr_proposed_version d)), (''base_url'', opt_str (dr_base_url d)),
          (''auth_profile_ref'', opt_str (dr_auth_profile_ref d)),
          (''source'', JObj
            [(''filename'', JStr (dr_source_filename d)), (''digest'', JStr (dr_source_digest d)),
             (''byte_length'', JInt (dr_source_byte_length d)), (''format'', JStr (dr_source_format d)),
             (''spec_version'', JStr (dr_spec_version d))]),
          (''analyzer_version'', JStr (dr_analyzer_version d)), (''analysis'', JObj (dr_analysis d)),
          (''review'', JObj (dr_review d)),
          (''readiness'', JObj [(''ready'', JBool (issues = [])), (''issues'', JArr (map JStr issues))]),
          (''updated_at'', JStr (iso (dr_updated d)))]))))"

definition version_summary :: "platform \<Rightarrow> version_row \<Rightarrow> json res" where
  "version_summary P r =
     rbind (item (JObj (vr_document r)) ''connector_key'') (\<lambda>key.
     rbind (py_iter (get_or (vr_document r) ''tools'' (JArr []))) (\<lambda>ts.
     rbind (rmap (\<lambda>t. item t ''tool_name'') ts) (\<lambda>names.
       Inr (JObj
         [(''connector_key'', JStr (py_str P key)), (''version'', JStr (vr_version r)),
          (''document_digest'', JStr (vr_digest r)), (''tool_count'', JInt (int (vr_tool_count r))),
          (''tool_names'', JArr (map (\<lambda>n. JStr (py_str P n)) names)),
          (''published_at'', JStr (iso (vr_published r))), (''published_by'', JStr (vr_published_by r)),
          (''disabled'', JBool (vr_disabled r)), (''disabled_reason'', opt_str (vr_disabled_reason r))]))))"

definition deployment_summary :: "database \<Rightarrow> deployment_row \<Rightarrow> json" where
  "deployment_summary db d =
     (let rows = snapshot_rows db (dp_key d); active = first_match sr_active rows in
      JObj [(''deployment_key'', JStr (dp_key d)), (''display_name'', JStr (dp_display_name d)),
            (''description'', JStr (dp_description d)), (''created_at'', JStr (iso (dp_created d))),
            (''snapshot_count'', JInt (int (length rows))),
            (''active_revision'', opt_int (map_option (int \<circ> sr_revision) active)),
            (''active_snapshot_id'', opt_str (map_option sr_snapshot_id active))])"

definition py_len :: "json \<Rightarrow> nat res" where
  "py_len v = rbind (py_iter v) (\<lambda>xs. Inr (length xs))"

definition snapshot_summary :: "platform \<Rightarrow> snapshot_row \<Rightarrow> json dict res" where
  "snapshot_summary P r =
     (let document = sr_document r; signature = jget document ''signature'' in
      rbind (py_iter (get_or document ''connectors'' (JArr []))) (\<lambda>connectors.
      rbind (rmap (\<lambda>c. rbind (py_get c ''tools'' (JArr [])) py_len) connectors) (\<lambda>counts.
      rbind (item (JObj document) ''deployment_key'') (\<lambda>key.
      rbind (if is_obj signature then item signature ''key_id'' else Inr JNull) (\<lambda>key_id.
      rbind (if is_obj signature then item signature ''algorithm'' else Inr JNull) (\<lambda>algorithm.
        Inr [(''deployment_key'', JStr (py_str P key)), (''revision'', JInt (int (sr_revision r))),
             (''snapshot_id'', JStr (sr_snapshot_id r)), (''snapshot_digest'', JStr (sr_digest r)),
             (''connector_count'', JInt (int (sr_connector_count r))),
             (''tool_count'', JInt (int (sum_list counts))), (''active'', JBool (sr_active r)),
             (''created_at'', JStr (iso (sr_created r))), (''created_by'', JStr (sr_created_by r)),
             (''signed'', JBool (signature \<noteq> JNull)), (''signing_key_id'', key_id),
             (''signature_algorithm'', algorithm)]))))))"

section \<open>Adapter preview\<close>

definition diagnostic_to_json :: "adapter_diagnostic \<Rightarrow> json" where
  "diagnostic_to_json d =
     JObj [(''tool_name'', JStr (ad_tool d)), (''code'', JStr (ad_code d)), (''message'', JStr (ad_message d)),
           (''pointer'', JStr (ad_pointer d))]"

text \<open>
  A published document is read as the contract model; an exception of the adapter other than
  \<open>AdapterError\<close> is a \<^verbatim>\<open>TypeError\<close>.
\<close>

definition preview_adapter :: "platform \<Rightarrow> database \<Rightarrow> string \<Rightarrow> string \<Rightarrow> string \<Rightarrow> json res" where
  "preview_adapter P db k v provider =
     (case get_adapter provider of
        None \<Rightarrow> Inl (validation_error ''/provider'')
      | Some adapter \<Rightarrow>
          rbind (get_version db k v) (\<lambda>row.
          rbind (decode_connector P (JObj (vr_document row))) (\<lambda>c.
          rbind (case project provider adapter (tools c) of Inl e \<Rightarrow> Inl TypeError | Inr p \<Rightarrow> Inr p) (\<lambda>p.
            Inr (JObj
              [(''provider'', JStr (pr_provider p)), (''connector_key'', JStr k), (''version'', JStr v),
               (''complete'', JBool (projection_complete p)), (''tools'', JArr (pr_tools p)),
               (''diagnostics'', JArr (map diagnostic_to_json (pr_diagnostics p)))])))))"

section \<open>Answering\<close>

text \<open>The answer to a write: the status and the projection of what the service returned.\<close>

fun success_status :: "request \<Rightarrow> nat" where
  "success_status (Review u) = 200"
| "success_status (Disable k v reason) = 200"
| "success_status _ = 201"

fun render :: "platform \<Rightarrow> database \<Rightarrow> reply \<Rightarrow> json res" where
  "render P db (DraftReply d) = draft_response P db d"
| "render P db (VersionReply r) = version_summary P r"
| "render P db (DeploymentReply d) = Inr (deployment_summary db d)"
| "render P db (SnapshotReply r) = rbind (snapshot_summary P r) (\<lambda>body. Inr (JObj body))"

definition get_snapshot :: "platform \<Rightarrow> database \<Rightarrow> string \<Rightarrow> int \<Rightarrow> bool \<Rightarrow> json res" where
  "get_snapshot P db k n include_document =
     rbind (list_snapshots db k) (\<lambda>rows.
       case first_match (\<lambda>r. int (sr_revision r) = n) rows of
         None \<Rightarrow> Inl not_found
       | Some r \<Rightarrow>
           rbind (snapshot_summary P r) (\<lambda>body.
             Inr (JObj (if include_document then body @ [(''document'', JObj (sr_document r))] else body))))"

definition route_list_connectors :: "database \<Rightarrow> json" where
  "route_list_connectors db = JArr (map (connector_summary db) (list_connectors db))"

definition route_get_connector :: "database \<Rightarrow> string \<Rightarrow> json res" where
  "route_get_connector db k = rbind (get_connector db k) (\<lambda>c. Inr (connector_summary db c))"

definition route_get_draft :: "platform \<Rightarrow> database \<Rightarrow> string \<Rightarrow> json res" where
  "route_get_draft P db k = rbind (get_draft db k) (draft_response P db)"

definition route_list_versions :: "platform \<Rightarrow> database \<Rightarrow> string \<Rightarrow> json res" where
  "route_list_versions P db k =
     rbind (list_versions db k) (\<lambda>rows. rbind (rmap (version_summary P) rows) (\<lambda>xs. Inr (JArr xs)))"

definition route_get_version :: "platform \<Rightarrow> database \<Rightarrow> string \<Rightarrow> string \<Rightarrow> json res" where
  "route_get_version P db k v =
     rbind (get_version db k v) (\<lambda>r. rbind (version_summary P r) (\<lambda>body.
       Inr (JObj [(''summary'', body), (''document'', JObj (vr_document r))])))"

definition route_list_deployments :: "database \<Rightarrow> json" where
  "route_list_deployments db = JArr (map (deployment_summary db) (list_deployments db))"

definition route_list_snapshots :: "platform \<Rightarrow> database \<Rightarrow> string \<Rightarrow> json res" where
  "route_list_snapshots P db k =
     rbind (list_snapshots db k) (\<lambda>rows. rbind (rmap (snapshot_summary P) rows) (\<lambda>xs. Inr (JArr (map JObj xs))))"

fun read_call :: "platform \<Rightarrow> database \<Rightarrow> admin_call \<Rightarrow> json res" where
  "read_call P db ReadConnectors = Inr (route_list_connectors db)"
| "read_call P db (ReadConnector k) = route_get_connector db k"
| "read_call P db (ReadDraft k) = route_get_draft P db k"
| "read_call P db (ReadVersions k) = route_list_versions P db k"
| "read_call P db (ReadVersion k v) = route_get_version P db k v"
| "read_call P db (ReadAdapter k v provider) = preview_adapter P db k v provider"
| "read_call P db ReadDeployments = Inr (route_list_deployments db)"
| "read_call P db (ReadSnapshots k) = route_list_snapshots P db k"
| "read_call P db (ReadSnapshot k n include_document) = get_snapshot P db k n include_document"
| "read_call P db (Write rq) = Inl AssertionError"

text \<open>
  What the routes take from the settings: the source limit and, when a snapshot is created, the signing
  key.
\<close>

definition route_env :: "service_env \<Rightarrow> cp_settings \<Rightarrow> signing_key option \<Rightarrow> service_env" where
  "route_env E S key = E\<lparr>env_max_source_bytes := nat (max_source_bytes S), env_signing_key := key\<rparr>"

definition key_for :: "cp_settings \<Rightarrow> request \<Rightarrow> signing_key option res" where
  "key_for S rq = (case rq of Snap q \<Rightarrow> settings_signing_key S | _ \<Rightarrow> Inr None)"

text \<open>The transaction is committed when the answer has been built: an exception leaves no trace.\<close>

definition answer ::
  "platform \<Rightarrow> service_env \<Rightarrow> cp_settings \<Rightarrow> datetime \<Rightarrow> admin_call \<Rightarrow> database \<Rightarrow> (database \<times> nat \<times> json) res" where
  "answer P E S now call db =
     (case call of
        Write rq \<Rightarrow>
          rbind (key_for S rq) (\<lambda>key.
          rbind (perform P (route_env E S key) now rq db) (\<lambda>(db', r).
          rbind (render P db' r) (\<lambda>body. Inr (db', success_status rq, body))))
      | _ \<Rightarrow> rbind (read_call P db call) (\<lambda>body. Inr (db, 200, body)))"

text \<open>
  One HTTP request. The credential is checked before the body; \<open>locations\<close> are the places of the validation
  errors and \<open>prose\<close> is the text of a message.
\<close>

record http_request =
  hr_time :: datetime
  hr_token :: "string option"
  hr_route :: admin_route
  hr_request_id :: "string option"

definition admin_serve ::
  "platform \<Rightarrow> service_env \<Rightarrow> cp_settings \<Rightarrow> string \<Rightarrow> string list list \<Rightarrow> http_request \<Rightarrow> database \<Rightarrow>
     (nat \<times> json) \<times> database" where
  "admin_serve P E S prose locations h db =
     (case require_admin S (hr_token h) of
        Inl e \<Rightarrow> (cp_error_reply prose (hr_request_id h) e, db)
      | Inr _ \<Rightarrow>
          (case decode_route P (hr_route h) of
             Inl _ \<Rightarrow> (request_validation_reply locations (hr_request_id h), db)
           | Inr call \<Rightarrow>
               (case answer P E S (hr_time h) call db of
                  Inl e \<Rightarrow> (cp_error_reply prose (hr_request_id h) e, db)
                | Inr (db', status, body) \<Rightarrow> ((status, body), db'))))"

definition http_all ::
  "platform \<Rightarrow> service_env \<Rightarrow> cp_settings \<Rightarrow> string \<Rightarrow> string list list \<Rightarrow> http_request list \<Rightarrow> database \<Rightarrow> database" where
  "http_all P E S prose locations hs db = fold (\<lambda>h db. snd (admin_serve P E S prose locations h db)) hs db"

section \<open>What the API does to the database\<close>

text \<open>The operation an authenticated, well-formed request stands for, and the environment all of them run in.\<close>

definition admitted :: "platform \<Rightarrow> cp_settings \<Rightarrow> http_request \<Rightarrow> (datetime \<times> request) option" where
  "admitted P S h =
     (if is_ok (require_admin S (hr_token h))
      then (case decode_route P (hr_route h) of Inr (Write rq) \<Rightarrow> Some (hr_time h, rq) | _ \<Rightarrow> None) else None)"

definition service_of :: "service_env \<Rightarrow> cp_settings \<Rightarrow> service_env" where
  "service_of E S = route_env E S (case settings_signing_key S of Inl e \<Rightarrow> None | Inr key \<Rightarrow> key)"

lemma perform_key:
  assumes "key_for S rq = Inr key"
  shows "perform P (route_env E S key) now rq db = perform P (service_of E S) now rq db"
  using assms
  by (cases rq) (simp_all add: perform_def key_for_def service_of_def route_env_def register_connector_def register_limits_def)

lemma answer_write:
  assumes "answer P E S now call db = Inr (db', status, body)"
  shows "(\<exists>rq r. call = Write rq \<and> perform P (service_of E S) now rq db = Inr (db', r)) \<or> (\<forall>rq. call \<noteq> Write rq) \<and> db' = db"
proof (cases call)
  case (Write rq)
  with assms show ?thesis by (auto simp: answer_def res_simps perform_key simp del: plan.simps)
qed (use assms in \<open>auto simp: answer_def res_simps\<close>)

lemma admin_serve_cases:
  shows "snd (admin_serve P E S prose locations h db) = db \<or>
    (\<exists>rq r. admitted P S h = Some (hr_time h, rq) \<and>
       perform P (service_of E S) (hr_time h) rq db = Inr (snd (admin_serve P E S prose locations h db), r))"
  by (auto simp: admin_serve_def admitted_def split: sum.splits dest: answer_write)

lemma perform_all_Cons: "perform P E now rq db = Inr (db', r) \<Longrightarrow> perform_all P E ((now, rq) # rqs) db = perform_all P E rqs db'"
  by (simp add: perform_all_def)

lemma http_all_performs:
  "\<exists>rqs. subseq rqs (List.map_filter (admitted P S) hs) \<and>
     http_all P E S prose locations hs db = perform_all P (service_of E S) rqs db"
proof (induction hs arbitrary: db)
  case Nil
  show ?case by (rule exI [of _ "[]"]) (simp add: http_all_def perform_all_def)
next
  case (Cons h hs)
  let ?mid = "snd (admin_serve P E S prose locations h db)"
  obtain rqs where rqs: "subseq rqs (List.map_filter (admitted P S) hs)"
    "http_all P E S prose locations hs ?mid = perform_all P (service_of E S) rqs ?mid"
    using Cons.IH by blast
  have rest: "http_all P E S prose locations (h # hs) db = http_all P E S prose locations hs ?mid"
    by (simp add: http_all_def)
  consider "?mid = db"
    | rq r where "admitted P S h = Some (hr_time h, rq)" "perform P (service_of E S) (hr_time h) rq db = Inr (?mid, r)"
    using admin_serve_cases by blast
  then show ?case
  proof cases
    case 1
    have "subseq rqs (List.map_filter (admitted P S) (h # hs))"
      using rqs(1) by (auto simp: List.map_filter_def)
    with rqs(2) rest 1 show ?thesis by metis
  next
    case (2 rq r)
    from rqs(1) have "subseq ((hr_time h, rq) # rqs) (List.map_filter (admitted P S) (h # hs))"
      by (simp add: List.map_filter_def 2(1))
    moreover have "http_all P E S prose locations (h # hs) db = perform_all P (service_of E S) ((hr_time h, rq) # rqs) db"
      by (simp only: rest rqs(2) perform_all_Cons [OF 2(2)])
    ultimately show ?thesis by blast
  qed
qed

text \<open>
  C7: The administrator API refines the service: whatever a sequence of HTTP requests does to the database is
  what the service does for some of the operations that authenticated, well-formed requests among them
  stand for, in their order. Reads, requests without the administrator's token, malformed bodies and
  failures leave no trace.
\<close>

theorem http_requests_are_service_operations:
  "\<exists>rqs. subseq rqs (List.map_filter (admitted P S) hs) \<and>
     http_all P E S prose locations hs db = perform_all P (service_of E S) rqs db"
  by (rule http_all_performs)

lemma perform_all_run: "sys_run P E \<lparr>sys_db = db, sys_open = []\<rparr> \<lparr>sys_db = perform_all P E rqs db, sys_open = []\<rparr>"
proof (induction rqs arbitrary: db)
  case Nil
  show ?case by (simp add: perform_all_def)
next
  case (Cons q rqs)
  obtain now rq where q: "q = (now, rq)" by (cases q)
  show ?case
  proof (cases "perform P E now rq db")
    case (Inl e)
    then have "perform_all P E (q # rqs) db = perform_all P E rqs db" by (simp add: perform_all_def q)
    with Cons.IH show ?thesis by simp
  next
    case (Inr p)
    then obtain db' r where "perform P E now rq db = Inr (db', r)" by (cases p) auto
    with Cons.IH [of db'] show ?thesis
      unfolding q by (simp add: perform_all_Cons rtranclp_trans [OF perform_idle_run])
  qed
qed

text \<open>
  C8: Whatever sequence of HTTP requests the administrator API has served from an empty database, every
  published version and every snapshot is genuine, no version and no snapshot id occurs twice, the snapshots of
  a deployment are numbered from 1 without a gap, and the versions of a connector are published in strictly
  increasing order.
\<close>

theorem http_history_is_sound:
  "\<exists>db ps. db = http_all P E S prose locations hs empty_database \<and>
     list_all (genuine_version P) (db_versions db) \<and>
     list_all (genuine_snapshot P (db_versions db)) (db_snapshots db) \<and>
     distinct (map (\<lambda>r. (vr_connector r, vr_version r)) (db_versions db)) \<and>
     distinct (map sr_snapshot_id (db_snapshots db)) \<and>
     map sr_revision (snapshots_of db deployment) = [1..<Suc (length (snapshots_of db deployment))] \<and>
     rmap (\<lambda>v. parse_version (JStr v)) (published_versions db connector) = Inr ps \<and>
     sorted_wrt (\<lambda>a b. compare_precedence a b < 0) ps"
proof -
  obtain rqs where rqs: "http_all P E S prose locations hs empty_database = perform_all P (service_of E S) rqs empty_database"
    using http_all_performs by blast
  have run: "sys_run P (service_of E S) start_system \<lparr>sys_db = perform_all P (service_of E S) rqs empty_database, sys_open = []\<rparr>"
    using perform_all_run [of P "service_of E S" empty_database rqs] by (simp add: start_system_def)
  show ?thesis
    using system_genuine_run [OF run] snapshot_revisions_are_gapless_of [OF run, of deployment]
      perform_all_ascending [of P "service_of E S" rqs connector]
    by (auto simp: rqs system_genuine_def artifacts_genuine_def ascending_def parsed_def [abs_def])
qed

section \<open>Reading back\<close>

lemma str_replace_suffix:
  assumes "c \<notin> set s"
  shows "str_replace (c # p) r (s @ c # p) = s @ r"
  using assms
  by (induction s) (auto simp: starts_with_def)

lemma not_contained: "c \<notin> set s \<Longrightarrow> \<not> str_contains (c # p) s"
  by (induction s) auto

lemma first_match_snoc: "first_match p xs = None \<Longrightarrow> p x \<Longrightarrow> first_match p (xs @ [x]) = Some x"
  by (induction xs) (auto split: if_splits)

lemma no_plus_in_padded: "CHR ''+'' \<notin> set (padded w n)"
  using set_string_of_nat [of "CHR ''+''" n] by (auto simp: padded_def Let_def is_digit_def)

text \<open>A time read back from the database has lost its zone, so its text lacks the \<^verbatim>\<open>Z\<close>.\<close>

lemma iso_stored:
  assumes "dt_aware t"
  shows "iso t = iso (stored_time t) @ ''Z''"
proof -
  let ?s = "isoformat (stored_time t)"
  have s: "CHR ''+'' \<notin> set ?s" using no_plus_in_padded by (auto simp: isoformat_def stored_time_def)
  have "isoformat t = ?s @ ''+00:00''" using assms by (simp add: isoformat_def stored_time_def)
  then have "iso t = ?s @ ''Z''" unfolding iso_def by (simp only: str_replace_suffix [OF s])
  moreover have "iso (stored_time t) = ?s"
    unfolding iso_def by (rule str_replace_absent [OF not_contained [OF s]])
  ultimately show ?thesis by simp
qed

text \<open>
  The answer to creating a deployment and the answers to reading it give its time of creation in different
  formats: the first ends in \<^verbatim>\<open>Z\<close>, the later ones carry no time zone at all.
\<close>

theorem creation_time_loses_its_zone:
  assumes "perform P E now (Deploy k name text) db = Inr (db', DeploymentReply d)" and "dt_aware now"
  shows "\<exists>t d'. get_deployment db' k = Inr d' \<and>
    jget (obj_of (deployment_summary db' d)) ''created_at'' = JStr (t @ ''Z'') \<and>
    jget (obj_of (deployment_summary db' d')) ''created_at'' = JStr t"
proof -
  from assms(1) have new: "find_deployment db k = None" and d: "d = \<lparr>dp_key = k, dp_display_name = name, dp_description = text, dp_created = now\<rparr>"
    and db': "db' = db\<lparr>db_deployments := db_deployments db @ [stored_deployment d]\<rparr>"
    by (auto simp: perform_def res_simps create_deployment_def Let_def commit_Cons split: if_splits)
  have "find_deployment db' k = Some (stored_deployment d)"
    using first_match_snoc [of "\<lambda>r. dp_key r = k" "db_deployments db" "stored_deployment d"] new
    by (simp add: find_deployment_def db' d stored_deployment_def)
  then have "get_deployment db' k = Inr (stored_deployment d)" by (simp add: get_deployment_def)
  then show ?thesis
    using iso_stored [OF assms(2)]
    by (intro exI [of _ "iso (stored_time now)"] exI [of _ "stored_deployment d"])
      (simp add: deployment_summary_def Let_def jget_def d stored_deployment_def)
qed

section \<open>Previews\<close>

definition payloads :: "(tool_definition \<Rightarrow> json projected) \<Rightarrow> tool_definition list \<Rightarrow> json list" where
  "payloads adapter ts = concat (map (\<lambda>t. case adapter t of Inr v \<Rightarrow> [v] | Inl e \<Rightarrow> []) ts)"

definition refused_tools :: "(tool_definition \<Rightarrow> json projected) \<Rightarrow> tool_definition list \<Rightarrow> tool_definition list" where
  "refused_tools adapter ts = filter (\<lambda>t. \<not> is_ok (adapter t)) ts"

lemma adapter_raises:
  assumes "get_adapter provider = Some adapter" and "adapter t = Inl e"
  shows "\<exists>c m p. e = AdapterError c m p"
proof -
  have check: "\<exists>c m p. e = AdapterError c m p" if "check_subschema sub n = Inl e" for sub n e
    using that by (auto simp: check_subschema_def Let_def split: if_splits)
  have "\<exists>c m p. e = AdapterError c m p" if "rfold check_subschema subs n = Inl e" for subs n e
    using that by (induction subs arbitrary: n) (auto simp: res_simps dest: check)
  then have prep: "\<exists>c m p. e = AdapterError c m p" if "prepared_schema t = Inl e" for e
    using that by (auto simp: prepared_schema_def assert_projectable_def res_simps split: if_splits)
  show ?thesis
    using assms prep strictify_raises
    by (auto simp: get_adapter_def ADAPTERS_def openai_project_tool_def anthropic_project_tool_def res_simps split: if_splits)
qed

lemma project_Inr:
  assumes "\<And>t e. adapter t = Inl e \<Longrightarrow> \<exists>c m p. e = AdapterError c m p"
  shows "\<exists>p'. rfold (project_next adapter) ts p = Inr p' \<and> pr_provider p' = pr_provider p \<and>
    pr_tools p' = pr_tools p @ payloads adapter ts \<and>
    map ad_tool (pr_diagnostics p') = map ad_tool (pr_diagnostics p) @ map tool_name (refused_tools adapter ts)"
proof (induction ts arbitrary: p)
  case (Cons t ts)
  show ?case
  proof (cases "adapter t")
    case (Inl e)
    with assms obtain c m ptr where "adapter t = Inl (AdapterError c m ptr)" by blast
    then show ?thesis
      using Cons.IH [of "p\<lparr>pr_diagnostics := pr_diagnostics p @
        [\<lparr>ad_tool = tool_name t, ad_code = c, ad_message = m, ad_pointer = ptr\<rparr>]\<rparr>"]
      by (auto simp: project_next_def payloads_def refused_tools_def)
  next
    case (Inr v)
    then show ?thesis
      using Cons.IH [of "p\<lparr>pr_tools := pr_tools p @ [v]\<rparr>"]
      by (auto simp: project_next_def payloads_def refused_tools_def)
  qed
qed (simp add: payloads_def refused_tools_def)

text \<open>
  C39: A preview of a published version never fails for a supported provider, whatever its tools are: it holds
  the projection of each tool that can be projected and one diagnostic for each that cannot, in the order of the
  tools, and it is marked complete exactly when nothing was left out.
\<close>

theorem preview_accounts_for_every_tool:
  assumes "get_version db k v = Inr row" and "decode_connector P (JObj (vr_document row)) = Inr c"
    and "provider \<in> set SUPPORTED_PROVIDERS"
  shows "\<exists>adapter body ds. get_adapter provider = Some adapter \<and> preview_adapter P db k v provider = Inr (JObj body) \<and>
    jget body ''tools'' = JArr (payloads adapter (tools c)) \<and>
    jget body ''diagnostics'' = JArr (map diagnostic_to_json ds) \<and>
    map ad_tool ds = map tool_name (refused_tools adapter (tools c)) \<and>
    jget body ''complete'' = JBool (list_all (\<lambda>t. is_ok (adapter t)) (tools c))"
proof -
  obtain adapter where a: "get_adapter provider = Some adapter"
    using assms(3) by (auto simp: SUPPORTED_PROVIDERS_def get_adapter_def ADAPTERS_def)
  let ?start = "\<lparr>pr_provider = provider, pr_tools = [], pr_diagnostics = []\<rparr>"
  obtain p where p: "project provider adapter (tools c) = Inr p" "pr_tools p = payloads adapter (tools c)"
    "map ad_tool (pr_diagnostics p) = map tool_name (refused_tools adapter (tools c))"
    using project_Inr [of adapter "tools c" ?start] adapter_raises [OF a] unfolding project_def by auto
  have "pr_diagnostics p = [] \<longleftrightarrow> refused_tools adapter (tools c) = []" using p(3) by (metis map_is_Nil_conv)
  then have "projection_complete p \<longleftrightarrow> list_all (\<lambda>t. is_ok (adapter t)) (tools c)"
    by (auto simp: projection_complete_def refused_tools_def filter_empty_conv list_all_iff)
  with a assms(1,2) p show ?thesis
    by (intro exI [of _ adapter] exI [of _ "pr_diagnostics p"]) (auto simp: preview_adapter_def jget_def)
qed

section \<open>Examples\<close>

lemma creation_time_loses_its_zone_witness:
  "\<exists>db' d d' t. perform sample_platform example_env example_clock (Deploy ''demo'' ''Demo'' []) empty_database =
       Inr (db', DeploymentReply d) \<and> get_deployment db' ''demo'' = Inr d' \<and>
     jget (obj_of (deployment_summary db' d)) ''created_at'' = JStr (t @ ''Z'') \<and>
     jget (obj_of (deployment_summary db' d')) ''created_at'' = JStr t"
proof -
  let ?d = "\<lparr>dp_key = ''demo'', dp_display_name = ''Demo'', dp_description = [], dp_created = example_clock\<rparr>"
  let ?db = "empty_database\<lparr>db_deployments := [stored_deployment ?d]\<rparr>"
  have made: "perform sample_platform example_env example_clock (Deploy ''demo'' ''Demo'' []) empty_database =
      Inr (?db, DeploymentReply ?d)"
    by (simp add: perform_def with_reply_def create_deployment_def find_deployment_def empty_database_def flush_def
        commit_Cons insert_unique_def stored_deployment_def Let_def)
  have "dt_aware example_clock" by (simp add: example_clock_def)
  from creation_time_loses_its_zone [OF made this] made show ?thesis by blast
qed

text \<open>A database with one published version.\<close>

definition example_version :: version_row where
  "example_version =
     \<lparr>vr_connector = ''tickets'', vr_version = ''0.1.0'', vr_document = obj_of (dump_connector example_connector),
      vr_digest = [], vr_source_digest = [], vr_analyzer_version = [], vr_tool_count = 1, vr_published = example_clock,
      vr_published_by = ''admin'', vr_disabled_at = None, vr_disabled_reason = None\<rparr>"

definition example_catalogue :: database where
  "example_catalogue =
     empty_database\<lparr>db_connectors := [\<lparr>cr_key = ''tickets'', cr_display_name = ''Tickets'', cr_summary = ''Ticket API'',
         cr_created = example_clock, cr_updated = example_clock\<rparr>],
       db_versions := [example_version]\<rparr>"

lemma preview_accounts_for_every_tool_witness:
  "is_ok (preview_adapter sample_platform example_catalogue ''tickets'' ''0.1.0'' ''anthropic'')"
proof -
  have row: "get_version example_catalogue ''tickets'' ''0.1.0'' = Inr example_version"
    by (simp add: get_version_def get_connector_def find_connector_def find_version_def example_catalogue_def
        example_version_def)
  have "decode_connector sample_platform (dump_connector example_connector) = Inr example_connector"
    by (rule decode_dump_connector [OF sample_pydantic]) code_simp
  then have doc: "decode_connector sample_platform (JObj (vr_document example_version)) = Inr example_connector"
    by (simp add: example_version_def dump_connector_def)
  have "''anthropic'' \<in> set SUPPORTED_PROVIDERS" by code_simp
  from preview_accounts_for_every_tool [OF row doc this] show ?thesis by (auto simp: is_ok_iff)
qed

end
