(* ===== verification/Delivery.thy ===== *)
theory Delivery
  imports InternalApi
begin

text \<open>
  From the Control Plane to the runtime: a snapshot that \<^verbatim>\<open>create_snapshot\<close> stores is fetched, verified and
  loaded by the runtime's client through the internal API.
\<close>

section \<open>Patterns of digests\<close>

lemma in_lit: "in_rx (rx_lit s) s"
proof (induction s)
  case (Cons c s)
  have "rx_lit (c # s) = Seq (Cls (\<lambda>x. x = c)) (rx_lit s)" by (simp add: rx_lit_def)
  with Cons show ?case by (simp only: in_Seq_Cls_iff) blast
qed (simp add: rx_lit_def)

lemma in_repeat: "list_all p s \<Longrightarrow> length s = n \<Longrightarrow> in_rx (rx_repeat n (Cls p)) s"
proof (induction n arbitrary: s)
  case (Suc n)
  then obtain c t where "s = c # t" by (cases s) auto
  with Suc show ?case by (simp only: rx_repeat.simps in_Seq_Cls_iff) auto
qed simp

lemma digest_matches: "hex_digests P \<Longrightarrow> rx_match DIGEST_PATTERN (''sha256:'' @ sha256_hex P b)"
  unfolding rx_match_iff DIGEST_PATTERN_def by (intro in_Seq in_lit in_repeat) (simp_all add: hex_digests_def)

lemma snapshot_id_matches: "hex_digests P \<Longrightarrow> rx_match SNAPSHOT_ID_PATTERN (''snap_'' @ take 32 (sha256_hex P b))"
  unfolding rx_match_iff SNAPSHOT_ID_PATTERN_def
  by (intro in_Seq in_lit in_repeat) (auto simp: hex_digests_def list_all_iff dest: in_set_takeD)

section \<open>What the validation and the index establish\<close>

lemma fold_check_connector:
  assumes "rfold (check_connector P) its seen = Inr out"
  shows "list_all (\<lambda>it. item (snd it) ''lifecycle_state'' = Inr (JStr ''published'')) its"
  using assms
proof (induction its arbitrary: seen)
  case (Cons it its)
  then obtain mid where step: "check_connector P it seen = Inr mid" and rest: "rfold (check_connector P) its mid = Inr out"
    by (auto simp: res_simps)
  from step have "item (snd it) ''lifecycle_state'' = Inr (JStr ''published'')"
    by (auto simp: check_connector_def res_simps split: if_splits)
  with Cons.IH [OF rest] show ?case by simp
qed simp

lemma validated_published:
  assumes "validate_deployment_snapshot P (JObj d) = Inr ()" and "dget d ''connectors'' = Some (JArr xs)" and "x \<in> set xs"
  shows "item x ''lifecycle_state'' = Inr (JStr ''published'')"
proof -
  from assms(1,2) obtain out where "rfold (check_connector P) (indexed xs) [] = Inr out"
    by (auto simp: validate_deployment_snapshot_def res_simps)
  from fold_check_connector [OF this]
  have "list_all (\<lambda>x. item x ''lifecycle_state'' = Inr (JStr ''published'')) xs" by (rule list_all_indexed [THEN iffD1])
  with assms(3) show ?thesis by (simp add: list_all_iff)
qed

lemma index_ok_iff:
  "is_ok (rfold index_tool cts ix) \<longleftrightarrow>
     distinct (map (\<lambda>ct. tool_name (snd ct)) cts) \<and> (\<forall>ct\<in>set cts. dget ix (tool_name (snd ct)) = None)"
proof (induction cts arbitrary: ix)
  case (Cons ct cts)
  show ?case
  proof (cases "dget ix (tool_name (snd ct))")
    case None
    then have "index_tool ct ix = Inr (dset (tool_name (snd ct)) (bind_tool (fst ct) (snd ct)) ix)"
      by (simp add: index_tool_Inr)
    with Cons.IH None show ?thesis by (auto simp: image_iff)
  next
    case (Some b)
    then show ?thesis by (simp add: index_tool_def dhas_iff)
  qed
qed simp

lemma index_Inl: "rfold index_tool cts ix = Inl e \<Longrightarrow> e = snapshot_integrity_error"
  by (induction cts arbitrary: ix) (auto simp: res_simps index_tool_def split: if_splits)

definition tool_names_of :: "connector_definition list \<Rightarrow> string list" where
  "tool_names_of cs = concat (map (\<lambda>c. map tool_name (tools c)) cs)"

lemma index_snapshot_iff: "is_ok (index_snapshot s) \<longleftrightarrow> distinct (tool_names_of (connectors s))"
proof -
  have "map (\<lambda>ct. tool_name (snd ct)) (connector_tools s) = tool_names_of (connectors s)"
    by (simp add: connector_tools_def tool_names_of_def map_concat comp_def)
  then show ?thesis by (simp add: index_snapshot_def index_ok_iff)
qed

lemma index_snapshot_Inl: "index_snapshot s = Inl e \<Longrightarrow> e = snapshot_integrity_error"
  unfolding index_snapshot_def by (rule index_Inl)

section \<open>A created snapshot\<close>

text \<open>The documents a snapshot embeds: decodable, of published rows with different connectors.\<close>

lemma decoded_key:
  "decode_connector P (JObj d) = Inr c \<Longrightarrow> document_key d = connector_key c \<and> dget d ''lifecycle_state'' = Some (JStr (lifecycle_state c))"
proof -
  assume "decode_connector P (JObj d) = Inr c"
  then obtain vk vl where "dget d ''connector_key'' = Some vk" "as_str vk = Inr (connector_key c)"
    "dget d ''lifecycle_state'' = Some vl" "as_str vl = Inr (lifecycle_state c)"
    by (auto simp: decode_connector_def res_simps simp del: with_obj.simps)
  then show ?thesis by (cases vk; cases vl) (auto simp: document_key_def jget_def bad_def)
qed

lemma created_documents:
  assumes "create_snapshot P E now q db = Inr (cs, row)" and "\<forall>r\<in>set (db_versions db). genuine_version P r"
  shows "\<exists>docs conns. snapshot_document P (env_signing_key E)
      (snapshot_payload (sr_deployment row) (sr_revision row) now docs) = Inr (sr_document row, sr_snapshot_id row, sr_digest row) \<and>
    validate_deployment_snapshot P (JObj (sr_document row)) = Inr () \<and>
    rmap (decode_connector P) (map JObj docs) = Inr conns \<and> distinct (map connector_key conns)"
proof -
  from assms(1) obtain keys docs0 where
    sel: "rfold (select_version P db) (sq_selections q) ([], []) = Inr (keys, docs0)"
    and doc: "snapshot_document P (env_signing_key E) (snapshot_payload (sr_deployment row) (sr_revision row) now
        (sort_key document_key docs0)) = Inr (sr_document row, sr_snapshot_id row, sr_digest row)"
    and val: "validate_deployment_snapshot P (JObj (sr_document row)) = Inr ()"
    by (auto simp: create_snapshot_def Let_def res_simps)
  have rows: "list_all2 (selected_row P db) (sq_selections q) docs0" and dist: "distinct (map fst (sq_selections q))"
    using select_fold [OF sel] by simp_all
  have key: "document_key d = fst sl" and ok: "is_ok (decode_connector P (JObj d))" if "selected_row P db sl d" for sl d
    using that assms(2) by (auto simp: selected_row_def genuine_version_def document_key_def jget_def)
  have keys: "map document_key docs0 = map fst (sq_selections q)"
    using rows by (induction rule: list_all2_induct) (auto dest: key)
  let ?docs = "sort_key document_key docs0"
  have "list_all (\<lambda>d. is_ok (decode_connector P (JObj d))) docs0"
    using rows by (induction rule: list_all2_induct) (auto dest: ok)
  then have "\<exists>c. decode_connector P (JObj d) = Inr c" if "d \<in> set ?docs" for d
    using that by (auto simp: list_all_iff is_ok_iff)
  then obtain f where f: "\<And>d. d \<in> set ?docs \<Longrightarrow> decode_connector P (JObj d) = Inr (f d)" by metis
  have dec: "rmap (decode_connector P) (map JObj ?docs) = Inr (map f ?docs)"
  proof -
    have "rmap (decode_connector P) (map JObj ds) = Inr (map f ds)" if "set ds \<subseteq> set ?docs" for ds
      using that f by (induction ds) auto
    then show ?thesis by blast
  qed
  have "map connector_key (map f ?docs) = map document_key ?docs"
    using f decoded_key by fastforce
  moreover have "distinct (map document_key ?docs)"
    using dist keys by (metis distinct_map set_sort distinct_sort)
  ultimately have "distinct (map connector_key (map f ?docs))" by (simp only:)
  with doc val dec show ?thesis by blast
qed

section \<open>Loading it\<close>

text \<open>The document of a created snapshot, written out, with its signature block.\<close>

definition signed_document :: "string \<Rightarrow> nat \<Rightarrow> datetime \<Rightarrow> json dict list \<Rightarrow> string \<Rightarrow> string \<Rightarrow> json \<Rightarrow> json dict" where
  "signed_document k n now docs sid digest block =
     dset ''signature'' block
       (snapshot_payload k n now docs @ [(''snapshot_id'', JStr sid), (''snapshot_digest'', JStr digest)])"

lemma signed_document_fields:
  "dkeys (signed_document k n now docs sid digest block) =
     [''contract_version'', ''deployment_key'', ''revision'', ''created_at'', ''connectors'', ''snapshot_id'', ''snapshot_digest'', ''signature'']"
  "dget (signed_document k n now docs sid digest block) ''contract_version'' = Some (JStr CONTRACT_VERSION)"
  "dget (signed_document k n now docs sid digest block) ''deployment_key'' = Some (JStr k)"
  "dget (signed_document k n now docs sid digest block) ''revision'' = Some (JInt (int n))"
  "dget (signed_document k n now docs sid digest block) ''created_at'' = Some (JStr (str_replace ''+00:00'' ''Z'' (isoformat now)))"
  "dget (signed_document k n now docs sid digest block) ''connectors'' = Some (JArr (map JObj docs))"
  "dget (signed_document k n now docs sid digest block) ''snapshot_id'' = Some (JStr sid)"
  "dget (signed_document k n now docs sid digest block) ''snapshot_digest'' = Some (JStr digest)"
  "dget (signed_document k n now docs sid digest block) ''signature'' = Some block"
  "ddel SNAPSHOT_DIGEST_EXCLUDED (signed_document k n now docs sid digest block) = snapshot_payload k n now docs"
  by (simp_all add: signed_document_def snapshot_payload_def dkeys_def ddel_def SNAPSHOT_DIGEST_EXCLUDED_def)

lemma signed_snapshot_document:
  assumes "snapshot_document P (Some key) (snapshot_payload k n now docs) = Inr (document, sid, digest)"
  shows "\<exists>block. document = signed_document k n now docs sid digest block \<and>
    sign_document P (snapshot_payload k n now docs @ [(''snapshot_id'', JStr sid), (''snapshot_digest'', JStr digest)]) key = Inr block \<and>
    content_digest P (JObj (snapshot_payload k n now docs)) [] = Inr digest \<and> content_id P (snapshot_payload k n now docs) = Inr sid"
  using assms by (auto simp: snapshot_document_def Let_def res_simps signed_document_def)

lemma signed_block:
  assumes "ed25519_correct P" and "length (sk_seed key) = 32" and "key_id_ok (sk_key_id key)" and "sign_document P d key = Inr block"
  shows "\<exists>sg. decode_signature block = Inr sg \<and> signature_ok sg \<and> block \<noteq> JNull"
proof -
  obtain msg where b: "block = JObj [(''algorithm'', JStr SIGNATURE_ALGORITHM), (''key_id'', JStr (sk_key_id key)),
      (''value'', JStr (b64u_encode (ed_sign P (sk_seed key) msg)))]"
    using assms(4) by (auto simp: sign_document_def res_simps)
  have "signature_value_ok (b64u_encode (ed_sign P (sk_seed key) msg))"
    using assms(1,2) by (intro signature_encoding_ok) (simp add: ed25519_correct_def)
  with assms(3) show ?thesis
    by (simp add: b decode_signature_def field_def dkeys_def checked_def signature_ok_def as_literal_def SIGNATURE_ALGORITHM_def)
qed

lemma contract_version_ok: "semantic_version_ok CONTRACT_VERSION" "is_supported (JStr CONTRACT_VERSION)"
  by code_simp+

lemma signed_document_decodes:
  assumes laws: "ed25519_correct P" "pydantic_exact P" "hex_digests P"
    and key: "length (sk_seed key) = 32" "key_id_ok (sk_key_id key)"
    and doc: "snapshot_document P (Some key) (snapshot_payload k n now docs) = Inr (document, sid, digest)"
    and val: "validate_deployment_snapshot P (JObj document) = Inr ()"
    and conns: "rmap (decode_connector P) (map JObj docs) = Inr conns" "distinct (map connector_key conns)"
    and k: "resource_key_ok k" "1 \<le> n"
  shows "\<exists>s. decode_snapshot P (JObj document) = Inr s \<and> connectors s = conns \<and> revision s = int n"
proof -
  obtain block where d: "document = signed_document k n now docs sid digest block"
    and sg: "sign_document P (snapshot_payload k n now docs @ [(''snapshot_id'', JStr sid), (''snapshot_digest'', JStr digest)]) key = Inr block"
    and dig: "content_digest P (JObj (snapshot_payload k n now docs)) [] = Inr digest"
    and cid: "content_id P (snapshot_payload k n now docs) = Inr sid"
    using signed_snapshot_document [OF doc] by blast
  obtain sig where sig: "decode_signature block = Inr sig" "signature_ok sig" "block \<noteq> JNull"
    using signed_block [OF laws(1) key sg] by blast
  from dig have "rx_match DIGEST_PATTERN digest"
    using digest_matches [OF laws(3)] by (auto simp: content_digest_def digest_of_def DIGEST_PREFIX_def res_simps)
  moreover from cid have "rx_match SNAPSHOT_ID_PATTERN sid"
    using snapshot_id_matches [OF laws(3)] by (auto simp: content_id_def res_simps)
  moreover have "connector_ok c \<and> lifecycle_state c = ''published''" if c: "c \<in> set conns" for c
  proof -
    obtain e where e: "e \<in> set docs" "decode_connector P (JObj e) = Inr c"
      using rmap_Inr_elem [OF conns(1) c] by auto
    have "item (JObj e) ''lifecycle_state'' = Inr (JStr ''published'')"
      using validated_published [OF val, of "map JObj docs" "JObj e"] e(1) by (simp add: d signed_document_fields)
    with decoded_key [OF e(2)] decode_connector_ok [OF e(2)] show ?thesis by simp
  qed
  ultimately have "snapshot_ok \<lparr>snap_contract_version = CONTRACT_VERSION, snapshot_id = sid, deployment_key = k,
      revision = int n, snap_created_at = str_replace ''+00:00'' ''Z'' (isoformat now), snapshot_digest = digest,
      connectors = conns, signature = Some sig\<rparr>" (is "snapshot_ok ?s")
    using contract_version_ok(1) k conns(2) sig(2) by (auto simp: snapshot_ok_def list_all_iff)
  moreover have "opt_signature document = Inr (Some sig)"
    using sig by (cases block) (simp_all add: opt_signature_def jget_def d signed_document_fields)
  ultimately have "decode_snapshot P (JObj document) = Inr ?s"
    using conns(1) as_int_exact [OF laws(2)]
    by (simp add: decode_snapshot_def d signed_document_fields field_def checked_def)
  then show ?thesis by (intro exI [of _ ?s]) simp
qed

lemma created_snapshot_loads:
  assumes laws: "ed25519_correct P" "pydantic_exact P" "hex_digests P"
    and key: "length (sk_seed key) = 32" "key_id_ok (sk_key_id key)"
    and doc: "snapshot_document P (Some key) (snapshot_payload k n now docs) = Inr (document, sid, digest)"
    and val: "validate_deployment_snapshot P (JObj document) = Inr ()"
    and conns: "rmap (decode_connector P) (map JObj docs) = Inr conns" "distinct (map connector_key conns)"
    and k: "resource_key_ok k" "1 \<le> n"
    and trust: "ring_parse entries = Inr (trusted_keys V)" "sk_key_id key @ '':'' @ encoded_public_key P key \<in> set entries"
  shows "if distinct (tool_names_of conns)
    then \<exists>l. load_snapshot_document P (JObj document) tag (Some V) t = Inr l \<and> connectors (loaded_document l) = conns \<and>
      revision (loaded_document l) = int n \<and> signing_key_id l = Some (sk_key_id key) \<and> etag l = tag
    else load_snapshot_document P (JObj document) tag (Some V) t = Inl snapshot_integrity_error"
proof -
  obtain block where d: "document = signed_document k n now docs sid digest block"
    and sg: "sign_document P (snapshot_payload k n now docs @ [(''snapshot_id'', JStr sid), (''snapshot_digest'', JStr digest)]) key = Inr block"
    and dig: "content_digest P (JObj (snapshot_payload k n now docs)) [] = Inr digest"
    using signed_snapshot_document [OF doc] by blast
  have "block \<noteq> JNull" using signed_block [OF laws(1) key sg] by blast
  moreover have "verify_document P document (trusted_keys V) = Inr (sk_key_id key)"
    using verify_signed [OF laws(1) key trust sg] by (simp add: d signed_document_def)
  ultimately have prod: "check_producer P V document = Inr (Some (sk_key_id key))"
    by (simp add: check_producer_def authenticate_document_def jget_def d signed_document_fields)
  have "starts_with ''sha256:'' digest"
    using dig by (auto simp: content_digest_def digest_of_def DIGEST_PREFIX_def starts_with_def res_simps)
  moreover have "content_digest P (JObj document) SNAPSHOT_DIGEST_EXCLUDED = Inr digest"
    using dig by (simp add: content_digest_def d signed_document_fields) (simp add: SNAPSHOT_DIGEST_EXCLUDED_def)
  ultimately have ver: "verify_digest P (JObj document) (JStr digest) SNAPSHOT_DIGEST_EXCLUDED"
    by (simp add: verify_digest_def DIGEST_PREFIX_def)
  obtain s where s: "decode_snapshot P (JObj document) = Inr s" "connectors s = conns" "revision s = int n"
    using signed_document_decodes [OF laws key doc val conns k] by blast
  have "connector_ok c" if "c \<in> set conns" for c
    using rmap_Inr_elem [OF conns(1) that] decode_connector_ok by blast
  then have again: "rmap (\<lambda>c. decode_connector P (dump_connector c)) conns = Inr conns"
    using decode_dump_connector [OF laws(2)] rmap_all_ok [of conns "\<lambda>c. decode_connector P (dump_connector c)" id] by simp
  obtain cv where "require_supported (JStr CONTRACT_VERSION) = Inr cv"
    using contract_version_ok(2) by (auto simp: is_supported_def is_ok_iff)
  then have load: "load_snapshot_document P (JObj document) tag (Some V) t =
      rbind (index_snapshot s) (\<lambda>index. Inr \<lparr>loaded_document = s, etag = tag, loaded_at = t, tools_by_name = index,
        signing_key_id = Some (sk_key_id key)\<rparr>)"
    using val ver prod s again
    by (simp add: load_snapshot_document_def jget_def) (simp add: d signed_document_fields)
  show ?thesis
    using index_snapshot_iff [of s] index_snapshot_Inl [of s]
    by (cases "index_snapshot s") (auto simp: load s)
qed

section \<open>Serving it\<close>

lemma commit_replacement_rows:
  assumes "commit (replacement r) db = Inr db'"
  shows "db_deployments db' = db_deployments db"
  using assms by (auto simp: replacement_def commit_Cons res_simps split: if_splits)

text \<open>Right after it was created, a snapshot is the active one.\<close>

lemma created_is_active:
  assumes run: "sys_run P E start_system s" and made: "perform P E now (Snap q) (sys_db s) = Inr (db', SnapshotReply r)"
  shows "create_snapshot P E now q (sys_db s) = Inr (replacement r, r) \<and> 1 \<le> sr_revision r \<and>
    get_active_snapshot db' (sq_deployment_key q) = Inr (stored_snapshot r) \<and> sr_deployment r = sq_deployment_key q"
proof -
  obtain cs where p: "create_snapshot P E now q (sys_db s) = Inr (cs, r)" and c: "commit cs (sys_db s) = Inr db'"
    using made by (auto simp: perform_def res_simps)
  have g: "\<forall>k. gapless (snapshots_of (sys_db s) k)"
    using system_orderly_run [OF run] by (simp add: system_orderly_def)
  have "plan P E now (Snap q) (sys_db s) = Inr (cs, SnapshotReply r)" using p by (simp add: with_reply_def)
  from plan_orderly [OF this g] create_snapshot_Inr [OF p] have cs: "cs = replacement r" "planned_replacement (sys_db s) r"
    by (auto simp: orderly_def replacement_def)
  note new = commit_replacement [OF c [unfolded cs(1)] spec [OF g] cs(2)]
  have "sys_run P E start_system (s\<lparr>sys_db := db'\<rparr>)"
    using rtranclp_trans [OF run perform_run [OF made]] .
  note rev = snapshot_revisions_are_gapless_of [OF this, of "sr_deployment r"]
  have k: "sr_deployment r = sq_deployment_key q" using create_snapshot_Inr [OF p] by blast
  have "is_ok (get_deployment (sys_db s) (sq_deployment_key q))"
    using p by (auto simp: create_snapshot_def res_simps is_ok_iff)
  then have "is_ok (get_deployment db' (sq_deployment_key q))"
    using commit_replacement_rows [OF c [unfolded cs(1)]] by (simp add: get_deployment_def find_deployment_def)
  then obtain d where d: "get_deployment db' (sq_deployment_key q) = Inr d" by (auto simp: is_ok_iff)
  have "active_snapshot db' (sr_deployment r) = Some (stored_snapshot r)" using rev new by simp
  then have "get_active_snapshot db' (sq_deployment_key q) = Inr (stored_snapshot r)"
    using d k get_deployment_Inr [OF d] by (simp add: get_active_snapshot_def)
  with p cs k show ?thesis by (simp add: planned_replacement_def)
qed

lemma active_member:
  assumes "get_active_snapshot db k = Inr r"
  shows "r \<in> set (db_snapshots db)"
proof -
  obtain d :: deployment_row where "first_match sr_active (rev (snapshot_rows db (dp_key d))) = Some r"
    using assms by (auto simp: get_active_snapshot_def active_snapshot_def res_simps split: option.splits)
  from first_match_Some [OF this] show ?thesis by (simp add: snapshot_rows_def snapshots_of_def)
qed

text \<open>A resource key is one segment of a path.\<close>

lemma key_tail_char:
  assumes "in_rx (Star (Seq (Cls (\<lambda>c. c = CHR ''-'')) (rx_plus (Cls is_lower_or_digit)))) x" and "c \<in> set x"
  shows "is_lower_or_digit c \<or> c = CHR ''-''"
proof -
  have "in_rx r x \<Longrightarrow> r = Star (Seq (Cls (\<lambda>c. c = CHR ''-'')) (rx_plus (Cls is_lower_or_digit))) \<Longrightarrow>
      c \<in> set x \<Longrightarrow> is_lower_or_digit c \<or> c = CHR ''-''" for r x
    by (induction rule: in_rx.induct) (auto simp: in_Seq_Cls_iff rx_plus_def in_Star_Cls_iff)
  with assms show ?thesis by blast
qed

lemma key_char:
  assumes "in_rx KEY_PATTERN k" and "c \<in> set k"
  shows "is_lower_or_digit c \<or> c = CHR ''-''"
proof -
  obtain d x y where k: "k = d # x @ y" "is_lower d" "in_rx (Star (Cls is_lower_or_digit)) x"
    "in_rx (Star (Seq (Cls (\<lambda>c. c = CHR ''-'')) (rx_plus (Cls is_lower_or_digit)))) y"
    using assms(1) by (auto simp: KEY_PATTERN_def in_Seq_Cls_iff in_Seq_iff [of "Star _"])
  from k(1) assms(2) consider "c = d" | "c \<in> set x" | "c \<in> set y" by auto
  then show ?thesis
  proof cases
    case 1
    with k(2) show ?thesis by (simp add: is_lower_or_digit_def)
  next
    case 2
    with k(3) show ?thesis by (simp add: in_Star_Cls_iff)
  next
    case 3
    with k(4) show ?thesis by (rule key_tail_char)
  qed
qed

lemma deployment_of_snapshot_url:
  assumes "resource_key_ok k"
  shows "deployment_of (client_base_url c) (snapshot_url c k) = Some k"
proof -
  have "k \<noteq> []" using assms by (auto simp: resource_key_ok_def len_between_def)
  moreover have "CHR ''/'' \<notin> set k"
    using key_char [of k "CHR ''/''"] assms
    by (auto simp: resource_key_ok_def rx_match_iff is_lower_or_digit_def is_lower_def is_digit_def)
  ultimately show ?thesis
    by (simp add: deployment_of_def snapshot_url_def starts_with_def ends_with_def Let_def)
qed

lemma read_active:
  assumes "get_active_snapshot db k = Inr r" and "list_all is_ascii (cp_service_token S)"
  shows "read_snapshot S db k (Some (cp_service_token S)) None = Inr (200, entity_tag r, Some (JObj (sr_document r)))"
  using assms by (simp add: read_snapshot_def require_service_def compare_digest_def)

lemma hex_plain: "is_hex_lower c \<Longrightarrow> \<not> is_space c \<and> c \<noteq> CHR '',''"
  by (auto simp: is_hex_lower_def is_digit_def is_space_def)

lemma tag_matches_itself:
  assumes "content_digest P v [] = Inr d" and "hex_digests P"
  shows "etag_matches (CHR 0x22 # d @ [CHR 0x22]) (CHR 0x22 # d @ [CHR 0x22])"
proof -
  let ?tag = "CHR 0x22 # d @ [CHR 0x22]"
  obtain b where d: "d = ''sha256:'' @ sha256_hex P b"
    using assms(1) by (auto simp: content_digest_def digest_of_def DIGEST_PREFIX_def res_simps)
  have "\<forall>c\<in>set (sha256_hex P b). \<not> is_space c \<and> c \<noteq> CHR '',''"
    using assms(2) hex_plain by (auto simp: hex_digests_def list_all_iff)
  then have plain: "\<forall>c\<in>set d. \<not> is_space c \<and> c \<noteq> CHR '',''" by (auto simp: d is_space_def)
  then have "split_on CHR '','' ?tag = [?tag]" by (intro split_on_id) auto
  moreover have "str_strip ?tag = ?tag"
    using plain by (intro str_strip_id) (auto simp: list_all_iff is_space_def)
  ultimately show ?thesis by (simp add: etag_matches_def)
qed

section \<open>Properties\<close>

text \<open>
  C5: What the Control Plane signs and stores, the runtime loads: right after a snapshot was created, a client
  that shares the service token and trusts the public key fetches it through the internal API and accepts it,
  with the connectors, the revision and the key it was created with, and a conditional request for the same tag
  transfers nothing. The one exception is a tool name that two of its connectors share, which the Control
  Plane never checks: then the runtime refuses the snapshot.
\<close>

theorem created_snapshot_is_delivered:
  assumes "sys_run P E start_system s" and "perform P E now (Snap q) (sys_db s) = Inr (db', SnapshotReply r)"
    and "env_signing_key E = Some key" and "length (sk_seed key) = 32" and "key_id_ok (sk_key_id key)"
    and "ed25519_correct P" and "pydantic_exact P" and "hex_digests P"
    and "ring_parse entries = Inr (trusted_keys (client_verification c))"
    and "sk_key_id key @ '':'' @ encoded_public_key P key \<in> set entries"
    and "client_token c = cp_service_token S" and "list_all is_ascii (cp_service_token S)" and "client_token c \<noteq> []"
    and "resource_key_ok (sq_deployment_key q)"
  shows "\<exists>docs conns. jget (sr_document r) ''connectors'' = JArr (map JObj docs) \<and>
    rmap (decode_connector P) (map JObj docs) = Inr conns \<and>
    (if distinct (tool_names_of conns)
     then \<exists>l. fetch_snapshot P (internal_service S db' (client_base_url c) prose) c (sq_deployment_key q) t None = Inr (Some l) \<and>
       connectors (loaded_document l) = conns \<and> revision (loaded_document l) = int (sr_revision r) \<and>
       signing_key_id l = Some (sk_key_id key) \<and> etag l = Some (entity_tag r) \<and>
       fetch_snapshot P (internal_service S db' (client_base_url c) prose) c (sq_deployment_key q) t (etag l) = Inr None
     else fetch_snapshot P (internal_service S db' (client_base_url c) prose) c (sq_deployment_key q) t None =
       Inl snapshot_integrity_error)"
proof -
  note made = created_is_active [OF assms(1,2)]
  have gen: "\<forall>v\<in>set (db_versions (sys_db s)). genuine_version P v"
    using system_genuine_run [OF assms(1)] by (simp add: system_genuine_def artifacts_genuine_def list_all_iff)
  obtain docs conns where
    doc: "snapshot_document P (Some key) (snapshot_payload (sr_deployment r) (sr_revision r) now docs) =
      Inr (sr_document r, sr_snapshot_id r, sr_digest r)"
    and val: "validate_deployment_snapshot P (JObj (sr_document r)) = Inr ()"
    and conns: "rmap (decode_connector P) (map JObj docs) = Inr conns" "distinct (map connector_key conns)"
    using created_documents [OF made [THEN conjunct1] gen] unfolding assms(3) by blast
  obtain block where d: "sr_document r = signed_document (sr_deployment r) (sr_revision r) now docs (sr_snapshot_id r) (sr_digest r) block"
    and dig: "content_digest P (JObj (snapshot_payload (sr_deployment r) (sr_revision r) now docs)) [] = Inr (sr_digest r)"
    using signed_snapshot_document [OF doc] by blast
  have k: "resource_key_ok (sr_deployment r)" "1 \<le> sr_revision r" using made assms(14) by auto
  note load = created_snapshot_loads [OF assms(6,7,8,4,5) doc val conns k assms(9,10)]
  have row: "entity_tag (stored_snapshot r) = entity_tag r" "sr_document (stored_snapshot r) = sr_document r"
    by (simp_all add: entity_tag_def stored_snapshot_def)
  have first: "fetch_snapshot P (internal_service S db' (client_base_url c) prose) c (sq_deployment_key q) t None =
      rbind (load_snapshot_document P (JObj (sr_document r)) (Some (entity_tag r)) (Some (client_verification c)) t) (\<lambda>l. Inr (Some l))"
    using read_active [of db' "sq_deployment_key q" "stored_snapshot r" S] made assms(11,12) row
    by (simp add: fetch_snapshot_def internal_service_def deployment_of_snapshot_url [OF assms(14)] header_of_def fetch_headers_def)
  have "etag_matches (entity_tag r) (entity_tag r)"
    using tag_matches_itself [OF dig assms(8)] by (simp add: entity_tag_def)
  then have again: "fetch_snapshot P (internal_service S db' (client_base_url c) prose) c (sq_deployment_key q) t (Some (entity_tag r)) = Inr None"
    using made assms(11,12) row
    by (simp add: fetch_snapshot_def internal_service_def deployment_of_snapshot_url [OF assms(14)] header_of_def fetch_headers_def
        read_snapshot_def require_service_def compare_digest_def) (simp add: entity_tag_def)
  have "jget (sr_document r) ''connectors'' = JArr (map JObj docs)" by (simp add: jget_def d signed_document_fields)
  with conns(1) first again load [of "Some (entity_tag r)" t] show ?thesis
    by (intro exI [of _ docs] exI [of _ conns]) (auto split: if_splits)
qed

text \<open>
  C13: The two credentials are separate: with settings the service starts with, a token that one audience
  presents successfully is refused for the other. A token that is not ASCII is neither accepted nor refused:
  comparing it raises, for every credential.
\<close>

theorem credentials_are_separate:
  assumes "get_cp_settings env = Inr S"
  shows "(\<forall>t a. require_service S t = Inr a \<longrightarrow> require_admin S t \<in> {Inl unauthenticated, Inl TypeError}) \<and>
    (\<forall>t a. require_admin S t = Inr a \<longrightarrow> require_service S t \<in> {Inl unauthenticated, Inl TypeError}) \<and>
    (\<forall>t. \<not> list_all is_ascii t \<longrightarrow> require_admin S (Some t) = Inl TypeError \<and> require_service S (Some t) = Inl TypeError)"
proof -
  have "admin_token S \<noteq> cp_service_token S"
    using assms by (auto simp: get_cp_settings_def check_cp_settings_def res_simps split: if_splits)
  then show ?thesis
    by (auto simp: require_service_def require_admin_def compare_digest_def res_simps split: option.splits if_splits)
qed

text \<open>The example connector, deployed and pinned by a signed snapshot.\<close>

definition example_pin :: snapshot_request where
  "example_pin = \<lparr>sq_deployment_key = ''demo'', sq_selections = [(''tickets'', ''0.1.0'')], sq_created_by = ''admin''\<rparr>"

definition example_cp_settings :: cp_settings where
  "example_cp_settings =
     \<lparr>database_url = DEFAULT_DATABASE_URL, admin_token = DEV_ADMIN_TOKEN, cp_service_token = CP_DEV_SERVICE_TOKEN,
      cp_cors_origins = DEFAULT_CORS_ORIGINS, max_source_bytes = 2 * 1024 * 1024, snapshot_signing_key = [],
      snapshot_signing_key_id = []\<rparr>"

definition example_runtime_client :: snapshot_client where
  "example_runtime_client = example_client\<lparr>client_token := CP_DEV_SERVICE_TOKEN\<rparr>"

lemma credentials_are_separate_witness:
  "get_cp_settings (\<lambda>_. None) = Inr example_cp_settings \<and>
   require_service example_cp_settings (Some CP_DEV_SERVICE_TOKEN) = Inr ''runtime'' \<and>
   require_admin example_cp_settings (Some CP_DEV_SERVICE_TOKEN) \<in> {Inl unauthenticated, Inl TypeError}"
proof -
  have "get_cp_settings (\<lambda>_. None) = Inr example_cp_settings"
    "require_service example_cp_settings (Some CP_DEV_SERVICE_TOKEN) = Inr ''runtime''" by code_simp+
  with credentials_are_separate [of "\<lambda>_. None" example_cp_settings] show ?thesis by blast
qed

definition pinned_names :: "database \<Rightarrow> string list" where
  "pinned_names db =
     (case db_snapshots db of
        [r] \<Rightarrow>
          (case rmap (decode_connector sample_platform) (case jget (sr_document r) ''connectors'' of JArr xs \<Rightarrow> xs | _ \<Rightarrow> []) of
             Inl e \<Rightarrow> [] | Inr cs \<Rightarrow> tool_names_of cs)
      | _ \<Rightarrow> [])"

lemma example_pinned:
  "ended (perform sample_platform example_env example_clock (Deploy ''demo'' ''Demo'' []) example_published) (\<lambda>d1.
   ended (perform sample_platform example_env example_clock (Snap example_pin) d1) (\<lambda>d2. pinned_names d2 = [''list_tickets'']))"
  by code_simp

lemma example_trust_ring:
  "ring_parse [sk_key_id example_key @ '':'' @ encoded_public_key sample_platform example_key] =
     Inr [public_key sample_platform example_key]"
proof -
  have "length (sk_seed example_key) = 32" "key_id_ok (sk_key_id example_key)" by code_simp+
  with parse_entry_public_key [OF sample_ed25519] show ?thesis
    by (simp add: ring_parse_def ring_key_ids_def rbind_eq_Inr ring_add_Inr)
qed

lemma created_snapshot_is_delivered_witness:
  "\<exists>db' l. fetch_snapshot sample_platform (internal_service example_cp_settings db' (client_base_url example_runtime_client) [])
       example_runtime_client ''demo'' 0 None = Inr (Some l) \<and> tool_names_of (connectors (loaded_document l)) = [''list_tickets'']"
proof -
  obtain d1 r1 d2 rep where
    s1: "perform sample_platform example_env example_clock (Deploy ''demo'' ''Demo'' []) example_published = Inr (d1, r1)"
    and s2: "perform sample_platform example_env example_clock (Snap example_pin) d1 = Inr (d2, rep)"
    and names: "pinned_names d2 = [''list_tickets'']"
    using example_pinned by (auto simp: ended_iff)
  obtain r where rep: "rep = SnapshotReply r" using s2 by (auto simp: perform_def res_simps)
  have run: "sys_run sample_platform example_env start_system \<lparr>sys_db = d1, sys_open = []\<rparr>"
    by (rule rtranclp_trans [OF example_published_run perform_idle_run [OF s1]])
  have key: "length (sk_seed example_key) = 32" "key_id_ok (sk_key_id example_key)" by code_simp+
  have "stored_snapshot r \<in> set (db_snapshots d2)"
    using created_is_active [OF run, of example_clock example_pin d2 r] s2 rep active_member by auto
  then have rows: "db_snapshots d2 = [stored_snapshot r]"
    using names by (auto simp: pinned_names_def split: list.splits)
  have created: "perform sample_platform example_env example_clock (Snap example_pin) (sys_db \<lparr>sys_db = d1, sys_open = []\<rparr>) =
      Inr (d2, SnapshotReply r)"
    using s2 rep by simp
  have side: "env_signing_key example_env = Some example_key"
    "ring_parse [sk_key_id example_key @ '':'' @ encoded_public_key sample_platform example_key] =
       Inr (trusted_keys (client_verification example_runtime_client))"
    "sk_key_id example_key @ '':'' @ encoded_public_key sample_platform example_key \<in>
       set [sk_key_id example_key @ '':'' @ encoded_public_key sample_platform example_key]"
    "client_token example_runtime_client = cp_service_token example_cp_settings"
    using example_trust_ring
    by (simp_all add: example_env_def example_runtime_client_def example_client_def example_cp_settings_def)
  have plain: "list_all is_ascii (cp_service_token example_cp_settings)" "client_token example_runtime_client \<noteq> []"
    "resource_key_ok (sq_deployment_key example_pin)"
    by code_simp+
  note delivered = created_snapshot_is_delivered [OF run created side(1) key sample_ed25519 sample_pydantic sample_hex side(2-4)
      plain, where t = 0 and prose = "[]"]
  obtain docs conns where conns: "jget (sr_document r) ''connectors'' = JArr (map JObj docs)"
    "rmap (decode_connector sample_platform) (map JObj docs) = Inr conns"
    and rest: "if distinct (tool_names_of conns) then \<exists>l. fetch_snapshot sample_platform
        (internal_service example_cp_settings d2 (client_base_url example_runtime_client) []) example_runtime_client
        (sq_deployment_key example_pin) 0 None = Inr (Some l) \<and> connectors (loaded_document l) = conns
      else True"
    using delivered by (elim exE conjE) (rule that, assumption, assumption, auto split: if_splits)
  have "tool_names_of conns = [''list_tickets'']"
    using names conns by (simp add: pinned_names_def rows stored_snapshot_def)
  with rest show ?thesis by (auto simp: example_pin_def)
qed

end
