(* ===== verification/Governance.thy ===== *)
theory Governance
  imports AdminApi Delivery
begin

text \<open>
  From uploaded bytes to published tools: the loader, the analyzer, the review, the publication and the
  administrator API taken together, refined against an abstract account of the work of the reviewers. The
  abstract state holds, per connector, the uploaded bytes, their analysis and the decisions taken so far; the
  requests that the API accepted move it. The refinement says that the stored drafts and the published
  versions are exactly those of the abstract state.
\<close>

section \<open>The abstract workspace\<close>

text \<open>
  A source under review, the sources under review by connector, and what was published: in the order of
  publication, each with the review it had at that moment.
\<close>

record drafted =
  df_source :: string
  df_analysis :: analysis_result
  df_review :: review_state
  df_base_url :: "string option"

record workspace =
  ws_drafts :: "drafted dict"
  ws_published :: "(string \<times> drafted) list"

definition empty_workspace :: workspace where
  "empty_workspace = \<lparr>ws_drafts = [], ws_published = []\<rparr>"

text \<open>
  A registration analyses the uploaded bytes, and the review starts with every analysed tool included as it
  is.
\<close>

definition ws_register :: "platform \<Rightarrow> service_env \<Rightarrow> registration \<Rightarrow> workspace \<Rightarrow> workspace" where
  "ws_register P E g ws =
     (case load_document P (env_parsers E) (register_limits E) (rg_source_bytes g) (rg_source_filename g) of
        Inl _ \<Rightarrow> ws
      | Inr loaded \<Rightarrow>
          (case analyze_document P default_source_limits loaded (rg_base_url g) of
             Inl _ \<Rightarrow> ws
           | Inr ar \<Rightarrow>
               ws\<lparr>ws_drafts := dset (rg_connector_key g)
                   \<lparr>df_source = rg_source_bytes g, df_analysis = ar,
                    df_review = map (\<lambda>(a, t). initial_review_of a t) (with_tools ar),
                    df_base_url = res_base_url ar\<rparr> (ws_drafts ws)\<rparr>))"

text \<open>A review applies its decisions, in their order, and may change the base URL.\<close>

definition ws_review :: "draft_update \<Rightarrow> workspace \<Rightarrow> workspace" where
  "ws_review u ws =
     (case dget (ws_drafts ws) (du_connector_key u) of
        None \<Rightarrow> ws
      | Some d \<Rightarrow>
          (case rfold apply_update (du_updates u) (df_review d) of
             Inl _ \<Rightarrow> ws
           | Inr st \<Rightarrow>
               ws\<lparr>ws_drafts := dset (du_connector_key u)
                   (d\<lparr>df_review := st,
                      df_base_url := (case du_base_url u of None \<Rightarrow> df_base_url d | Some b \<Rightarrow> Some b)\<rparr>)
                   (ws_drafts ws)\<rparr>))"

text \<open>A publication consumes the draft.\<close>

definition ws_publish :: "publish_request \<Rightarrow> workspace \<Rightarrow> workspace" where
  "ws_publish q ws =
     (case dget (ws_drafts ws) (pq_connector_key q) of
        None \<Rightarrow> ws
      | Some d \<Rightarrow>
          ws\<lparr>ws_drafts := ddel [pq_connector_key q] (ws_drafts ws),
             ws_published := ws_published ws @ [(pq_connector_key q, d)]\<rparr>)"

fun workspace_step :: "platform \<Rightarrow> service_env \<Rightarrow> request \<Rightarrow> workspace \<Rightarrow> workspace" where
  "workspace_step P E (Register g) ws = ws_register P E g ws"
| "workspace_step P E (Review u) ws = ws_review u ws"
| "workspace_step P E (Publish q) ws = ws_publish q ws"
| "workspace_step P E _ ws = ws"

section \<open>What the rows hold\<close>

definition review_of :: "analysis_result \<Rightarrow> review_state \<Rightarrow> bool" where
  "review_of ar st \<longleftrightarrow>
     analysis_ok ar \<and> list_all review_ok st \<and> map or_key st = map (\<lambda>e. an_key (fst e)) (with_tools ar)"

definition holds_draft :: "platform \<Rightarrow> drafted \<Rightarrow> draft_row \<Rightarrow> bool" where
  "holds_draft P d r \<longleftrightarrow>
     review_of (df_analysis d) (df_review d) \<and> dr_analysis r = serialize_analysis (df_analysis d) \<and>
     dr_review r = state_to_dict (df_review d) \<and> dr_base_url r = df_base_url d \<and>
     dr_source_bytes r = df_source d \<and> dr_source_digest r = digest_of P (df_source d)"

text \<open>The tool that a review makes of an analysed one; a placeholder description is not admitted.\<close>

definition published_as :: "analysis_result \<Rightarrow> operation_review \<Rightarrow> tool_definition \<Rightarrow> bool" where
  "published_as ar r t' \<longleftrightarrow>
     (\<exists>a t. a \<in> set (res_operations ar) \<and> an_key a = or_key r \<and> an_tool a = Some t \<and> t' = reviewed_tool r t \<and>
        or_origin r \<noteq> JStr ''generated'')"

text \<open>The version that publishes a draft: its tools are those of the included operations, as they were reviewed.\<close>

definition published_from :: "platform \<Rightarrow> string \<times> drafted \<Rightarrow> version_row \<Rightarrow> bool" where
  "published_from P e r \<longleftrightarrow>
     (case e of (k, d) \<Rightarrow>
        review_of (df_analysis d) (df_review d) \<and> vr_connector r = k \<and>
        vr_source_digest r = digest_of P (df_source d) \<and>
        (\<exists>f ts. vr_document r = connector_document f (map dump_tool ts) \<and>
           pf_connector_key f = k \<and> pf_version f = vr_version r \<and> pf_base_url f = df_base_url d \<and>
           pf_source_digest f = digest_of P (df_source d) \<and>
           list_all2 (published_as (df_analysis d)) (included (df_review d)) ts \<and> list_all tool_ok ts \<and>
           distinct (map tool_name ts)))"

definition simulates :: "platform \<Rightarrow> workspace \<Rightarrow> database \<Rightarrow> bool" where
  "simulates P ws db \<longleftrightarrow>
     drafts_ok db \<and> (\<forall>k. rel_option (holds_draft P) (dget (ws_drafts ws) k) (find_draft db k)) \<and>
     list_all2 (published_from P) (ws_published ws) (db_versions db)"

lemma simulates_empty: "simulates P empty_workspace empty_database"
  by (simp add: simulates_def drafts_ok_def empty_database_def empty_workspace_def find_draft_def)

section \<open>Equal reviews\<close>

text \<open>
  An update that leaves the review equal, as Python compares JSON values, does not write it: for well-typed
  reviews equal values are the same value.
\<close>

lemma py_eq_bools: "py_eq (JBool a) (JBool b) \<longleftrightarrow> a = b"
  by (cases a; cases b) (simp_all add: py_eq.simps float_eq_def)

lemma py_eq_JStrs: "py_eq (JArr (map JStr xs)) (JArr (map JStr ys)) \<longleftrightarrow> xs = ys"
proof -
  have "py_eq (JArr (map JStr xs)) (JArr (map JStr ys)) \<longleftrightarrow> length xs = length ys \<and> (\<forall>i<length xs. xs ! i = ys ! i)"
    by (subst py_eq.simps) (auto simp: list_all_iff atLeast0LessThan)
  then show ?thesis by (simp add: list_eq_iff_nth_eq)
qed

lemma review_parts_str:
  assumes "review_ok r"
  obtains sel origin effect mode rs where "or_selection r = JStr sel" and "or_origin r = JStr origin"
    and "or_effect r = JStr effect" and "or_mode r = JStr mode" and "or_roles r = map JStr rs"
proof -
  from assms obtain sel origin effect where
    parts: "or_selection r = JStr sel" "or_origin r = JStr origin" "or_effect r = JStr effect"
    by (auto simp: review_ok_def origin_ok_def effect_ok_def is_str_iff)
  from assms obtain a :: access_policy where "or_mode r = JStr (policy_mode a)" "or_roles r = map JStr (policy_roles a)"
    unfolding review_ok_def by blast
  with parts show thesis by (rule that)
qed

lemma py_eq_review:
  assumes "py_eq (review_to_dict r) (review_to_dict r')" and "review_ok r" and "review_ok r'"
  shows "r = r'"
proof -
  obtain sel origin effect mode rs where r: "or_selection r = JStr sel" "or_origin r = JStr origin"
    "or_effect r = JStr effect" "or_mode r = JStr mode" "or_roles r = map JStr rs" by (rule review_parts_str [OF assms(2)])
  obtain sel' origin' effect' mode' rs' where r': "or_selection r' = JStr sel'" "or_origin r' = JStr origin'"
    "or_effect r' = JStr effect'" "or_mode r' = JStr mode'" "or_roles r' = map JStr rs'"
    by (rule review_parts_str [OF assms(3)])
  from assms(1) have "or_key r = or_key r' \<and> sel = sel' \<and> or_description r = or_description r' \<and> origin = origin' \<and>
      effect = effect' \<and> or_confirm r = or_confirm r' \<and> mode = mode' \<and> rs = rs'"
    unfolding review_to_dict_def r r' by (subst (asm) py_eq.simps) (simp add: py_eq_bools py_eq_JStrs)
  with r r' show ?thesis by (intro operation_review.equality) simp_all
qed

lemma py_eq_states:
  assumes "py_eq (JObj (state_to_dict st)) (JObj (state_to_dict st'))" and "list_all review_ok st" and "list_all review_ok st'"
  shows "st = st'"
proof -
  from assms(1) have "py_eq (JArr (map review_to_dict st)) (JArr (map review_to_dict st'))"
    unfolding state_to_dict_def by (subst (asm) py_eq.simps) simp
  then have "length st = length st' \<and> (\<forall>i<length st. py_eq (review_to_dict (st ! i)) (review_to_dict (st' ! i)))"
    by (subst (asm) py_eq.simps) (auto simp: list_all_iff)
  with assms(2,3) show ?thesis by (auto simp: list_eq_iff_nth_eq list_all_length intro: py_eq_review)
qed

section \<open>Writes\<close>

lemma find_draft_iff:
  assumes "drafts_ok db"
  shows "find_draft db k = Some d \<longleftrightarrow> d \<in> set (db_drafts db) \<and> dr_connector d = k"
  using assms first_match_unique [of dr_connector "db_drafts db" d]
  by (auto simp: find_draft_def drafts_ok_def dest: first_match_Some)

lemma find_draft_eqI: "(\<And>x. find_draft db k = Some x \<longleftrightarrow> found = Some x) \<Longrightarrow> find_draft db k = found"
  by (metis not_Some_eq)

lemma found_draft: "drafts_ok db \<Longrightarrow> get_draft db k = Inr d \<Longrightarrow> find_draft db k = Some d"
  using get_draft_Inr [of db k d] by (simp add: find_draft_iff)

lemma same_draft_id:
  "drafts_ok db \<Longrightarrow> d \<in> set (db_drafts db) \<Longrightarrow> x \<in> set (db_drafts db) \<Longrightarrow> dr_id x = dr_id d \<longleftrightarrow> x = d"
  by (auto simp: drafts_ok_def distinct_map inj_on_def)

lemma same_draft_connector:
  "drafts_ok db \<Longrightarrow> d \<in> set (db_drafts db) \<Longrightarrow> x \<in> set (db_drafts db) \<Longrightarrow> dr_connector x = dr_connector d \<longleftrightarrow> x = d"
  by (auto simp: drafts_ok_def distinct_map inj_on_def)

text \<open>The writes of the other requests touch neither drafts nor the content of what is published.\<close>

fun aside :: "change \<Rightarrow> bool" where
  "aside (InsertDraft d) = False"
| "aside (UpdateDraft old new) = False"
| "aside (DeleteDraft i) = False"
| "aside (InsertVersion r) = False"
| "aside _ = True"

lemma apply_aside:
  "aside c \<Longrightarrow> apply_change c db = Inr db' \<Longrightarrow> db_drafts db' = db_drafts db \<and> published_content db' = published_content db"
  using apply_change_versions [of c db db'] by (cases c) (auto simp: res_simps)

lemma commit_aside:
  "list_all aside cs \<Longrightarrow> commit cs db = Inr db' \<Longrightarrow>
     db_drafts db' = db_drafts db \<and> published_content db' = published_content db"
  by (induction cs arbitrary: db) (auto simp: commit_Cons res_simps dest: apply_aside)

lemma published_from_content: "published_from P e (version_content r) = published_from P e r"
  by (simp add: published_from_def version_content_def)

lemma simulates_published:
  "list_all2 (published_from P) ps (db_versions db) \<longleftrightarrow> list_all2 (published_from P) ps (published_content db)"
  by (simp add: published_content_def list_all2_map2 published_from_content)

lemma simulates_aside:
  assumes "simulates P ws db" and "list_all aside cs" and "commit cs db = Inr db'"
  shows "simulates P ws db'"
  using assms(1) commit_aside [OF assms(2,3)] commit_drafts [OF _ assms(3)]
  by (simp add: simulates_def simulates_published find_draft_def)

section \<open>The operations\<close>

text \<open>Requests that the schema of the API admits.\<close>

fun request_typed :: "request \<Rightarrow> bool" where
  "request_typed (Review u) = list_all update_typed (du_updates u)"
| "request_typed _ = True"

lemma registered_analysis_ok:
  assumes "load_document P R L raw filename = Inr doc" and "scalar_constructors R"
    and "analyze_document P L' doc override = Inr ar"
  shows "analysis_ok ar"
proof -
  from loaded_document_facts [OF assms(1,2)] obtain paths where
    paths: "jget (doc_content doc) ''paths'' = JObj paths" and keys: "distinct_keys (JObj (doc_content doc))"
    by (auto simp: is_obj_iff)
  from paths have "(''paths'', JObj paths) \<in> set (doc_content doc)"
    by (auto simp: jget_def dest: dget_Some_in split: option.splits)
  with keys have "dict_ok paths" by (auto simp: list_all_iff)
  from analyzed_document_ok [OF assms(3) paths this] show ?thesis .
qed

lemma register_commits:
  assumes "drafts_ok db" and "dr_connector nd = rg_connector_key g"
    and "commit (connector_change db now g ar #
      (case find_draft db (rg_connector_key g) of None \<Rightarrow> [] | Some d \<Rightarrow> [DeleteDraft (dr_id d)]) @ [InsertDraft nd]) db = Inr db'"
  shows "published_content db' = published_content db \<and>
    (\<exists>i. \<forall>k. find_draft db' k = (if k = rg_connector_key g then Some (stored_draft i nd) else find_draft db k))"
proof -
  let ?old = "case find_draft db (rg_connector_key g) of None \<Rightarrow> [] | Some d \<Rightarrow> [DeleteDraft (dr_id d)]"
  from assms(3) obtain m1 m2 where m: "apply_change (connector_change db now g ar) db = Inr m1" "commit ?old m1 = Inr m2"
    "apply_change (InsertDraft nd) m2 = Inr db'"
    by (auto simp: commit_def rfold_append res_simps)
  have "aside (connector_change db now g ar)" by (simp add: connector_change_def split: option.splits)
  from apply_aside [OF this m(1)] have m1: "db_drafts m1 = db_drafts db" "published_content m1 = published_content db" by auto
  have "set (db_drafts m2) = {x \<in> set (db_drafts db). dr_connector x \<noteq> rg_connector_key g} \<and>
      published_content m2 = published_content m1"
  proof (cases "find_draft db (rg_connector_key g)")
    case None
    then have "\<forall>x\<in>set (db_drafts db). dr_connector x \<noteq> rg_connector_key g" by (simp add: find_draft_def first_match_None)
    with None m(2) m1(1) show ?thesis by auto
  next
    case (Some d)
    then have d: "d \<in> set (db_drafts db)" "dr_connector d = rg_connector_key g" by (simp_all add: find_draft_iff [OF assms(1)])
    from Some m(2) have "m2 = m1\<lparr>db_drafts := filter (\<lambda>r. dr_id r \<noteq> dr_id d) (db_drafts m1)\<rparr>" by (simp add: commit_Cons)
    then show ?thesis
      using same_draft_id [OF assms(1) d(1)] same_draft_connector [OF assms(1) d(1)] d(2)
      by (auto simp: m1(1) published_content_def)
  qed
  then have m2: "set (db_drafts m2) = {x \<in> set (db_drafts db). dr_connector x \<noteq> rg_connector_key g}"
    and c2: "published_content m2 = published_content m1" by auto
  from m(3) obtain i where db': "db_drafts db' = db_drafts m2 @ [stored_draft i nd]" "published_content db' = published_content m2"
    by (auto simp: res_simps published_content_def)
  have ok: "drafts_ok db'" by (rule commit_drafts [OF assms(1,3)])
  have nd: "dr_connector (stored_draft i nd) = rg_connector_key g" using assms(2) by (simp add: stored_draft_def)
  have "find_draft db' k = (if k = rg_connector_key g then Some (stored_draft i nd) else find_draft db k)" for k
    by (rule find_draft_eqI) (use m2 nd in \<open>auto simp: find_draft_iff [OF ok] find_draft_iff [OF assms(1)] db'(1)\<close>)
  with db'(2) c2 m1(2) show ?thesis by metis
qed

lemma register_simulates:
  assumes "simulates P ws db" and "register_connector P E now g db = Inr (cs, nd)" and "commit cs db = Inr db'"
    and "scalar_constructors (env_parsers E)"
  shows "simulates P (ws_register P E g ws) db'"
proof -
  from assms(2) obtain loaded ar st v where
    l: "load_document P (env_parsers E) (register_limits E) (rg_source_bytes g) (rg_source_filename g) = Inr loaded"
    and a: "analyze_document P default_source_limits loaded (rg_base_url g) = Inr ar"
    and st: "build_initial_review P (serialize_analysis ar) = Inr st"
    and nd: "nd = new_draft now g loaded ar st v"
    and cs: "cs = connector_change db now g ar #
      (case find_draft db (rg_connector_key g) of None \<Rightarrow> [] | Some d \<Rightarrow> [DeleteDraft (dr_id d)]) @ [InsertDraft nd]"
    by (auto simp: register_connector_def Let_def res_simps)
  let ?d = "\<lparr>df_source = rg_source_bytes g, df_analysis = ar,
      df_review = map (\<lambda>(a, t). initial_review_of a t) (with_tools ar), df_base_url = res_base_url ar\<rparr>"
  have ws: "ws_register P E g ws = ws\<lparr>ws_drafts := dset (rg_connector_key g) ?d (ws_drafts ws)\<rparr>"
    by (simp add: ws_register_def l a)
  have "analysis_ok ar" by (rule registered_analysis_ok [OF l assms(4) a])
  with initial_state_ok [OF this st] st loaded_document_facts [OF l assms(4)]
  have new: "holds_draft P ?d (stored_draft i nd)" for i
    by (simp add: holds_draft_def review_of_def nd new_draft_def stored_draft_def initial_review_serialized)
  have ok: "drafts_ok db" using assms(1) by (simp add: simulates_def)
  have "dr_connector nd = rg_connector_key g" by (simp add: nd new_draft_def)
  from register_commits [OF ok this assms(3) [unfolded cs]] obtain i where
    "published_content db' = published_content db"
    "\<forall>k. find_draft db' k = (if k = rg_connector_key g then Some (stored_draft i nd) else find_draft db k)" by blast
  then show ?thesis
    using assms(1) new commit_drafts [OF ok assms(3)] by (simp add: simulates_def simulates_published ws)
qed

lemma updates_typed:
  "rfold apply_update us st = Inr st' \<Longrightarrow> review_of ar st \<Longrightarrow> list_all update_typed us \<Longrightarrow> review_of ar st'"
proof (induction us arbitrary: st)
  case (Cons u us)
  then obtain mid where "apply_update u st = Inr mid" "rfold apply_update us mid = Inr st'" by (auto simp: res_simps)
  with Cons.prems Cons.IH [of mid] apply_update_ok [of u st mid] show ?case by (simp add: review_of_def)
qed simp

lemma review_commits:
  assumes "drafts_ok db" and "find_draft db k = Some d" and "commit [UpdateDraft d new] db = Inr db'"
  shows "db_versions db' = db_versions db \<and>
    (\<forall>k'. find_draft db' k' = (if k' = k then Some (update_draft_row d new d) else find_draft db k'))"
proof -
  from assms(1,2) have d: "d \<in> set (db_drafts db)" "dr_connector d = k" by (simp_all add: find_draft_iff)
  from assms(3) have db': "db_drafts db' = map (\<lambda>r. if dr_id r = dr_id d then update_draft_row d new r else r) (db_drafts db)"
    "db_versions db' = db_versions db"
    by (auto simp: commit_Cons res_simps)
  have rows: "set (db_drafts db') = insert (update_draft_row d new d) (set (db_drafts db) - {d})"
    using d(1) same_draft_id [OF assms(1) d(1)] by (auto simp: db'(1))
  have ok: "drafts_ok db'" by (rule commit_drafts [OF assms(1,3)])
  have "find_draft db' k' = (if k' = k then Some (update_draft_row d new d) else find_draft db k')" for k'
    by (rule find_draft_eqI)
      (use d same_draft_connector [OF assms(1) d(1)] in
        \<open>auto simp: find_draft_iff [OF ok] find_draft_iff [OF assms(1)] rows update_draft_row_def\<close>)
  with db'(2) show ?thesis by blast
qed

lemma changed_current [simp]: "changed old new old = new"
  by (simp add: changed_def)

lemma review_simulates:
  assumes "simulates P ws db" and "update_review P now u db = Inr (cs, new)" and "list_all update_typed (du_updates u)"
    and "commit cs db = Inr db'"
  shows "simulates P (ws_review u ws) db'"
proof -
  from assms(2) obtain d st0 st where d: "get_draft db (du_connector_key u) = Inr d"
    and st0: "state_from_dict P (dr_review d) = Inr st0" and st: "rfold apply_update (du_updates u) st0 = Inr st"
    and cs: "cs = [UpdateDraft d new]" and new: "dr_review new = state_to_dict st"
      "dr_base_url new = (case du_base_url u of None \<Rightarrow> dr_base_url d | Some b \<Rightarrow> Some b)"
    by (auto simp: update_review_def Let_def res_simps split: if_splits)
  have ok: "drafts_ok db" and rel: "rel_option (holds_draft P) (dget (ws_drafts ws) k) (find_draft db k)" for k
    using assms(1) by (simp_all add: simulates_def)
  note found = found_draft [OF ok d]
  with rel [of "du_connector_key u"] obtain a where a: "dget (ws_drafts ws) (du_connector_key u) = Some a"
    and h: "holds_draft P a d" by (auto simp: option_rel_Some2)
  with st0 have "df_review a = st0" by (auto simp: holds_draft_def state_roundtrip)
  with h have r0: "review_of (df_analysis a) st0" "dr_review d = state_to_dict st0" by (auto simp: holds_draft_def)
  have r: "review_of (df_analysis a) st" by (rule updates_typed [OF st r0(1) assms(3)])
  let ?a = "a\<lparr>df_review := st, df_base_url := (case du_base_url u of None \<Rightarrow> df_base_url a | Some b \<Rightarrow> Some b)\<rparr>"
  have "dr_review (update_draft_row d new d) = state_to_dict st"
    using py_eq_states [of st st0] r r0 by (auto simp: update_draft_row_def new(1) review_of_def)
  with h r have upd: "holds_draft P ?a (update_draft_row d new d)"
    by (simp add: holds_draft_def) (simp add: update_draft_row_def new(2) split: option.split)
  have "ws_review u ws = ws\<lparr>ws_drafts := dset (du_connector_key u) ?a (ws_drafts ws)\<rparr>"
    using st \<open>df_review a = st0\<close> by (simp add: ws_review_def a)
  with review_commits [OF ok found assms(4) [unfolded cs]] show ?thesis
    using assms(1) upd commit_drafts [OF ok assms(4)] by (simp add: simulates_def)
qed

lemma publish_commits:
  assumes "drafts_ok db" and "find_draft db k = Some d" and "commit [InsertVersion row, DeleteDraft (dr_id d)] db = Inr db'"
  shows "db_versions db' = db_versions db @ [stored_version row] \<and>
    (\<forall>k'. find_draft db' k' = (if k' = k then None else find_draft db k'))"
proof -
  from assms(1,2) have d: "d \<in> set (db_drafts db)" "dr_connector d = k" by (simp_all add: find_draft_iff)
  from assms(3) have db': "db_drafts db' = filter (\<lambda>r. dr_id r \<noteq> dr_id d) (db_drafts db)"
    "db_versions db' = db_versions db @ [stored_version row]"
    by (auto simp: commit_Cons res_simps)
  have rows: "set (db_drafts db') = set (db_drafts db) - {d}"
    using same_draft_id [OF assms(1) d(1)] by (auto simp: db'(1))
  have ok: "drafts_ok db'" by (rule commit_drafts [OF assms(1,3)])
  have "find_draft db' k' = (if k' = k then None else find_draft db k')" for k'
    by (rule find_draft_eqI)
      (use d same_draft_connector [OF assms(1) d(1)] in
        \<open>auto simp: find_draft_iff [OF ok] find_draft_iff [OF assms(1)] rows\<close>)
  with db'(2) show ?thesis by blast
qed

lemma publish_simulates:
  assumes "simulates P ws db" and "publish_draft P now q db = Inr (cs, row)" and "commit cs db = Inr db'"
    and "pydantic_exact P"
  shows "simulates P (ws_publish q ws) db'"
proof -
  from assms(2) obtain c d v st b where c: "get_connector db (pq_connector_key q) = Inr c"
    and d: "get_draft db (pq_connector_key q) = Inr d" and st: "state_from_dict P (dr_review d) = Inr st"
    and b: "build_connector_document P (dr_analysis d) st (draft_facts c d v now) = Inr b"
    and row: "row = new_version d v b now (pq_published_by q)" and cs: "cs = [InsertVersion row, DeleteDraft (dr_id d)]"
    by (auto simp: publish_draft_def Let_def res_simps split: if_splits)
  have ok: "drafts_ok db" and rel: "rel_option (holds_draft P) (dget (ws_drafts ws) k) (find_draft db k)" for k
    using assms(1) by (simp_all add: simulates_def)
  note found = found_draft [OF ok d]
  with rel [of "pq_connector_key q"] obtain a where a: "dget (ws_drafts ws) (pq_connector_key q) = Some a"
    and h: "holds_draft P a d" by (auto simp: option_rel_Some2)
  with st have "df_review a = st" by (auto simp: holds_draft_def state_roundtrip)
  with h have r: "review_of (df_analysis a) st" "dr_analysis d = serialize_analysis (df_analysis a)"
    by (auto simp: holds_draft_def)
  then have "analysis_ok (df_analysis a)" "list_all review_ok st" by (simp_all add: review_of_def)
  from published_document_facts [OF this assms(4) b [unfolded r(2)]] obtain ts where
    "built_document b = connector_document (draft_facts c d v now) (map dump_tool ts)"
    "list_all2 (published_as (df_analysis a)) (included st) ts" "list_all tool_ok ts" "distinct (map tool_name ts)"
    unfolding published_as_def [abs_def] by blast
  moreover have "dr_connector d = pq_connector_key q" "cr_key c = pq_connector_key q"
    using get_draft_Inr [OF d] get_connector_Inr [OF c] by simp_all
  ultimately have "published_from P (pq_connector_key q, a) (stored_version row)"
    using h r(1) \<open>df_review a = st\<close>
    unfolding published_from_def prod.case
    by (intro conjI exI [of _ "draft_facts c d v now"] exI [of _ ts])
      (simp_all add: row new_version_def stored_version_def draft_facts_def holds_draft_def)
  with publish_commits [OF ok found assms(3) [unfolded cs]] show ?thesis
    using assms(1) commit_drafts [OF ok assms(3)]
    by (simp add: simulates_def ws_publish_def a dget_ddel list_all2_appendI)
qed

lemma perform_simulates:
  assumes "simulates P ws db" and "perform P E now rq db = Inr (db', r)" and "request_typed rq"
    and "scalar_constructors (env_parsers E)" and "pydantic_exact P"
  shows "simulates P (workspace_step P E rq ws) db'"
proof -
  from assms(2) obtain cs where p: "plan P E now rq db = Inr (cs, r)" and c: "commit cs db = Inr db'"
    by (auto simp: perform_def res_simps simp del: plan.simps)
  show ?thesis
  proof (cases rq)
    case (Review u)
    with p review_simulates [OF assms(1) _ _ c] assms(3) show ?thesis by (auto simp: res_simps)
  next
    case (Register g)
    with p register_simulates [OF assms(1) _ c assms(4)] show ?thesis by (auto simp: res_simps)
  next
    case (Publish q)
    with p publish_simulates [OF assms(1) _ c assms(5)] show ?thesis by (auto simp: res_simps)
  next
    case (Disable k v reason)
    with p have "list_all aside cs" by (auto simp: res_simps disable_version_def Let_def split: if_splits)
    with simulates_aside [OF assms(1) _ c] Disable show ?thesis by simp
  next
    case (Deploy k name prose)
    with p have "list_all aside cs" by (auto simp: res_simps create_deployment_def Let_def split: if_splits)
    with simulates_aside [OF assms(1) _ c] Deploy show ?thesis by simp
  next
    case (Snap q)
    with p have "list_all aside cs" by (auto simp: res_simps dest!: create_snapshot_Inr simp: list_all_iff)
    with simulates_aside [OF assms(1) _ c] Snap show ?thesis by simp
  qed
qed

section \<open>What the API admits\<close>

lemma as_choice_Inr: "as_choice alts v = Inr s \<Longrightarrow> s \<in> set alts"
  by (auto simp: as_choice_def as_literal_def bad_def split: json.splits option.splits dest!: map_of_SomeD)

lemma optional_choice_Inr:
  "optional_field d k None (as_option (as_choice alts)) = Inr (Some s) \<Longrightarrow> s \<in> set alts"
  by (auto simp: optional_field_def as_option_def res_simps dest: as_choice_Inr split: option.splits if_splits)

lemma decoded_update_typed:
  assumes "decode_review_update P v = Inr u"
  shows "update_typed u"
proof -
  from assms obtain d where "optional_field d ''description_origin'' None
      (as_option (as_choice [''source'', ''generated'', ''assisted'', ''human''])) = Inr (up_origin u)"
    unfolding decode_review_update_def with_obj_Inr by (auto simp: res_simps)
  then have "s \<in> set DESCRIPTION_ORIGINS" if "up_origin u = Some s" for s
    unfolding that DESCRIPTION_ORIGINS_def by (rule optional_choice_Inr)
  then show ?thesis by (simp add: update_typed_def split: option.splits)
qed

lemma decoded_updates_typed:
  assumes "decode_update_draft P k v = Inr u"
  shows "list_all update_typed (du_updates u)"
proof -
  from assms obtain d where "optional_field d ''operations'' [] (as_bounded 0 256 (decode_review_update P)) = Inr (du_updates u)"
    unfolding decode_update_draft_def with_obj_Inr by (auto simp: res_simps)
  then have "du_updates u = [] \<or> (\<exists>xs. rmap (decode_review_update P) xs = Inr (du_updates u))"
    by (auto simp: optional_field_def as_bounded_def checked_def bad_def res_simps elim!: as_list.elims
        split: option.splits if_splits)
  then show ?thesis by (auto simp: list_all_iff dest!: rmap_Inr_elem decoded_update_typed)
qed

lemma admitted_typed:
  assumes "admitted P S h = Some (t, rq)"
  shows "request_typed rq"
proof (cases "hr_route h")
  case (PatchDraft k body)
  with assms show ?thesis
    by (auto simp: admitted_def writing_def route_update_draft_def res_simps dest: decoded_updates_typed
        split: if_splits sum.splits admin_call.splits)
qed (use assms in \<open>auto simp: admitted_def writing_def route_register_connector_def route_publish_def
    route_disable_version_def route_create_deployment_def route_create_snapshot_def res_simps
    split: if_splits sum.splits admin_call.splits\<close>)

text \<open>The write a request asks for when it is answered with success, and those of a sequence of requests.\<close>

definition accepted :: "platform \<Rightarrow> service_env \<Rightarrow> cp_settings \<Rightarrow> http_request \<Rightarrow> database \<Rightarrow> request option" where
  "accepted P E S h db =
     (case admitted P S h of
        None \<Rightarrow> None
      | Some (t, rq) \<Rightarrow> if is_ok (answer P E S t (Write rq) db) then Some rq else None)"

primrec http_accepted ::
  "platform \<Rightarrow> service_env \<Rightarrow> cp_settings \<Rightarrow> string \<Rightarrow> string list list \<Rightarrow> http_request list \<Rightarrow> database \<Rightarrow> request list" where
  "http_accepted P E S prose locations [] db = []"
| "http_accepted P E S prose locations (h # hs) db =
     (case accepted P E S h db of None \<Rightarrow> [] | Some rq \<Rightarrow> [rq]) @
     http_accepted P E S prose locations hs (snd (admin_serve P E S prose locations h db))"

lemma accepted_performs:
  "case accepted P E S h db of
     None \<Rightarrow> snd (admin_serve P E S prose locations h db) = db
   | Some rq \<Rightarrow> admitted P S h = Some (hr_time h, rq) \<and>
       (\<exists>r. perform P (service_of E S) (hr_time h) rq db = Inr (snd (admin_serve P E S prose locations h db), r))"
proof (cases "require_admin S (hr_token h)")
  case auth: (Inr who)
  show ?thesis
  proof (cases "decode_route P (hr_route h)")
    case call: (Inr call)
    show ?thesis
    proof (cases "answer P E S (hr_time h) call db")
      case (Inl e)
      with auth call show ?thesis
        by (cases call) (simp_all add: accepted_def admitted_def admin_serve_def)
    next
      case (Inr out)
      then obtain db' status body where out: "answer P E S (hr_time h) call db = Inr (db', status, body)"
        by (cases out) auto
      from auth call out answer_write [OF out] show ?thesis
        by (cases call) (auto simp: accepted_def admitted_def admin_serve_def is_ok_iff)
    qed
  qed (simp add: accepted_def admitted_def admin_serve_def auth)
qed (simp add: accepted_def admitted_def admin_serve_def is_ok_iff)

lemma http_simulates:
  assumes "simulates P ws db" and "scalar_constructors (env_parsers E)" and "pydantic_exact P"
  shows "simulates P (fold (workspace_step P (service_of E S)) (http_accepted P E S prose locations hs db) ws)
    (http_all P E S prose locations hs db)"
  using assms(1)
proof (induction hs arbitrary: db ws)
  case (Cons h hs)
  have parsers: "scalar_constructors (env_parsers (service_of E S))"
    using assms(2) by (simp add: service_of_def route_env_def)
  let ?mid = "snd (admin_serve P E S prose locations h db)"
  have "simulates P (fold (workspace_step P (service_of E S)) (case accepted P E S h db of None \<Rightarrow> [] | Some rq \<Rightarrow> [rq]) ws) ?mid"
    using accepted_performs [of P E S prose locations h db] Cons.prems
      perform_simulates [OF Cons.prems _ admitted_typed parsers assms(3)]
    by (auto split: option.splits)
  from Cons.IH [OF this] show ?case by (simp add: http_all_def)
qed (simp add: http_all_def)

section \<open>Properties\<close>

text \<open>
  C6: Nothing is published that was not reviewed. Take any sequence of HTTP requests to an empty Control Plane, and
  the reviewers' workspace that the accepted ones among them produce: the analyses of the uploaded bytes, the
  decisions applied to them, and the drafts at the moment of their publication. Then the published versions are,
  one by one and in order, those publications: each carries the digest of the uploaded bytes and the reviewed
  base URL, and its tools are, in the order of the review, exactly the included operations of the analysis, each as
  the analysed tool with the reviewer's description and policy; no excluded operation and no placeholder
  description is among them, and every tool satisfies the contract model. Every draft in the database likewise holds
  exactly the source, the analysis, the review and the base URL of its connector in the workspace.
\<close>

theorem every_published_tool_was_reviewed:
  assumes "scalar_constructors (env_parsers E)" and "pydantic_exact P"
    and "ws = fold (workspace_step P (service_of E S)) (http_accepted P E S prose locations hs empty_database) empty_workspace"
    and "db = http_all P E S prose locations hs empty_database"
  shows "list_all2 (published_from P) (ws_published ws) (db_versions db) \<and>
    (\<forall>k. rel_option (holds_draft P) (dget (ws_drafts ws) k) (find_draft db k))"
  using http_simulates [OF simulates_empty assms(1,2)] unfolding assms(3,4) simulates_def by blast

text \<open>A registration, a review that excludes nothing and rewrites a description, and a publication over HTTP.\<close>

definition example_call :: "admin_route \<Rightarrow> http_request" where
  "example_call route =
     \<lparr>hr_time = example_clock, hr_token = Some (admin_token example_cp_settings), hr_route = route, hr_request_id = None\<rparr>"

definition example_calls :: "http_request list" where
  "example_calls = map example_call
     [PostConnector (JObj
        [(''connector_key'', JStr ''tickets''), (''document'', JStr ''{}''), (''document_filename'', JStr ''a.json''),
         (''base_url'', JStr ''https://api.example.org'')]),
      PatchDraft ''tickets'' (JObj
        [(''expected_revision'', JInt 1), (''operations'', JArr [JObj
          [(''operation_key'', JStr (up_key example_update)), (''description'', JStr ''Read one ticket.'')]])]),
      PostPublish ''tickets'' (JObj [(''expected_revision'', JInt 2)])]"

definition example_requests :: "request list" where
  "example_requests = List.map_filter (\<lambda>h. map_option snd (admitted sample_platform example_cp_settings h)) example_calls"

text \<open>All of a sequence of requests are accepted: each answer is computed once.\<close>

primrec all_accepted :: "platform \<Rightarrow> service_env \<Rightarrow> cp_settings \<Rightarrow> http_request list \<Rightarrow> database \<Rightarrow> bool" where
  "all_accepted P E S [] db = True"
| "all_accepted P E S (h # hs) db =
     (case admitted P S h of
        None \<Rightarrow> False
      | Some (t, rq) \<Rightarrow>
          (case answer P E S t (Write rq) db of
             Inl e \<Rightarrow> False
           | Inr (db', reply) \<Rightarrow> all_accepted P E S hs db'))"

lemma all_accepted_requests:
  "all_accepted P E S hs db \<Longrightarrow>
     http_accepted P E S prose locations hs db = List.map_filter (\<lambda>h. map_option snd (admitted P S h)) hs"
proof (induction hs arbitrary: db)
  case (Cons h hs)
  then obtain t rq db' reply where h: "admitted P S h = Some (t, rq)" "answer P E S t (Write rq) db = Inr (db', reply)"
    "all_accepted P E S hs db'"
    by (cases "admitted P S h"; cases "answer P E S (fst (the (admitted P S h))) (Write (snd (the (admitted P S h)))) db") auto
  moreover from h(1) have "snd (admin_serve P E S prose locations h db) =
      (case answer P E S t (Write rq) db of Inl e \<Rightarrow> db | Inr (db', reply) \<Rightarrow> db')"
    by (auto simp: admitted_def admin_serve_def is_ok_iff split: if_splits sum.splits prod.splits admin_call.splits)
  ultimately show ?case using Cons.IH [of db'] by (simp add: accepted_def List.map_filter_def)
qed (simp add: List.map_filter_def)

lemma example_accepted:
  "http_accepted sample_platform example_env example_cp_settings [] [] example_calls empty_database = example_requests"
proof -
  have "all_accepted sample_platform example_env example_cp_settings example_calls empty_database" by code_simp
  then show ?thesis unfolding example_requests_def by (rule all_accepted_requests)
qed

lemma example_workspace:
  "map (\<lambda>(k, d). (k, map or_description (df_review d)))
     (ws_published (fold (workspace_step sample_platform (service_of example_env example_cp_settings)) example_requests
        empty_workspace)) = [(''tickets'', [''Read one ticket.''])]"
  by code_simp

lemma every_published_tool_was_reviewed_witness:
  "\<exists>d r. db_versions (http_all sample_platform example_env example_cp_settings [] [] example_calls empty_database) = [r] \<and>
     published_from sample_platform (''tickets'', d) r \<and> map or_description (df_review d) = [''Read one ticket.'']"
proof -
  from example_workspace obtain d where d: "ws_published (fold (workspace_step sample_platform
      (service_of example_env example_cp_settings)) example_requests empty_workspace) = [(''tickets'', d)]"
    "map or_description (df_review d) = [''Read one ticket.'']"
    by auto
  have "scalar_constructors (env_parsers example_env)"
    by (simp add: scalar_constructors_def example_env_def sample_parsers_def)
  from every_published_tool_was_reviewed [OF this sample_pydantic refl refl, of example_cp_settings "[]" "[]" example_calls]
  have "list_all2 (published_from sample_platform) [(''tickets'', d)]
      (db_versions (http_all sample_platform example_env example_cp_settings [] [] example_calls empty_database))"
    unfolding example_accepted d(1) by blast
  then obtain r where "db_versions (http_all sample_platform example_env example_cp_settings [] [] example_calls
      empty_database) = [r]" "published_from sample_platform (''tickets'', d) r"
    unfolding list_all2_Cons1 list_all2_Nil by blast
  with d(2) show ?thesis by (intro exI conjI)
qed

end
