(* ===== verification/Redaction.thy ===== *)
theory Redaction
  imports Json Patterns
begin

text \<open>
  Keeping secrets out of logs: \<^verbatim>\<open>packages/policy-engine/toollayer_policy/redaction.py\<close>, on JSON values. The
  lemmas say what is masked, at every level that is reached through mappings and the items of their lists, and
  what is not. \<open>redact_url\<close> is left out: it decodes percent escapes to text beyond the characters of this model.
\<close>

section \<open>Sensitive names\<close>

definition REDACTED :: string where
  "REDACTED = ''[redacted]''"

definition SENSITIVE_HEADERS :: "string list" where
  "SENSITIVE_HEADERS =
     [''authorization'', ''proxy-authorization'', ''cookie'', ''set-cookie'', ''x-api-key'', ''x-auth-token'',
      ''x-toollayer-admin-token'', ''x-toollayer-service-token'']"

definition is_separator :: "char \<Rightarrow> bool" where
  "is_separator c \<longleftrightarrow> c = CHR ''_'' \<or> c = CHR ''-'' \<or> c = CHR ''.''"

fun rx_alts :: "rx list \<Rightarrow> rx" where
  "rx_alts [] = Zero"
| "rx_alts (r # rs) = Alt r (rx_alts rs)"

definition SENSITIVE_WORD :: rx where
  "SENSITIVE_WORD = rx_alts
     [rx_lit ''secret'', rx_lit ''token'', rx_lit ''password'', rx_lit ''passwd'', rx_lit ''credential'',
      Seq (rx_lit ''api'') (Seq (Alt One (Cls is_separator)) (rx_lit ''key'')),
      Seq (rx_lit ''private'') (Seq (Alt One (Cls is_separator)) (rx_lit ''key''))]"

text \<open>
  \<open>search\<close> finds the word anywhere: preceded by the start of the text or a separator, and followed by a
  separator or by the end, where \<open>$\<close> also stands before a final line feed.
\<close>

definition SENSITIVE_NAME :: rx where
  "SENSITIVE_NAME =
     Seq (Alt One (Seq (Star (Cls (\<lambda>c. True))) (Cls is_separator)))
       (Seq SENSITIVE_WORD
         (Alt (Alt One (rx_lit [newline])) (Seq (Cls is_separator) (Star (Cls (\<lambda>c. True))))))"

definition is_sensitive :: "string \<Rightarrow> bool" where
  "is_sensitive name \<longleftrightarrow>
     str_lower name \<in> set SENSITIVE_HEADERS \<or> rx_match SENSITIVE_NAME (str_lower name)"

section \<open>Masking\<close>

text \<open>A header that occurs twice keeps its first place and its last value.\<close>

definition redact_headers :: "(string \<times> string) list \<Rightarrow> string dict" where
  "redact_headers items =
     foldl (\<lambda>d (name, v). dset name (if is_sensitive name then REDACTED else v) d) [] items"

function redact_mapping :: "nat \<Rightarrow> json dict \<Rightarrow> json dict" where
  "redact_mapping depth payload =
     (if 6 < depth then [(''...'', JStr REDACTED)]
      else map (\<lambda>(name, v).
        (name,
         if is_sensitive name then JStr REDACTED
         else case v of
           JObj d \<Rightarrow> JObj (redact_mapping (depth + 1) d)
         | JArr xs \<Rightarrow> JArr (map (\<lambda>x. case x of JObj d \<Rightarrow> JObj (redact_mapping (depth + 1) d) | _ \<Rightarrow> x) (take 50 xs))
         | _ \<Rightarrow> v)) payload)"
  by pat_completeness auto
termination
  by (relation "measure (\<lambda>(depth, payload). 7 - depth)") auto

declare redact_mapping.simps [simp del]

text \<open>
  The shape of a value. The name of a Python type that is none of JSON's is an argument.
\<close>

definition safe_repr :: "(string \<Rightarrow> string) \<Rightarrow> nat \<Rightarrow> json \<Rightarrow> string" where
  "safe_repr type_name limit v =
     (case v of
        JNull \<Rightarrow> ''null''
      | JBool b \<Rightarrow> ''boolean''
      | JInt i \<Rightarrow> ''integer''
      | JFloat x \<Rightarrow> ''number''
      | JStr s \<Rightarrow> ''string(len='' @ string_of_nat (length s) @ '')''
      | JObj d \<Rightarrow> ''object(keys='' @ string_of_nat (length d) @ '')''
      | JArr xs \<Rightarrow> ''array(len='' @ string_of_nat (length xs) @ '')''
      | JOther x \<Rightarrow> take limit (type_name x))"

section \<open>What is masked\<close>

text \<open>The entries of a mapping, of the mappings in it, and of the mappings among the items of its lists.\<close>

inductive entry_within :: "json dict \<Rightarrow> string \<Rightarrow> json \<Rightarrow> bool" where
  here: "(k, v) \<in> set d \<Longrightarrow> entry_within d k v"
| in_mapping: "(n, JObj e) \<in> set d \<Longrightarrow> entry_within e k v \<Longrightarrow> entry_within d k v"
| in_list: "(n, JArr xs) \<in> set d \<Longrightarrow> JObj e \<in> set xs \<Longrightarrow> entry_within e k v \<Longrightarrow> entry_within d k v"

lemma sensitive_masked_here:
  assumes "(k, v) \<in> set (redact_mapping n d)" and "is_sensitive k"
  shows "v = JStr REDACTED"
  using assms by (auto simp: redact_mapping.simps [of n d] split: if_splits)

text \<open>A mapping inside a redacted mapping is itself a redacted one.\<close>

lemma mapping_in_redacted:
  assumes "(k, JObj e) \<in> set (redact_mapping n d)"
  shows "\<exists>e'. e = redact_mapping (n + 1) e'"
  using assms by (auto simp: redact_mapping.simps [of n d] split: if_splits json.splits)

lemma item_in_redacted:
  assumes "(k, JArr xs) \<in> set (redact_mapping n d)" and "JObj e \<in> set xs"
  shows "\<exists>e'. e = redact_mapping (n + 1) e'"
  using assms by (auto simp: redact_mapping.simps [of n d] split: if_splits json.splits) (rule exI, rule refl)

text \<open>
  Whatever the payload, no entry with a sensitive name keeps its value, at any level reached through mappings
  and the items of their lists.
\<close>

theorem redaction_masks_every_level:
  assumes "entry_within (redact_mapping n d) k v" and "is_sensitive k"
  shows "v = JStr REDACTED"
proof -
  have "entry_within r k v \<Longrightarrow> r = redact_mapping n d \<Longrightarrow> is_sensitive k \<Longrightarrow> v = JStr REDACTED" for r
  proof (induction arbitrary: n d rule: entry_within.induct)
    case (here k v r)
    then show ?case using sensitive_masked_here by blast
  next
    case (in_mapping m e r k v)
    then show ?case using mapping_in_redacted by blast
  next
    case (in_list m xs r e k v)
    then show ?case using item_in_redacted by blast
  qed
  with assms show ?thesis by blast
qed

text \<open>Names stay, so that a log line shows what was there.\<close>

lemma redaction_keeps_names: "n \<le> 6 \<Longrightarrow> dkeys (redact_mapping n d) = dkeys d"
  by (auto simp: redact_mapping.simps [of n d] dkeys_def)

text \<open>
  A list inside a list is copied as it is, and what its mappings hold is logged.
\<close>

theorem nested_list_is_not_masked:
  "redact_mapping 0 [(''rows'', JArr [JArr [JObj [(''token'', JStr ''s3cret'')]]])]
   = [(''rows'', JArr [JArr [JObj [(''token'', JStr ''s3cret'')]]])]
   \<and> redact_mapping 0 [(''rows'', JArr [JObj [(''token'', JStr ''s3cret'')]])]
   = [(''rows'', JArr [JObj [(''token'', JStr REDACTED)]])]"
  by code_simp

lemma redacted_headers_step:
  "dget (redact_headers (items @ [(name, v)])) k =
     (if k = name then Some (if is_sensitive name then REDACTED else v) else dget (redact_headers items) k)"
  by (simp add: redact_headers_def)

lemma sensitive_headers_masked:
  "is_sensitive k \<Longrightarrow> dget (redact_headers items) k = Some v \<Longrightarrow> v = REDACTED"
  by (induction items rule: rev_induct)
    (auto simp: redacted_headers_step split: if_splits simp: redact_headers_def)

text \<open>The shape of a text is described by its length alone.\<close>

lemma safe_repr_hides_text: "length s = length t \<Longrightarrow> safe_repr f n (JStr s) = safe_repr f n (JStr t)"
  by (simp add: safe_repr_def)

lemma sensitive_examples:
  "is_sensitive ''Authorization'' \<and> is_sensitive ''client_secret'' \<and> is_sensitive ''apiKey'' \<and>
   is_sensitive ''x.private-key'' \<and> \<not> is_sensitive ''tokenizer'' \<and> \<not> is_sensitive ''accessToken''"
  by code_simp

end
