(* ===== verification/Exchange.thy ===== *)
theory Exchange
  imports Models
begin

text \<open>
  The request and error models of \<^verbatim>\<open>toollayer_contracts/models.py\<close> that describe the exchange with a client,
  against the envelopes that \<^verbatim>\<open>errors.py\<close> writes.
\<close>

section \<open>A request to execute one tool\<close>

record tool_execution_request =
  xr_connector_key :: string
  xr_connector_version :: string
  xr_tool_name :: string
  xr_arguments :: "json dict"
  xr_caller_roles :: "string list"
  xr_request_id :: "string option"

definition decode_execution_request :: "json \<Rightarrow> tool_execution_request res" where
  "decode_execution_request v =
     with_obj [''connector_key'', ''connector_version'', ''tool_name'', ''arguments'', ''caller_roles'',
               ''request_id''] v (\<lambda>d.
     rbind (field d ''connector_key'' as_key) (\<lambda>k.
     rbind (field d ''connector_version'' as_version) (\<lambda>version.
     rbind (field d ''tool_name'' (\<lambda>x. rbind (as_str x) (checked tool_name_ok))) (\<lambda>name.
     rbind (optional_field d ''arguments'' [] as_dict) (\<lambda>args.
     rbind (optional_field d ''caller_roles'' [] (as_list as_key)) (\<lambda>rs.
     rbind (optional_field d ''request_id'' None (as_option (as_text 0 64))) (\<lambda>rid.
       Inr \<lparr>xr_connector_key = k, xr_connector_version = version, xr_tool_name = name, xr_arguments = args,
            xr_caller_roles = rs, xr_request_id = rid\<rparr>)))))))"

section \<open>The error envelope\<close>

record error_body =
  eb_code :: string
  eb_message :: string
  eb_pointer :: "string option"
  eb_details :: "json dict list"
  eb_request_id :: "string option"

text \<open>\<^verbatim>\<open>^[a-z][a-z0-9_]*$\<close> is also the pattern of tool names.\<close>

definition error_code_ok :: "string \<Rightarrow> bool" where
  "error_code_ok s \<longleftrightarrow> rx_match TOOL_NAME_PATTERN s \<and> length s \<le> 64"

definition decode_error_body :: "json \<Rightarrow> error_body res" where
  "decode_error_body v =
     with_obj [''code'', ''message'', ''pointer'', ''details'', ''request_id''] v (\<lambda>d.
     rbind (field d ''code'' (\<lambda>x. rbind (as_str x) (checked error_code_ok))) (\<lambda>c.
     rbind (field d ''message'' (as_text 1 512)) (\<lambda>m.
     rbind (optional_field d ''pointer'' None (as_option as_str)) (\<lambda>p.
     rbind (optional_field d ''details'' [] (as_list as_dict)) (\<lambda>ds.
     rbind (optional_field d ''request_id'' None (as_option as_str)) (\<lambda>rid.
       Inr \<lparr>eb_code = c, eb_message = m, eb_pointer = p, eb_details = ds, eb_request_id = rid\<rparr>))))))"

definition decode_error_envelope :: "json \<Rightarrow> error_body res" where
  "decode_error_envelope v = with_obj [''error''] v (\<lambda>d. field d ''error'' decode_error_body)"

section \<open>What is written is what is read\<close>

definition body_of :: "error_envelope \<Rightarrow> error_body" where
  "body_of e = \<lparr>eb_code = env_code e, eb_message = env_message e, eb_pointer = env_pointer e,
     eb_details = map (\<lambda>d. obj_of (detail_to_dict d)) (env_details e), eb_request_id = env_request_id e\<rparr>"

lemma codes_are_wellformed: "error_code_ok (code_text c)"
  by (induct c; code_simp)

lemma details_readable: "as_list as_dict (JArr (map detail_to_dict ds)) = Inr (map (\<lambda>d. obj_of (detail_to_dict d)) ds)"
  by (induction ds) (auto simp: detail_to_dict_def)

text \<open>
  An envelope with a code of the vocabulary and a message of 1 to 512 characters is read back by the model of
  the contract as what was written.
\<close>

theorem envelope_round_trip:
  assumes "env_code e = code_text c" and "1 \<le> length (env_message e)" and "length (env_message e) \<le> 512"
  shows "decode_error_envelope (envelope_to_dict e) = Inr (body_of e)"
proof -
  have ok: "error_code_ok (env_code e)" using assms(1) codes_are_wellformed by simp
  have msg: "len_between (Suc 0) 512 (env_message e)" using assms(2,3) by (simp add: len_between_def)
  show ?thesis
    using details_readable [of "env_details e"]
    by (cases "env_pointer e"; cases "env_request_id e"; cases "env_details e = []")
      (simp_all add: envelope_to_dict_def decode_error_envelope_def decode_error_body_def body_of_def Let_def
        field_def optional_field_def as_text_def as_option_def checked_def ok msg dget_def dkeys_def)
qed

text \<open>
  The bound is not one the producer keeps: a longer message is sent and cannot be read back.
\<close>

lemma long_message_is_unreadable:
  assumes "512 < length (env_message e)"
  shows "decode_error_envelope (envelope_to_dict e) = Inl PydanticError"
proof -
  have "\<not> len_between (Suc 0) 512 (env_message e)" using assms by (simp add: len_between_def)
  then show ?thesis
    by (simp add: envelope_to_dict_def decode_error_envelope_def decode_error_body_def Let_def field_def
        as_text_def checked_def bad_def dget_def dkeys_def split: option.splits)
qed

end
