(* ===== verification/Spec2Isabelle.thy ===== *)
theory Spec2Isabelle
  imports RuntimeApp MockLlm Version Governance Redaction Exchange DemoApi
begin

text \<open>
  ToolLayer: reviewed tools for language models, from the upload of an API description to the one HTTP
  request a model may cause.

  \<^bold>\<open>The program.\<close> Three parts share one set of contracts.

  The \<^emph>\<open>converter\<close> (\<^verbatim>\<open>packages/openapi-converter\<close>) turns an uploaded OpenAPI document into tool definitions.
  The \<^emph>\<open>Control Plane\<close> (\<^verbatim>\<open>apps/control-plane/backend\<close>) stores what was converted, lets administrators review
  it, publishes immutable connector versions and assembles them into signed deployment snapshots. The
  \<^emph>\<open>runtime\<close> (\<^verbatim>\<open>apps/runtime\<close>) fetches one snapshot, verifies it, identifies callers, lists tools, and executes
  calls a model proposes, through the \<^emph>\<open>policy engine\<close> (\<^verbatim>\<open>packages/policy-engine\<close>). The documents the parts
  exchange, their canonical bytes, digests and signatures are in \<^verbatim>\<open>packages/contracts\<close>. The Control Plane and
  the runtime meet at one endpoint, the conditional read of a snapshot (\<open>InternalApi.serve_snapshot\<close> against
  \<open>Snapshot.fetch_snapshot\<close>).

  \<^bold>\<open>Theories and sources.\<close> Each definition carries the name of the function it models wherever Isabelle allows
  it.

  \<^item> Foundations. \<open>Prelude\<close>: the result type \<open>'a res\<close> (\<open>Inl\<close> an exception), insertion-ordered dictionaries,
    the string methods of Python that the code uses. \<open>Json\<close>: the values of \<open>dict[str, Any]\<close> with Python's
    equality and truth. \<open>Errors\<close>: \<^verbatim>\<open>errors.py\<close>. \<open>Patterns\<close>: every regular expression of the code as a term,
    with one matcher. \<open>Net\<close>: \<open>urlsplit\<close> and \<open>ipaddress\<close>, on 32 and 128 bit words.
  \<^item> Contracts. \<open>Models\<close>: \<^verbatim>\<open>models.py\<close>, one record per class with a smart constructor that runs its
    constraints and validators. \<open>Version\<close>, \<open>Canonical\<close>, \<open>Signing\<close>, \<open>Validation\<close>: the modules of those names.
    \<open>Exchange\<close>: the models of \<^verbatim>\<open>models.py\<close> for requests and error envelopes. \<open>Adapters\<close>: \<^verbatim>\<open>adapters/\<close>.
  \<^item> Policy engine. \<open>Destinations\<close>, \<open>Arguments\<close>, \<open>Executor\<close>, \<open>Authorization\<close>, \<open>Redaction\<close>: the modules of those
    names.
  \<^item> Runtime. \<open>Snapshot\<close> (client and store), \<open>Identity\<close>, \<open>Orchestrator\<close>, \<open>Config\<close>, \<open>RuntimeApp\<close> (\<^verbatim>\<open>main.py\<close>), and the
    deterministic provider \<open>MockLlm\<close>.
  \<^item> Converter. \<open>Naming\<close>, \<open>References\<close>, \<open>SchemaConversion\<close>, \<open>Converter\<close>, \<open>Loader\<close>, \<open>Analyzer\<close>.
  \<^item> Control Plane. \<open>Review\<close>, \<open>Publication\<close> (with \<^verbatim>\<open>serialization.py\<close>), \<open>Database\<close> (\<^verbatim>\<open>models.py\<close>, \<^verbatim>\<open>db.py\<close>),
    \<open>Authoring\<close> and \<open>Deployments\<close> (\<^verbatim>\<open>service.py\<close>), \<open>InternalApi\<close> (\<^verbatim>\<open>config.py\<close>, \<^verbatim>\<open>dependencies.py\<close>,
    \<^verbatim>\<open>routes_internal.py\<close>, \<^verbatim>\<open>main.py\<close>), \<open>AdminApi\<close> (\<^verbatim>\<open>schemas.py\<close>, \<^verbatim>\<open>routes_admin.py\<close>).
  \<^item> The sample service the demonstration calls (\<^verbatim>\<open>apps/demo-api\<close>): \<open>DemoApi\<close>.
  \<^item> Composition. \<open>ControlPlane\<close> interleaves the transactions of the service, \<open>History\<close> follows the database they
    leave behind, \<open>Delivery\<close> joins the Control Plane to the runtime, \<open>Governance\<close> refines the loader, the
    analyzer, the review and the publication behind the administrator API against an abstract workspace of
    sources under review, and this theory joins the runtime's settings to its requests.

  \<^bold>\<open>State and effects.\<close> A function that can fail returns \<open>'a res\<close>; each \<open>raise\<close>, caught or not, is a branch.
  The runtime's effects are a trace: a computation returns the list of what it did (name lookups, requests
  sent) and its result, so that \<open>Sent r \<in> set (fst (fst call))\<close> says that a call reached the network. The
  snapshot store is a record that every operation returns updated. The Control Plane's database is a record of
  tables (lists of rows in insertion order). An operation of the service is modelled as a \<^emph>\<open>plan\<close> (what it
  reads and decides) and its writes: every operation of the source reads before it writes and commits once at
  the end of its request, so that \<open>ControlPlane.step\<close> may let other transactions commit between the two.

  \<^bold>\<open>Interfaces.\<close> Five locales state what one part promises another, each interpreted on the model's own
  definitions by the theory that provides them: \<open>version_order\<close> (a comparison whose sign is a linear order),
  \<open>bounded_transport\<close> (the executor's network access), \<open>snapshot_source\<close> (what the store may assume of a fetched
  snapshot), \<open>lawful_provider\<close> (a provider chooses among the tools it was offered and
  proposes only declared arguments) and \<open>ledger\<close> (a table that
  transactions only append to).

  \<^bold>\<open>What the lemmas show.\<close>

  \<^item> A request: \<open>request_needs_two_signatures\<close> below, over \<open>Orchestrator.governed_call\<close>,
    \<open>Executor.request_only_after_every_check\<close>, \<open>Destinations.checked_destination_permitted\<close> and
    \<open>Arguments.arguments_cannot_redirect\<close>. Nothing is sent unless the snapshot, the caller, the confirmation,
    the arguments, the method and the destination were all checked; then it is sent once.
  \<^item> A snapshot: \<open>Snapshot.store_holds_only_authentic\<close> for every history of a store against an arbitrary
    Control Plane; \<open>Delivery.created_snapshot_is_delivered\<close> for the real one.
  \<^item> A document: \<open>Loader.loaded_document_is_unambiguous\<close>, \<open>References.resolution_is_final\<close>,
    \<open>SchemaConversion.converted_schema_is_closed\<close>, \<open>Converter.every_argument_is_bound_once\<close>,
    \<open>Analyzer.analysis_is_consistent\<close>.
  \<^item> The Control Plane: invariants of every interleaving (\<open>History.reachable_artifacts_are_genuine\<close>,
    \<open>History.artifacts_are_append_only\<close>, \<open>History.snapshot_revisions_are_gapless\<close>), what only serial requests keep
    (\<open>AdminApi.http_history_is_sound\<close>), the refinement of the HTTP surface to the service
    (\<open>AdminApi.http_requests_are_service_operations\<close>), and the whole path from upload to publication: what is
    published is what the accepted uploads and decisions make of the reviewers' workspace
    (\<open>Governance.every_published_tool_was_reviewed\<close>).
  \<^item> Where the code does less than it says, the theorem states what it does (for example
    \<open>History.overlapping_reviews_overwrite\<close>, \<open>Adapters.nested_placeholder_is_rejected\<close>).

  \<^bold>\<open>Bounds and fuel.\<close> Recursion that the source bounds is bounded by the same number: references nest at most
  \<open>MAX_RESOLUTION_DEPTH\<close> (32) deep, converted schemas \<open>MAX_SCHEMA_DEPTH\<close> deep, adapters visit 8 levels and
  500 properties, redaction 7. The recursion on JSON is structural or has a termination proof. The one loop
  that may not end, reading a response, is a \<^theory_text>\<open>partial_function\<close>, and \<open>Executor.streaming_read_ends\<close> shows that
  it returns after at most one chunk more than the byte limit. The loops of the parsers recurse on the rest of
  the text. No definition returns early because fuel ran out.

  \<^bold>\<open>Parameters.\<close> The record \<open>platform\<close> and a few arguments stand for code that is not in the repository: SHA-256
  and Ed25519, the JSON Schema validator and the schema files, pydantic's lax conversions, the tokenizers of the
  JSON and YAML libraries, the rendering and parsing of floats, name resolution, the HTTP exchange, the clock
  and random identifiers. What a theorem needs of them is a hypothesis that states their documented behaviour,
  and each is shown satisfiable by a concrete instance (\<open>sample_platform\<close>, \<open>sample_ed25519\<close>,
  \<open>Adapters.sample_validator\<close>).

  \<^bold>\<open>Not modelled.\<close> A \<open>str\<close> is a list of the code points 0 to 255; text outside that range is not represented.
  Of several errors in one YAML text only that there is one is modelled, not which is reported first. Logging,
  the caching of settings, locks and threads are left out: the store is used by one request at a time. So are
  two limits of CPython: an integer beyond the range of a \<open>float\<close> in the \<^verbatim>\<open>exp\<close> of a caller token raises
  \<open>OverflowError\<close> (here it is an expiry in the far future), and \<open>int\<close> reads at most 4300 digits (a version has at
  most 64 characters). A query without an \<^verbatim>\<open>ORDER BY\<close> returns the rows as SQLite reads them: by the covering index
  in \<open>Authoring.queried_versions\<close>, by their ids elsewhere. Of the database: the engine, migrations, the lengths of \<open>String(n)\<close> columns (SQLite ignores them) and ids other than
  those SQLite assigns. Of FastAPI: the router, the reading of query text, bodies that are not JSON and the
  wording of validation errors, and the request-id middleware of the Control Plane. \<open>redact_url\<close> decodes percent
  escapes to text that a \<open>string\<close> here cannot hold. The command line, the migrations and the scripts print, drive
  processes or call libraries and decide nothing.
\<close>

section \<open>Properties that span components\<close>

text \<open>The governed call, for either entry point at once.\<close>

lemma call_is_governed:
  assumes "store_reachable P c deployment st"
    and "(\<exists>utter dry. call = handle P ex pr (fetch_snapshot P cp c deployment) now st utter caller rid fresh confirmed
            dry) \<or>
         (\<exists>name args. call = execute_tool P ex pr (fetch_snapshot P cp c deployment) now st name args caller rid fresh
            confirmed)"
    and "Sent r \<in> set (fst (fst call))"
  shows "\<exists>(s :: deployment_snapshot) conn t args d. conn \<in> set (connectors s) \<and> t \<in> set (tools conn) \<and>
       (policy_mode (access (policy t)) = ''public'' \<or>
        (\<exists>id. caller = Some id \<and> roles id \<inter> set (policy_roles (access (policy t))) \<noteq> {})) \<and>
       schema_errors P (JObj (input_schema t)) (JObj args) = [] \<and>
       prepare_request P t args (base_url (runtime conn)) = Inr r \<and>
       snd (check_destination (ex_policy ex) (req_url r) (ex_resolver ex)) = Inr d \<and>
       (verification_mode (client_verification c) = Required \<longrightarrow>
         (\<exists>doc key sig msg. decode_snapshot P (JObj doc) = Inr s \<and>
            key \<in> set (trusted_keys (client_verification c)) \<and>
            canonical_bytes P (JObj (ddel [''signature''] doc)) = Inr msg \<and>
            length sig = 64 \<and> ed_verify P (ver_public key) msg sig))"
proof -
  obtain utter dry name args where "call = handle P ex pr (fetch_snapshot P cp c deployment) now st utter caller rid
      fresh confirmed dry \<or>
    \<not> dry \<and> call = execute_tool P ex pr (fetch_snapshot P cp c deployment) now st name args caller rid fresh
      confirmed"
    using assms(2) by blast
  from sent_is_governed [OF assms(1) this assms(3)] show ?thesis by blast
qed

text \<open>Settings that enforce both signatures fix the client's keys and the authenticator.\<close>

lemma enforcing_settings:
  assumes "get_settings to_float env = Inr S" and "build_orchestrator S = Inr parts"
    and "cfg_snapshot_verification S = ''required''" and "cfg_caller_auth_mode S = ''verified_token''"
  obtains snapshot_ring caller_ring A where "ring_parse (snapshot_trusted_keys S) = Inr snapshot_ring"
    and "client_verification (part_client parts)
      = \<lparr>verification_mode = Required, trusted_keys = snapshot_ring\<rparr>"
    and "ring_parse (caller_token_trusted_keys S) = Inr caller_ring"
    and "settings_authenticator S = Inr A" and "auth_mode A = VerifiedToken" and "caller_keys A = caller_ring"
    and "issuer A = caller_token_issuer S" and "issuer A \<noteq> []"
    and "audience A = caller_token_audience S" and "audience A \<noteq> []"
proof -
  obtain s0 where "mk_settings s0 = Inr S" using assms(1) by (auto simp: get_settings_def res_simps)
  then have ok: "mk_settings S = Inr S" by (simp add: mk_settings_Inr)
  obtain ring where ring: "ring_parse (snapshot_trusted_keys S) = Inr ring"
    "snapshot_verification_policy S = Inr \<lparr>verification_mode = Required, trusted_keys = ring\<rparr>"
    using settings_ring [OF ok] assms(3) by auto
  have client: "client_verification (part_client parts) = \<lparr>verification_mode = Required, trusted_keys = ring\<rparr>"
    using assms(2) ring(2) by (auto simp: build_orchestrator_def res_simps)
  obtain caller_ring where cring: "ring_parse (caller_token_trusted_keys S) = Inr caller_ring"
    and auth: "settings_authenticator S = Inr \<lparr>auth_mode = VerifiedToken, caller_keys = caller_ring,
      issuer = caller_token_issuer S, audience = caller_token_audience S\<rparr>"
    using settings_authenticator_Inr [OF ok] assms(4) by auto
  have "caller_token_issuer S \<noteq> []" "caller_token_audience S \<noteq> []"
    using ok assms(4) by (auto simp: mk_settings_Inr)
  then show ?thesis by (intro that [OF ring(1) client cring auth]) simp_all
qed

text \<open>Under an enforcing authenticator the caller of a request is the one a signed token names.\<close>

lemma caller_holds_token:
  assumes "request_caller P app clock rq = Inr c" and "settings_authenticator (app_settings app) = Inr A"
    and "auth_mode A = VerifiedToken" and "issuer A \<noteq> []" and "audience A \<noteq> []"
  shows "rq_caller rq = None \<and> rq_roles rq = None \<and>
    (\<exists>eh ep es key sig claims rs id. bearer_token (rq_authorization rq) = Some (eh @ ''.'' @ ep @ ''.'' @ es) \<and>
       key \<in> set (caller_keys A) \<and> length sig = 64 \<and> ed_verify P (ver_public key) (eh @ ''.'' @ ep) sig \<and>
       decode_part P ep = Inr (JObj claims) \<and> jget claims ''iss'' = JStr (issuer A) \<and>
       audience_matches (jget claims ''aud'') (audience A) \<and>
       (dget claims ''roles'' = None \<and> rs = [] \<or> dget claims ''roles'' = Some (JArr (map JStr rs))) \<and>
       c = Some id \<and> roles id = set (clean_roles rs))"
proof -
  from assms(1,2) have "identify P A clock (bearer_token (rq_authorization rq)) (rq_caller rq) (rq_roles rq) = Inr c"
    by (simp add: request_caller_def)
  note tok = identified_by_token [OF assms(3) this]
  then obtain token eh ep es key sig claims id rs where
    "bearer_token (rq_authorization rq) = Some token" "token = eh @ ''.'' @ ep @ ''.'' @ es"
    "key \<in> set (caller_keys A)" "length sig = 64" "ed_verify P (ver_public key) (eh @ ''.'' @ ep) sig"
    "decode_part P ep = Inr (JObj claims)" "c = Some id" "roles id = set (clean_roles rs)"
    "dget claims ''roles'' = None \<and> rs = [] \<or> dget claims ''roles'' = Some (JArr (map JStr rs))"
    "issuer A = [] \<or> jget claims ''iss'' = JStr (issuer A)"
    "audience A = [] \<or> audience_matches (jget claims ''aud'') (audience A)"
    using tok [THEN conjunct2, THEN conjunct2] by (elim exE conjE)
  with tok [THEN conjunct1] tok [THEN conjunct2, THEN conjunct1] assms(4,5) show ?thesis
    by (intro conjI exI [of _ eh] exI [of _ ep] exI [of _ es] exI [of _ key] exI [of _ sig] exI [of _ claims]
        exI [of _ rs] exI [of _ id]) simp_all
qed

text \<open>
  C1: Two signatures behind every request. In a runtime started from its environment with signed
  snapshots and verified callers both required, and whatever its Control Plane, provider and callers do:
  if serving an HTTP request sends a request upstream, then one trusted key signed the snapshot document
  whose tool, arguments, bindings and reviewed base URL make up what is sent, another trusted key signed
  a token for this issuer and audience, and the policy in the signed document admits everyone or one of
  the roles in the signed token. No asserted header took part, and the destination is one the
  environment allows.
\<close>

theorem request_needs_two_signatures:
  assumes "get_settings to_float env = Inr (app_settings app)"
    and "build_orchestrator (app_settings app) = Inr parts"
    and "app_source app = fetch_snapshot P cp (part_client parts) (part_deployment parts)"
    and "ex_policy (app_executor app) = part_policy parts"
    and "store_reachable P (part_client parts) (part_deployment parts) st"
    and "cfg_snapshot_verification (app_settings app) = ''required''"
    and "cfg_caller_auth_mode (app_settings app) = ''verified_token''"
    and "Sent r \<in> set (fst (fst (serve P app clock now fresh prose st rq)))"
  shows "rq_caller rq = None \<and> rq_roles rq = None \<and>
    (\<exists>snapshot_ring caller_ring s doc conn t args d.
       ring_parse (snapshot_trusted_keys (app_settings app)) = Inr snapshot_ring \<and>
       ring_parse (caller_token_trusted_keys (app_settings app)) = Inr caller_ring \<and>
       decode_snapshot P (JObj doc) = Inr s \<and> conn \<in> set (connectors s) \<and> t \<in> set (tools conn) \<and>
       prepare_request P t args (base_url (runtime conn)) = Inr r \<and>
       schema_errors P (JObj (input_schema t)) (JObj args) = [] \<and>
       snd (check_destination (part_policy parts) (req_url r) (ex_resolver (app_executor app))) = Inr d \<and>
       (\<exists>key sig msg. key \<in> set snapshot_ring \<and> canonical_bytes P (JObj (ddel [''signature''] doc)) = Inr msg \<and>
          length sig = 64 \<and> ed_verify P (ver_public key) msg sig) \<and>
       (\<exists>eh ep es key sig claims rs. bearer_token (rq_authorization rq) = Some (eh @ ''.'' @ ep @ ''.'' @ es) \<and>
          key \<in> set caller_ring \<and> length sig = 64 \<and> ed_verify P (ver_public key) (eh @ ''.'' @ ep) sig \<and>
          decode_part P ep = Inr (JObj claims) \<and>
          jget claims ''iss'' = JStr (caller_token_issuer (app_settings app)) \<and>
          audience_matches (jget claims ''aud'') (caller_token_audience (app_settings app)) \<and>
          (dget claims ''roles'' = None \<and> rs = [] \<or> dget claims ''roles'' = Some (JArr (map JStr rs))) \<and>
          (policy_mode (access (policy t)) = ''public'' \<or>
           set (clean_roles rs) \<inter> set (policy_roles (access (policy t))) \<noteq> {})))"
proof -
  let ?S = "app_settings app"
  obtain ring caller_ring A where ring: "ring_parse (snapshot_trusted_keys ?S) = Inr ring"
    and client: "client_verification (part_client parts) = \<lparr>verification_mode = Required, trusted_keys = ring\<rparr>"
    and cring: "ring_parse (caller_token_trusted_keys ?S) = Inr caller_ring"
    and A: "settings_authenticator ?S = Inr A" "auth_mode A = VerifiedToken" "issuer A \<noteq> []" "audience A \<noteq> []"
      "caller_keys A = caller_ring" "issuer A = caller_token_issuer ?S" "audience A = caller_token_audience ?S"
    by (rule enforcing_settings [OF assms(1,2,6,7)])
  obtain c confirmed call where c: "request_caller P app clock rq = Inr c" and
    call: "(\<exists>utter dry. call = handle P (app_executor app) (app_provider app) (app_source app) now st utter c
        (Some (request_id_of rq fresh)) [] confirmed dry) \<or>
     (\<exists>name args. call = execute_tool P (app_executor app) (app_provider app) (app_source app) now st name args c
        (Some (request_id_of rq fresh)) [] confirmed)" and sent: "Sent r \<in> set (fst (fst call))"
    using serve_sent [OF assms(8)] by blast
  from caller_holds_token [OF c A(1-4)] obtain eh ep es key sig claims rs id where
    hdr: "rq_caller rq = None" "rq_roles rq = None" and
    tok: "bearer_token (rq_authorization rq) = Some (eh @ ''.'' @ ep @ ''.'' @ es)" "key \<in> set caller_ring"
      "length sig = 64" "ed_verify P (ver_public key) (eh @ ''.'' @ ep) sig" "decode_part P ep = Inr (JObj claims)"
      "jget claims ''iss'' = JStr (caller_token_issuer ?S)"
      "audience_matches (jget claims ''aud'') (caller_token_audience ?S)"
      "dget claims ''roles'' = None \<and> rs = [] \<or> dget claims ''roles'' = Some (JArr (map JStr rs))"
      "c = Some id" "roles id = set (clean_roles rs)"
    unfolding A(5-7) by (elim exE conjE)
  note governed = call_is_governed [OF assms(5) call [unfolded assms(3)] sent, unfolded assms(4) client tok(9),
      simplified]
  obtain s conn t args d doc skey ssig msg where g: "conn \<in> set (connectors s)" "t \<in> set (tools conn)"
    "policy_mode (access (policy t)) = ''public'' \<or> roles id \<inter> set (policy_roles (access (policy t))) \<noteq> {}"
    "schema_errors P (JObj (input_schema t)) (JObj args) = []"
    "prepare_request P t args (base_url (runtime conn)) = Inr r"
    "snd (check_destination (part_policy parts) (req_url r) (ex_resolver (app_executor app))) = Inr d"
    "decode_snapshot P (JObj doc) = Inr s" "skey \<in> set ring"
    "canonical_bytes P (JObj (ddel [''signature''] doc)) = Inr msg" "length ssig = 64"
    "ed_verify P (ver_public skey) msg ssig"
    using governed by (elim exE conjE)
  have caller_part: "\<exists>eh ep es key sig claims rs. bearer_token (rq_authorization rq)
            = Some (eh @ ''.'' @ ep @ ''.'' @ es) \<and>
          key \<in> set caller_ring \<and> length sig = 64 \<and> ed_verify P (ver_public key) (eh @ ''.'' @ ep) sig \<and>
          decode_part P ep = Inr (JObj claims) \<and> jget claims ''iss'' = JStr (caller_token_issuer ?S) \<and>
          audience_matches (jget claims ''aud'') (caller_token_audience ?S) \<and>
          (dget claims ''roles'' = None \<and> rs = [] \<or> dget claims ''roles'' = Some (JArr (map JStr rs))) \<and>
          (policy_mode (access (policy t)) = ''public'' \<or>
           set (clean_roles rs) \<inter> set (policy_roles (access (policy t))) \<noteq> {})"
    using tok(1-8) g(3) [unfolded tok(10)] by blast
  have "\<exists>key sig msg. key \<in> set ring \<and> canonical_bytes P (JObj (ddel [''signature''] doc)) = Inr msg \<and>
          length sig = 64 \<and> ed_verify P (ver_public key) msg sig"
    using g(8-11) by blast
  with hdr ring cring g(1,2,4-7) caller_part show ?thesis by blast
qed

text \<open>
  A runtime that enforces both, holding the example snapshot, is asked to chat with the example token.
\<close>

definition strict_environ :: environ where
  "strict_environ = dget
     [(''TOOLLAYER_SNAPSHOT_TRUSTED_KEYS'', ''k1:'' @ encoded_public_key sample_platform example_key),
      (''TOOLLAYER_CALLER_AUTH_MODE'', ''verified_token''),
      (''TOOLLAYER_CALLER_TOKEN_TRUSTED_KEYS'', ''k1:'' @ encoded_public_key sample_platform example_key),
      (''TOOLLAYER_CALLER_TOKEN_ISSUER'', ''https://idp''), (''TOOLLAYER_CALLER_TOKEN_AUDIENCE'', ''runtime''),
      (''TOOLLAYER_ALLOWED_ORIGINS'', ''https://api.example.org'')]"

definition strict_policy :: destination_policy where
  "strict_policy = example_policy\<lparr>allowed_methods := DEFAULT_ALLOWED_METHODS\<rparr>"

definition strict_executor :: executor where
  "strict_executor = example_executor\<lparr>ex_policy := strict_policy\<rparr>"

lemma strict_settings:
  "\<exists>s parts. get_settings (\<lambda>_. None) strict_environ = Inr s \<and> build_orchestrator s = Inr parts \<and>
     part_policy parts = strict_policy \<and>
     client_verification (part_client parts) = client_verification example_client \<and>
     cfg_snapshot_verification s = ''required'' \<and> cfg_caller_auth_mode s = ''verified_token'' \<and>
     settings_authenticator s = Inr example_authenticator"
proof -
  have "ring_parse [''k1:'' @ encoded_public_key sample_platform example_key]
      = Inr [public_key sample_platform example_key]" by code_simp
  note ring = this [simplified append_Cons append_Nil]
  have "(case get_settings (\<lambda>_. None) strict_environ of Inl e \<Rightarrow> False | Inr s \<Rightarrow>
      cfg_snapshot_verification s = ''required'' \<and> cfg_caller_auth_mode s = ''verified_token'' \<and>
      caller_token_issuer s = ''https://idp'' \<and> caller_token_audience s = ''runtime'' \<and>
      snapshot_trusted_keys s = [''k1:'' @ encoded_public_key sample_platform example_key] \<and>
      caller_token_trusted_keys s = [''k1:'' @ encoded_public_key sample_platform example_key] \<and>
      cfg_allowed_origins s = [''https://api.example.org''] \<and> \<not> cfg_allow_plaintext_http s \<and>
      \<not> cfg_allow_loopback s \<and> \<not> cfg_allow_private_addresses s \<and> cfg_connect_timeout s = Finite 3 \<and>
      cfg_read_timeout s = Finite 10 \<and> cfg_max_response_bytes s = 1048576)"
    by code_simp
  then obtain s where s: "get_settings (\<lambda>_. None) strict_environ = Inr s"
    and f: "cfg_snapshot_verification s = ''required''" "cfg_caller_auth_mode s = ''verified_token''"
      "caller_token_issuer s = ''https://idp''" "caller_token_audience s = ''runtime''"
      "snapshot_trusted_keys s = [''k1:'' @ encoded_public_key sample_platform example_key]"
      "caller_token_trusted_keys s = [''k1:'' @ encoded_public_key sample_platform example_key]"
      "cfg_allowed_origins s = [''https://api.example.org'']" "\<not> cfg_allow_plaintext_http s"
      "\<not> cfg_allow_loopback s" "\<not> cfg_allow_private_addresses s" "cfg_connect_timeout s = Finite 3"
      "cfg_read_timeout s = Finite 10" "cfg_max_response_bytes s = 1048576"
    by (auto split: sum.splits)
  have "normalize_origin ''https://api.example.org'' = Inr ''https://api.example.org:443''" by code_simp
  then have "settings_destination_policy s = Inr strict_policy"
    by (simp add: settings_destination_policy_def from_origins_def f strict_policy_def example_policy_def
        DEFAULT_ALLOWED_METHODS_def)
  moreover have "is_ok (mk_limits 3 10 (nat 1048576))" by code_simp
  ultimately show ?thesis
    using s f
    by (auto simp: build_orchestrator_def snapshot_verification_policy_def settings_authenticator_def ring
        settings_limits_def VERIFICATION_MODES_def CALLER_AUTH_MODES_def example_client_def
        example_authenticator_def is_ok_iff)
qed

lemma strict_prepared:
  "prepare_call sample_platform strict_executor example_tool (JObj [(''id'', JInt 7)]) ''https://api.example.org''
   = ([Lookup ''api.example.org'' 443], Inr example_request)"
  by code_simp

lemma example_bearer: "bearer_token (Some (''Bearer '' @ example_token)) = Some example_token"
  by code_simp

lemma with_payload_effects:
  "fst (fst (with_payload prose rid st (Inr c) (Inr p) run)) = fst (fst (run c p))"
  by (cases "run c p"; cases "fst (run c p)") (simp add: with_payload_def)

definition strict_request :: runtime_request where
  "strict_request = \<lparr>rq_call = Chat (JObj [(''utterance'', JStr ''ticket 7'')]), rq_request_id = None,
    rq_authorization = Some (''Bearer '' @ example_token), rq_caller = None, rq_roles = None\<rparr>"

lemma strict_request_is_served:
  assumes "settings_authenticator (app_settings app) = Inr example_authenticator"
    and "app_executor app = strict_executor" and "app_provider app = example_provider"
    and "current st = Some ls" and "connectors (loaded_document ls) = [example_connector]" and "loaded_at ls = 0"
    and "refresh_seconds st = 60" and "store_reachable sample_platform c deployment st"
  shows "Sent example_request \<in> set (fst (fst (serve sample_platform app 1100 0 ''r1'' ''denied'' st strict_request)))"
proof -
  let ?caller = "caller_of ''ana'' [''support'']"
  let ?chat = "\<lparr>utterance = ''ticket 7'', chat_confirmed = False, chat_dry_run = False\<rparr>"
  have body: "decode_chat sample_platform (JObj [(''utterance'', JStr ''ticket 7'')]) = Inr ?chat" by code_simp
  have "identify sample_platform example_authenticator 1100 (Some example_token) None None = Inr (Some ?caller)"
    by (rule example_identified) (simp_all add: example_authenticator_def)
  then have caller: "request_caller sample_platform app 1100 strict_request = Inr (Some ?caller)"
    by (simp add: request_caller_def assms(1) strict_request_def example_bearer del: append_Cons)
  have "Sent example_request \<in> set (fst (fst (chat sample_platform app 0 ''r1'' st (Some ?caller) ?chat)))"
    using example_turn(1) [OF example_bound [OF assms(8,4,5)] example_fresh [OF assms(4,6,7)] strict_prepared,
        of "app_source app" "Some ?caller" "Some ''r1''" "[]"]
    by (simp add: chat_trace assms(2,3))
  moreover have "rq_call strict_request = Chat (JObj [(''utterance'', JStr ''ticket 7'')])"
    "request_id_of strict_request ''r1'' = ''r1''"
    by (simp_all add: strict_request_def request_id_of_def or_fresh_def)
  ultimately show ?thesis by (simp add: serve_def with_payload_effects caller body Let_def)
qed

lemma request_needs_two_signatures_witness:
  "\<exists>doc (conn :: connector_definition) (t :: tool_definition) (s :: deployment_snapshot) (key :: verifying_key) msg sig.
     decode_snapshot sample_platform (JObj doc) = Inr s \<and> conn \<in> set (connectors s) \<and>
     t \<in> set (tools conn) \<and> canonical_bytes sample_platform (JObj (ddel [''signature''] doc)) = Inr msg \<and>
     ed_verify sample_platform (ver_public key) msg sig"
proof -
  obtain s parts where s: "get_settings (\<lambda>_. None) strict_environ = Inr s" "build_orchestrator s = Inr parts"
    "part_policy parts = strict_policy"
    "client_verification (part_client parts) = client_verification example_client"
    "cfg_snapshot_verification s = ''required''" "cfg_caller_auth_mode s = ''verified_token''"
    "settings_authenticator s = Inr example_authenticator"
    using strict_settings by blast
  let ?src = "fetch_snapshot sample_platform (\<lambda>u h. None) (part_client parts) (part_deployment parts)"
  let ?app = "\<lparr>app_settings = s, app_executor = strict_executor, app_provider = example_provider,
    app_source = ?src\<rparr>"
  obtain st ls where st: "store_reachable sample_platform (part_client parts) (part_deployment parts) st"
    "current st = Some ls" "connectors (loaded_document ls) = [example_connector]" "loaded_at ls = 0"
    "refresh_seconds st = 60"
    using example_store_of [OF s(4)] by blast
  have served: "Sent example_request
      \<in> set (fst (fst (serve sample_platform ?app 1100 0 ''r1'' ''denied'' st strict_request)))"
    by (rule strict_request_is_served [OF _ _ _ st(2-5,1)]) (simp_all add: s(7))
  have pre: "get_settings (\<lambda>_. None) strict_environ = Inr (app_settings ?app)"
    "build_orchestrator (app_settings ?app) = Inr parts" "app_source ?app = ?src"
    "ex_policy (app_executor ?app) = part_policy parts"
    "cfg_snapshot_verification (app_settings ?app) = ''required''"
    "cfg_caller_auth_mode (app_settings ?app) = ''verified_token''"
    using s by (simp_all add: strict_executor_def)
  from request_needs_two_signatures [OF pre(1-4) st(1) pre(5,6) served] show ?thesis by blast
qed

end
